(* ===== verification/Prelude.thy ===== *)
theory Prelude
  imports Main "HOL-Library.Multiset"
begin

text \<open>
  What every component of the development shares: the collections of rewrite rules the
  component proofs use, the model of \<open>malloc\<close>, and generic facts on lists.

  Allocation.  The C code calls \<open>malloc\<close>, \<open>calloc\<close> and \<open>realloc\<close> and has an error branch for a
  NULL result.  The model takes the allocator as an argument \<open>al :: nat \<Rightarrow> bool\<close>: \<open>al n\<close> says that
  a request for \<open>n\<close> bytes succeeds.  A theorem that needs every allocation to succeed is stated for
  the allocator \<open>malloc_ok\<close>.
\<close>

named_theorems mbr_defs "definitions of the rectangle predicates"
named_theorems order_rules "comparisons of doubles as comparisons of integer keys"

type_synonym allocator = "nat \<Rightarrow> bool"

definition malloc_ok :: allocator where
  "malloc_ok n = True"

text \<open>
  Not a rule of the simplifier: it would rewrite \<open>malloc_ok\<close> where it is an argument, too.
\<close>

lemma malloc_ok_simp: "malloc_ok n"
  by (simp add: malloc_ok_def)

text \<open>
  \<open>GROWTH_FACTOR\<close> of geometry.c, page.c, kdtree.c, quadtree.c, spatial_index.c and parser.c.
\<close>

definition GROWTH_FACTOR :: nat where
  "GROWTH_FACTOR = 2"

subsection \<open>Removing one element by its index: the \<open>memmove\<close> idiom\<close>

text \<open>
  \<open>memmove(&a[i], &a[i + 1], (n - i - 1) * sizeof a[0]); n--\<close> on an array of \<open>n\<close> elements.
\<close>

definition remove_at :: "nat \<Rightarrow> 'a list \<Rightarrow> 'a list" where
  "remove_at i xs = take i xs @ drop (Suc i) xs"

text \<open>The index of the first element with a property: the search loops of the code.\<close>

fun find_index :: "('a \<Rightarrow> bool) \<Rightarrow> 'a list \<Rightarrow> nat option" where
  "find_index P [] = None"
| "find_index P (x # xs) = (if P x then Some 0 else map_option Suc (find_index P xs))"

lemma find_index_None: "find_index P xs = None \<longleftrightarrow> (\<forall>x \<in> set xs. \<not> P x)"
  by (induction xs) auto

lemma find_index_Some:
  "find_index P xs = Some i \<Longrightarrow> i < length xs \<and> P (xs ! i) \<and> (\<forall>j < i. \<not> P (xs ! j))"
proof (induction xs arbitrary: i)
  case Nil
  then show ?case by simp
next
  case (Cons x xs)
  show ?case
  proof (cases "P x")
    case True
    with Cons.prems show ?thesis by auto
  next
    case False
    with Cons.prems obtain k where k: "find_index P xs = Some k" and i: "i = Suc k"
      by auto
    from Cons.IH [OF k] False show ?thesis
      by (auto simp: i less_Suc_eq_0_disj)
  qed
qed

lemma length_remove_at [simp]: "i < length xs \<Longrightarrow> length (remove_at i xs) = length xs - 1"
  by (simp add: remove_at_def)

lemma mset_remove_at: "i < length xs \<Longrightarrow> mset (remove_at i xs) = mset xs - {#xs ! i#}"
proof -
  assume i: "i < length xs"
  have "mset xs = mset (take i xs @ xs ! i # drop (Suc i) xs)"
    using i by (simp add: id_take_nth_drop [symmetric])
  then show ?thesis
    by (simp add: remove_at_def)
qed

lemma set_remove_at_subset: "set (remove_at i xs) \<subseteq> set xs"
  by (auto simp: remove_at_def dest: in_set_takeD in_set_dropD)

lemma set_remove_at_distinct:
  "i < length xs \<Longrightarrow> distinct xs \<Longrightarrow> set (remove_at i xs) = set xs - {xs ! i}"
proof -
  assume i: "i < length xs" and d: "distinct xs"
  have eq: "xs = take i xs @ xs ! i # drop (Suc i) xs"
    using i by (rule id_take_nth_drop)
  then have "distinct (take i xs @ xs ! i # drop (Suc i) xs)"
    using d by simp
  then have "xs ! i \<notin> set (remove_at i xs)"
    by (simp add: remove_at_def)
  moreover have "set xs = set (take i xs @ xs ! i # drop (Suc i) xs)"
    using eq by simp
  ultimately show ?thesis
    by (auto simp: remove_at_def)
qed

lemma distinct_remove_at: "distinct xs \<Longrightarrow> distinct (remove_at i xs)"
proof -
  assume d: "distinct xs"
  have "set (take i xs) \<inter> set (drop (Suc i) xs) = {}"
    using d by (rule set_take_disj_set_drop_if_distinct) simp
  with d show ?thesis
    by (simp add: remove_at_def)
qed

lemma map_remove_at: "map f (remove_at i xs) = remove_at i (map f xs)"
  by (simp add: remove_at_def take_map drop_map)

subsection \<open>Filters whose result is empty, folds that keep a property\<close>

lemma filter_empty_if: "(\<And>x. x \<in> set xs \<Longrightarrow> \<not> P x) \<Longrightarrow> filter P xs = []"
  by (simp add: filter_empty_conv)

lemma fold_invariant_list:
  "I s \<Longrightarrow> (\<And>x s. x \<in> set xs \<Longrightarrow> I s \<Longrightarrow> I (f x s)) \<Longrightarrow> I (fold f xs s)"
  by (induction xs arbitrary: s) auto

end
