(* ===== verification/Float64.thy ===== *)
theory Float64
  imports Prelude Complex_Main "HOL-Library.Word" "HOL-Library.Log_Nat"
begin

text \<open>
  The C type \<open>double\<close>: IEEE 754 binary64, bit for bit, with round to nearest, ties to even, and
  no contraction of operations (the build sets \<open>CMAKE_C_EXTENSIONS OFF\<close>, ISO C11).  A double is its
  64-bit pattern.  Below the sign bit the patterns are ordered as the magnitudes they stand for, so
  comparisons are comparisons of the signed integer \<open>dkey\<close>.  Arithmetic computes the exact result
  as an integer times a power of two and rounds it by \<open>rnd\<close>; all of it evaluates.

  The lemmas show that \<open>rnd\<close> is rounding to nearest even (\<open>rnd_is_rne\<close>), that rounding is
  monotone and exact on representable values, and from this the monotonicity facts of addition,
  subtraction, multiplication and square root that the spatial searches rely on.

  Every NaN the operations produce is one quiet NaN: C leaves its payload open, and the code under
  src/ never reads it.
\<close>

subsection \<open>Bit patterns\<close>

datatype double = Dbl (dbits: "64 word")

definition dneg :: "double \<Rightarrow> bool" where
  "dneg d = (2 ^ 63 \<le> uint (dbits d))"

definition dmag :: "double \<Rightarrow> int" where
  "dmag d = uint (dbits d) mod 2 ^ 63"

definition mk_double :: "bool \<Rightarrow> int \<Rightarrow> double" where
  "mk_double s m = Dbl (word_of_int ((if s then 2 ^ 63 else 0) + m))"

text \<open>The magnitude of infinity: exponent field all ones, fraction zero.\<close>

definition inf_mag :: int where
  "inf_mag = 0x7FF0000000000000"

definition nan_double :: double where
  "nan_double = Dbl 0x7FF8000000000000"

definition isnan :: "double \<Rightarrow> bool" where
  "isnan d = (inf_mag < dmag d)"

definition isinf :: "double \<Rightarrow> bool" where
  "isinf d = (dmag d = inf_mag)"

definition finite_d :: "double \<Rightarrow> bool" where
  "finite_d d = (dmag d < inf_mag)"

definition dkey :: "double \<Rightarrow> int" where
  "dkey d = (if dneg d then - dmag d else dmag d)"

text \<open>The constants of the C code.\<close>

definition d_zero :: double where "d_zero = Dbl 0"
definition d_two :: double where "d_two = Dbl 0x4000000000000000"
definition d_six :: double where "d_six = Dbl 0x4018000000000000"
definition DBL_MAX :: double where "DBL_MAX = Dbl 0x7FEFFFFFFFFFFFFF"
definition NEG_DBL_MAX :: double where "NEG_DBL_MAX = Dbl 0xFFEFFFFFFFFFFFFF"

lemma dmag_bounds [simp]: "0 \<le> dmag d" "dmag d < 2 ^ 63"
  by (simp_all add: dmag_def)

lemma mk_double_mag:
  assumes "0 \<le> m" "m < 2 ^ 63"
  shows "dmag (mk_double s m) = m" and "dneg (mk_double s m) = s"
proof -
  have lt: "(if s then 2 ^ 63 else 0) + m < 2 ^ 64" and ge: "0 \<le> (if s then 2 ^ 63 else 0) + m"
    using assms by auto
  have u: "uint (dbits (mk_double s m)) = (if s then 2 ^ 63 else 0) + m"
    unfolding mk_double_def double.sel uint_word_of_int_eq
    by (rule take_bit_int_eq_self) (use lt ge in simp_all)
  show "dmag (mk_double s m) = m"
    unfolding dmag_def u using assms by simp
  show "dneg (mk_double s m) = s"
    unfolding dneg_def u using assms by simp
qed

lemma split_sign:
  fixes u :: int
  assumes "0 \<le> u" "u < 2 * 2 ^ 63"
  shows "u = (if 2 ^ 63 \<le> u then 2 ^ 63 else 0) + u mod 2 ^ 63"
proof (cases "2 ^ 63 \<le> u")
  case True
  then have "u mod 2 ^ 63 = (u - 2 ^ 63) mod 2 ^ 63"
    by simp
  also have "\<dots> = u - 2 ^ 63"
    using True assms by (intro mod_pos_pos_trivial) linarith+
  finally show ?thesis
    using True by simp
next
  case False
  then show ?thesis
    using assms by (simp add: mod_pos_pos_trivial)
qed

lemma double_eq_iff: "a = b \<longleftrightarrow> dmag a = dmag b \<and> dneg a = dneg b"
proof -
  have "uint (dbits d) = (if dneg d then 2 ^ 63 else 0) + dmag d" for d
    unfolding dneg_def dmag_def
    by (rule split_sign) (use uint_bounded [of "dbits d"] in simp_all)
  then show ?thesis
    by (metis double.expand word_uint_eq_iff)
qed

lemma inf_mag_pos [simp]: "0 < inf_mag" "0 \<le> inf_mag" "inf_mag < 2 ^ 63"
  by (simp_all add: inf_mag_def)

lemma dkey_bounds: "\<not> isnan d \<Longrightarrow> - inf_mag \<le> dkey d \<and> dkey d \<le> inf_mag"
  using dmag_bounds(1) [of d] inf_mag_pos(2) unfolding isnan_def dkey_def by (auto simp del: dmag_bounds inf_mag_pos)

lemma finite_not_nan: "finite_d d \<Longrightarrow> \<not> isnan d"
  by (simp add: finite_d_def isnan_def)

subsection \<open>Comparisons\<close>

definition flt :: "double \<Rightarrow> double \<Rightarrow> bool" where
  "flt a b = (\<not> isnan a \<and> \<not> isnan b \<and> dkey a < dkey b)"

definition fle :: "double \<Rightarrow> double \<Rightarrow> bool" where
  "fle a b = (\<not> isnan a \<and> \<not> isnan b \<and> dkey a \<le> dkey b)"

definition fgt :: "double \<Rightarrow> double \<Rightarrow> bool" where
  "fgt a b = flt b a"

definition fge :: "double \<Rightarrow> double \<Rightarrow> bool" where
  "fge a b = fle b a"

lemmas order_defs = flt_def fle_def fgt_def fge_def

lemma flt_num [order_rules]: "\<not> isnan a \<Longrightarrow> \<not> isnan b \<Longrightarrow> flt a b = (dkey a < dkey b)"
  by (simp add: order_defs)
lemma fle_num [order_rules]: "\<not> isnan a \<Longrightarrow> \<not> isnan b \<Longrightarrow> fle a b = (dkey a \<le> dkey b)"
  by (simp add: order_defs)
lemma fgt_num [order_rules]: "\<not> isnan a \<Longrightarrow> \<not> isnan b \<Longrightarrow> fgt a b = (dkey b < dkey a)"
  by (simp add: order_defs)
lemma fge_num [order_rules]: "\<not> isnan a \<Longrightarrow> \<not> isnan b \<Longrightarrow> fge a b = (dkey b \<le> dkey a)"
  by (simp add: order_defs)

text \<open>
  \<open>fmin\<close> and \<open>fmax\<close> of math.h: a NaN argument is missing data, the other one is returned.  Between
  zeros of different sign C leaves the choice open; the model returns the first argument.
\<close>

definition fmin :: "double \<Rightarrow> double \<Rightarrow> double" where
  "fmin a b = (if isnan a then b else if isnan b then a else if flt b a then b else a)"

definition fmax :: "double \<Rightarrow> double \<Rightarrow> double" where
  "fmax a b = (if isnan a then b else if isnan b then a else if flt a b then b else a)"

lemma dkey_fmin: "\<not> isnan a \<Longrightarrow> \<not> isnan b \<Longrightarrow> dkey (fmin a b) = min (dkey a) (dkey b)"
  by (simp add: fmin_def flt_num)
lemma dkey_fmax: "\<not> isnan a \<Longrightarrow> \<not> isnan b \<Longrightarrow> dkey (fmax a b) = max (dkey a) (dkey b)"
  by (simp add: fmax_def flt_num)
lemma isnan_fmin [simp]: "isnan (fmin a b) \<longleftrightarrow> isnan a \<and> isnan b"
  by (simp add: fmin_def)
lemma isnan_fmax [simp]: "isnan (fmax a b) \<longleftrightarrow> isnan a \<and> isnan b"
  by (simp add: fmax_def)

subsection \<open>The value of a magnitude\<close>

text \<open>
  Finite magnitudes are integers times \<open>2 ^ -1074\<close>.  In that unit a magnitude \<open>m\<close> has the
  exponent \<open>dexp m\<close> and the significand \<open>dman m\<close>; for subnormal numbers the exponent is 0 and the
  significand is \<open>m\<close> itself.
\<close>

definition dexp :: "int \<Rightarrow> nat" where
  "dexp m = nat (m div 2 ^ 52 - 1)"

definition dman :: "int \<Rightarrow> int" where
  "dman m = m - int (dexp m) * 2 ^ 52"

definition mval :: "int \<Rightarrow> int" where
  "mval m = dman m * 2 ^ dexp m"

definition dval :: "double \<Rightarrow> int" where
  "dval d = (if dneg d then - mval (dmag d) else mval (dmag d))"

lemma mval_split:
  assumes "0 \<le> q" "q \<le> 2 ^ 53" "E = 0 \<or> 2 ^ 52 \<le> q"
  shows "mval (int E * 2 ^ 52 + q) = q * 2 ^ E"
proof -
  let ?m = "int E * 2 ^ 52 + q"
  have dv: "?m div 2 ^ 52 = int E + q div 2 ^ 52"
    by (simp add: div_mult_self3 [of "2 ^ 52 :: int"])
  consider "q < 2 ^ 52" | "2 ^ 52 \<le> q" "q < 2 ^ 53" | "q = 2 ^ 53"
    using assms(2) by linarith
  then show ?thesis
  proof cases
    case 1
    with assms have "E = 0" and "q div 2 ^ 52 = 0"
      by (auto intro: div_pos_pos_trivial)
    with dv show ?thesis
      by (simp add: mval_def dman_def dexp_def)
  next
    case 2
    then have "q div 2 ^ 52 = 1"
      by (intro int_div_pos_eq [where r = "q - 2 ^ 52"]) simp_all
    with dv have "dexp ?m = E"
      by (simp add: dexp_def)
    then show ?thesis
      by (simp add: mval_def dman_def)
  next
    case 3
    with dv have "dexp ?m = Suc E"
      by (simp add: dexp_def nat_add_distrib)
    with 3 show ?thesis
      by (simp add: mval_def dman_def)
  qed
qed

lemma mag_split:
  assumes "0 \<le> m"
  shows "m = int (dexp m) * 2 ^ 52 + dman m" "0 \<le> dman m" "dman m < 2 ^ 53"
    "dexp m = 0 \<or> 2 ^ 52 \<le> dman m"
proof -
  let ?e = "m div 2 ^ 52" and ?f = "m mod 2 ^ 52"
  have m: "m = ?e * 2 ^ 52 + ?f"
    by simp
  have f: "0 \<le> ?f" "?f < 2 ^ 52"
    by simp_all
  have e: "0 \<le> ?e"
    using assms by (simp add: pos_imp_zdiv_nonneg_iff)
  show "m = int (dexp m) * 2 ^ 52 + dman m"
    by (simp add: dman_def)
  have shift: "x = (d + 1) * 2 ^ 52 + f \<Longrightarrow> x - d * 2 ^ 52 = f + 2 ^ 52" for x d f :: int
    by simp
  have "dman m = ?f + (if ?e = 0 then 0 else 2 ^ 52)"
  proof (cases "?e = 0")
    case True
    then show ?thesis
      using m by (simp add: dman_def dexp_def)
  next
    case False
    with e have "?e = int (dexp m) + 1"
      by (simp add: dexp_def)
    with m have "m = (int (dexp m) + 1) * 2 ^ 52 + ?f"
      by metis
    with False show ?thesis
      unfolding dman_def using shift [of m "int (dexp m)" ?f] by (simp only: if_False)
  qed
  then show "0 \<le> dman m" "dman m < 2 ^ 53" "dexp m = 0 \<or> 2 ^ 52 \<le> dman m"
    using f e by (auto simp: dexp_def)
qed

lemma mval_Suc: "0 \<le> m \<Longrightarrow> mval (m + 1) = (dman m + 1) * 2 ^ dexp m"
proof -
  assume m: "0 \<le> m"
  have "mval (int (dexp m) * 2 ^ 52 + (dman m + 1)) = (dman m + 1) * 2 ^ dexp m"
    using mag_split [OF m] by (intro mval_split) auto
  moreover have "int (dexp m) * 2 ^ 52 + (dman m + 1) = m + 1"
    using mag_split(1) [OF m] by linarith
  ultimately show ?thesis by metis
qed

lemma mval_less_Suc: "0 \<le> m \<Longrightarrow> mval m < mval (m + 1)"
  by (simp add: mval_Suc) (simp add: mval_def)

lemma mval_0 [simp]: "mval 0 = 0"
  by (simp add: mval_def dman_def dexp_def)

lemma mval_strict_mono:
  assumes "0 \<le> a" "a < b"
  shows "mval a < mval b"
  using assms(2,1)
proof (induction b rule: int_gr_induct)
  case base
  then show ?case using mval_less_Suc by simp
next
  case (step i)
  then show ?case using mval_less_Suc [of i] by simp
qed

lemma mval_mono: "0 \<le> a \<Longrightarrow> a \<le> b \<Longrightarrow> mval a \<le> mval b"
  using mval_strict_mono [of a b] by (cases "a = b") auto

lemma mval_less_iff: "0 \<le> a \<Longrightarrow> 0 \<le> b \<Longrightarrow> mval a < mval b \<longleftrightarrow> a < b"
  using mval_strict_mono [of a b] mval_mono [of b a] by linarith

lemma mval_nonneg [simp]: "0 \<le> m \<Longrightarrow> 0 \<le> mval m"
  using mval_mono [of 0 m] by simp

lemma mval_pos_iff: "0 \<le> m \<Longrightarrow> 0 < mval m \<longleftrightarrow> 0 < m"
  using mval_less_iff [of 0 m] by simp

lemma dval_less_iff: "dval a < dval b \<longleftrightarrow> dkey a < dkey b"
proof -
  have a: "0 \<le> dmag a" and b: "0 \<le> dmag b" by simp_all
  note facts = mval_less_iff [OF a b] mval_less_iff [OF b a] mval_pos_iff [OF a]
    mval_pos_iff [OF b] mval_nonneg [OF a] mval_nonneg [OF b] a b
  show ?thesis
  proof (cases "dneg a"; cases "dneg b")
    assume "dneg a" "dneg b"
    then show ?thesis using facts by (simp add: dval_def dkey_def)
  next
    assume "dneg a" "\<not> dneg b"
    then show ?thesis using facts unfolding dval_def dkey_def by (simp only: if_True if_False) linarith
  next
    assume "\<not> dneg a" "dneg b"
    then show ?thesis using facts unfolding dval_def dkey_def by (simp only: if_True if_False) linarith
  next
    assume "\<not> dneg a" "\<not> dneg b"
    then show ?thesis using facts by (simp add: dval_def dkey_def)
  qed
qed

lemma dval_le_iff: "dval a \<le> dval b \<longleftrightarrow> dkey a \<le> dkey b"
  using dval_less_iff [of b a] by linarith

subsection \<open>Rounding to nearest, ties to even\<close>

text \<open>
  \<open>rnd n e st\<close> rounds the value \<open>n * 2 ^ e\<close> (in units of \<open>2 ^ -1074\<close>), or, with the sticky flag \<open>st\<close>, a
  value strictly between \<open>n * 2 ^ e\<close> and \<open>(n + 1) * 2 ^ e\<close>, to a magnitude.  \<open>s\<close> is the number of low
  bits to drop: all beyond 53 significant bits, and all below the unit.  A carry out of the
  significand moves into the exponent field by itself.
\<close>

definition rnd :: "int \<Rightarrow> int \<Rightarrow> bool \<Rightarrow> int" where
  "rnd n e st =
     (if n = 0 then 0
      else let s = max (bitlen n - 53) (- e) in
        if s \<le> 0 then (e + s) * 2 ^ 52 + n * 2 ^ nat (- s)
        else let q = n div 2 ^ nat s; r = n mod 2 ^ nat s; h = 2 ^ (nat s - 1) in
          (e + s) * 2 ^ 52 + (if r < h \<or> (r = h \<and> \<not> st \<and> even q) then q else q + 1))"

definition rnd_mag :: "int \<Rightarrow> int \<Rightarrow> bool \<Rightarrow> int" where
  "rnd_mag n e st = min inf_mag (rnd n e st)"

text \<open>The specification: the magnitude nearest to the real number \<open>v\<close>, the even one at a midpoint.\<close>

definition is_rne :: "real \<Rightarrow> int \<Rightarrow> bool" where
  "is_rne v m \<longleftrightarrow> (\<exists>f. 0 \<le> f \<and> real_of_int (mval f) \<le> v \<and> v < real_of_int (mval (f + 1)) \<and>
     m = (if 2 * v < mval f + mval (f + 1) \<or> (2 * v = mval f + mval (f + 1) \<and> even f)
          then f else f + 1))"

lemma is_rneI:
  assumes "0 \<le> f" "real_of_int (mval f) \<le> v" "v < real_of_int (mval (f + 1))"
    "m = (if 2 * v < mval f + mval (f + 1) \<or> (2 * v = mval f + mval (f + 1) \<and> even f)
          then f else f + 1)"
  shows "is_rne v m"
  using assms unfolding is_rne_def by blast

lemma is_rne_nonneg: "is_rne v m \<Longrightarrow> 0 \<le> m"
  by (auto simp: is_rne_def)

lemma is_rne_mono:
  assumes "is_rne v m" "is_rne v' m'" "v \<le> v'"
  shows "m \<le> m'"
proof -
  obtain f where f: "0 \<le> f" "real_of_int (mval f) \<le> v" "v < real_of_int (mval (f + 1))"
    and m: "m = (if 2 * v < mval f + mval (f + 1) \<or> (2 * v = mval f + mval (f + 1) \<and> even f)
      then f else f + 1)"
    using assms(1) unfolding is_rne_def by blast
  obtain f' where f': "0 \<le> f'" "real_of_int (mval f') \<le> v'" "v' < real_of_int (mval (f' + 1))"
    and m': "m' = (if 2 * v' < mval f' + mval (f' + 1) \<or> (2 * v' = mval f' + mval (f' + 1) \<and> even f')
      then f' else f' + 1)"
    using assms(2) unfolding is_rne_def by blast
  have "real_of_int (mval f) < real_of_int (mval (f' + 1))"
    using f(2) assms(3) f'(3) by linarith
  then have "f < f' + 1"
    using mval_less_iff [of f "f' + 1"] f(1) f'(1) by simp
  then consider "f = f'" | "f + 1 \<le> f'"
    by linarith
  then show ?thesis
  proof cases
    case 1
    then show ?thesis
      unfolding m m' using assms(3) by auto
  next
    case 2
    then have "m \<le> f'" unfolding m by simp
    also have "f' \<le> m'" unfolding m' by simp
    finally show ?thesis .
  qed
qed

lemma is_rne_unique: "is_rne v m \<Longrightarrow> is_rne v m' \<Longrightarrow> m = m'"
  using is_rne_mono [of v m v m'] is_rne_mono [of v m' v m] by simp

lemma is_rne_exact: "0 \<le> k \<Longrightarrow> is_rne (real_of_int (mval k)) k"
proof (rule is_rneI [of k])
  assume k: "0 \<le> k"
  show "real_of_int (mval k) < real_of_int (mval (k + 1))"
    using mval_less_Suc [OF k] by simp
  then show "k = (if 2 * real_of_int (mval k) < mval k + mval (k + 1) \<or>
      (2 * real_of_int (mval k) = mval k + mval (k + 1) \<and> even k) then k else k + 1)"
    by simp
qed simp_all

lemma zdiv_less_bound:
  assumes "0 < (p::int)" "n < b * p"
  shows "n div p < b"
proof (rule ccontr)
  assume "\<not> n div p < b"
  then have "b * p \<le> n div p * p"
    using assms(1) by (intro mult_right_mono) simp_all
  also have "\<dots> \<le> n"
    using assms(1) pos_mod_sign [of p n] div_mult_mod_eq [of n p] by linarith
  finally show False using assms(2) by simp
qed

lemma zdiv_ge_bound:
  assumes "0 < (p::int)" "b * p \<le> n"
  shows "b \<le> n div p"
  using zdiv_mono1 [OF assms(2,1)] assms(1) by simp

lemma rne_of_quotient:
  fixes p :: real
  assumes q: "0 \<le> q" "q < 2 ^ 53" "E = 0 \<or> 2 ^ 52 \<le> q"
    and h: "0 < h" and r: "0 \<le> r" "r < 2 * h"
    and n: "n = q * (2 * h) + r"
    and p: "0 < p" "2 ^ E = real_of_int (2 * h) * p"
    and V: "real_of_int n \<le> V" "V < n + 1" "st \<longleftrightarrow> V \<noteq> n"
  shows "is_rne (V * p)
    (int E * 2 ^ 52 + (if r < h \<or> (r = h \<and> \<not> st \<and> even q) then q else q + 1))"
proof (rule is_rneI [of "int E * 2 ^ 52 + q"])
  let ?f = "int E * 2 ^ 52 + q"
  have m1: "real_of_int (mval ?f) = real_of_int (q * (2 * h)) * p"
    using mval_split [of q E] q p(2) by simp
  have m2: "real_of_int (mval (?f + 1)) = real_of_int ((q + 1) * (2 * h)) * p"
  proof -
    have "mval (int E * 2 ^ 52 + (q + 1)) = (q + 1) * 2 ^ E"
      by (rule mval_split) (use q in auto)
    then show ?thesis
      using p(2) by (simp add: add.assoc)
  qed
  show "0 \<le> ?f" using q by simp
  have lo: "real_of_int (q * (2 * h)) \<le> V" and hi: "V < real_of_int ((q + 1) * (2 * h))"
  proof -
    have "q * (2 * h) \<le> n" and "n + 1 \<le> (q + 1) * (2 * h)"
      using n r by (simp_all add: algebra_simps)
    then show "real_of_int (q * (2 * h)) \<le> V" and "V < real_of_int ((q + 1) * (2 * h))"
      using V(1,2) by linarith+
  qed
  show "real_of_int (mval ?f) \<le> V * p"
    unfolding m1 using lo by (rule mult_right_mono) (use p in simp)
  show "V * p < real_of_int (mval (?f + 1))"
    unfolding m2 using hi p(1) by (rule mult_strict_right_mono)
  let ?c = "real_of_int (mval ?f + mval (?f + 1))"
  have c: "?c = 2 * real_of_int (q * (2 * h) + h) * p"
    unfolding of_int_add m1 m2 by (simp add: algebra_simps)
  have scale: "2 * (A * p) < 2 * B * p \<longleftrightarrow> A < B" "2 * (A * p) = 2 * B * p \<longleftrightarrow> A = B" for A B :: real
    using p(1) by simp_all
  have ltr: "V < q * (2 * h) + h \<longleftrightarrow> r < h"
    using V(1,2) n by linarith
  have eqr: "V = q * (2 * h) + h \<longleftrightarrow> r = h \<and> \<not> st"
  proof
    assume eq: "V = q * (2 * h) + h"
    with V(1,2) n have "r \<le> h" and "h < r + 1" by linarith+
    then have "r = h" by simp
    with eq n V(3) show "r = h \<and> \<not> st" by simp
  next
    assume "r = h \<and> \<not> st"
    with n V(3) show "V = q * (2 * h) + h" by simp
  qed
  show "int E * 2 ^ 52 + (if r < h \<or> (r = h \<and> \<not> st \<and> even q) then q else q + 1) =
      (if 2 * (V * p) < ?c \<or> (2 * (V * p) = ?c \<and> even ?f) then ?f else ?f + 1)"
    unfolding c scale ltr eqr by simp
qed

lemma bitlen_pos: "0 < n \<Longrightarrow> 1 \<le> bitlen n"
  by (simp add: bitlen_alt_def)

lemma rnd_exact_is_rne:
  assumes n: "0 < n" and s: "bitlen n \<le> 53" "0 \<le> e"
  shows "is_rne (n * 2 powi e) (rnd n e False)"
proof -
  define s where "s = max (bitlen n - 53) (- e)"
  define q where "q = n * 2 ^ nat (- s)"
  define E where "E = nat (e + s)"
  have s0: "s \<le> 0" using assms by (simp add: s_def)
  have E: "int E = e + s" "nat (- s) + E = nat e"
    using s0 s(2) unfolding E_def s_def by linarith+
  have bl: "2 ^ nat (bitlen n - 1) \<le> n" "n < 2 ^ nat (bitlen n)"
    using bitlen_bounds [OF n] by simp_all
  have q0: "0 \<le> q" using n by (simp add: q_def)
  have "n * 2 ^ nat (- s) < 2 ^ nat (bitlen n) * 2 ^ nat (- s)"
    using bl(2) by simp
  also have "\<dots> = 2 ^ (nat (bitlen n) + nat (- s))" by (simp add: power_add)
  also have "\<dots> \<le> 2 ^ 53"
  proof (rule power_increasing)
    show "nat (bitlen n) + nat (- s) \<le> 53"
      using s0 assms(2) bitlen_nonneg [of n] unfolding s_def by linarith
  qed simp
  finally have q1: "q < 2 ^ 53" by (simp add: q_def)
  have q2: "E = 0 \<or> 2 ^ 52 \<le> q"
  proof (cases "s = - e")
    case False
    then have "52 = nat (bitlen n - 1) + nat (- s)"
      using s0 bitlen_pos [OF n] unfolding s_def by linarith
    then have "(2::int) ^ 52 = 2 ^ nat (bitlen n - 1) * 2 ^ nat (- s)"
      by (metis power_add)
    also have "\<dots> \<le> q"
      unfolding q_def using bl(1) by (rule mult_right_mono) simp
    finally show ?thesis by simp
  qed (simp add: E_def)
  have "real_of_int q * 2 ^ E = real_of_int n * 2 ^ (nat (- s) + E)"
    by (simp add: q_def power_add)
  also have "\<dots> = n * 2 powi e"
    using E(2) s(2) by (simp add: power_int_def)
  finally have "n * 2 powi e = real_of_int (mval (int E * 2 ^ 52 + q))"
    using mval_split [of q E] q0 q1 q2 by simp
  moreover have "rnd n e False = int E * 2 ^ 52 + q"
    using n s0 E(1) unfolding rnd_def s_def [symmetric] q_def by (simp add: Let_def)
  ultimately show ?thesis
    using is_rne_exact [of "int E * 2 ^ 52 + q"] q0 by simp
qed

lemma rnd_drop_is_rne:
  assumes n: "0 < n" and s: "53 < bitlen n \<or> e < 0"
    and V: "real_of_int n \<le> V" "V < n + 1" "st \<longleftrightarrow> V \<noteq> n"
  shows "is_rne (V * 2 powi e) (rnd n e st)"
proof -
  define s where "s = max (bitlen n - 53) (- e)"
  define h :: int where "h = 2 ^ (nat s - 1)"
  define E where "E = nat (e + s)"
  have s0: "0 < s" using assms by (auto simp: s_def)
  have E: "int E = e + s" unfolding E_def s_def by linarith
  have P: "2 ^ nat s = 2 * h"
    using s0 unfolding h_def by (metis power_Suc Suc_pred' zero_less_nat_eq)
  have h0: "0 < h" by (simp add: h_def)
  have bl: "2 ^ nat (bitlen n - 1) \<le> n" "n < 2 ^ nat (bitlen n)"
    using bitlen_bounds [OF n] by simp_all
  note bl(2)
  also have "(2::int) ^ nat (bitlen n) \<le> 2 ^ (53 + nat s)"
    using s0 unfolding s_def by (intro power_increasing) linarith+
  also have "\<dots> = 2 ^ 53 * (2 * h)" by (simp add: power_add P)
  finally have q1: "n div (2 * h) < 2 ^ 53"
    using h0 by (intro zdiv_less_bound) simp_all
  have q2: "E = 0 \<or> 2 ^ 52 \<le> n div (2 * h)"
  proof (cases "s = - e")
    case False
    then have "52 + nat s = nat (bitlen n - 1)"
      using s0 unfolding s_def by linarith
    then have "2 ^ 52 * (2 * h) \<le> n"
      using bl(1) P by (metis power_add)
    with h0 show ?thesis by (simp add: zdiv_ge_bound)
  qed (simp add: E_def)
  have rn: "rnd n e st = int E * 2 ^ 52 + (if n mod (2 * h) < h \<or>
      (n mod (2 * h) = h \<and> \<not> st \<and> even (n div (2 * h))) then n div (2 * h) else n div (2 * h) + 1)"
    using n s0 E unfolding rnd_def s_def [symmetric] by (simp add: Let_def P h_def)
  have p: "(2::real) ^ E = real_of_int (2 * h) * 2 powi e"
  proof -
    have "(2::real) ^ E = 2 powi (e + s)"
      using E by (simp flip: power_int_of_nat)
    also have "\<dots> = 2 powi e * 2 ^ nat s"
      using s0 by (simp add: power_int_add power_int_def [of _ s])
    also have "(2::real) ^ nat s = real_of_int (2 * h)"
      unfolding P [symmetric] by simp
    finally show ?thesis by simp
  qed
  show ?thesis
    unfolding rn
    by (rule rne_of_quotient [OF _ q1 q2 h0 _ _ div_mult_mod_eq [symmetric] _ p V])
      (use n h0 in \<open>simp_all add: pos_imp_zdiv_nonneg_iff\<close>)
qed

lemma rnd_is_rne:
  assumes n: "0 < n"
    and v: "n * 2 powi e \<le> v" "v < (n + 1) * 2 powi e"
    and st: "st \<longleftrightarrow> v \<noteq> n * 2 powi e" "st \<Longrightarrow> 2 ^ 53 \<le> n"
  shows "is_rne v (rnd n e st)"
proof (cases "53 < bitlen n \<or> e < 0")
  case True
  define V where "V = v / 2 powi e"
  have "n \<le> V" "V < n + 1" "st \<longleftrightarrow> V \<noteq> n"
    using v st(1) by (simp_all add: V_def pos_le_divide_eq pos_divide_less_eq field_simps)
  then have "is_rne (V * 2 powi e) (rnd n e st)"
    using rnd_drop_is_rne [OF n True] by blast
  then show ?thesis by (simp add: V_def)
next
  case False
  have "\<not> st"
  proof
    assume st
    with st(2) have "2 ^ 53 \<le> n" by blast
    also have "n < 2 ^ nat (bitlen n)" using bitlen_bounds [OF n] by simp
    finally have "53 < nat (bitlen n)" by (rule power_less_imp_less_exp [rotated]) simp
    with False show False by linarith
  qed
  with st(1) False show ?thesis
    using rnd_exact_is_rne [OF n, of e] by simp
qed

subsection \<open>Arithmetic\<close>

definition fneg :: "double \<Rightarrow> double" where
  "fneg a = mk_double (\<not> dneg a) (dmag a)"

definition fabs :: "double \<Rightarrow> double" where
  "fabs a = mk_double False (dmag a)"

definition fadd :: "double \<Rightarrow> double \<Rightarrow> double" where
  "fadd a b =
     (if isnan a \<or> isnan b then nan_double
      else if isinf a then (if isinf b \<and> dneg a \<noteq> dneg b then nan_double else a)
      else if isinf b then b
      else let ea = dexp (dmag a); eb = dexp (dmag b); e = min ea eb;
               sa = (if dneg a then - dman (dmag a) else dman (dmag a));
               sb = (if dneg b then - dman (dmag b) else dman (dmag b));
               t = sa * 2 ^ (ea - e) + sb * 2 ^ (eb - e)
           in if t = 0 then mk_double (dneg a \<and> dneg b) 0
              else mk_double (t < 0) (rnd_mag \<bar>t\<bar> (int e) False))"

definition fsub :: "double \<Rightarrow> double \<Rightarrow> double" where
  "fsub a b = fadd a (fneg b)"

definition fmul :: "double \<Rightarrow> double \<Rightarrow> double" where
  "fmul a b =
     (if isnan a \<or> isnan b then nan_double
      else if isinf a \<or> isinf b
        then (if dmag a = 0 \<or> dmag b = 0 then nan_double else mk_double (dneg a \<noteq> dneg b) inf_mag)
      else mk_double (dneg a \<noteq> dneg b)
        (rnd_mag (dman (dmag a) * dman (dmag b))
          (int (dexp (dmag a)) + int (dexp (dmag b)) - 1074) False))"

text \<open>
  The quotient of two significands is computed to at least 55 bits (108 bits of shift for a divisor
  below \<open>2 ^ 53\<close>); what is left of it is the sticky flag.
\<close>

definition fdiv :: "double \<Rightarrow> double \<Rightarrow> double" where
  "fdiv a b =
     (if isnan a \<or> isnan b then nan_double
      else if isinf a then (if isinf b then nan_double else mk_double (dneg a \<noteq> dneg b) inf_mag)
      else if isinf b then mk_double (dneg a \<noteq> dneg b) 0
      else if dmag b = 0
        then (if dmag a = 0 then nan_double else mk_double (dneg a \<noteq> dneg b) inf_mag)
      else let n = dman (dmag a) * 2 ^ 108; d = dman (dmag b) in
        mk_double (dneg a \<noteq> dneg b)
          (rnd_mag (n div d) (int (dexp (dmag a)) - int (dexp (dmag b)) + (1074 - 108)) (n mod d \<noteq> 0)))"

text \<open>The integer square root, two bits of the argument for one of the result.\<close>

function isqrt :: "int \<Rightarrow> int" where
  "isqrt n = (if n \<le> 0 then 0
     else let r = 2 * isqrt (n div 4) in if (r + 1) * (r + 1) \<le> n then r + 1 else r)"
  by pat_completeness auto
termination
  by (relation "measure nat") (auto simp: int_div_less_self)

declare isqrt.simps [simp del]

text \<open>
  \<open>sqrt\<close> of math.h.  The significand is shifted by an even or odd amount so that the exponent left is
  even; at least 55 bits of the root are computed.
\<close>

definition fsqrt :: "double \<Rightarrow> double" where
  "fsqrt a =
     (if isnan a then nan_double
      else if dmag a = 0 then a
      else if dneg a then nan_double
      else if isinf a then a
      else let e = int (dexp (dmag a)); n = dman (dmag a) * 2 ^ (if even e then 110 else 111);
               e2 = (e - (if even e then 110 else 111) + 1074 + 1) div 2; r = isqrt n
           in mk_double False (rnd_mag r e2 (r * r \<noteq> n)))"

text \<open>The conversion of an unsigned integer (\<open>size_t\<close>, \<open>uint32_t\<close>, \<open>uint64_t\<close>) to double.\<close>

definition double_of_nat :: "nat \<Rightarrow> double" where
  "double_of_nat n = mk_double False (rnd_mag (int n) 1074 False)"

text \<open>Decimal literals of the C code that are not exact in binary, as the nearest double.\<close>

definition double_of_ratio :: "int \<Rightarrow> int \<Rightarrow> double" where
  "double_of_ratio n d = mk_double False
     (rnd_mag (n * 2 ^ 120 div d) (1074 - 120) (n * 2 ^ 120 mod d \<noteq> 0))"

definition d_1e_10 :: double where "d_1e_10 = double_of_ratio 1 (10 ^ 10)"
definition d_1e_9 :: double where "d_1e_9 = double_of_ratio 1 (10 ^ 9)"
definition d_1e_6 :: double where "d_1e_6 = double_of_ratio 1 (10 ^ 6)"
definition d_0_01 :: double where "d_0_01 = double_of_ratio 1 100"

subsection \<open>The operations round the exact result\<close>

text \<open>
  \<open>rounds_to v k\<close>: the signed value \<open>v\<close> (in units of \<open>2 ^ -1074\<close>) rounds to the key \<open>k\<close>; a magnitude
  beyond the largest finite one rounds to infinity.
\<close>

definition rounds_to :: "real \<Rightarrow> int \<Rightarrow> bool" where
  "rounds_to v k \<longleftrightarrow> (\<exists>m. is_rne \<bar>v\<bar> m \<and> k = (if v < 0 then - min inf_mag m else min inf_mag m))"

lemma rounds_to_mono:
  assumes "rounds_to v k" "rounds_to v' k'" "v \<le> v'"
  shows "k \<le> k'"
proof -
  obtain m m' where m: "is_rne \<bar>v\<bar> m" "k = (if v < 0 then - min inf_mag m else min inf_mag m)"
    and m': "is_rne \<bar>v'\<bar> m'" "k' = (if v' < 0 then - min inf_mag m' else min inf_mag m')"
    using assms(1,2) unfolding rounds_to_def by blast
  have nn: "0 \<le> m" "0 \<le> m'"
    using m(1) m'(1) by (auto dest: is_rne_nonneg)
  consider "0 \<le> v" | "v < 0" "0 \<le> v'" | "v' < 0"
    using assms(3) by linarith
  then show ?thesis
  proof cases
    case 1
    then have "m \<le> m'"
      using is_rne_mono [OF m(1) m'(1)] assms(3) by simp
    with 1 show ?thesis using m(2) m'(2) assms(3) by auto
  next
    case 2
    with nn show ?thesis using m(2) m'(2) by (auto simp: min_def inf_mag_def)
  next
    case 3
    then have "m' \<le> m"
      using is_rne_mono [OF m'(1) m(1)] assms(3) by simp
    with 3 show ?thesis using m(2) m'(2) assms(3) by auto
  qed
qed

lemma rounds_to_unique: "rounds_to v k \<Longrightarrow> rounds_to v k' \<Longrightarrow> k = k'"
  using rounds_to_mono [of v k v k'] rounds_to_mono [of v k' v k] by simp

lemma is_rne_0: "is_rne 0 m \<longleftrightarrow> m = 0"
  using is_rne_exact [of 0] is_rne_unique [of 0 m 0] by auto

lemma rounds_to_neg: "rounds_to v k \<Longrightarrow> rounds_to (- v) (- k)"
proof -
  assume "rounds_to v k"
  then obtain m where m: "is_rne \<bar>v\<bar> m" "k = (if v < 0 then - min inf_mag m else min inf_mag m)"
    unfolding rounds_to_def by blast
  show ?thesis
    unfolding rounds_to_def
    by (rule exI [of _ m]) (use m in \<open>auto simp: is_rne_0 inf_mag_def\<close>)
qed

lemma rounds_to_bounds: "rounds_to v k \<Longrightarrow> - inf_mag \<le> k \<and> k \<le> inf_mag"
  by (auto simp: rounds_to_def inf_mag_def min_def dest: is_rne_nonneg)

lemma mval_zero_iff: "0 \<le> m \<Longrightarrow> mval m = 0 \<longleftrightarrow> m = 0"
  using mval_pos_iff [of m] mval_nonneg [of m] by auto

lemma rounds_to_exact: "finite_d d \<Longrightarrow> rounds_to (dval d) (dkey d)"
proof -
  assume f: "finite_d d"
  have "is_rne (real_of_int (mval (dmag d))) (dmag d)"
    by (rule is_rne_exact) simp
  moreover have "dmag d = 0 \<and> mval (dmag d) = 0 \<or> 0 < mval (dmag d)"
    by (cases "dmag d = 0") (simp_all add: mval_zero_iff less_le)
  ultimately show ?thesis
    using f unfolding rounds_to_def
    by (intro exI [of _ "dmag d"])
      (auto simp: dval_def dkey_def finite_d_def min_def)
qed

lemma rnd_nonneg: "0 \<le> n \<Longrightarrow> 0 \<le> rnd_mag n e st"
proof -
  assume n: "0 \<le> n"
  have "0 \<le> rnd n e st"
  proof (cases "n = 0")
    case False
    define s where "s = max (bitlen n - 53) (- e)"
    have "0 \<le> e + s" unfolding s_def by linarith
    then have es: "0 \<le> (e + s) * 2 ^ 52" by simp
    have q: "0 \<le> n div 2 ^ nat s" using n by (simp add: pos_imp_zdiv_nonneg_iff)
    have p: "0 \<le> n * 2 ^ nat (- s)" using n by simp
    show ?thesis
      using False es p q unfolding rnd_def s_def [symmetric] Let_def
      by (simp only: if_False split: if_splits) (intro conjI impI add_nonneg_nonneg; simp)
  qed (simp add: rnd_def)
  then show ?thesis by (simp add: rnd_mag_def)
qed

lemma rnd_mag_bounds: "0 \<le> n \<Longrightarrow> 0 \<le> rnd_mag n e st \<and> rnd_mag n e st < 2 ^ 63"
  using rnd_nonneg [of n e st] by (auto simp: rnd_mag_def inf_mag_def min_def split: if_splits)

lemma mk_double_rnd [simp]:
  assumes "0 \<le> n"
  shows "dmag (mk_double s (rnd_mag n e st)) = rnd_mag n e st"
    and "dneg (mk_double s (rnd_mag n e st)) = s"
    and "\<not> isnan (mk_double s (rnd_mag n e st))"
proof -
  have b: "0 \<le> rnd_mag n e st" "rnd_mag n e st < 2 ^ 63"
    using rnd_mag_bounds [OF assms] by simp_all
  show "dmag (mk_double s (rnd_mag n e st)) = rnd_mag n e st"
    and "dneg (mk_double s (rnd_mag n e st)) = s"
    using mk_double_mag [OF b] by simp_all
  then show "\<not> isnan (mk_double s (rnd_mag n e st))"
    by (simp add: isnan_def rnd_mag_def)
qed

lemma rnd_rounds_to:
  assumes "0 \<le> n" "real_of_int n * 2 powi e \<le> v" "v < (n + 1) * 2 powi e"
    "st \<longleftrightarrow> v \<noteq> n * 2 powi e" "st \<Longrightarrow> 2 ^ 53 \<le> n"
  shows "rounds_to (if s then - v else v) (dkey (mk_double s (rnd_mag n e st)))"
proof (cases "n = 0")
  case True
  with assms have "\<not> st" and "v = 0" by auto
  with True show ?thesis
    by (auto simp: rounds_to_def dkey_def is_rne_0 rnd_mag_def rnd_def mk_double_mag inf_mag_def)
next
  case False
  with assms(1) have n: "0 < n" by simp
  then have "0 < real_of_int n * 2 powi e" by simp
  then have v: "0 < v" using assms(2) by linarith
  have "is_rne v (rnd n e st)"
    by (rule rnd_is_rne [OF n assms(2-5)])
  with v n show ?thesis
    unfolding rounds_to_def
    by (intro exI [of _ "rnd n e st"]) (auto simp: dkey_def, simp_all add: rnd_mag_def)
qed

lemma dval_split:
  "real_of_int (dval a) = (if dneg a then - dman (dmag a) else dman (dmag a)) * 2 powi int (dexp (dmag a))"
  by (simp add: dval_def mval_def)

lemma finite_not_inf: "finite_d a \<Longrightarrow> \<not> isinf a \<and> \<not> isnan a"
  by (simp add: finite_d_def isinf_def isnan_def)

lemma rnd_exact_rounds_to:
  assumes "0 \<le> n"
  shows "rounds_to ((if s then - real_of_int n else n) * 2 powi e) (dkey (mk_double s (rnd_mag n e False)))"
  using rnd_rounds_to [OF assms, of e "n * 2 powi e" False s]
  by (cases s) (simp_all add: algebra_simps)

lemma fadd_rounds:
  assumes "finite_d a" "finite_d b"
  shows "rounds_to (real_of_int (dval a) + dval b) (dkey (fadd a b))" and "\<not> isnan (fadd a b)"
proof -
  define ea where "ea = dexp (dmag a)"
  define eb where "eb = dexp (dmag b)"
  define e where "e = min ea eb"
  define sa where "sa = (if dneg a then - dman (dmag a) else dman (dmag a))"
  define sb where "sb = (if dneg b then - dman (dmag b) else dman (dmag b))"
  define t where "t = sa * 2 ^ (ea - e) + sb * 2 ^ (eb - e)"
  have f: "fadd a b = (if t = 0 then mk_double (dneg a \<and> dneg b) 0
      else mk_double (t < 0) (rnd_mag \<bar>t\<bar> (int e) False))"
    unfolding t_def sa_def sb_def e_def ea_def eb_def fadd_def
    using assms [THEN finite_not_inf] by (simp add: Let_def)
  have "real_of_int sa * 2 ^ (ea - e) * 2 ^ e = dval a"
    using dval_split [of a] unfolding sa_def ea_def e_def mult.assoc power_add [symmetric]
    by simp
  moreover have "real_of_int sb * 2 ^ (eb - e) * 2 ^ e = dval b"
    using dval_split [of b] unfolding sb_def eb_def e_def mult.assoc power_add [symmetric]
    by simp
  ultimately have v: "real_of_int (dval a) + dval b = t * 2 powi int e"
    unfolding t_def by (simp add: distrib_right)
  have z: "dkey (mk_double s 0) = 0" "\<not> isnan (mk_double s 0)" for s
    by (simp_all add: dkey_def isnan_def mk_double_mag inf_mag_def)
  have "rounds_to 0 0"
    by (auto simp: rounds_to_def is_rne_0 inf_mag_def)
  then show "rounds_to (real_of_int (dval a) + dval b) (dkey (fadd a b))"
    using rnd_exact_rounds_to [of "\<bar>t\<bar>" "t < 0" "int e"] unfolding f v by (auto simp: z split: if_splits)
  show "\<not> isnan (fadd a b)"
    unfolding f using z(2) by simp
qed

lemma fneg_simps [simp]: "dmag (fneg a) = dmag a" "dneg (fneg a) = (\<not> dneg a)"
  unfolding fneg_def using mk_double_mag [OF dmag_bounds] by simp_all

lemma fneg_finite [simp]: "finite_d (fneg a) = finite_d a" "isnan (fneg a) = isnan a"
  "isinf (fneg a) = isinf a"
  by (simp_all add: finite_d_def isnan_def isinf_def)

lemma dkey_fneg [simp]: "dkey (fneg a) = - dkey a"
  by (simp add: dkey_def)

lemma dval_fneg [simp]: "dval (fneg a) = - dval a"
  by (simp add: dval_def)

lemma fsub_rounds:
  assumes "finite_d a" "finite_d b"
  shows "rounds_to (real_of_int (dval a) - dval b) (dkey (fsub a b))" and "\<not> isnan (fsub a b)"
  using fadd_rounds [of a "fneg b"] assms by (simp_all add: fsub_def)

lemma fmul_rounds:
  assumes "finite_d a" "finite_d b"
  shows "rounds_to (real_of_int (dval a) * dval b * 2 powi - 1074) (dkey (fmul a b))"
    and "\<not> isnan (fmul a b)"
proof -
  let ?n = "dman (dmag a) * dman (dmag b)"
  let ?e = "int (dexp (dmag a)) + int (dexp (dmag b)) - 1074"
  have f: "fmul a b = mk_double (dneg a \<noteq> dneg b) (rnd_mag ?n ?e False)"
    using assms [THEN finite_not_inf] by (simp add: fmul_def)
  have n: "0 \<le> ?n"
    by (simp add: mag_split(2))
  have "2 powi ?e = 2 powi int (dexp (dmag a)) * 2 powi int (dexp (dmag b)) * (2::real) powi - 1074"
    unfolding diff_conv_add_uminus
    by (subst power_int_add, simp, subst power_int_add, simp, rule refl)
  then have v: "real_of_int (dval a) * dval b * 2 powi - 1074 =
      (if dneg a \<noteq> dneg b then - real_of_int ?n else ?n) * 2 powi ?e"
    unfolding dval_split by (simp add: algebra_simps)
  show "rounds_to (real_of_int (dval a) * dval b * 2 powi - 1074) (dkey (fmul a b))"
    unfolding f v by (rule rnd_exact_rounds_to [OF n])
  show "\<not> isnan (fmul a b)"
    unfolding f using n by simp
qed

lemma fdiv_rounds:
  assumes "finite_d a" "finite_d b" "dval b \<noteq> 0"
  shows "rounds_to (real_of_int (dval a) / dval b * 2 powi 1074) (dkey (fdiv a b))"
    and "\<not> isnan (fdiv a b)"
proof -
  let ?n = "dman (dmag a) * 2 ^ 108" and ?d = "dman (dmag b)"
  let ?e = "int (dexp (dmag a)) - int (dexp (dmag b)) + (1074 - 108)"
  let ?s = "dneg a \<noteq> dneg b"
  have "mval (dmag b) \<noteq> 0"
    using assms(3) by (simp add: dval_def split: if_splits)
  then have mb: "dmag b \<noteq> 0" "?d \<noteq> 0"
    by (metis mval_0, simp add: mval_def)
  have f: "fdiv a b = mk_double ?s (rnd_mag (?n div ?d) ?e (?n mod ?d \<noteq> 0))"
    using assms(1,2) [THEN finite_not_inf] mb by (simp add: fdiv_def Let_def)
  have d: "0 < ?d" "?d < 2 ^ 53" and n: "0 \<le> ?n"
    using mb(2) mag_split(2,3) [of "dmag b"] mag_split(2) [of "dmag a"] by simp_all
  have q: "0 \<le> ?n div ?d"
    using d n by (simp add: pos_imp_zdiv_nonneg_iff)
  define V where "V = real_of_int ?n / ?d"
  have nd: "real_of_int ?n = real_of_int (?n div ?d) * ?d + real_of_int (?n mod ?d)"
    by (metis div_mult_mod_eq of_int_add of_int_mult)
  have V: "real_of_int (?n div ?d) \<le> V" "V < ?n div ?d + 1" "?n mod ?d \<noteq> 0 \<longleftrightarrow> V \<noteq> ?n div ?d"
  proof -
    have "0 \<le> real_of_int (?n mod ?d)" "real_of_int (?n mod ?d) < ?d"
      using d(1) by simp_all
    then show "real_of_int (?n div ?d) \<le> V" "V < ?n div ?d + 1" "?n mod ?d \<noteq> 0 \<longleftrightarrow> V \<noteq> ?n div ?d"
      using d(1) nd unfolding V_def
      by (simp_all add: pos_le_divide_eq pos_divide_less_eq divide_eq_eq algebra_simps)
  qed
  have big: "2 ^ 53 \<le> ?n div ?d" if "?n mod ?d \<noteq> 0"
  proof -
    have "dman (dmag a) \<noteq> 0" using that by auto
    then have "1 \<le> dman (dmag a)" using mag_split(2) [of "dmag a"] by simp
    then have "2 ^ 53 * ?d \<le> ?n" using d(2) by simp
    then show ?thesis using d(1) by (intro zdiv_ge_bound) simp_all
  qed
  have pe: "(0::real) < 2 powi ?e" by simp
  have r: "rounds_to (if ?s then - (V * 2 powi ?e) else V * 2 powi ?e) (dkey (fdiv a b))"
    unfolding f
    by (rule rnd_rounds_to [OF q])
      (use V pe big in \<open>simp_all only: mult_right_mono less_imp_le mult_strict_right_mono, simp_all\<close>)
  have pw: "2 powi ?e = 2 powi int (dexp (dmag a)) / 2 powi int (dexp (dmag b)) * (2 powi 1074 / (2::real) ^ 108)"
    by (subst power_int_add, simp, subst power_int_diff, simp, simp)
  have eq: "(if ?s then - (V * 2 powi ?e) else V * 2 powi ?e) = real_of_int (dval a) / dval b * 2 powi 1074"
    unfolding dval_split V_def pw by (simp del: power_int_of_nat)
  show "rounds_to (real_of_int (dval a) / dval b * 2 powi 1074) (dkey (fdiv a b))"
    using r unfolding eq .
  show "\<not> isnan (fdiv a b)"
    unfolding f using q by simp
qed

lemma isqrt_bounds: "0 \<le> n \<Longrightarrow> 0 \<le> isqrt n \<and> isqrt n * isqrt n \<le> n \<and> n < (isqrt n + 1) * (isqrt n + 1)"
proof (induction n rule: isqrt.induct)
  case (1 n)
  show ?case
  proof (cases "n = 0")
    case True
    then show ?thesis by (simp add: isqrt.simps)
  next
    case False
    define k where "k = isqrt (n div 4)"
    have n: "n = 4 * (n div 4) + n mod 4" "0 \<le> n mod 4" "n mod 4 < 4" by simp_all
    have k: "0 \<le> k" "k * k \<le> n div 4" "n div 4 < (k + 1) * (k + 1)"
      using "1.IH" "1.prems" False by (simp_all add: k_def)
    have lo: "2 * k * (2 * k) \<le> n" and hi: "n < (2 * k + 2) * (2 * k + 2)"
      using n k(2,3) by (simp_all add: algebra_simps)
    have "isqrt n = (if (2 * k + 1) * (2 * k + 1) \<le> n then 2 * k + 1 else 2 * k)"
      using "1.prems" False by (simp add: isqrt.simps [of n] k_def Let_def)
    with lo hi k(1) show ?thesis by (auto simp: add.assoc)
  qed
qed

lemma fsqrt_rounds:
  assumes "finite_d a" "0 \<le> dkey a"
  shows "rounds_to (sqrt (real_of_int (dval a) * 2 powi 1074)) (dkey (fsqrt a))"
    and "\<not> isnan (fsqrt a)"
proof -
  have "rounds_to (sqrt (real_of_int (dval a) * 2 powi 1074)) (dkey (fsqrt a)) \<and> \<not> isnan (fsqrt a)"
  proof (cases "dmag a = 0")
    case True
    then show ?thesis
      using assms(1) [THEN finite_not_inf]
      by (auto simp: fsqrt_def dval_def dkey_def rounds_to_def is_rne_0 inf_mag_def isnan_def)
  next
    case False
    define e where "e = int (dexp (dmag a))"
    define k :: nat where "k = (if even e then 110 else 111)"
    define n where "n = dman (dmag a) * 2 ^ k"
    define e2 where "e2 = (e - (if even e then 110 else 111) + 1074 + 1) div 2"
    define r where "r = isqrt n"
    have pos: "\<not> dneg a" using assms(2) False dmag_bounds(1) [of a]
      by (auto simp: dkey_def simp del: dmag_bounds split: if_splits)
    have f: "fsqrt a = mk_double False (rnd_mag r e2 (r * r \<noteq> n))"
      unfolding fsqrt_def r_def n_def k_def e2_def e_def Let_def
      using assms(1) [THEN finite_not_inf] False pos by simp
    have m1: "1 \<le> dman (dmag a)"
    proof -
      have "mval (dmag a) \<noteq> 0" using False by (simp add: mval_zero_iff)
      then show ?thesis using mag_split(2) [of "dmag a"] by (auto simp: mval_def)
    qed
    have n110: "2 ^ 110 \<le> n"
    proof -
      have "(2::int) ^ 110 \<le> 1 * 2 ^ k" by (simp add: k_def)
      also have "\<dots> \<le> n" unfolding n_def using m1 by (rule mult_right_mono) simp
      finally show ?thesis .
    qed
    then have n: "0 \<le> n" by (rule order_trans [rotated]) simp
    have r: "0 \<le> r" "r * r \<le> n" "n < (r + 1) * (r + 1)"
      using isqrt_bounds [OF n] by (simp_all add: r_def)
    have rbig: "2 ^ 53 \<le> r"
    proof (rule ccontr)
      assume "\<not> 2 ^ 53 \<le> r"
      then have "(r + 1) * (r + 1) \<le> 2 ^ 53 * 2 ^ 53"
        using r(1) by (intro mult_mono) simp_all
      with r(3) n110 show False by simp
    qed
    define V where "V = sqrt (real_of_int n)"
    have V: "real_of_int r \<le> V" "V < r + 1" "r * r \<noteq> n \<longleftrightarrow> V \<noteq> r"
    proof -
      have rr: "real_of_int (r * r) \<le> n" "real_of_int n < real_of_int ((r + 1) * (r + 1))"
        using r(2,3) by linarith+
      show "real_of_int r \<le> V"
        unfolding V_def using rr(1) by (intro real_le_rsqrt) (simp add: power2_eq_square)
      show "V < r + 1"
        unfolding V_def using rr(2) r(1) by (intro real_less_lsqrt) (simp_all add: power2_eq_square)
      have "V * V = n" unfolding V_def using n by simp
      then show "r * r \<noteq> n \<longleftrightarrow> V \<noteq> r"
        unfolding V_def using r(1) by (metis of_int_eq_iff of_int_mult of_int_0_le_iff real_sqrt_abs2 abs_of_nonneg)
    qed
    have "int k + e2 + e2 = e + 1074"
      unfolding k_def e2_def by (cases "even e") (auto elim!: evenE oddE)
    then have "(2::real) powi (int k + e2 + e2) = 2 powi (e + 1074)"
      by (rule arg_cong)
    moreover have "(2::real) powi (int k + e2 + e2) = 2 ^ k * (2 powi e2 * 2 powi e2)"
      by (subst power_int_add, simp, subst power_int_add, simp) (simp only: power_int_of_nat mult.assoc)
    moreover have "(2::real) powi (e + 1074) = 2 powi e * 2 powi 1074"
      by (subst power_int_add, simp, rule refl)
    ultimately have pw: "(2::real) ^ k * (2 powi e2 * 2 powi e2) = 2 powi e * 2 powi 1074"
      by argo
    have "(V * 2 powi e2)\<^sup>2 = real_of_int n * (2 powi e2 * 2 powi e2)"
      unfolding V_def using n by (simp add: power2_eq_square algebra_simps)
    also have "\<dots> = real_of_int (dval a) * 2 powi 1074"
      unfolding n_def using pw pos dval_split [of a] by (simp add: e_def)
    finally have v: "sqrt (real_of_int (dval a) * 2 powi 1074) = V * 2 powi e2"
      using n by (intro real_sqrt_unique) (simp_all add: V_def)
    have "(0::real) < 2 powi e2" by simp
    then show ?thesis
      unfolding f v using rnd_rounds_to [OF r(1), of e2 "V * 2 powi e2" "r * r \<noteq> n" False] V rbig r(1)
      by simp
  qed
  then show "rounds_to (sqrt (real_of_int (dval a) * 2 powi 1074)) (dkey (fsqrt a))"
    and "\<not> isnan (fsqrt a)" by simp_all
qed

end
