(* ===== verification/Float64_Order.thy ===== *)
theory Float64_Order
  imports Float64
begin

text \<open>
  Order facts of binary64 arithmetic that the geometry and the searches use: each is a consequence
  of correct and monotone rounding, and holds for the rounded operations as the code computes them,
  overflow to infinity included.
\<close>

lemma finite_key: "finite_d d \<longleftrightarrow> \<bar>dkey d\<bar> < inf_mag"
  by (simp add: finite_d_def dkey_def)

lemma nan_key: "isnan d \<longleftrightarrow> inf_mag < \<bar>dkey d\<bar>"
  by (simp add: isnan_def dkey_def)

lemma abs_dkey [simp]: "\<bar>dkey d\<bar> = dmag d"
  by (simp add: dkey_def)

lemma abs_dval: "\<bar>dval d\<bar> = mval (dmag d)"
  by (simp add: dval_def)

lemma dval_zero_iff: "dval d = 0 \<longleftrightarrow> dkey d = 0"
  by (simp add: dval_def dkey_def mval_zero_iff)

lemma rounds_to_dkey: "finite_d d \<Longrightarrow> rounds_to (dval d) k \<longleftrightarrow> k = dkey d"
  using rounds_to_exact [of d] rounds_to_unique [of "dval d"] by blast

lemma rounds_to_0: "rounds_to 0 k \<longleftrightarrow> k = 0"
  by (auto simp: rounds_to_def is_rne_0 inf_mag_def)

lemma rounds_to_lower: "finite_d d \<Longrightarrow> real_of_int (dval d) \<le> v \<Longrightarrow> rounds_to v k \<Longrightarrow> dkey d \<le> k"
  using rounds_to_mono [of "dval d" "dkey d" v k] rounds_to_exact by blast

lemma rounds_to_upper: "finite_d d \<Longrightarrow> v \<le> real_of_int (dval d) \<Longrightarrow> rounds_to v k \<Longrightarrow> k \<le> dkey d"
  using rounds_to_mono [of v k "dval d" "dkey d"] rounds_to_exact by blast

subsection \<open>Subtraction\<close>

lemma fsub_swap:
  assumes "finite_d a" "finite_d b"
  shows "dkey (fsub b a) = - dkey (fsub a b)"
proof -
  have "rounds_to (- (real_of_int (dval a) - dval b)) (- dkey (fsub a b))"
    using fsub_rounds(1) [OF assms] by (rule rounds_to_neg)
  with fsub_rounds(1) [OF assms(2,1)] show ?thesis
    by (auto dest: rounds_to_unique)
qed

lemma fsub_mono:
  assumes "finite_d a" "finite_d b" "finite_d c" "finite_d d" "dkey a \<le> dkey b" "dkey d \<le> dkey c"
  shows "dkey (fsub a c) \<le> dkey (fsub b d)"
  using rounds_to_mono [OF fsub_rounds(1) [OF assms(1,3)] fsub_rounds(1) [OF assms(2,4)]] assms(5,6)
  unfolding dval_le_iff [symmetric] by simp

text \<open>Gradual underflow: a difference is zero only between equal numbers.\<close>

lemma fsub_less_zero:
  assumes "finite_d a" "finite_d b"
  shows "dkey (fsub a b) < 0 \<longleftrightarrow> dkey a < dkey b"
proof -
  let ?u = "mk_double True 1"
  have u: "dkey ?u = -1" "dval ?u = -1" "finite_d ?u"
    by (simp_all add: dkey_def dval_def finite_d_def mk_double_mag mval_def dman_def dexp_def inf_mag_def)
  note r = fsub_rounds(1) [OF assms]
  show ?thesis
  proof
    assume "dkey a < dkey b"
    then have "real_of_int (dval a) - dval b \<le> dval ?u"
      unfolding dval_less_iff [symmetric] u by simp
    with r u show "dkey (fsub a b) < 0"
      using rounds_to_upper [OF u(3)] by fastforce
  next
    assume neg: "dkey (fsub a b) < 0"
    show "dkey a < dkey b"
    proof (rule ccontr)
      assume "\<not> dkey a < dkey b"
      then have "0 \<le> real_of_int (dval a) - dval b"
        unfolding dval_less_iff [symmetric] by simp
      then have "0 \<le> dkey (fsub a b)"
        using rounds_to_mono [OF _ r, of 0 0] by (simp add: rounds_to_0)
      with neg show False by simp
    qed
  qed
qed

subsection \<open>Squares and sums of squares\<close>

lemma fmul_self_not_nan: "\<not> isnan a \<Longrightarrow> \<not> isnan (fmul a a)"
proof -
  assume a: "\<not> isnan a"
  have "\<not> isnan (mk_double s inf_mag)" for s
    by (simp add: isnan_def mk_double_mag inf_mag_def)
  moreover have "dmag a \<noteq> 0" if "isinf a"
    using that by (auto simp: isinf_def inf_mag_def)
  moreover have "finite_d a" if "\<not> isinf a"
    using a that by (auto simp: isinf_def isnan_def finite_d_def)
  ultimately show ?thesis
    using a fmul_rounds(2) [of a a] by (cases "isinf a") (auto simp: fmul_def)
qed

lemma fmul_self_inf: "isinf a \<Longrightarrow> dkey (fmul a a) = inf_mag"
  by (auto simp: fmul_def isinf_def isnan_def dkey_def mk_double_mag inf_mag_def)

lemma finite_cases: "\<not> isnan a \<Longrightarrow> finite_d a \<or> isinf a"
  by (auto simp: isinf_def isnan_def finite_d_def)

lemma fmul_self_mono:
  assumes "\<not> isnan a" "\<not> isnan b" "\<bar>dkey a\<bar> \<le> \<bar>dkey b\<bar>"
  shows "dkey (fmul a a) \<le> dkey (fmul b b)"
proof (cases "isinf b")
  case True
  then show ?thesis
    using dkey_bounds [OF fmul_self_not_nan [OF assms(1)]] by (simp add: fmul_self_inf)
next
  case False
  with assms have f: "finite_d a" "finite_d b"
    by (auto simp: finite_d_def isinf_def isnan_def)
  have "\<bar>dval a\<bar> \<le> \<bar>dval b\<bar>"
    unfolding abs_dval using assms(3) by (simp add: mval_mono)
  then have "dval a * dval a \<le> dval b * dval b"
    by (simp add: abs_le_square_iff power2_eq_square)
  then have "real_of_int (dval a) * dval a \<le> real_of_int (dval b) * dval b"
    by (metis of_int_le_iff of_int_mult)
  then have "real_of_int (dval a) * dval a * 2 powi - 1074 \<le> real_of_int (dval b) * dval b * 2 powi - 1074"
    by (rule mult_right_mono) simp
  then show ?thesis
    by (rule rounds_to_mono [OF fmul_rounds(1) [OF f(1) f(1)] fmul_rounds(1) [OF f(2) f(2)]])
qed

lemma fmul_self_nonneg:
  assumes "\<not> isnan a"
  shows "0 \<le> dkey (fmul a a)"
proof -
  have z: "dkey (mk_double False 0) = 0" "\<not> isnan (mk_double False 0)" "finite_d (mk_double False 0)"
    "dval (mk_double False 0) = 0"
    by (simp_all add: dkey_def isnan_def finite_d_def dval_def mk_double_mag inf_mag_def)
  have "dkey (fmul (mk_double False 0) (mk_double False 0)) = 0"
    using fmul_rounds(1) [OF z(3) z(3)] by (simp add: z rounds_to_0)
  with fmul_self_mono [OF z(2) assms] show ?thesis by (simp add: z)
qed

lemma fadd_nonneg:
  assumes "\<not> isnan a" "\<not> isnan b" "0 \<le> dkey a" "0 \<le> dkey b"
  shows "\<not> isnan (fadd a b)" "dkey a \<le> dkey (fadd a b)" "dkey b \<le> dkey (fadd a b)"
proof -
  have "\<not> isnan (fadd a b) \<and> dkey a \<le> dkey (fadd a b) \<and> dkey b \<le> dkey (fadd a b)"
  proof (cases "isinf a \<or> isinf b")
    case True
    have "x = y" if "isinf x" "isinf y" "0 \<le> dkey x" "0 \<le> dkey y" for x y
      using that by (auto simp: double_eq_iff isinf_def dkey_def inf_mag_def split: if_splits)
    with True assms have "fadd a b = (if isinf a then a else b)"
      by (auto simp: fadd_def)
    with True assms show ?thesis
      using dkey_bounds [of a] dkey_bounds [of b] by (auto simp: isinf_def dkey_def split: if_splits)
  next
    case False
    with assms finite_cases have f: "finite_d a" "finite_d b" by blast+
    have "0 \<le> dval a" "0 \<le> dval b"
      using assms(3,4) dval_le_iff [of "mk_double False 0"]
      by (simp_all add: dval_def [of "mk_double False 0"] dkey_def [of "mk_double False 0"] mk_double_mag)
    then have "real_of_int (dval a) \<le> real_of_int (dval a) + dval b"
      "real_of_int (dval b) \<le> real_of_int (dval a) + dval b" by simp_all
    then show ?thesis
      using fadd_rounds [OF f] rounds_to_lower f by blast
  qed
  then show "\<not> isnan (fadd a b)" "dkey a \<le> dkey (fadd a b)" "dkey b \<le> dkey (fadd a b)"
    by simp_all
qed

subsection \<open>A point outside a computed box is at least the half width away\<close>

lemma fadd_less_far:
  assumes "finite_d q" "finite_d r" "finite_d p" "dkey (fadd q r) < dkey p"
  shows "dkey r \<le> dkey (fsub p q)"
proof -
  have "real_of_int (dval q) + dval r < dval p"
    using assms(4) rounds_to_lower [OF assms(3) _ fadd_rounds(1) [OF assms(1,2)]] by fastforce
  then have "real_of_int (dval r) \<le> real_of_int (dval p) - dval q" by simp
  then show ?thesis
    using rounds_to_lower [OF assms(2)] fsub_rounds(1) [OF assms(3,1)] by blast
qed

lemma fsub_greater_far:
  assumes "finite_d q" "finite_d r" "finite_d p" "dkey p < dkey (fsub q r)"
  shows "dkey (fsub p q) \<le> - dkey r"
proof -
  have "real_of_int (dval p) < real_of_int (dval q) - dval r"
    using assms(4) rounds_to_upper [OF assms(3) _ fsub_rounds(1) [OF assms(1,2)]] by fastforce
  then have "real_of_int (dval p) - dval q \<le> dval (fneg r)" by simp
  then show ?thesis
    using rounds_to_upper [of "fneg r"] fsub_rounds(1) [OF assms(3,1)] assms(2) by fastforce
qed

subsection \<open>The midpoint\<close>

text \<open>Twice a magnitude is a magnitude (possibly beyond the largest finite one).\<close>

lemma mval_double:
  assumes "0 \<le> m"
  shows "\<exists>k. 0 \<le> k \<and> mval k = 2 * mval m"
proof (cases "m < 2 ^ 52")
  case True
  have "mval (int 0 * 2 ^ 52 + 2 * m) = 2 * m * 2 ^ 0"
    by (rule mval_split) (use assms True in simp_all)
  moreover have "mval (int 0 * 2 ^ 52 + m) = m * 2 ^ 0"
    by (rule mval_split) (use assms True in simp_all)
  ultimately show ?thesis
    using assms by (intro exI [of _ "2 * m"]) simp
next
  case False
  let ?q = "dman m" and ?E = "dexp m"
  have q: "2 ^ 52 \<le> ?q"
    using mag_split [OF assms] False by auto
  have "mval (int (Suc ?E) * 2 ^ 52 + ?q) = ?q * 2 ^ Suc ?E"
    by (rule mval_split) (use mag_split [OF assms] q in simp_all)
  also have "\<dots> = 2 * mval m"
    by (simp add: mval_def)
  finally show ?thesis
    using mag_split(2) [OF assms] by (intro exI [of _ "int (Suc ?E) * 2 ^ 52 + ?q"]) simp
qed

lemma rounds_to_double_lower:
  assumes a: "finite_d a" and s: "finite_d s" and r: "rounds_to v (dkey s)" and v: "2 * real_of_int (dval a) \<le> v"
  shows "2 * dval a \<le> dval s"
proof -
  obtain k where k: "0 \<le> k" "mval k = 2 * mval (dmag a)"
    using mval_double [of "dmag a"] by auto
  have ex: "is_rne (real_of_int (mval k)) k" using k(1) by (rule is_rne_exact)
  have nn: "\<not> mval (dmag a) < 0" by (simp add: not_less)
  have fs: "dmag s < inf_mag" using s by (simp add: finite_d_def)
  have ds: "0 \<le> dmag s" by simp
  show ?thesis
  proof (cases "0 \<le> dval a")
    case True
    then have va: "dval a = mval (dmag a)" using abs_dval [of a] by simp
    have "rounds_to (2 * real_of_int (dval a)) (min inf_mag k)"
      unfolding rounds_to_def using ex k nn va by (intro exI [of _ k]) auto
    from rounds_to_mono [OF this r v] have m: "min inf_mag k \<le> dkey s" .
    have "k \<le> dmag s \<and> (\<not> dneg s \<or> dmag s = 0)"
    proof (cases "dneg s")
      case True
      with m have "min inf_mag k \<le> - dmag s" by (simp add: dkey_def)
      then show ?thesis using ds fs k(1) by (intro conjI disjI2) linarith+
    next
      case False
      with m fs show ?thesis by (simp add: dkey_def min_def split: if_splits)
    qed
    then have "mval k \<le> mval (dmag s)" using k(1) by (simp add: mval_mono)
    also have "\<dots> = dval s"
      using \<open>k \<le> dmag s \<and> (\<not> dneg s \<or> dmag s = 0)\<close> by (auto simp: dval_def)
    finally show ?thesis using k(2) va by simp
  next
    case False
    then have va: "dval a = - mval (dmag a)" using abs_dval [of a] by simp
    have "rounds_to (2 * real_of_int (dval a)) (- min inf_mag k)"
      unfolding rounds_to_def using ex k False va by (intro exI [of _ k]) simp
    from rounds_to_mono [OF this r v] have m: "- min inf_mag k \<le> dkey s" .
    have "- mval k \<le> dval s"
    proof (cases "dneg s")
      case True
      with m have "- min inf_mag k \<le> - dmag s" by (simp add: dkey_def)
      then have "dmag s \<le> k" using fs by linarith
      then show ?thesis using True ds by (simp add: dval_def mval_mono)
    next
      case False
      have "- mval k \<le> 0" using mval_nonneg [OF k(1)] by simp
      also have "0 \<le> mval (dmag s)" using ds by (rule mval_nonneg)
      finally show ?thesis using False by (simp add: dval_def)
    qed
    then show ?thesis using k(2) va by simp
  qed
qed

lemma rounds_to_double_upper:
  assumes "finite_d a" "finite_d s" "rounds_to v (dkey s)" "v \<le> 2 * real_of_int (dval a)"
  shows "dval s \<le> 2 * dval a"
  using rounds_to_double_lower [of "fneg a" "fneg s" "- v"] rounds_to_neg [OF assms(3)] assms
  by simp

lemma d_two_facts: "finite_d d_two" "real_of_int (dval d_two) = 2 * 2 powi 1074"
  by (simp_all add: d_two_def finite_d_def dmag_def dval_def dneg_def mval_def dman_def dexp_def inf_mag_def)

lemma midpoint_between:
  assumes a: "finite_d a" and b: "finite_d b" and ab: "dkey a \<le> dkey b"
    and s: "finite_d (fadd a b)"
  shows "dkey a \<le> dkey (fdiv (fadd a b) d_two)" "dkey (fdiv (fadd a b) d_two) \<le> dkey b"
    "\<not> isnan (fdiv (fadd a b) d_two)"
proof -
  have vab: "real_of_int (dval a) \<le> dval b"
    using ab by (simp add: dval_le_iff)
  note r = fadd_rounds(1) [OF a b]
  have lo: "2 * dval a \<le> dval (fadd a b)"
    by (rule rounds_to_double_lower [OF a s r]) (use vab in simp)
  have hi: "dval (fadd a b) \<le> 2 * dval b"
    by (rule rounds_to_double_upper [OF b s r]) (use vab in simp)
  have two: "dval d_two \<noteq> 0"
    using d_two_facts(2) by auto
  have q: "rounds_to (real_of_int (dval (fadd a b)) / 2) (dkey (fdiv (fadd a b) d_two))"
    using fdiv_rounds(1) [OF s d_two_facts(1) two] unfolding d_two_facts(2) by simp
  show "dkey a \<le> dkey (fdiv (fadd a b) d_two)"
    using rounds_to_lower [OF a _ q] lo by simp
  show "dkey (fdiv (fadd a b) d_two) \<le> dkey b"
    using rounds_to_upper [OF b _ q] hi by simp
  show "\<not> isnan (fdiv (fadd a b) d_two)"
    using fdiv_rounds(2) [OF s d_two_facts(1) two] .
qed

end
