(* ===== verification/Interfaces.thy ===== *)
theory Interfaces
  imports Prelude
begin

text \<open>
  The contracts between the components, as locales.  Each is interpreted on the model's own
  definitions in the theory of the component that provides it.

  \<open>growable\<close>: an array that doubles its capacity (\<open>LineString\<close>, the exterior ring of a \<open>Polygon\<close>,
  \<open>KDQueryResult\<close>, \<open>QTQueryResult\<close>, \<open>SpatialQueryResult\<close>).  \<open>search_region\<close>: a region that bounds
  items, and a test that a search uses to skip the region (the nodes of the k-d tree and of the
  quadtree, the pages of the pool).  \<open>extent_of\<close>: a region computed by expanding an empty one.
\<close>

subsection \<open>Growing arrays\<close>

locale growable =
  fixes contents :: "'s \<Rightarrow> 'a list"
    and add :: "allocator \<Rightarrow> 's \<Rightarrow> 'a \<Rightarrow> 's"
    and wf :: "'s \<Rightarrow> bool"
  assumes add_ok: "wf s \<Longrightarrow> contents (add malloc_ok s x) = contents s @ [x]"
    and add_any: "wf s \<Longrightarrow> contents (add al s x) = contents s @ [x] \<or> add al s x = s"
    and wf_add: "wf s \<Longrightarrow> wf (add al s x)"
begin

lemma wf_fold: "wf s \<Longrightarrow> wf (fold (\<lambda>x s. add al s x) xs s)"
  by (rule fold_invariant_list) (auto intro: wf_add)

lemma fold_add: "wf s \<Longrightarrow> contents (fold (\<lambda>x s. add malloc_ok s x) xs s) = contents s @ xs"
  by (induction xs arbitrary: s) (auto simp: add_ok wf_add)

lemma fold_add_prefix:
  "wf s \<Longrightarrow> set (contents (fold (\<lambda>x s. add al s x) xs s)) \<subseteq> set (contents s) \<union> set xs"
proof (induction xs arbitrary: s)
  case Nil
  then show ?case by simp
next
  case (Cons x xs)
  have "set (contents (add al s x)) \<subseteq> insert x (set (contents s))"
    using add_any [OF Cons.prems, of al x] by auto
  with Cons.IH [OF wf_add [OF Cons.prems], of al x] show ?case by auto
qed

end

subsection \<open>Regions that let a search skip what they bound\<close>

locale search_region =
  fixes covers :: "'r \<Rightarrow> 'i \<Rightarrow> bool"
    and visit :: "'r \<Rightarrow> 'q \<Rightarrow> bool"
    and hit :: "'i \<Rightarrow> 'q \<Rightarrow> bool"
  assumes hit_visits: "covers r i \<Longrightarrow> hit i q \<Longrightarrow> visit r q"
begin

lemma skip_is_sound:
  "(\<And>i. i \<in> set is \<Longrightarrow> covers r i) \<Longrightarrow> \<not> visit r q \<Longrightarrow> filter (\<lambda>i. hit i q) is = []"
  using hit_visits by (intro filter_empty_if) blast

text \<open>Scanning groups of items and skipping the groups whose region need not be visited.\<close>

lemma skipping_scan:
  assumes "\<And>g i. g \<in> set gs \<Longrightarrow> i \<in> set (items g) \<Longrightarrow> covers (region g) i"
  shows "concat (map (\<lambda>g. filter (\<lambda>i. hit i q) (items g)) (filter (\<lambda>g. visit (region g) q) gs)) =
    filter (\<lambda>i. hit i q) (concat (map items gs))"
  using assms
proof (induction gs)
  case Nil
  then show ?case by simp
next
  case (Cons g gs)
  have IH: "concat (map (\<lambda>g. filter (\<lambda>i. hit i q) (items g)) (filter (\<lambda>g. visit (region g) q) gs)) =
      filter (\<lambda>i. hit i q) (concat (map items gs))"
    using Cons.prems by (intro Cons.IH) auto
  have "filter (\<lambda>i. hit i q) (items g) = []" if "\<not> visit (region g) q"
    using Cons.prems that by (intro skip_is_sound [of "items g" "region g"]) auto
  with IH show ?case by simp
qed

end

subsection \<open>Regions computed by expansion\<close>

locale extent_of =
  fixes expand :: "'r \<Rightarrow> 'i \<Rightarrow> 'r"
    and covers :: "'r \<Rightarrow> 'i \<Rightarrow> bool"
    and ok :: "'i \<Rightarrow> bool"
    and rok :: "'r \<Rightarrow> bool"
  assumes expand_covers: "rok r \<Longrightarrow> ok i \<Longrightarrow> covers (expand r i) i"
    and expand_keeps: "rok r \<Longrightarrow> ok i \<Longrightarrow> covers r j \<Longrightarrow> covers (expand r i) j"
    and expand_rok: "rok r \<Longrightarrow> ok i \<Longrightarrow> rok (expand r i)"
begin

lemma fold_rok:
  "rok r \<Longrightarrow> (\<And>i. i \<in> set is \<Longrightarrow> ok i) \<Longrightarrow> rok (fold (\<lambda>i r. expand r i) is r)"
  by (rule fold_invariant_list) (auto intro: expand_rok)

lemma fold_keeps:
  "rok r \<Longrightarrow> (\<And>i. i \<in> set is \<Longrightarrow> ok i) \<Longrightarrow> covers r j \<Longrightarrow> covers (fold (\<lambda>i r. expand r i) is r) j"
  by (induction "is" arbitrary: r) (simp_all add: expand_keeps expand_rok)

lemma fold_covers:
  "rok r \<Longrightarrow> (\<And>i. i \<in> set is \<Longrightarrow> ok i) \<Longrightarrow> j \<in> set is \<Longrightarrow> covers (fold (\<lambda>i r. expand r i) is r) j"
proof (induction "is" arbitrary: r)
  case Nil
  then show ?case by simp
next
  case (Cons i "is")
  have i: "ok i" and r: "rok (expand r i)"
    using Cons.prems by (auto intro: expand_rok)
  show ?case
  proof (cases "j = i")
    case True
    have "covers (expand r i) i" using Cons.prems(1) i by (rule expand_covers)
    with True r Cons.prems(2) show ?thesis by (simp add: fold_keeps)
  next
    case False
    with r Cons.prems show ?thesis by (simp add: Cons.IH)
  qed
qed

end

end
