(* ===== verification/Geometry.thy ===== *)
theory Geometry
  imports Float64_Order Interfaces
begin

text \<open>
  src/include/geometry.h and src/src/geometry.c: points, line strings, polygons, minimum bounding
  rectangles and spatial objects.

  A counted array is the list of its elements together with its capacity; the count is the length.
  Sizes are natural numbers.  \<open>const\<close> pointers to a point, a rectangle, a line string or a polygon
  are the value they point to; an operation that changes a structure returns the new one, next to
  its status.  An output that is written only on success is the right side of a sum type.  The
  tagged union of a spatial object is a datatype, so its tag is a function of the value.
\<close>

subsection \<open>Types\<close>

record Point =
  px :: double
  py :: double

record LineString =
  ls_points :: "Point list"
  ls_capacity :: nat

record Ring =
  r_points :: "Point list"
  r_capacity :: nat

record Polygon =
  exterior :: "Point list"
  ext_capacity :: nat
  holes :: "Ring list"
  holes_capacity :: nat

record MBR =
  min_x :: double
  min_y :: double
  max_x :: double
  max_y :: double

datatype GeomType = GEOM_POINT | GEOM_LINESTRING | GEOM_POLYGON

datatype Geom = G_point Point | G_line LineString | G_polygon Polygon

record SpatialObject =
  so_id :: "64 word"
  so_geom :: Geom
  so_centroid :: Point
  so_mbr :: MBR
  so_properties :: "8 word list"

datatype GeomError = GEOM_OK | GEOM_ERR_NULL_PTR | GEOM_ERR_ALLOC | GEOM_ERR_INVALID_GEOM
  | GEOM_ERR_EMPTY_GEOM | GEOM_ERR_INDEX_OUT_OF_BOUNDS

fun geom_type :: "Geom \<Rightarrow> GeomType" where
  "geom_type (G_point p) = GEOM_POINT"
| "geom_type (G_line l) = GEOM_LINESTRING"
| "geom_type (G_polygon p) = GEOM_POLYGON"

definition so_type :: "SpatialObject \<Rightarrow> GeomType" where
  "so_type obj = geom_type (so_geom obj)"

text \<open>\<open>sizeof (Point)\<close> and \<open>sizeof (void *)\<close> on the 64-bit targets.\<close>

definition sizeof_Point :: nat where "sizeof_Point = 16"
definition sizeof_ptr :: nat where "sizeof_ptr = 8"

subsection \<open>Points\<close>

definition point_create :: "double \<Rightarrow> double \<Rightarrow> Point" where
  "point_create x y = \<lparr>px = x, py = y\<rparr>"

definition point_distance_sq :: "Point \<Rightarrow> Point \<Rightarrow> double" where
  "point_distance_sq a b =
     (let dx = fsub (px b) (px a); dy = fsub (py b) (py a) in fadd (fmul dx dx) (fmul dy dy))"

definition point_distance :: "Point \<Rightarrow> Point \<Rightarrow> double" where
  "point_distance a b = fsqrt (point_distance_sq a b)"

definition point_equals :: "Point \<Rightarrow> Point \<Rightarrow> double \<Rightarrow> bool" where
  "point_equals a b epsilon =
     (flt (fabs (fsub (px a) (px b))) epsilon \<and> flt (fabs (fsub (py a) (py b))) epsilon)"

subsection \<open>Rectangles\<close>

definition mbr_create :: "double \<Rightarrow> double \<Rightarrow> double \<Rightarrow> double \<Rightarrow> MBR" where
  "mbr_create x0 y0 x1 y1 = \<lparr>min_x = x0, min_y = y0, max_x = x1, max_y = y1\<rparr>"

definition mbr_empty :: MBR where
  "mbr_empty = \<lparr>min_x = DBL_MAX, min_y = DBL_MAX, max_x = NEG_DBL_MAX, max_y = NEG_DBL_MAX\<rparr>"

definition mbr_is_empty :: "MBR \<Rightarrow> bool" where
  "mbr_is_empty m = (fgt (min_x m) (max_x m) \<or> fgt (min_y m) (max_y m))"

definition mbr_expand_point :: "MBR \<Rightarrow> Point \<Rightarrow> MBR" where
  "mbr_expand_point m p =
     \<lparr>min_x = (if flt (px p) (min_x m) then px p else min_x m),
      min_y = (if flt (py p) (min_y m) then py p else min_y m),
      max_x = (if fgt (px p) (max_x m) then px p else max_x m),
      max_y = (if fgt (py p) (max_y m) then py p else max_y m)\<rparr>"

definition mbr_expand_mbr :: "MBR \<Rightarrow> MBR \<Rightarrow> MBR" where
  "mbr_expand_mbr m other =
     (if mbr_is_empty other then m
      else
     \<lparr>min_x = (if flt (min_x other) (min_x m) then min_x other else min_x m),
      min_y = (if flt (min_y other) (min_y m) then min_y other else min_y m),
      max_x = (if fgt (max_x other) (max_x m) then max_x other else max_x m),
      max_y = (if fgt (max_y other) (max_y m) then max_y other else max_y m)\<rparr>)"

definition mbr_intersects :: "MBR \<Rightarrow> MBR \<Rightarrow> bool" where
  "mbr_intersects a b =
     (if mbr_is_empty a \<or> mbr_is_empty b then False
      else \<not> (flt (max_x a) (min_x b) \<or> fgt (min_x a) (max_x b) \<or>
              flt (max_y a) (min_y b) \<or> fgt (min_y a) (max_y b)))"

definition mbr_contains_point :: "MBR \<Rightarrow> Point \<Rightarrow> bool" where
  "mbr_contains_point m p =
     (if mbr_is_empty m then False
      else fge (px p) (min_x m) \<and> fle (px p) (max_x m) \<and>
           fge (py p) (min_y m) \<and> fle (py p) (max_y m))"

definition mbr_contains_mbr :: "MBR \<Rightarrow> MBR \<Rightarrow> bool" where
  "mbr_contains_mbr a b =
     (if mbr_is_empty a \<or> mbr_is_empty b then False
      else fge (min_x b) (min_x a) \<and> fle (max_x b) (max_x a) \<and>
           fge (min_y b) (min_y a) \<and> fle (max_y b) (max_y a))"

definition mbr_centroid :: "MBR \<Rightarrow> Point" where
  "mbr_centroid m =
     (if mbr_is_empty m then \<lparr>px = d_zero, py = d_zero\<rparr>
      else \<lparr>px = fdiv (fadd (min_x m) (max_x m)) d_two,
            py = fdiv (fadd (min_y m) (max_y m)) d_two\<rparr>)"

definition mbr_area :: "MBR \<Rightarrow> double" where
  "mbr_area m =
     (if mbr_is_empty m then d_zero
      else fmul (fsub (max_x m) (min_x m)) (fsub (max_y m) (min_y m)))"

definition mbr_intersection :: "MBR \<Rightarrow> MBR \<Rightarrow> MBR" where
  "mbr_intersection a b =
     (if \<not> mbr_intersects a b then mbr_empty
      else \<lparr>min_x = fmax (min_x a) (min_x b), min_y = fmax (min_y a) (min_y b),
            max_x = fmin (max_x a) (max_x b), max_y = fmin (max_y a) (max_y b)\<rparr>)"

definition mbr_union :: "MBR \<Rightarrow> MBR \<Rightarrow> MBR" where
  "mbr_union a b =
     (if mbr_is_empty a then b
      else if mbr_is_empty b then a
      else \<lparr>min_x = fmin (min_x a) (min_x b), min_y = fmin (min_y a) (min_y b),
            max_x = fmax (max_x a) (max_x b), max_y = fmax (max_y a) (max_y b)\<rparr>)"

subsection \<open>Line strings\<close>

text \<open>A fresh structure on a failed allocation has a NULL array: no points, capacity 0.\<close>

definition linestring_init :: "allocator \<Rightarrow> nat \<Rightarrow> GeomError \<times> LineString" where
  "linestring_init al capacity =
     (let cap = (if capacity > 0 then capacity else 16) in
      if al (cap * sizeof_Point) then (GEOM_OK, \<lparr>ls_points = [], ls_capacity = cap\<rparr>)
      else (GEOM_ERR_ALLOC, \<lparr>ls_points = [], ls_capacity = 0\<rparr>))"

definition linestring_free :: "LineString \<Rightarrow> LineString" where
  "linestring_free ls = ls\<lparr>ls_points := [], ls_capacity := 0\<rparr>"

definition linestring_add_point :: "allocator \<Rightarrow> LineString \<Rightarrow> Point \<Rightarrow> GeomError \<times> LineString" where
  "linestring_add_point al ls p =
     (if length (ls_points ls) \<ge> ls_capacity ls then
        (let new_capacity = ls_capacity ls * GROWTH_FACTOR in
         if al (new_capacity * sizeof_Point)
         then (GEOM_OK, ls\<lparr>ls_points := ls_points ls @ [p], ls_capacity := new_capacity\<rparr>)
         else (GEOM_ERR_ALLOC, ls))
      else (GEOM_OK, ls\<lparr>ls_points := ls_points ls @ [p]\<rparr>))"

text \<open>One step of the centroid loop: the segment from point \<open>i\<close> to point \<open>i + 1\<close>.\<close>

definition linestring_segment :: "Point list \<Rightarrow> nat \<Rightarrow> double \<times> double \<times> double \<Rightarrow> double \<times> double \<times> double" where
  "linestring_segment ps i = (\<lambda>(total_length, cx, cy).
     let p1 = ps ! i; p2 = ps ! (i + 1);
         seg_length = point_distance p1 p2;
         mid_x = fdiv (fadd (px p1) (px p2)) d_two;
         mid_y = fdiv (fadd (py p1) (py p2)) d_two
     in (fadd total_length seg_length, fadd cx (fmul mid_x seg_length), fadd cy (fmul mid_y seg_length)))"

definition linestring_centroid :: "LineString \<Rightarrow> GeomError + Point" where
  "linestring_centroid ls =
     (let ps = ls_points ls in
      if length ps = 0 then Inl GEOM_ERR_EMPTY_GEOM
      else if length ps = 1 then Inr (ps ! 0)
      else let (total_length, cx, cy) =
             fold (linestring_segment ps) [0..<length ps - 1] (d_zero, d_zero, d_zero)
        in if flt total_length d_1e_10 then Inr \<lparr>px = px (ps ! 0), py = py (ps ! 0)\<rparr>
           else Inr \<lparr>px = fdiv cx total_length, py = fdiv cy total_length\<rparr>)"

definition linestring_mbr :: "LineString \<Rightarrow> GeomError + MBR" where
  "linestring_mbr ls =
     (if length (ls_points ls) = 0 then Inl GEOM_ERR_EMPTY_GEOM
      else Inr (fold (\<lambda>p m. mbr_expand_point m p) (ls_points ls) mbr_empty))"

definition linestring_length :: "LineString \<Rightarrow> double" where
  "linestring_length ls =
     (let ps = ls_points ls in
      if length ps < 2 then d_zero
      else fold (\<lambda>i len. fadd len (point_distance (ps ! i) (ps ! (i + 1)))) [0..<length ps - 1] d_zero)"

definition linestring_copy :: "allocator \<Rightarrow> LineString \<Rightarrow> GeomError \<times> LineString" where
  "linestring_copy al src =
     (case linestring_init al (length (ls_points src)) of
        (GEOM_OK, dest) \<Rightarrow> (GEOM_OK, dest\<lparr>ls_points := ls_points src\<rparr>)
      | (err, dest) \<Rightarrow> (err, dest))"

subsection \<open>Polygons\<close>

text \<open>\<open>memset(poly, 0, sizeof(Polygon))\<close>\<close>

definition zero_polygon :: Polygon where
  "zero_polygon = \<lparr>exterior = [], ext_capacity = 0, holes = [], holes_capacity = 0\<rparr>"

definition polygon_init :: "allocator \<Rightarrow> nat \<Rightarrow> GeomError \<times> Polygon" where
  "polygon_init al capacity =
     (let cap = (if capacity > 0 then capacity else 16) in
      if al (cap * sizeof_Point) then (GEOM_OK, zero_polygon\<lparr>ext_capacity := cap\<rparr>)
      else (GEOM_ERR_ALLOC, zero_polygon))"

definition polygon_free :: "Polygon \<Rightarrow> Polygon" where
  "polygon_free poly = zero_polygon"

definition polygon_add_exterior_point :: "allocator \<Rightarrow> Polygon \<Rightarrow> Point \<Rightarrow> GeomError \<times> Polygon" where
  "polygon_add_exterior_point al poly p =
     (if length (exterior poly) \<ge> ext_capacity poly then
        (let new_capacity = ext_capacity poly * GROWTH_FACTOR in
         if al (new_capacity * sizeof_Point)
         then (GEOM_OK, poly\<lparr>exterior := exterior poly @ [p], ext_capacity := new_capacity\<rparr>)
         else (GEOM_ERR_ALLOC, poly))
      else (GEOM_OK, poly\<lparr>exterior := exterior poly @ [p]\<rparr>))"

text \<open>
  The three arrays of holes grow together; their elements have the same size, so the three
  requests succeed or fail together.
\<close>

definition polygon_grow_holes :: "allocator \<Rightarrow> Polygon \<Rightarrow> GeomError \<times> Polygon" where
  "polygon_grow_holes al poly =
     (if length (holes poly) \<ge> holes_capacity poly then
        (let new_capacity = (if holes_capacity poly = 0 then 4 else holes_capacity poly * GROWTH_FACTOR) in
         if al (new_capacity * sizeof_ptr) then (GEOM_OK, poly\<lparr>holes_capacity := new_capacity\<rparr>)
         else (GEOM_ERR_ALLOC, poly))
      else (GEOM_OK, poly))"

definition polygon_add_hole :: "allocator \<Rightarrow> Polygon \<Rightarrow> nat \<Rightarrow> GeomError \<times> Polygon" where
  "polygon_add_hole al poly capacity =
     (case polygon_grow_holes al poly of
        (GEOM_OK, poly') \<Rightarrow>
          (let cap = (if capacity > 0 then capacity else 16) in
           if al (cap * sizeof_Point)
           then (GEOM_OK, poly'\<lparr>holes := holes poly' @ [\<lparr>r_points = [], r_capacity = cap\<rparr>]\<rparr>)
           else (GEOM_ERR_ALLOC, poly'))
      | (err, poly') \<Rightarrow> (err, poly'))"

definition polygon_add_hole_point :: "allocator \<Rightarrow> Polygon \<Rightarrow> nat \<Rightarrow> Point \<Rightarrow> GeomError \<times> Polygon" where
  "polygon_add_hole_point al poly hole_idx p =
     (if hole_idx \<ge> length (holes poly) then (GEOM_ERR_INDEX_OUT_OF_BOUNDS, poly)
      else let h = holes poly ! hole_idx in
        if length (r_points h) \<ge> r_capacity h then
          (let new_capacity = r_capacity h * GROWTH_FACTOR in
           if al (new_capacity * sizeof_Point)
           then (GEOM_OK, poly\<lparr>holes := (holes poly)[hole_idx :=
                   h\<lparr>r_points := r_points h @ [p], r_capacity := new_capacity\<rparr>]\<rparr>)
           else (GEOM_ERR_ALLOC, poly))
        else (GEOM_OK, poly\<lparr>holes := (holes poly)[hole_idx := h\<lparr>r_points := r_points h @ [p]\<rparr>]\<rparr>))"

definition ring_signed_area :: "Point list \<Rightarrow> double" where
  "ring_signed_area ring =
     (let count = length ring in
      if count < 3 then d_zero
      else fdiv (fold (\<lambda>i area. let j = (i + 1) mod count in
                   fsub (fadd area (fmul (px (ring ! i)) (py (ring ! j))))
                     (fmul (px (ring ! j)) (py (ring ! i))))
                 [0..<count] d_zero) d_two)"

definition ring_centroid :: "Point list \<Rightarrow> double \<times> double" where
  "ring_centroid ring =
     (let count = length ring in
      if count < 3 then (d_zero, d_zero)
      else let area = ring_signed_area ring in
        if flt (fabs area) d_1e_10 then
          (let (cx, cy) = fold (\<lambda>i (cx, cy). (fadd cx (px (ring ! i)), fadd cy (py (ring ! i))))
             [0..<count] (d_zero, d_zero)
           in (fdiv cx (double_of_nat count), fdiv cy (double_of_nat count)))
        else
          (let (cx, cy) = fold (\<lambda>i (cx, cy). let j = (i + 1) mod count;
                 cross = fsub (fmul (px (ring ! i)) (py (ring ! j))) (fmul (px (ring ! j)) (py (ring ! i)))
               in (fadd cx (fmul (fadd (px (ring ! i)) (px (ring ! j))) cross),
                   fadd cy (fmul (fadd (py (ring ! i)) (py (ring ! j))) cross)))
             [0..<count] (d_zero, d_zero)
           in (fdiv cx (fmul d_six area), fdiv cy (fmul d_six area))))"

definition polygon_centroid :: "Polygon \<Rightarrow> GeomError + Point" where
  "polygon_centroid poly =
     (if length (exterior poly) < 3 then Inl GEOM_ERR_INVALID_GEOM
      else let (cx, cy) = ring_centroid (exterior poly) in Inr \<lparr>px = cx, py = cy\<rparr>)"

definition polygon_mbr :: "Polygon \<Rightarrow> GeomError + MBR" where
  "polygon_mbr poly =
     (if length (exterior poly) = 0 then Inl GEOM_ERR_EMPTY_GEOM
      else Inr (fold (\<lambda>p m. mbr_expand_point m p) (exterior poly) mbr_empty))"

definition polygon_area :: "Polygon \<Rightarrow> double" where
  "polygon_area poly =
     (if length (exterior poly) < 3 then d_zero
      else fold (\<lambda>h area. if length (r_points h) \<ge> 3
                  then fsub area (fabs (ring_signed_area (r_points h))) else area)
             (holes poly) (fabs (ring_signed_area (exterior poly))))"

definition polygon_is_clockwise :: "Polygon \<Rightarrow> bool" where
  "polygon_is_clockwise poly =
     (if length (exterior poly) < 3 then False
      else flt (ring_signed_area (exterior poly)) d_zero)"

text \<open>The loop of \<open>polygon_copy\<close> over the holes of the source; on an error \<open>dest\<close> is freed.\<close>

fun polygon_copy_holes :: "allocator \<Rightarrow> Polygon \<Rightarrow> Ring list \<Rightarrow> GeomError \<times> Polygon" where
  "polygon_copy_holes al dest [] = (GEOM_OK, dest)"
| "polygon_copy_holes al dest (h # hs) =
     (case polygon_add_hole al dest (length (r_points h)) of
        (GEOM_OK, dest') \<Rightarrow>
          (let i = length (holes dest) in
           polygon_copy_holes al
             (dest'\<lparr>holes := (holes dest')[i := (holes dest' ! i)\<lparr>r_points := r_points h\<rparr>]\<rparr>) hs)
      | (err, dest') \<Rightarrow> (err, polygon_free dest'))"

definition polygon_copy :: "allocator \<Rightarrow> Polygon \<Rightarrow> GeomError \<times> Polygon" where
  "polygon_copy al src =
     (case polygon_init al (length (exterior src)) of
        (GEOM_OK, dest) \<Rightarrow> polygon_copy_holes al (dest\<lparr>exterior := exterior src\<rparr>) (holes src)
      | (err, dest) \<Rightarrow> (err, dest))"

subsection \<open>Spatial objects\<close>

definition zero_point :: Point where "zero_point = \<lparr>px = d_zero, py = d_zero\<rparr>"

definition zero_mbr :: MBR where
  "zero_mbr = \<lparr>min_x = d_zero, min_y = d_zero, max_x = d_zero, max_y = d_zero\<rparr>"

definition zero_linestring :: LineString where
  "zero_linestring = \<lparr>ls_points = [], ls_capacity = 0\<rparr>"

text \<open>\<open>memset(obj, 0, sizeof(SpatialObject))\<close>: the tag 0 is \<open>GEOM_POINT\<close>.\<close>

definition zero_object :: SpatialObject where
  "zero_object = \<lparr>so_id = 0, so_geom = G_point zero_point, so_centroid = zero_point,
     so_mbr = zero_mbr, so_properties = []\<rparr>"

definition spatial_object_init_point :: "64 word \<Rightarrow> Point \<Rightarrow> GeomError \<times> SpatialObject" where
  "spatial_object_init_point oid p = (GEOM_OK,
     \<lparr>so_id = oid, so_geom = G_point p, so_centroid = p,
      so_mbr = mbr_create (px p) (py p) (px p) (py p), so_properties = []\<rparr>)"

definition spatial_object_init_linestring :: "allocator \<Rightarrow> 64 word \<Rightarrow> nat \<Rightarrow> GeomError \<times> SpatialObject" where
  "spatial_object_init_linestring al oid capacity =
     (case linestring_init al capacity of
        (GEOM_OK, ls) \<Rightarrow> (GEOM_OK, zero_object\<lparr>so_id := oid, so_geom := G_line ls,
           so_centroid := point_create d_zero d_zero, so_mbr := mbr_empty\<rparr>)
      | (err, ls) \<Rightarrow> (err, zero_object\<lparr>so_id := oid, so_geom := G_line ls\<rparr>))"

definition spatial_object_init_polygon :: "allocator \<Rightarrow> 64 word \<Rightarrow> nat \<Rightarrow> GeomError \<times> SpatialObject" where
  "spatial_object_init_polygon al oid capacity =
     (case polygon_init al capacity of
        (GEOM_OK, poly) \<Rightarrow> (GEOM_OK, zero_object\<lparr>so_id := oid, so_geom := G_polygon poly,
           so_centroid := point_create d_zero d_zero, so_mbr := mbr_empty\<rparr>)
      | (err, poly) \<Rightarrow> (err, zero_object\<lparr>so_id := oid, so_geom := G_polygon poly\<rparr>))"

definition spatial_object_free :: "SpatialObject \<Rightarrow> SpatialObject" where
  "spatial_object_free obj = zero_object"

text \<open>The centroid is stored before the rectangle is computed, and stays if that fails.\<close>

definition spatial_object_update_derived :: "SpatialObject \<Rightarrow> GeomError \<times> SpatialObject" where
  "spatial_object_update_derived obj =
     (case so_geom obj of
        G_point p \<Rightarrow> (GEOM_OK, obj\<lparr>so_centroid := p, so_mbr := mbr_create (px p) (py p) (px p) (py p)\<rparr>)
      | G_line l \<Rightarrow>
          (case linestring_centroid l of
             Inl err \<Rightarrow> (err, obj)
           | Inr c \<Rightarrow> (case linestring_mbr l of
               Inl err \<Rightarrow> (err, obj\<lparr>so_centroid := c\<rparr>)
             | Inr m \<Rightarrow> (GEOM_OK, obj\<lparr>so_centroid := c, so_mbr := m\<rparr>)))
      | G_polygon p \<Rightarrow>
          (case polygon_centroid p of
             Inl err \<Rightarrow> (err, obj)
           | Inr c \<Rightarrow> (case polygon_mbr p of
               Inl err \<Rightarrow> (err, obj\<lparr>so_centroid := c\<rparr>)
             | Inr m \<Rightarrow> (GEOM_OK, obj\<lparr>so_centroid := c, so_mbr := m\<rparr>))))"

text \<open>\<open>data = None\<close> is a NULL pointer.\<close>

definition spatial_object_set_properties ::
  "allocator \<Rightarrow> SpatialObject \<Rightarrow> 8 word list option \<Rightarrow> GeomError \<times> SpatialObject" where
  "spatial_object_set_properties al obj data =
     (case data of
        None \<Rightarrow> (GEOM_OK, obj\<lparr>so_properties := []\<rparr>)
      | Some bytes \<Rightarrow>
          if length bytes > 0 then
            (if al (length bytes) then (GEOM_OK, obj\<lparr>so_properties := bytes\<rparr>)
             else (GEOM_ERR_ALLOC, obj\<lparr>so_properties := []\<rparr>))
          else (GEOM_OK, obj\<lparr>so_properties := []\<rparr>))"

definition geom_copy :: "allocator \<Rightarrow> Geom \<Rightarrow> GeomError \<times> Geom" where
  "geom_copy al g =
     (case g of
        G_point p \<Rightarrow> (GEOM_OK, G_point p)
      | G_line l \<Rightarrow> (case linestring_copy al l of (err, l') \<Rightarrow> (err, G_line l'))
      | G_polygon p \<Rightarrow> (case polygon_copy al p of (err, p') \<Rightarrow> (err, G_polygon p')))"

definition spatial_object_copy :: "allocator \<Rightarrow> SpatialObject \<Rightarrow> GeomError \<times> SpatialObject" where
  "spatial_object_copy al src =
     (case geom_copy al (so_geom src) of
        (err, g) \<Rightarrow>
          (let dest = zero_object\<lparr>so_id := so_id src, so_geom := g,
                 so_centroid := so_centroid src, so_mbr := so_mbr src\<rparr>
           in if err \<noteq> GEOM_OK then (err, dest)
              else if so_properties src \<noteq> []
                then spatial_object_set_properties al dest (Some (so_properties src))
                else (GEOM_OK, dest)))"

end
