(* ===== verification/Geometry_MBR.thy ===== *)
theory Geometry_MBR
  imports Geometry
begin

text \<open>
  The rectangle operations of geometry.c, related to sets of points: the predicates as comparisons of
  keys, containment and intersection as statements about points, the expansion loops as the least
  rectangle that contains what was added.  Everything holds for the rounded doubles of the code;
  the only condition is that no coordinate is a NaN.
\<close>

definition pt_num :: "Point \<Rightarrow> bool" where
  "pt_num p = (\<not> isnan (px p) \<and> \<not> isnan (py p))"

definition pt_finite :: "Point \<Rightarrow> bool" where
  "pt_finite p = (finite_d (px p) \<and> finite_d (py p))"

definition mbr_num :: "MBR \<Rightarrow> bool" where
  "mbr_num m = (\<not> isnan (min_x m) \<and> \<not> isnan (min_y m) \<and> \<not> isnan (max_x m) \<and> \<not> isnan (max_y m))"

lemma pt_finite_num: "pt_finite p \<Longrightarrow> pt_num p"
  by (auto simp: pt_finite_def pt_num_def finite_not_nan)

lemma DBL_MAX_facts [simp]: "\<not> isnan DBL_MAX" "\<not> isnan NEG_DBL_MAX"
  "dkey DBL_MAX = inf_mag - 1" "dkey NEG_DBL_MAX = 1 - inf_mag"
  by (simp_all add: DBL_MAX_def NEG_DBL_MAX_def isnan_def dkey_def dmag_def dneg_def inf_mag_def)

lemma d_zero_facts [simp]: "\<not> isnan d_zero" "dkey d_zero = 0" "finite_d d_zero"
  by (simp_all add: d_zero_def isnan_def dkey_def dmag_def dneg_def inf_mag_def finite_d_def)

lemma mbr_num_empty [simp]: "mbr_num mbr_empty"
  by (simp add: mbr_num_def mbr_empty_def)

lemma mbr_num_create [simp]: "pt_num p \<Longrightarrow> mbr_num (mbr_create (px p) (py p) (px p) (py p))"
  by (simp add: mbr_num_def mbr_create_def pt_num_def)

subsection \<open>The predicates as comparisons of keys\<close>

lemma mbr_is_empty_key [mbr_defs]:
  "mbr_num m \<Longrightarrow> mbr_is_empty m \<longleftrightarrow> dkey (max_x m) < dkey (min_x m) \<or> dkey (max_y m) < dkey (min_y m)"
  by (simp add: mbr_is_empty_def mbr_num_def order_rules)

lemma mbr_contains_point_key [mbr_defs]:
  "mbr_num m \<Longrightarrow> pt_num p \<Longrightarrow> mbr_contains_point m p \<longleftrightarrow>
     dkey (min_x m) \<le> dkey (px p) \<and> dkey (px p) \<le> dkey (max_x m) \<and>
     dkey (min_y m) \<le> dkey (py p) \<and> dkey (py p) \<le> dkey (max_y m)"
  by (auto simp: mbr_contains_point_def mbr_is_empty_def mbr_num_def pt_num_def order_rules)

lemma mbr_contains_mbr_key [mbr_defs]:
  "mbr_num a \<Longrightarrow> mbr_num b \<Longrightarrow> mbr_contains_mbr a b \<longleftrightarrow>
     dkey (min_x a) \<le> dkey (min_x b) \<and> dkey (min_x b) \<le> dkey (max_x b) \<and> dkey (max_x b) \<le> dkey (max_x a) \<and>
     dkey (min_y a) \<le> dkey (min_y b) \<and> dkey (min_y b) \<le> dkey (max_y b) \<and> dkey (max_y b) \<le> dkey (max_y a)"
  by (auto simp: mbr_contains_mbr_def mbr_is_empty_def mbr_num_def order_rules)

lemma mbr_intersects_key [mbr_defs]:
  "mbr_num a \<Longrightarrow> mbr_num b \<Longrightarrow> mbr_intersects a b \<longleftrightarrow>
     dkey (min_x a) \<le> dkey (max_x a) \<and> dkey (min_y a) \<le> dkey (max_y a) \<and>
     dkey (min_x b) \<le> dkey (max_x b) \<and> dkey (min_y b) \<le> dkey (max_y b) \<and>
     dkey (min_x b) \<le> dkey (max_x a) \<and> dkey (min_x a) \<le> dkey (max_x b) \<and>
     dkey (min_y b) \<le> dkey (max_y a) \<and> dkey (min_y a) \<le> dkey (max_y b)"
  by (auto simp: mbr_intersects_def mbr_is_empty_def mbr_num_def order_rules)

lemma mbr_intersects_sym: "mbr_intersects a b = mbr_intersects b a"
  by (auto simp: mbr_intersects_def order_defs)

lemma mbr_intersects_nonempty: "mbr_intersects a b \<Longrightarrow> \<not> mbr_is_empty a \<and> \<not> mbr_is_empty b"
  by (auto simp: mbr_intersects_def split: if_splits)

lemma mbr_contains_point_nonempty: "mbr_contains_point a p \<Longrightarrow> \<not> mbr_is_empty a"
  by (auto simp: mbr_contains_point_def split: if_splits)

text \<open>A NaN query coordinate never hits.\<close>

lemma mbr_contains_point_num: "mbr_contains_point m p \<Longrightarrow> mbr_num m \<and> pt_num p"
  by (auto simp: mbr_contains_point_def mbr_num_def pt_num_def order_defs split: if_splits)

lemma mbr_contains_mbr_num: "mbr_contains_mbr a b \<Longrightarrow> mbr_num a \<and> mbr_num b"
  by (auto simp: mbr_contains_mbr_def mbr_num_def order_defs split: if_splits)

subsection \<open>The predicates as statements about points\<close>

text \<open>Two rectangles intersect exactly when they have a point in common.\<close>

lemma mbr_intersects_iff_common_point:
  assumes "mbr_num a" "mbr_num b"
  shows "mbr_intersects a b \<longleftrightarrow> (\<exists>p. mbr_contains_point a p \<and> mbr_contains_point b p)"
proof
  assume int: "mbr_intersects a b"
  let ?p = "\<lparr>px = fmax (min_x a) (min_x b), py = fmax (min_y a) (min_y b)\<rparr>"
  have "pt_num ?p"
    using assms by (simp add: pt_num_def mbr_num_def)
  then have "mbr_contains_point a ?p \<and> mbr_contains_point b ?p"
    using int assms by (simp add: mbr_defs) (simp add: mbr_num_def dkey_fmax)
  then show "\<exists>p. mbr_contains_point a p \<and> mbr_contains_point b p" ..
next
  assume "\<exists>p. mbr_contains_point a p \<and> mbr_contains_point b p"
  then obtain p where p: "mbr_contains_point a p" "mbr_contains_point b p" by blast
  then have "pt_num p" by (auto dest: mbr_contains_point_num)
  with p assms show "mbr_intersects a b" by (simp add: mbr_defs)
qed

lemma mbr_contains_mbr_iff_points:
  assumes "mbr_num a" "mbr_num b" "\<not> mbr_is_empty b"
  shows "mbr_contains_mbr a b \<longleftrightarrow> (\<forall>p. mbr_contains_point b p \<longrightarrow> mbr_contains_point a p)"
proof
  assume c: "mbr_contains_mbr a b"
  show "\<forall>p. mbr_contains_point b p \<longrightarrow> mbr_contains_point a p"
  proof (intro allI impI)
    fix p
    assume p: "mbr_contains_point b p"
    then have "pt_num p" by (auto dest: mbr_contains_point_num)
    with p c assms(1,2) show "mbr_contains_point a p" by (simp add: mbr_defs)
  qed
next
  assume all: "\<forall>p. mbr_contains_point b p \<longrightarrow> mbr_contains_point a p"
  let ?lo = "\<lparr>px = min_x b, py = min_y b\<rparr>" and ?hi = "\<lparr>px = max_x b, py = max_y b\<rparr>"
  have n: "pt_num ?lo" "pt_num ?hi"
    using assms(2) by (simp_all add: pt_num_def mbr_num_def)
  have "mbr_contains_point b ?lo" "mbr_contains_point b ?hi"
    using n assms by (simp_all add: mbr_defs)
  with all have "mbr_contains_point a ?lo" "mbr_contains_point a ?hi" by blast+
  with n assms show "mbr_contains_mbr a b" by (simp add: mbr_defs)
qed

lemma mbr_intersection_points:
  assumes "mbr_num a" "mbr_num b"
  shows "mbr_contains_point (mbr_intersection a b) p \<longleftrightarrow>
    mbr_contains_point a p \<and> mbr_contains_point b p"
proof (cases "mbr_intersects a b")
  case False
  then have "\<not> (mbr_contains_point a p \<and> mbr_contains_point b p)"
    using mbr_intersects_iff_common_point [OF assms] by blast
  moreover have "mbr_is_empty mbr_empty"
    by (simp add: mbr_is_empty_key) (simp add: mbr_empty_def inf_mag_def)
  ultimately show ?thesis
    using False by (auto simp: mbr_intersection_def mbr_contains_point_def)
next
  case True
  show ?thesis
  proof (cases "pt_num p")
    case False
    then show ?thesis by (auto dest: mbr_contains_point_num)
  next
    case p: True
    have n: "mbr_num (mbr_intersection a b)"
      using assms True by (simp add: mbr_intersection_def mbr_num_def)
    show ?thesis
      unfolding mbr_contains_point_key [OF n p] mbr_contains_point_key [OF assms(1) p]
        mbr_contains_point_key [OF assms(2) p]
      using assms True by (auto simp: mbr_intersection_def mbr_num_def dkey_fmax dkey_fmin)
  qed
qed

subsection \<open>Expansion\<close>

lemma mbr_expand_point_num: "mbr_num m \<Longrightarrow> pt_num p \<Longrightarrow> mbr_num (mbr_expand_point m p)"
  by (simp add: mbr_num_def pt_num_def mbr_expand_point_def)

lemma mbr_expand_mbr_num: "mbr_num m \<Longrightarrow> mbr_num b \<Longrightarrow> mbr_num (mbr_expand_mbr m b)"
  by (simp add: mbr_num_def mbr_expand_mbr_def)

lemma mbr_expand_point_keys:
  assumes "mbr_num m" "pt_num p"
  shows "dkey (min_x (mbr_expand_point m p)) = min (dkey (min_x m)) (dkey (px p))"
    "dkey (min_y (mbr_expand_point m p)) = min (dkey (min_y m)) (dkey (py p))"
    "dkey (max_x (mbr_expand_point m p)) = max (dkey (max_x m)) (dkey (px p))"
    "dkey (max_y (mbr_expand_point m p)) = max (dkey (max_y m)) (dkey (py p))"
  using assms by (simp_all add: mbr_expand_point_def mbr_num_def pt_num_def order_rules)

lemma mbr_expand_mbr_keys:
  assumes "mbr_num m" "mbr_num b" "\<not> mbr_is_empty b"
  shows "dkey (min_x (mbr_expand_mbr m b)) = min (dkey (min_x m)) (dkey (min_x b))"
    "dkey (min_y (mbr_expand_mbr m b)) = min (dkey (min_y m)) (dkey (min_y b))"
    "dkey (max_x (mbr_expand_mbr m b)) = max (dkey (max_x m)) (dkey (max_x b))"
    "dkey (max_y (mbr_expand_mbr m b)) = max (dkey (max_y m)) (dkey (max_y b))"
  using assms by (simp_all add: mbr_expand_mbr_def mbr_num_def order_rules)

text \<open>
  What a rectangle bounds: a point it contains; a rectangle that is empty or that it contains.
\<close>

definition bounds_point :: "MBR \<Rightarrow> Point \<Rightarrow> bool" where
  "bounds_point r p = (mbr_num r \<and> pt_num p \<and> mbr_contains_point r p)"

definition bounds_mbr :: "MBR \<Rightarrow> MBR \<Rightarrow> bool" where
  "bounds_mbr r b = (mbr_num r \<and> mbr_num b \<and> (mbr_is_empty b \<or> mbr_contains_mbr r b))"

interpretation ext_point: extent_of mbr_expand_point bounds_point pt_num mbr_num
proof
  fix r i
  assume "mbr_num r" "pt_num i"
  then show "bounds_point (mbr_expand_point r i) i"
    by (simp add: bounds_point_def mbr_expand_point_num mbr_contains_point_key mbr_expand_point_keys)
next
  fix r i j
  assume "mbr_num r" "pt_num i" "bounds_point r j"
  then show "bounds_point (mbr_expand_point r i) j"
    by (auto simp: bounds_point_def mbr_expand_point_num mbr_contains_point_key mbr_expand_point_keys)
qed (rule mbr_expand_point_num)

interpretation ext_mbr: extent_of mbr_expand_mbr bounds_mbr mbr_num mbr_num
proof
  fix r i
  assume "mbr_num r" "mbr_num i"
  then show "bounds_mbr (mbr_expand_mbr r i) i"
    by (cases "mbr_is_empty i")
      (auto simp: bounds_mbr_def mbr_expand_mbr_num mbr_contains_mbr_key mbr_expand_mbr_keys mbr_is_empty_key)
next
  fix r i j
  assume "mbr_num r" "mbr_num i" "bounds_mbr r j"
  then show "bounds_mbr (mbr_expand_mbr r i) j"
  proof (cases "mbr_is_empty i")
    case True
    with \<open>bounds_mbr r j\<close> show ?thesis by (simp add: mbr_expand_mbr_def)
  next
    case False
    with \<open>bounds_mbr r j\<close> \<open>mbr_num r\<close> \<open>mbr_num i\<close> show ?thesis
      by (auto simp: bounds_mbr_def mbr_expand_mbr_num mbr_contains_mbr_key mbr_expand_mbr_keys)
  qed
qed (rule mbr_expand_mbr_num)

text \<open>A region that bounds an item is visited by every query that hits the item.\<close>

interpretation point_region: search_region bounds_point mbr_intersects "\<lambda>p r. mbr_num r \<and> mbr_contains_point r p"
proof
  fix r p q
  assume "bounds_point r p" "mbr_num q \<and> mbr_contains_point q p"
  then show "mbr_intersects r q"
    using mbr_intersects_iff_common_point [of r q] by (auto simp: bounds_point_def)
qed

interpretation box_region: search_region bounds_mbr "\<lambda>r q. mbr_num q \<longrightarrow> mbr_intersects r q"
  "\<lambda>b q. mbr_num q \<and> mbr_intersects b q"
proof
  fix r b q
  assume r: "bounds_mbr r b" and q: "mbr_num q \<and> mbr_intersects b q"
  then have "mbr_contains_mbr r b"
    using mbr_intersects_nonempty by (auto simp: bounds_mbr_def)
  with r q show "mbr_num q \<longrightarrow> mbr_intersects r q"
    by (auto simp: bounds_mbr_def mbr_contains_mbr_key mbr_intersects_key)
qed

interpretation stab_region: search_region bounds_mbr mbr_contains_point mbr_contains_point
proof
  fix r b p
  assume r: "bounds_mbr r b" and p: "mbr_contains_point b p"
  then have "mbr_contains_mbr r b"
    using mbr_contains_point_nonempty by (auto simp: bounds_mbr_def)
  with r p mbr_contains_point_num [OF p] show "mbr_contains_point r p"
    by (auto simp: bounds_mbr_def mbr_contains_mbr_key mbr_contains_point_key)
qed

end
