(* ===== verification/Geometry_Objects.thy ===== *)
theory Geometry_Objects
  imports Geometry_MBR
begin

text \<open>
  Growth, copying and the derived data of the geometries of geometry.c: the arrays that double, the
  deep copies, the rectangle and centroid a spatial object carries, and the properties of geometry.c.
\<close>

subsection \<open>Arrays that double\<close>

definition ls_wf :: "LineString \<Rightarrow> bool" where
  "ls_wf ls = (length (ls_points ls) \<le> ls_capacity ls \<and> 0 < ls_capacity ls)"

definition ext_wf :: "Polygon \<Rightarrow> bool" where
  "ext_wf p = (length (exterior p) \<le> ext_capacity p \<and> 0 < ext_capacity p)"

lemma linestring_init_wf: "linestring_init al n = (GEOM_OK, ls) \<Longrightarrow> ls_wf ls \<and> ls_points ls = []"
  by (auto simp: linestring_init_def ls_wf_def Let_def split: if_splits)

lemma polygon_init_wf: "polygon_init al n = (GEOM_OK, p) \<Longrightarrow> ext_wf p \<and> exterior p = [] \<and> holes p = []"
  by (auto simp: polygon_init_def ext_wf_def zero_polygon_def Let_def split: if_splits)

lemma linestring_add_cases:
  assumes "ls_wf ls"
  shows "(\<exists>ls'. linestring_add_point al ls p = (GEOM_OK, ls') \<and> ls_wf ls' \<and> ls_points ls' = ls_points ls @ [p]) \<or>
    linestring_add_point al ls p = (GEOM_ERR_ALLOC, ls)"
  using assms by (auto simp: linestring_add_point_def ls_wf_def Let_def GROWTH_FACTOR_def)

lemma linestring_add_malloc_ok:
  "ls_points (snd (linestring_add_point malloc_ok ls p)) = ls_points ls @ [p]"
  "fst (linestring_add_point malloc_ok ls p) = GEOM_OK"
  by (simp_all add: linestring_add_point_def Let_def malloc_ok_simp)

lemma polygon_add_cases:
  assumes "ext_wf q"
  shows "(\<exists>q'. polygon_add_exterior_point al q p = (GEOM_OK, q') \<and> ext_wf q' \<and>
      exterior q' = exterior q @ [p] \<and> holes q' = holes q) \<or>
    polygon_add_exterior_point al q p = (GEOM_ERR_ALLOC, q)"
  using assms by (auto simp: polygon_add_exterior_point_def ext_wf_def Let_def GROWTH_FACTOR_def)

lemma polygon_add_malloc_ok:
  "exterior (snd (polygon_add_exterior_point malloc_ok q p)) = exterior q @ [p]"
  "holes (snd (polygon_add_exterior_point malloc_ok q p)) = holes q"
  "fst (polygon_add_exterior_point malloc_ok q p) = GEOM_OK"
  by (simp_all add: polygon_add_exterior_point_def Let_def malloc_ok_simp)

interpretation line_array: growable ls_points "\<lambda>al ls p. snd (linestring_add_point al ls p)" ls_wf
proof
  fix al s x
  assume w: "ls_wf s"
  show "ls_points (snd (linestring_add_point malloc_ok s x)) = ls_points s @ [x]"
    by (simp add: linestring_add_malloc_ok)
  show "ls_points (snd (linestring_add_point al s x)) = ls_points s @ [x] \<or> snd (linestring_add_point al s x) = s"
    using linestring_add_cases [OF w, of al x] by auto
  show "ls_wf (snd (linestring_add_point al s x))"
    using linestring_add_cases [OF w, of al x] w by auto
qed

interpretation ring_array: growable exterior "\<lambda>al q p. snd (polygon_add_exterior_point al q p)" ext_wf
proof
  fix al s x
  assume w: "ext_wf s"
  show "exterior (snd (polygon_add_exterior_point malloc_ok s x)) = exterior s @ [x]"
    by (simp add: polygon_add_malloc_ok)
  show "exterior (snd (polygon_add_exterior_point al s x)) = exterior s @ [x] \<or>
      snd (polygon_add_exterior_point al s x) = s"
    using polygon_add_cases [OF w, of al x] by auto
  show "ext_wf (snd (polygon_add_exterior_point al s x))"
    using polygon_add_cases [OF w, of al x] w by auto
qed

subsection \<open>The rectangle of a point sequence\<close>

lemma fold_expand_num:
  "(\<And>p. p \<in> set ps \<Longrightarrow> pt_num p) \<Longrightarrow> mbr_num m \<Longrightarrow> mbr_num (fold (\<lambda>p m. mbr_expand_point m p) ps m)"
  by (rule ext_point.fold_rok) auto

lemma expand_point_least:
  assumes "mbr_num m" "pt_num p" "mbr_num b" "mbr_contains_point b p" "mbr_is_empty m \<and> m = mbr_empty \<or> mbr_contains_mbr b m"
    "pt_finite p"
  shows "mbr_contains_mbr b (mbr_expand_point m p)"
proof -
  have f: "dkey (px p) < inf_mag" "- inf_mag < dkey (px p)" "dkey (py p) < inf_mag" "- inf_mag < dkey (py p)"
    using assms(6) by (auto simp: pt_finite_def finite_key abs_less_iff simp del: abs_dkey)
  show ?thesis
  proof (cases "m = mbr_empty")
    case True
    then show ?thesis
      using assms f by (simp add: mbr_contains_mbr_key mbr_expand_point_num mbr_expand_point_keys
          mbr_contains_point_key) (simp add: mbr_empty_def)
  next
    case False
    then show ?thesis
      using assms by (auto simp: mbr_contains_mbr_key mbr_expand_point_num mbr_expand_point_keys
          mbr_contains_point_key)
  qed
qed

lemma mbr_is_empty_empty [simp]: "mbr_is_empty mbr_empty"
  by (simp add: mbr_is_empty_key) (simp add: mbr_empty_def inf_mag_def)

lemma fold_expand_least:
  assumes "\<And>p. p \<in> set ps \<Longrightarrow> pt_finite p \<and> mbr_contains_point b p" "mbr_num b" "ps \<noteq> []"
  shows "mbr_contains_mbr b (fold (\<lambda>p m. mbr_expand_point m p) ps mbr_empty)"
  using assms(1,3)
proof (induction ps rule: rev_induct)
  case Nil
  then show ?case by simp
next
  case (snoc p ps)
  let ?m = "fold (\<lambda>p m. mbr_expand_point m p) ps mbr_empty"
  have "mbr_num ?m"
    using snoc.prems by (intro fold_expand_num) (auto intro: pt_finite_num)
  moreover have "mbr_is_empty ?m \<and> ?m = mbr_empty \<or> mbr_contains_mbr b ?m"
    using snoc by (cases "ps = []") auto
  ultimately show ?case
    using snoc.prems assms(2) by (auto intro!: expand_point_least intro: pt_finite_num)
qed

lemma fold_expand_bounds:
  "(\<And>p. p \<in> set ps \<Longrightarrow> pt_num p) \<Longrightarrow> p \<in> set ps \<Longrightarrow>
    bounds_point (fold (\<lambda>p m. mbr_expand_point m p) ps mbr_empty) p"
  by (rule ext_point.fold_covers) auto

subsection \<open>Deep copies\<close>

text \<open>What a copy has to preserve: the points, not the capacities.\<close>

fun geom_view :: "Geom \<Rightarrow> GeomType \<times> Point list \<times> Point list list" where
  "geom_view (G_point p) = (GEOM_POINT, [p], [])"
| "geom_view (G_line l) = (GEOM_LINESTRING, ls_points l, [])"
| "geom_view (G_polygon p) = (GEOM_POLYGON, exterior p, map r_points (holes p))"

lemma linestring_copy_ok:
  "\<exists>l. linestring_copy malloc_ok src = (GEOM_OK, l) \<and> ls_points l = ls_points src \<and> ls_wf l"
  by (auto simp: linestring_copy_def linestring_init_def ls_wf_def Let_def malloc_ok_simp)

lemma polygon_add_hole_ok:
  "\<exists>d'. polygon_add_hole malloc_ok d n = (GEOM_OK, d') \<and> exterior d' = exterior d \<and>
    ext_capacity d' = ext_capacity d \<and> (\<exists>c. holes d' = holes d @ [\<lparr>r_points = [], r_capacity = c\<rparr>] \<and> n \<le> c)"
  by (simp add: polygon_add_hole_def polygon_grow_holes_def Let_def malloc_ok_simp)

lemma polygon_copy_holes_ok:
  "\<exists>d'. polygon_copy_holes malloc_ok d hs = (GEOM_OK, d') \<and> exterior d' = exterior d \<and>
    ext_capacity d' = ext_capacity d \<and> map r_points (holes d') = map r_points (holes d) @ map r_points hs"
proof (induction hs arbitrary: d)
  case Nil
  then show ?case by simp
next
  case (Cons h hs)
  obtain d' c where a: "polygon_add_hole malloc_ok d (length (r_points h)) = (GEOM_OK, d')"
    "exterior d' = exterior d" "ext_capacity d' = ext_capacity d"
    "holes d' = holes d @ [\<lparr>r_points = [], r_capacity = c\<rparr>]"
    using polygon_add_hole_ok by blast
  from Cons.IH [of "d'\<lparr>holes := (holes d')[length (holes d) := (holes d' ! length (holes d))\<lparr>r_points := r_points h\<rparr>]\<rparr>"] a
  show ?case by (auto simp: Let_def)
qed

lemma polygon_copy_ok:
  "\<exists>p. polygon_copy malloc_ok src = (GEOM_OK, p) \<and> exterior p = exterior src \<and>
    map r_points (holes p) = map r_points (holes src) \<and> ext_wf p"
proof -
  obtain d where d: "polygon_init malloc_ok (length (exterior src)) = (GEOM_OK, d)" "holes d = []"
    "length (exterior src) \<le> ext_capacity d" "0 < ext_capacity d"
    by (auto simp: polygon_init_def zero_polygon_def Let_def malloc_ok_simp)
  with polygon_copy_holes_ok [of "d\<lparr>exterior := exterior src\<rparr>" "holes src"] show ?thesis
    by (auto simp: polygon_copy_def ext_wf_def)
qed

lemma geom_copy_ok: "\<exists>g'. geom_copy malloc_ok g = (GEOM_OK, g') \<and> geom_view g' = geom_view g"
proof (cases g)
  case (G_line l)
  with linestring_copy_ok [of l] show ?thesis by (auto simp: geom_copy_def)
next
  case (G_polygon p)
  with polygon_copy_ok [of p] show ?thesis by (auto simp: geom_copy_def)
qed (simp add: geom_copy_def)

definition object_view :: "SpatialObject \<Rightarrow> 64 word \<times> (GeomType \<times> Point list \<times> Point list list) \<times> Point \<times> MBR \<times> 8 word list" where
  "object_view obj = (so_id obj, geom_view (so_geom obj), so_centroid obj, so_mbr obj, so_properties obj)"

lemma spatial_object_copy_ok:
  "\<exists>d. spatial_object_copy malloc_ok src = (GEOM_OK, d) \<and> object_view d = object_view src"
proof -
  obtain g where "geom_copy malloc_ok (so_geom src) = (GEOM_OK, g)" "geom_view g = geom_view (so_geom src)"
    using geom_copy_ok by blast
  then show ?thesis
    by (auto simp: spatial_object_copy_def spatial_object_set_properties_def object_view_def zero_object_def Let_def malloc_ok_simp)
qed

subsection \<open>Derived data\<close>

text \<open>The points the rectangle of an object is computed from: holes lie inside the exterior ring.\<close>

fun outline :: "Geom \<Rightarrow> Point list" where
  "outline (G_point p) = [p]"
| "outline (G_line l) = ls_points l"
| "outline (G_polygon p) = exterior p"

lemma update_derived_ok_iff:
  "fst (spatial_object_update_derived obj) = GEOM_OK \<longleftrightarrow>
    (case so_geom obj of G_point p \<Rightarrow> True | G_line l \<Rightarrow> ls_points l \<noteq> [] | G_polygon p \<Rightarrow> 3 \<le> length (exterior p))"
  by (cases "so_geom obj")
    (auto simp: spatial_object_update_derived_def linestring_centroid_def linestring_mbr_def
      polygon_centroid_def polygon_mbr_def Let_def split: prod.splits)

lemma update_derived_error:
  "spatial_object_update_derived obj = (err, obj') \<Longrightarrow> err \<noteq> GEOM_OK \<Longrightarrow> obj' = obj"
  by (cases "so_geom obj")
    (auto simp: spatial_object_update_derived_def linestring_centroid_def linestring_mbr_def
      polygon_centroid_def polygon_mbr_def Let_def split: prod.splits if_splits)

lemma update_derived_mbr:
  assumes "spatial_object_update_derived obj = (GEOM_OK, obj')"
  shows "so_mbr obj' = (case so_geom obj of G_point p \<Rightarrow> mbr_create (px p) (py p) (px p) (py p)
      | _ \<Rightarrow> fold (\<lambda>p m. mbr_expand_point m p) (outline (so_geom obj)) mbr_empty) \<and>
    so_geom obj' = so_geom obj \<and> so_id obj' = so_id obj"
  using assms by (cases "so_geom obj")
    (auto simp: spatial_object_update_derived_def linestring_mbr_def polygon_mbr_def
      linestring_centroid_def polygon_centroid_def Let_def split: prod.splits if_splits)

lemma bounds_point_create: "pt_num p \<Longrightarrow> bounds_point (mbr_create (px p) (py p) (px p) (py p)) p"
  by (simp add: bounds_point_def mbr_contains_point_key) (simp add: mbr_create_def)

lemma update_derived_bounds:
  assumes "spatial_object_update_derived obj = (GEOM_OK, obj')"
    "\<And>p. p \<in> set (outline (so_geom obj)) \<Longrightarrow> pt_num p" "p \<in> set (outline (so_geom obj))"
  shows "bounds_point (so_mbr obj') p"
  using update_derived_mbr [OF assms(1)] assms(2,3)
  by (auto simp: fold_expand_bounds bounds_point_create split: Geom.splits)

end
