(* ===== verification/Geometry_Props.thy ===== *)
theory Geometry_Props
  imports Geometry_Objects
begin

text \<open>
  The properties of geometry.c, with their witnesses.  \<open>d_one\<close>, \<open>d_two\<close> and \<open>d_three\<close> are the doubles
  1, 2 and 3; the witnesses use the triangle with the corners (1,1), (3,1) and (2,3).
\<close>

definition d_one :: double where "d_one = Dbl 0x3FF0000000000000"
definition d_three :: double where "d_three = Dbl 0x4008000000000000"

lemma sample_facts [simp]:
  "\<not> isnan d_one" "\<not> isnan d_two" "\<not> isnan d_three" "finite_d d_one" "finite_d d_two" "finite_d d_three"
  "dkey d_one = 0x3FF0000000000000" "dkey d_two = 0x4000000000000000" "dkey d_three = 0x4008000000000000"
  by (simp_all add: d_one_def d_two_def d_three_def isnan_def finite_d_def dkey_def dmag_def dneg_def inf_mag_def)

definition sample_box :: "double \<Rightarrow> double \<Rightarrow> MBR" where
  "sample_box lo hi = mbr_create lo lo hi hi"

definition sample_triangle :: Polygon where
  "sample_triangle = \<lparr>exterior = [\<lparr>px = d_one, py = d_one\<rparr>, \<lparr>px = d_three, py = d_one\<rparr>, \<lparr>px = d_two, py = d_three\<rparr>],
     ext_capacity = 16, holes = [], holes_capacity = 0\<rparr>"

definition sample_object :: SpatialObject where
  "sample_object = zero_object\<lparr>so_id := 7, so_geom := G_polygon sample_triangle, so_mbr := mbr_empty\<rparr>"

lemma sample_box_num [simp]: "\<not> isnan lo \<Longrightarrow> \<not> isnan hi \<Longrightarrow> mbr_num (sample_box lo hi)"
  by (simp add: sample_box_def mbr_num_def mbr_create_def)

lemma sample_object_finite: "\<forall>p \<in> set (outline (so_geom sample_object)). pt_finite p"
  by (simp add: sample_object_def sample_triangle_def pt_finite_def zero_object_def)

subsection \<open>Rectangles\<close>

text \<open>
  The rectangle predicates say what they mean about points.  For rectangles without NaN
  coordinates, \<open>mbr_intersects\<close> holds exactly when the two have a point in common, \<open>mbr_contains_mbr\<close>
  exactly when the second is not empty and every point of it is in the first, and the points of
  \<open>mbr_intersection\<close> are exactly the common points.
\<close>

theorem mbr_predicates_correct:
  assumes "mbr_num a" "mbr_num b"
  shows "(mbr_intersects a b \<longleftrightarrow> (\<exists>p. mbr_contains_point a p \<and> mbr_contains_point b p)) \<and>
    (mbr_contains_mbr a b \<longleftrightarrow> \<not> mbr_is_empty b \<and> (\<forall>p. mbr_contains_point b p \<longrightarrow> mbr_contains_point a p)) \<and>
    (mbr_contains_point (mbr_intersection a b) p \<longleftrightarrow> mbr_contains_point a p \<and> mbr_contains_point b p)"
proof -
  have "mbr_contains_mbr a b \<longleftrightarrow> \<not> mbr_is_empty b \<and> (\<forall>p. mbr_contains_point b p \<longrightarrow> mbr_contains_point a p)"
    using mbr_contains_mbr_iff_points [OF assms] by (cases "mbr_is_empty b") (simp_all add: mbr_contains_mbr_def)
  with mbr_intersects_iff_common_point [OF assms] mbr_intersection_points [OF assms] show ?thesis by blast
qed

theorem mbr_predicates_correct_witness:
  "mbr_intersects (sample_box d_one d_two) (sample_box d_two d_three) \<longleftrightarrow>
    (\<exists>p. mbr_contains_point (sample_box d_one d_two) p \<and> mbr_contains_point (sample_box d_two d_three) p)"
  using mbr_predicates_correct [of "sample_box d_one d_two" "sample_box d_two d_three"] by simp

text \<open>
  The centre of a non-empty rectangle of finite coordinates lies in the rectangle, rounding
  included, as long as the sums of its opposite coordinates do not overflow.
\<close>

theorem mbr_centroid_inside:
  assumes "mbr_num m" "\<not> mbr_is_empty m"
    "finite_d (min_x m)" "finite_d (max_x m)" "finite_d (min_y m)" "finite_d (max_y m)"
    "finite_d (fadd (min_x m) (max_x m))" "finite_d (fadd (min_y m) (max_y m))"
  shows "mbr_contains_point m (mbr_centroid m)"
proof -
  have le: "dkey (min_x m) \<le> dkey (max_x m)" "dkey (min_y m) \<le> dkey (max_y m)"
    using assms(1,2) by (auto simp: mbr_is_empty_key)
  note x = midpoint_between [OF assms(3,4) le(1) assms(7)] and y = midpoint_between [OF assms(5,6) le(2) assms(8)]
  have "pt_num (mbr_centroid m)"
    using assms(2) x y by (simp add: mbr_centroid_def pt_num_def)
  then show ?thesis
    using assms(1,2) x y by (simp add: mbr_contains_point_key) (simp add: mbr_centroid_def)
qed

theorem mbr_centroid_inside_witness: "mbr_contains_point (sample_box d_one d_three) (mbr_centroid (sample_box d_one d_three))"
proof -
  have "finite_d (fadd d_one d_three)"
    unfolding d_one_def d_three_def by code_simp
  moreover have "\<not> mbr_is_empty (sample_box d_one d_three)"
    by (simp add: mbr_is_empty_key) (simp add: sample_box_def mbr_create_def)
  ultimately show ?thesis
    by (intro mbr_centroid_inside) (simp_all add: sample_box_def mbr_create_def mbr_num_def)
qed

subsection \<open>Growing arrays\<close>

text \<open>
  Appending to a line string.  A line string made by \<open>linestring_init\<close>, whatever capacity was
  asked for, and extended by \<open>linestring_add_point\<close> for each point of a list holds exactly these
  points in order when the allocator succeeds; its count never exceeds its capacity; and a step that
  fails reports \<open>GEOM_ERR_ALLOC\<close> and changes nothing.
\<close>

theorem linestring_append_all:
  assumes "linestring_init al capacity = (GEOM_OK, ls)"
  shows "ls_points (fold (\<lambda>p s. snd (linestring_add_point malloc_ok s p)) ps ls) = ps \<and>
    ls_wf (fold (\<lambda>p s. snd (linestring_add_point al s p)) ps ls) \<and>
    (\<forall>s p. ls_wf s \<longrightarrow> (case linestring_add_point al s p of
       (GEOM_OK, s') \<Rightarrow> ls_points s' = ls_points s @ [p] | (err, s') \<Rightarrow> err = GEOM_ERR_ALLOC \<and> s' = s))"
proof -
  have w: "ls_wf ls" "ls_points ls = []" using linestring_init_wf [OF assms] by simp_all
  have "case linestring_add_point al s p of
       (GEOM_OK, s') \<Rightarrow> ls_points s' = ls_points s @ [p] | (err, s') \<Rightarrow> err = GEOM_ERR_ALLOC \<and> s' = s"
    if "ls_wf s" for s p
    using linestring_add_cases [OF that, of al p] by auto
  then show ?thesis
    using line_array.fold_add [OF w(1), of ps] line_array.wf_fold [OF w(1), of al ps] w(2) by simp
qed

theorem linestring_append_all_witness:
  "ls_points (fold (\<lambda>p s. snd (linestring_add_point malloc_ok s p)) (exterior sample_triangle)
     \<lparr>ls_points = [], ls_capacity = 1\<rparr>) = exterior sample_triangle"
  using linestring_append_all [of malloc_ok 1 "\<lparr>ls_points = [], ls_capacity = 1\<rparr>" "exterior sample_triangle"]
  by (simp add: linestring_init_def malloc_ok_simp)

subsection \<open>Objects\<close>

text \<open>
  The rectangle of an object is the least one that contains its geometry.  When
  \<open>spatial_object_update_derived\<close> succeeds on an object with finite vertices, its rectangle contains
  every vertex, and every rectangle that contains all vertices contains it.
\<close>

theorem update_derived_least_mbr:
  assumes "spatial_object_update_derived obj = (GEOM_OK, obj')"
    "\<forall>p \<in> set (outline (so_geom obj)). pt_finite p"
  shows "(\<forall>p \<in> set (outline (so_geom obj)). mbr_contains_point (so_mbr obj') p) \<and>
    (\<forall>b. mbr_num b \<and> (\<forall>p \<in> set (outline (so_geom obj)). mbr_contains_point b p) \<longrightarrow> mbr_contains_mbr b (so_mbr obj'))"
proof (intro conjI ballI allI impI)
  fix p
  assume "p \<in> set (outline (so_geom obj))"
  then show "mbr_contains_point (so_mbr obj') p"
    using update_derived_bounds [OF assms(1), of p] assms(2) by (simp add: pt_finite_num bounds_point_def)
next
  fix b
  assume b: "mbr_num b \<and> (\<forall>p \<in> set (outline (so_geom obj)). mbr_contains_point b p)"
  have ne: "outline (so_geom obj) \<noteq> []"
    using update_derived_ok_iff [of obj] assms(1) by (auto split: Geom.splits)
  show "mbr_contains_mbr b (so_mbr obj')"
  proof (cases "so_geom obj")
    case (G_point p)
    then have p: "pt_num p" "mbr_num b" "mbr_contains_point b p" and m: "so_mbr obj' = mbr_create (px p) (py p) (px p) (py p)"
      using update_derived_mbr [OF assms(1)] b assms(2) by (auto intro: pt_finite_num)
    then show ?thesis
      by (simp add: mbr_contains_mbr_key mbr_contains_point_key) (simp add: mbr_create_def)
  next
    case (G_line l)
    with update_derived_mbr [OF assms(1)] b assms(2) ne show ?thesis by (auto intro!: fold_expand_least)
  next
    case (G_polygon q)
    with update_derived_mbr [OF assms(1)] b assms(2) ne show ?thesis by (auto intro!: fold_expand_least)
  qed
qed

theorem update_derived_least_mbr_witness:
  "\<exists>obj'. spatial_object_update_derived sample_object = (GEOM_OK, obj') \<and>
    (\<forall>p \<in> set (exterior sample_triangle). mbr_contains_point (so_mbr obj') p)"
proof -
  have "fst (spatial_object_update_derived sample_object) = GEOM_OK"
    by (simp add: update_derived_ok_iff sample_object_def sample_triangle_def)
  then obtain obj' where d: "spatial_object_update_derived sample_object = (GEOM_OK, obj')"
    by (cases "spatial_object_update_derived sample_object") simp
  with update_derived_least_mbr [OF d sample_object_finite] show ?thesis
    by (auto simp: sample_object_def)
qed

text \<open>
  When derived data is computed.  \<open>spatial_object_update_derived\<close> succeeds exactly for points,
  line strings with a point, and polygons whose exterior has three points; it never changes the id or
  the geometry; and when it fails it leaves the object as it was, so that an object fresh from
  \<open>spatial_object_init_polygon\<close> keeps its empty rectangle.
\<close>

theorem update_derived_total:
  "(fst (spatial_object_update_derived obj) = GEOM_OK \<longleftrightarrow>
     (case so_geom obj of G_point p \<Rightarrow> True | G_line l \<Rightarrow> ls_points l \<noteq> [] | G_polygon p \<Rightarrow> length (exterior p) > 2)) \<and>
   so_geom (snd (spatial_object_update_derived obj)) = so_geom obj \<and>
   so_id (snd (spatial_object_update_derived obj)) = so_id obj \<and>
   (fst (spatial_object_update_derived obj) = GEOM_OK \<or> snd (spatial_object_update_derived obj) = obj)"
proof -
  obtain err obj' where d: "spatial_object_update_derived obj = (err, obj')" by (cases "spatial_object_update_derived obj")
  have "so_geom obj' = so_geom obj \<and> so_id obj' = so_id obj \<and> (err = GEOM_OK \<or> obj' = obj)"
    using d update_derived_mbr [of obj obj'] update_derived_error [OF d] by (cases "err = GEOM_OK") auto
  with d update_derived_ok_iff [of obj] show ?thesis
    by (auto split: Geom.splits)
qed

text \<open>
  \<open>spatial_object_copy\<close> makes a deep copy.  When the allocator succeeds it returns \<open>GEOM_OK\<close> and
  an object with the same id, kind of geometry, points, holes, centroid, rectangle and properties.
\<close>

theorem spatial_object_copy_deep:
  "fst (spatial_object_copy malloc_ok src) = GEOM_OK \<and>
   object_view (snd (spatial_object_copy malloc_ok src)) = object_view src"
  using spatial_object_copy_ok [of src] by auto

end
