(* ===== verification/KDTree.thy ===== *)
theory KDTree
  imports Geometry_Objects "HOL-Library.Log_Nat"
begin

text \<open>
  src/include/kdtree.h and src/src/kdtree.c: the k-d tree, its construction by insertion and by
  median splits, and its queries.

  A node pointer is a datatype with the constructor \<open>KNull\<close> for NULL: nodes are not shared.  The
  type \<open>'d\<close> is that of the \<open>void *\<close> data pointers.  The three parallel arrays of a query result have
  one counter; they are one list of triples.  An \<open>int\<close> depth or dimension is a natural number.

  The standard library's \<open>qsort\<close> is an argument of the bulk load.  What the C standard promises of
  it is the locale \<open>qsort_contract\<close> below: it permutes the array, and no element compares greater
  than a later one when the comparison is a weak order on the elements.  How equal elements are
  ordered is not specified, and no lemma relies on it.

  \<open>ceil(log2(x))\<close> in the balance test is the integer \<open>ceil_log2\<close>.
\<close>

subsection \<open>Types\<close>

record 'd KDPointData =
  pd_point :: Point
  pd_id :: "64 word"
  pd_data :: 'd

datatype 'd KDNode = KNull
  | KDNode (kd_point: Point) (kd_id: "64 word") (kd_data: 'd) (split_dim: nat)
      (kd_left: "'d KDNode") (kd_right: "'d KDNode") (kd_bounds: MBR) (subtree_size: "32 word")

record 'd KDTree =
  kt_root :: "'d KDNode"
  kt_size :: nat
  kt_bounds :: MBR

record 'd KDQueryResult =
  kr_entries :: "'d KDPointData list"
  kr_capacity :: nat

datatype KDError = KD_OK | KD_ERR_NULL_PTR | KD_ERR_ALLOC | KD_ERR_EMPTY | KD_ERR_NOT_FOUND

definition sizeof_KDNode :: nat where "sizeof_KDNode = 96"
definition sizeof_KDPointData :: nat where "sizeof_KDPointData = 32"
definition sizeof_MBR :: nat where "sizeof_MBR = 32"
definition sizeof_u64 :: nat where "sizeof_u64 = 8"
definition sizeof_DistEntry :: nat where "sizeof_DistEntry = 16"

subsection \<open>Comparison functions\<close>

definition compare_by_x :: "'d KDPointData \<Rightarrow> 'd KDPointData \<Rightarrow> int" where
  "compare_by_x a b =
     (if flt (px (pd_point a)) (px (pd_point b)) then -1
      else if fgt (px (pd_point a)) (px (pd_point b)) then 1 else 0)"

definition compare_by_y :: "'d KDPointData \<Rightarrow> 'd KDPointData \<Rightarrow> int" where
  "compare_by_y a b =
     (if flt (py (pd_point a)) (py (pd_point b)) then -1
      else if fgt (py (pd_point a)) (py (pd_point b)) then 1 else 0)"

type_synonym 'd qsort = "('d KDPointData \<Rightarrow> 'd KDPointData \<Rightarrow> int) \<Rightarrow> 'd KDPointData list \<Rightarrow> 'd KDPointData list"

subsection \<open>Query results\<close>

definition kdresult_init :: "allocator \<Rightarrow> nat \<Rightarrow> KDError \<times> 'd KDQueryResult" where
  "kdresult_init al capacity =
     (let cap = (if capacity > 0 then capacity else 16) in
      if al (cap * sizeof_u64) \<and> al (cap * sizeof_Point) \<and> al (cap * sizeof_ptr)
      then (KD_OK, \<lparr>kr_entries = [], kr_capacity = cap\<rparr>)
      else (KD_ERR_ALLOC, \<lparr>kr_entries = [], kr_capacity = 0\<rparr>))"

definition kdresult_free :: "'d KDQueryResult \<Rightarrow> 'd KDQueryResult" where
  "kdresult_free result = \<lparr>kr_entries = [], kr_capacity = 0\<rparr>"

definition kdresult_clear :: "'d KDQueryResult \<Rightarrow> 'd KDQueryResult" where
  "kdresult_clear result = result\<lparr>kr_entries := []\<rparr>"

definition kdresult_add ::
  "allocator \<Rightarrow> 'd KDQueryResult \<Rightarrow> Point \<Rightarrow> 64 word \<Rightarrow> 'd \<Rightarrow> KDError \<times> 'd KDQueryResult" where
  "kdresult_add al result p oid data =
     (let entry = \<lparr>pd_point = p, pd_id = oid, pd_data = data\<rparr> in
      if length (kr_entries result) \<ge> kr_capacity result then
        (let new_cap = kr_capacity result * GROWTH_FACTOR in
         if al (new_cap * sizeof_u64) \<and> al (new_cap * sizeof_Point) \<and> al (new_cap * sizeof_ptr)
         then (KD_OK, result\<lparr>kr_entries := kr_entries result @ [entry], kr_capacity := new_cap\<rparr>)
         else (KD_ERR_ALLOC, result))
      else (KD_OK, result\<lparr>kr_entries := kr_entries result @ [entry]\<rparr>))"

subsection \<open>Nodes\<close>

definition kdnode_create :: "allocator \<Rightarrow> Point \<Rightarrow> 64 word \<Rightarrow> 'd \<Rightarrow> nat \<Rightarrow> 'd KDNode" where
  "kdnode_create al p oid data sd =
     (if al sizeof_KDNode
      then KDNode p oid data sd KNull KNull (mbr_create (px p) (py p) (px p) (py p)) 1
      else KNull)"

text \<open>\<open>kdnode_update_bounds\<close> on a node with the given children: its bounds and its size.\<close>

definition kdnode_update_bounds :: "'d KDNode \<Rightarrow> 'd KDNode" where
  "kdnode_update_bounds node =
     (case node of KNull \<Rightarrow> KNull
      | KDNode p oid data sd l r b n \<Rightarrow>
          (let b0 = mbr_create (px p) (py p) (px p) (py p);
               b1 = (if l \<noteq> KNull then mbr_expand_mbr b0 (kd_bounds l) else b0);
               n1 = (if l \<noteq> KNull then 1 + subtree_size l else 1);
               b2 = (if r \<noteq> KNull then mbr_expand_mbr b1 (kd_bounds r) else b1);
               n2 = (if r \<noteq> KNull then n1 + subtree_size r else n1)
           in KDNode p oid data sd l r b2 n2))"

definition kd_coord :: "nat \<Rightarrow> Point \<Rightarrow> double" where
  "kd_coord sd p = (if sd = 0 then px p else py p)"

subsection \<open>Construction\<close>

text \<open>
  The recursion is on \<open>cnt\<close>, the \<open>count\<close> of the C code.  The C code sorts the slice in place; the recursive calls work on the
  two disjoint parts before and after the median of the sorted slice.
\<close>

function build_tree_recursive ::
  "'d qsort \<Rightarrow> allocator \<Rightarrow> 'd KDPointData list \<Rightarrow> nat \<Rightarrow> nat \<Rightarrow> 'd KDNode" where
  "build_tree_recursive qs al points cnt depth =
     (if cnt = 0 then KNull
      else
        let sd = depth mod 2;
            sorted = qs (if sd = 0 then compare_by_x else compare_by_y) points;
            median = cnt div 2;
            m = sorted ! median
        in case kdnode_create al (pd_point m) (pd_id m) (pd_data m) sd of
             KNull \<Rightarrow> KNull
           | KDNode p oid data d l r b n \<Rightarrow>
               kdnode_update_bounds (KDNode p oid data d
                 (build_tree_recursive qs al (take median sorted) median (depth + 1))
                 (build_tree_recursive qs al (drop (median + 1) sorted) (cnt - median - 1) (depth + 1))
                 b n))"
  by pat_completeness auto
termination by (relation "measure (\<lambda>(qs, al, points, cnt, depth). cnt)") auto

declare build_tree_recursive.simps [simp del]

fun insert_recursive ::
  "allocator \<Rightarrow> 'd KDNode \<Rightarrow> Point \<Rightarrow> 64 word \<Rightarrow> 'd \<Rightarrow> nat \<Rightarrow> 'd KDNode" where
  "insert_recursive al KNull p oid data depth = kdnode_create al p oid data (depth mod 2)"
| "insert_recursive al (KDNode q qid qdata sd l r b n) p oid data depth =
     (if flt (kd_coord sd p) (kd_coord sd q)
      then KDNode q qid qdata sd (insert_recursive al l p oid data (depth + 1)) r
             (mbr_expand_point b p) (n + 1)
      else KDNode q qid qdata sd l (insert_recursive al r p oid data (depth + 1))
             (mbr_expand_point b p) (n + 1))"

definition kdtree_init :: "'d KDTree" where
  "kdtree_init = \<lparr>kt_root = KNull, kt_size = 0, kt_bounds = mbr_empty\<rparr>"

definition kdtree_free :: "'d KDTree \<Rightarrow> 'd KDTree" where
  "kdtree_free tree = tree\<lparr>kt_root := KNull, kt_size := 0, kt_bounds := mbr_empty\<rparr>"

definition kdtree_insert ::
  "allocator \<Rightarrow> 'd KDTree \<Rightarrow> Point \<Rightarrow> 64 word \<Rightarrow> 'd \<Rightarrow> KDError \<times> 'd KDTree" where
  "kdtree_insert al tree p oid data =
     (let root = insert_recursive al (kt_root tree) p oid data 0 in
      if root = KNull then (KD_ERR_ALLOC, tree\<lparr>kt_root := KNull\<rparr>)
      else (KD_OK, \<lparr>kt_root = root, kt_size = kt_size tree + 1,
                    kt_bounds = mbr_expand_point (kt_bounds tree) p\<rparr>))"

definition kdtree_bulk_load ::
  "'d qsort \<Rightarrow> allocator \<Rightarrow> 'd KDTree \<Rightarrow> 'd KDPointData list \<Rightarrow> KDError \<times> 'd KDTree" where
  "kdtree_bulk_load qs al tree points =
     (let count = length points in
      if count = 0 then (KD_OK, tree)
      else let freed = kdtree_free tree in
        if \<not> al (count * sizeof_KDPointData) then (KD_ERR_ALLOC, freed)
        else let root = build_tree_recursive qs al points count 0 in
          if root = KNull then (KD_ERR_ALLOC, freed)
          else (KD_OK, \<lparr>kt_root = root, kt_size = count,
                  kt_bounds = fold (\<lambda>e m. mbr_expand_point m (pd_point e)) points (kt_bounds freed)\<rparr>))"

subsection \<open>Queries\<close>

record 'd NNState =
  nn_query :: Point
  nn_best :: Point
  nn_best_id :: "64 word"
  nn_best_data :: 'd
  nn_best_dist_sq :: double

fun nearest_recursive :: "'d KDNode \<Rightarrow> 'd NNState \<Rightarrow> 'd NNState" where
  "nearest_recursive KNull state = state"
| "nearest_recursive (KDNode p oid data sd l r b n) state =
     (let dist_sq = point_distance_sq (nn_query state) p;
          state1 = (if flt dist_sq (nn_best_dist_sq state)
            then state\<lparr>nn_best_dist_sq := dist_sq, nn_best := p, nn_best_id := oid, nn_best_data := data\<rparr>
            else state);
          diff = fsub (kd_coord sd (nn_query state)) (kd_coord sd p)
      in if flt diff d_zero then
           (let state2 = nearest_recursive l state1 in
            if flt (fmul diff diff) (nn_best_dist_sq state2) then nearest_recursive r state2 else state2)
         else
           (let state2 = nearest_recursive r state1 in
            if flt (fmul diff diff) (nn_best_dist_sq state2) then nearest_recursive l state2 else state2))"

definition kdtree_nearest :: "'d KDTree \<Rightarrow> Point \<Rightarrow> KDError + Point \<times> 64 word \<times> 'd" where
  "kdtree_nearest tree query =
     (case kt_root tree of
        KNull \<Rightarrow> Inl KD_ERR_EMPTY
      | KDNode p oid data sd l r b n \<Rightarrow>
          (let state = nearest_recursive (kt_root tree)
             \<lparr>nn_query = query, nn_best = p, nn_best_id = oid, nn_best_data = data,
              nn_best_dist_sq = DBL_MAX\<rparr>
           in Inr (nn_best state, nn_best_id state, nn_best_data state)))"

fun range_query_recursive :: "allocator \<Rightarrow> 'd KDNode \<Rightarrow> MBR \<Rightarrow> 'd KDQueryResult \<Rightarrow> 'd KDQueryResult" where
  "range_query_recursive al KNull rng result = result"
| "range_query_recursive al (KDNode p oid data sd l r b n) rng result =
     (if \<not> mbr_intersects b rng then result
      else let result1 = (if mbr_contains_point rng p then snd (kdresult_add al result p oid data) else result);
               result2 = range_query_recursive al l rng result1
           in range_query_recursive al r rng result2)"

definition kdtree_range_query ::
  "allocator \<Rightarrow> 'd KDTree \<Rightarrow> MBR \<Rightarrow> 'd KDQueryResult \<Rightarrow> KDError \<times> 'd KDQueryResult" where
  "kdtree_range_query al tree rng result =
     (KD_OK, range_query_recursive al (kt_root tree) rng (kdresult_clear result))"

text \<open>\<open>for (j = i + 1; j < count; j++) if (d[j].dist_sq < d[min_idx].dist_sq) min_idx = j;\<close>\<close>

definition min_dist_index :: "(nat \<times> double) list \<Rightarrow> nat \<Rightarrow> nat" where
  "min_dist_index ds i =
     fold (\<lambda>j min_idx. if flt (snd (ds ! j)) (snd (ds ! min_idx)) then j else min_idx) [i + 1..<length ds] i"

definition select_step ::
  "allocator \<Rightarrow> 'd KDPointData list \<Rightarrow> nat \<Rightarrow> (nat \<times> double) list \<times> 'd KDQueryResult \<Rightarrow>
   (nat \<times> double) list \<times> 'd KDQueryResult" where
  "select_step al all_entries i = (\<lambda>(ds, result).
     let min_idx = min_dist_index ds i;
         ds' = (if min_idx \<noteq> i then ds[i := ds ! min_idx, min_idx := ds ! i] else ds);
         e = all_entries ! fst (ds' ! i)
     in (ds', snd (kdresult_add al result (pd_point e) (pd_id e) (pd_data e))))"

definition kdtree_k_nearest ::
  "allocator \<Rightarrow> 'd KDTree \<Rightarrow> Point \<Rightarrow> nat \<Rightarrow> 'd KDQueryResult \<Rightarrow> KDError \<times> 'd KDQueryResult" where
  "kdtree_k_nearest al tree query k result =
     (if kt_root tree = KNull then (KD_ERR_EMPTY, result)
      else if k = 0 then (KD_OK, result)
      else let result0 = kdresult_clear result in
        case kdresult_init al (kt_size tree) of
          (KD_OK, all0) \<Rightarrow>
            (let all_entries = kr_entries (range_query_recursive al (kt_root tree) (kt_bounds tree) all0);
                 count = length all_entries
             in if \<not> al (count * sizeof_DistEntry) then (KD_ERR_ALLOC, result0)
                else let ds = map (\<lambda>i. (i, point_distance_sq query (pd_point (all_entries ! i)))) [0..<count];
                         (ds', result') = fold (select_step al all_entries) [0..<min k count] (ds, result0)
                     in (KD_OK, result'))
        | (err, all0) \<Rightarrow> (err, result0))"

definition kdtree_radius_query ::
  "allocator \<Rightarrow> 'd KDTree \<Rightarrow> Point \<Rightarrow> double \<Rightarrow> 'd KDQueryResult \<Rightarrow> KDError \<times> 'd KDQueryResult" where
  "kdtree_radius_query al tree query radius result =
     (let rng = mbr_create (fsub (px query) radius) (fsub (py query) radius)
                    (fadd (px query) radius) (fadd (py query) radius) in
      case kdresult_init al 64 of
        (KD_OK, box0) \<Rightarrow>
          (let (err, box) = kdtree_range_query al tree rng box0 in
           if err \<noteq> KD_OK then (err, result)
           else let radius_sq = fmul radius radius in
             (KD_OK, fold (\<lambda>e res. if fle (point_distance_sq query (pd_point e)) radius_sq
                        then snd (kdresult_add al res (pd_point e) (pd_id e) (pd_data e)) else res)
                (kr_entries box) (kdresult_clear result)))
      | (err, box0) \<Rightarrow> (err, result))"

text \<open>The loop of \<open>kdtree_find_leaf\<close> goes down the tree.\<close>

fun find_leaf_loop :: "'d KDNode \<Rightarrow> Point \<Rightarrow> 'd KDNode" where
  "find_leaf_loop KNull p = KNull"
| "find_leaf_loop (KDNode q oid data sd l r b n) p =
     (if l = KNull \<and> r = KNull then KDNode q oid data sd l r b n
      else if flt (kd_coord sd p) (kd_coord sd q)
        then (if l = KNull then KDNode q oid data sd l r b n else find_leaf_loop l p)
        else (if r = KNull then KDNode q oid data sd l r b n else find_leaf_loop r p))"

definition kdtree_find_leaf :: "'d KDTree \<Rightarrow> Point \<Rightarrow> 'd KDNode" where
  "kdtree_find_leaf tree p = find_leaf_loop (kt_root tree) p"

text \<open>The state is the array of bounds and its capacity.\<close>

fun collect_leaf_bounds :: "allocator \<Rightarrow> 'd KDNode \<Rightarrow> nat \<Rightarrow> MBR list \<times> nat \<Rightarrow> MBR list \<times> nat" where
  "collect_leaf_bounds al KNull max_size acc = acc"
| "collect_leaf_bounds al (KDNode p oid data sd l r b n) max_size acc =
     (if unat n \<le> max_size \<or> (l = KNull \<and> r = KNull) then
        (case acc of (bounds, capacity) \<Rightarrow>
           if length bounds \<ge> capacity then
             (if al (capacity * 2 * sizeof_MBR) then (bounds @ [b], capacity * 2) else (bounds, capacity))
           else (bounds @ [b], capacity))
      else collect_leaf_bounds al r max_size (collect_leaf_bounds al l max_size acc))"

definition kdtree_partition :: "allocator \<Rightarrow> 'd KDTree \<Rightarrow> nat \<Rightarrow> KDError \<times> MBR list" where
  "kdtree_partition al tree max_points_per_block =
     (if kt_root tree = KNull then (KD_OK, [])
      else if \<not> al (16 * sizeof_MBR) then (KD_ERR_ALLOC, [])
      else (KD_OK, fst (collect_leaf_bounds al (kt_root tree) max_points_per_block ([], 16))))"

fun depth_recursive :: "'d KDNode \<Rightarrow> nat" where
  "depth_recursive KNull = 0"
| "depth_recursive (KDNode p oid data sd l r b n) =
     (let left_depth = depth_recursive l; right_depth = depth_recursive r
      in 1 + (if left_depth > right_depth then left_depth else right_depth))"

definition kdtree_depth :: "'d KDTree \<Rightarrow> nat" where
  "kdtree_depth tree = depth_recursive (kt_root tree)"

text \<open>The least \<open>k\<close> with \<open>n \<le> 2 ^ k\<close>.\<close>

definition ceil_log2 :: "nat \<Rightarrow> nat" where
  "ceil_log2 n = (if n \<le> 1 then 0 else floorlog 2 (n - 1))"

definition kdtree_is_balanced :: "'d KDTree \<Rightarrow> bool" where
  "kdtree_is_balanced tree =
     (if kt_root tree = KNull then True
      else kdtree_depth tree \<le> 2 * ceil_log2 (kt_size tree + 1))"

end
