(* ===== verification/KDTree_Inv.thy ===== *)
theory KDTree_Inv
  imports KDTree
begin

text \<open>
  The invariant of the k-d tree and the operations that build it: insertion keeps it and adds one
  entry, a bulk load establishes it with exactly the entries it was given, whatever sort the C
  library has, and in a tree of logarithmic depth.
\<close>

subsection \<open>The entries of a tree and its invariant\<close>

text \<open>In the order of the traversals of the code: node, left, right.\<close>

fun kd_entries :: "'d KDNode \<Rightarrow> 'd KDPointData list" where
  "kd_entries KNull = []"
| "kd_entries (KDNode p oid data sd l r b n) =
     \<lparr>pd_point = p, pd_id = oid, pd_data = data\<rparr> # kd_entries l @ kd_entries r"

fun kd_inv :: "'d KDNode \<Rightarrow> bool" where
  "kd_inv KNull = True"
| "kd_inv (KDNode p oid data sd l r b n) =
     (sd < 2 \<and> pt_num p \<and> n = of_nat (1 + length (kd_entries l) + length (kd_entries r)) \<and> mbr_num b \<and>
      bounds_point b p \<and>
      (\<forall>e \<in> set (kd_entries l). bounds_point b (pd_point e) \<and> dkey (kd_coord sd (pd_point e)) \<le> dkey (kd_coord sd p)) \<and>
      (\<forall>e \<in> set (kd_entries r). bounds_point b (pd_point e) \<and> dkey (kd_coord sd p) \<le> dkey (kd_coord sd (pd_point e))) \<and>
      kd_inv l \<and> kd_inv r)"

lemma kd_inv_bounds: "kd_inv t \<Longrightarrow> e \<in> set (kd_entries t) \<Longrightarrow> bounds_point (kd_bounds t) (pd_point e)"
  by (cases t) auto

lemma kd_inv_size: "kd_inv t \<Longrightarrow> t \<noteq> KNull \<Longrightarrow> subtree_size t = of_nat (length (kd_entries t))"
  by (cases t) auto

lemma kd_inv_mbr_num: "kd_inv t \<Longrightarrow> t \<noteq> KNull \<Longrightarrow> mbr_num (kd_bounds t)"
  by (cases t) auto

lemma kd_entries_empty [simp]: "kd_entries t = [] \<longleftrightarrow> t = KNull"
  by (cases t) auto

lemma kd_coord_num: "pt_num p \<Longrightarrow> \<not> isnan (kd_coord sd p)"
  by (simp add: kd_coord_def pt_num_def)

definition kdtree_inv :: "'d KDTree \<Rightarrow> bool" where
  "kdtree_inv t = (kd_inv (kt_root t) \<and> kt_size t = length (kd_entries (kt_root t)) \<and> mbr_num (kt_bounds t) \<and>
     (\<forall>e \<in> set (kd_entries (kt_root t)). bounds_point (kt_bounds t) (pd_point e)))"

lemma kdtree_init_inv: "kdtree_inv kdtree_init"
  by (simp add: kdtree_inv_def kdtree_init_def)

subsection \<open>Insertion\<close>

lemma insert_recursive_entries:
  assumes "al sizeof_KDNode"
  shows "mset (kd_entries (insert_recursive al t p oid data depth)) =
    add_mset \<lparr>pd_point = p, pd_id = oid, pd_data = data\<rparr> (mset (kd_entries t))"
  using assms by (induction t arbitrary: depth) (simp_all add: kdnode_create_def)

lemma insert_recursive_nonnull: "al sizeof_KDNode \<Longrightarrow> insert_recursive al t p oid data depth \<noteq> KNull"
  by (cases t) (simp_all add: kdnode_create_def)

lemma insert_recursive_length:
  "al sizeof_KDNode \<Longrightarrow> length (kd_entries (insert_recursive al t p oid data depth)) = Suc (length (kd_entries t))"
  using arg_cong [OF insert_recursive_entries, of al size t p oid data depth] by simp

lemma insert_recursive_set:
  "al sizeof_KDNode \<Longrightarrow> set (kd_entries (insert_recursive al t p oid data depth)) =
    insert \<lparr>pd_point = p, pd_id = oid, pd_data = data\<rparr> (set (kd_entries t))"
  using arg_cong [OF insert_recursive_entries, of al set_mset t p oid data depth] by simp

lemma kdnode_create_inv:
  "pt_num p \<Longrightarrow> al sizeof_KDNode \<Longrightarrow> kd_inv (kdnode_create al p oid data (depth mod 2))"
  by (simp add: kdnode_create_def bounds_point_create)

lemma insert_recursive_inv:
  assumes "al sizeof_KDNode" "pt_num p"
  shows "kd_inv t \<Longrightarrow> kd_inv (insert_recursive al t p oid data depth)"
proof (induction t arbitrary: depth)
  case KNull
  then show ?case using assms by (simp add: kdnode_create_inv)
next
  case (KDNode q qid qdata sd l r b n)
  have b: "mbr_num (mbr_expand_point b p)" "bounds_point (mbr_expand_point b p) p"
    "\<And>e. bounds_point b e \<Longrightarrow> bounds_point (mbr_expand_point b p) e"
    using KDNode.prems assms(2) by (auto intro: mbr_expand_point_num ext_point.expand_covers ext_point.expand_keeps)
  have c: "\<not> isnan (kd_coord sd p)" "\<not> isnan (kd_coord sd q)"
    using KDNode.prems kd_coord_num [OF assms(2)] kd_coord_num [of q] by simp_all
  show ?case
    using KDNode b c assms(1) by (auto simp: insert_recursive_set insert_recursive_length order_rules)
qed

lemma kdtree_insert_ok:
  assumes "al sizeof_KDNode" "pt_num p" "kdtree_inv t"
  shows "\<exists>t'. kdtree_insert al t p oid data = (KD_OK, t') \<and> kdtree_inv t' \<and>
    mset (kd_entries (kt_root t')) = add_mset \<lparr>pd_point = p, pd_id = oid, pd_data = data\<rparr> (mset (kd_entries (kt_root t)))"
proof -
  have b: "mbr_num (mbr_expand_point (kt_bounds t) p)" "bounds_point (mbr_expand_point (kt_bounds t) p) p"
    "\<And>e. bounds_point (kt_bounds t) e \<Longrightarrow> bounds_point (mbr_expand_point (kt_bounds t) p) e"
    using assms by (auto simp: kdtree_inv_def intro: mbr_expand_point_num ext_point.expand_covers ext_point.expand_keeps)
  show ?thesis
    using assms b by (auto simp: kdtree_insert_def Let_def insert_recursive_nonnull kdtree_inv_def
        insert_recursive_entries insert_recursive_set insert_recursive_length intro: insert_recursive_inv)
qed

subsection \<open>The contract of \<open>qsort\<close>\<close>

definition weak_order_on :: "('a \<Rightarrow> 'a \<Rightarrow> int) \<Rightarrow> 'a set \<Rightarrow> bool" where
  "weak_order_on cmp A = ((\<forall>a \<in> A. \<forall>b \<in> A. cmp a b \<le> 0 \<or> cmp b a \<le> 0) \<and>
     (\<forall>a \<in> A. \<forall>b \<in> A. \<forall>c \<in> A. cmp a b \<le> 0 \<longrightarrow> cmp b c \<le> 0 \<longrightarrow> cmp a c \<le> 0))"

locale qsort_contract =
  fixes qs :: "('a \<Rightarrow> 'a \<Rightarrow> int) \<Rightarrow> 'a list \<Rightarrow> 'a list"
  assumes qs_mset: "mset (qs cmp xs) = mset xs"
    and qs_sorted: "weak_order_on cmp (set xs) \<Longrightarrow> sorted_wrt (\<lambda>a b. cmp a b \<le> 0) (qs cmp xs)"
begin

lemma qs_length: "length (qs cmp xs) = length xs"
  using arg_cong [OF qs_mset, of size] by simp

lemma qs_set: "set (qs cmp xs) = set xs"
  using arg_cong [OF qs_mset, of set_mset] by simp

lemma qs_split:
  assumes "m < length xs"
  shows "mset xs = add_mset (qs cmp xs ! m) (mset (take m (qs cmp xs)) + mset (drop (Suc m) (qs cmp xs)))"
proof -
  have "qs cmp xs = take m (qs cmp xs) @ qs cmp xs ! m # drop (Suc m) (qs cmp xs)"
    using assms by (intro id_take_nth_drop) (simp add: qs_length)
  from arg_cong [OF this, of mset] show ?thesis
    by (simp add: qs_mset)
qed

lemma qs_before:
  assumes "weak_order_on cmp (set xs)" "m < length xs" "e \<in> set (take m (qs cmp xs))"
  shows "cmp e (qs cmp xs ! m) \<le> 0"
  using assms qs_sorted [OF assms(1)] by (auto simp: in_set_conv_nth sorted_wrt_iff_nth_less qs_length)

lemma qs_after:
  assumes "weak_order_on cmp (set xs)" "m < length xs" "e \<in> set (drop (Suc m) (qs cmp xs))"
  shows "cmp (qs cmp xs ! m) e \<le> 0"
  using assms qs_sorted [OF assms(1)] by (auto simp: in_set_conv_nth sorted_wrt_iff_nth_less qs_length)

end

text \<open>The contract can be met: insertion sort.\<close>

fun insert_by :: "('a \<Rightarrow> 'a \<Rightarrow> int) \<Rightarrow> 'a \<Rightarrow> 'a list \<Rightarrow> 'a list" where
  "insert_by cmp x [] = [x]"
| "insert_by cmp x (y # ys) = (if cmp x y \<le> 0 then x # y # ys else y # insert_by cmp x ys)"

definition isort_by :: "('a \<Rightarrow> 'a \<Rightarrow> int) \<Rightarrow> 'a list \<Rightarrow> 'a list" where
  "isort_by cmp xs = foldr (insert_by cmp) xs []"

lemma weak_order_trans:
  "weak_order_on cmp A \<Longrightarrow> a \<in> A \<Longrightarrow> b \<in> A \<Longrightarrow> c \<in> A \<Longrightarrow> cmp a b \<le> 0 \<Longrightarrow> cmp b c \<le> 0 \<Longrightarrow> cmp a c \<le> 0"
  unfolding weak_order_on_def by blast

lemma weak_order_total:
  "weak_order_on cmp A \<Longrightarrow> a \<in> A \<Longrightarrow> b \<in> A \<Longrightarrow> cmp a b \<le> 0 \<or> cmp b a \<le> 0"
  unfolding weak_order_on_def by blast

lemma weak_order_subset: "weak_order_on cmp B \<Longrightarrow> A \<subseteq> B \<Longrightarrow> weak_order_on cmp A"
  unfolding weak_order_on_def by (intro conjI ballI) (blast dest: subsetD)+

lemma weak_orderI:
  assumes "\<And>a b. a \<in> A \<Longrightarrow> b \<in> A \<Longrightarrow> (cmp a b \<le> 0) = (key a \<le> (key b :: int))"
  shows "weak_order_on cmp A"
  unfolding weak_order_on_def
proof (intro conjI ballI impI)
  fix a b
  assume "a \<in> A" "b \<in> A"
  then show "cmp a b \<le> 0 \<or> cmp b a \<le> 0" by (simp add: assms linear)
next
  fix a b c
  assume "a \<in> A" "b \<in> A" "c \<in> A" "cmp a b \<le> 0" "cmp b c \<le> 0"
  then show "cmp a c \<le> 0" by (simp add: assms)
qed

lemma mset_insert_by: "mset (insert_by cmp x ys) = add_mset x (mset ys)"
  by (induction ys) auto

lemma set_insert_by: "set (insert_by cmp x ys) = insert x (set ys)"
  using arg_cong [OF mset_insert_by, of set_mset] by simp

lemma sorted_insert_by:
  "weak_order_on cmp (insert x (set ys)) \<Longrightarrow> sorted_wrt (\<lambda>a b. cmp a b \<le> 0) ys \<Longrightarrow>
    sorted_wrt (\<lambda>a b. cmp a b \<le> 0) (insert_by cmp x ys)"
proof (induction ys)
  case Nil
  then show ?case by simp
next
  case (Cons y ys)
  have w: "weak_order_on cmp (insert x (set ys))"
    using Cons.prems(1) by (rule weak_order_subset) auto
  show ?case
  proof (cases "cmp x y \<le> 0")
    case True
    have t: "cmp x z \<le> 0" if "z \<in> set ys" for z
      using weak_order_trans [OF Cons.prems(1), of x y z] Cons.prems(2) True that by simp
    show ?thesis
      using True Cons.prems(2) t by simp
  next
    case False
    then have "cmp y x \<le> 0"
      using weak_order_total [OF Cons.prems(1), of x y] by simp
    with False Cons.prems(2) Cons.IH [OF w] show ?thesis
      by (auto simp: set_insert_by)
  qed
qed

lemma isort_by_mset: "mset (isort_by cmp xs) = mset xs"
  unfolding isort_by_def by (induction xs) (simp_all add: mset_insert_by)

lemma isort_by_sorted: "weak_order_on cmp (set xs) \<Longrightarrow> sorted_wrt (\<lambda>a b. cmp a b \<le> 0) (isort_by cmp xs)"
proof (induction xs)
  case Nil
  then show ?case by (simp add: isort_by_def)
next
  case (Cons x xs)
  have "set (isort_by cmp xs) = set xs"
    using arg_cong [OF isort_by_mset, of set_mset] by simp
  moreover have "weak_order_on cmp (set xs)"
    using Cons.prems by (rule weak_order_subset) auto
  ultimately show ?case
    using Cons by (simp add: isort_by_def sorted_insert_by)
qed

interpretation isort: qsort_contract isort_by
  by standard (simp_all add: isort_by_mset isort_by_sorted)

lemma compare_le:
  "pt_num (pd_point a) \<Longrightarrow> pt_num (pd_point b) \<Longrightarrow>
    compare_by_x a b \<le> 0 \<longleftrightarrow> dkey (px (pd_point a)) \<le> dkey (px (pd_point b))"
  "pt_num (pd_point a) \<Longrightarrow> pt_num (pd_point b) \<Longrightarrow>
    compare_by_y a b \<le> 0 \<longleftrightarrow> dkey (py (pd_point a)) \<le> dkey (py (pd_point b))"
  by (auto simp: compare_by_x_def compare_by_y_def pt_num_def order_rules)

lemma compare_weak_order:
  assumes "\<And>e. e \<in> A \<Longrightarrow> pt_num (pd_point e)"
  shows "weak_order_on compare_by_x A" "weak_order_on compare_by_y A"
  using assms
  by (simp_all add: weak_orderI [where key = "\<lambda>e. dkey (px (pd_point e))"] compare_le(1)
      weak_orderI [where key = "\<lambda>e. dkey (py (pd_point e))"] compare_le(2))

subsection \<open>Bulk load\<close>

lemma update_bounds_inv:
  assumes "kd_inv l" "kd_inv r" "pt_num p" "sd < 2"
    "\<And>e. e \<in> set (kd_entries l) \<Longrightarrow> dkey (kd_coord sd (pd_point e)) \<le> dkey (kd_coord sd p)"
    "\<And>e. e \<in> set (kd_entries r) \<Longrightarrow> dkey (kd_coord sd p) \<le> dkey (kd_coord sd (pd_point e))"
  shows "kd_inv (kdnode_update_bounds (KDNode p oid data sd l r b n))"
proof -
  let ?b0 = "mbr_create (px p) (py p) (px p) (py p)"
  let ?b1 = "if l \<noteq> KNull then mbr_expand_mbr ?b0 (kd_bounds l) else ?b0"
  let ?b2 = "if r \<noteq> KNull then mbr_expand_mbr ?b1 (kd_bounds r) else ?b1"
  have trans: "bounds_point c q" if "bounds_mbr c a" "bounds_point a q" for a c q
    using that stab_region.hit_visits [of c a q] by (simp add: bounds_point_def bounds_mbr_def)
  have keep: "bounds_point (mbr_expand_mbr c a) q" if "mbr_num c" "mbr_num a" "bounds_point c q" for a c q
  proof -
    have "bounds_mbr c c"
      using that by (auto simp: bounds_mbr_def mbr_contains_mbr_key mbr_is_empty_key)
    with that(1,2) have "bounds_mbr (mbr_expand_mbr c a) c" by (rule ext_mbr.expand_keeps)
    with that(3) show ?thesis by (rule trans [rotated])
  qed
  have n0: "mbr_num ?b0" "bounds_point ?b0 p"
    using assms by (simp_all add: bounds_point_create)
  have n1: "mbr_num ?b1" "bounds_point ?b1 p" "\<And>e. e \<in> set (kd_entries l) \<Longrightarrow> bounds_point ?b1 (pd_point e)"
    using assms n0 kd_inv_mbr_num [of l]
    by (auto intro: mbr_expand_mbr_num keep trans [OF ext_mbr.expand_covers] kd_inv_bounds)
  have n2: "mbr_num ?b2" "bounds_point ?b2 p" "\<And>e. e \<in> set (kd_entries l) \<Longrightarrow> bounds_point ?b2 (pd_point e)"
    "\<And>e. e \<in> set (kd_entries r) \<Longrightarrow> bounds_point ?b2 (pd_point e)"
    using assms n1 kd_inv_mbr_num [of r]
    by (auto intro: mbr_expand_mbr_num keep trans [OF ext_mbr.expand_covers] kd_inv_bounds)
  show ?thesis
    using assms n2 by (simp add: kdnode_update_bounds_def Let_def kd_inv_size del: kd_entries_empty)
qed

lemma update_bounds_entries [simp]:
  "kd_entries (kdnode_update_bounds (KDNode p oid data sd l r b n)) =
    \<lparr>pd_point = p, pd_id = oid, pd_data = data\<rparr> # kd_entries l @ kd_entries r"
  by (simp add: kdnode_update_bounds_def Let_def)

lemma update_bounds_nonnull [simp]: "kdnode_update_bounds (KDNode p oid data sd l r b n) \<noteq> KNull"
  by (simp add: kdnode_update_bounds_def Let_def)

lemma update_bounds_depth [simp]:
  "depth_recursive (kdnode_update_bounds (KDNode p oid data sd l r b n)) =
    1 + max (depth_recursive l) (depth_recursive r)"
  by (simp add: kdnode_update_bounds_def Let_def)

lemma build_tree_Suc:
  assumes "al sizeof_KDNode" "cnt \<noteq> 0" "sd = depth mod 2"
    "srt = qs (if sd = 0 then compare_by_x else compare_by_y) points" "m = srt ! (cnt div 2)"
  shows "build_tree_recursive qs al points cnt depth = kdnode_update_bounds
    (KDNode (pd_point m) (pd_id m) (pd_data m) sd
      (build_tree_recursive qs al (take (cnt div 2) srt) (cnt div 2) (depth + 1))
      (build_tree_recursive qs al (drop (Suc (cnt div 2)) srt) (cnt - cnt div 2 - 1) (depth + 1))
      (mbr_create (px (pd_point m)) (py (pd_point m)) (px (pd_point m)) (py (pd_point m))) 1)"
  using assms by (subst build_tree_recursive.simps) (simp add: kdnode_create_def Let_def)

lemma build_tree_0 [simp]: "build_tree_recursive qs al points 0 depth = KNull"
  by (subst build_tree_recursive.simps) simp

text \<open>The comparison of a split dimension orders the slice by the keys of that coordinate.\<close>

lemma compare_split:
  fixes qs :: "'d qsort"
  assumes qs: "qsort_contract qs" and n: "\<And>e. e \<in> set points \<Longrightarrow> pt_num (pd_point e)"
    and m: "m < length points" and sd: "sd < 2"
    and srt: "srt = qs (if sd = 0 then compare_by_x else compare_by_y) points"
  shows "e \<in> set (take m srt) \<Longrightarrow> dkey (kd_coord sd (pd_point e)) \<le> dkey (kd_coord sd (pd_point (srt ! m)))"
    "e \<in> set (drop (Suc m) srt) \<Longrightarrow> dkey (kd_coord sd (pd_point (srt ! m))) \<le> dkey (kd_coord sd (pd_point e))"
proof -
  have w: "weak_order_on (if sd = 0 then compare_by_x else compare_by_y) (set points)"
    using compare_weak_order [of "set points"] n by simp
  have set: "set srt = set points"
    by (simp add: srt qsort_contract.qs_set [OF qs])
  have mid: "pt_num (pd_point (srt ! m))"
    using m n set by (metis nth_mem qsort_contract.qs_length [OF qs] srt)
  {
    assume e: "e \<in> set (take m srt)"
    then have "pt_num (pd_point e)" using n set in_set_takeD by fast
    with qsort_contract.qs_before [OF qs w m, of e] e mid
    show "dkey (kd_coord sd (pd_point e)) \<le> dkey (kd_coord sd (pd_point (srt ! m)))"
      by (simp add: srt compare_le kd_coord_def split: if_splits)
  next
    assume e: "e \<in> set (drop (Suc m) srt)"
    then have "pt_num (pd_point e)" using n set in_set_dropD by fast
    with qsort_contract.qs_after [OF qs w m, of e] e mid
    show "dkey (kd_coord sd (pd_point (srt ! m))) \<le> dkey (kd_coord sd (pd_point e))"
      by (simp add: srt compare_le kd_coord_def split: if_splits)
  }
qed

text \<open>The recursion of the builder, as an induction principle over the slices it sorts.\<close>

lemma build_tree_correct:
  fixes qs :: "'d qsort"
  assumes qs: "qsort_contract qs" and al: "al sizeof_KDNode"
  shows "length points = cnt \<Longrightarrow> (\<And>e. e \<in> set points \<Longrightarrow> pt_num (pd_point e)) \<Longrightarrow>
    kd_inv (build_tree_recursive qs al points cnt depth) \<and>
    mset (kd_entries (build_tree_recursive qs al points cnt depth)) = mset points \<and>
    depth_recursive (build_tree_recursive qs al points cnt depth) = floorlog 2 cnt"
proof (induction cnt arbitrary: points depth rule: less_induct)
  case (less cnt)
  show ?case
  proof (cases "cnt = 0")
    case True
    with less.prems show ?thesis by (simp add: floorlog_def)
  next
    case False
    define sd where "sd = depth mod 2"
    define srt where "srt = qs (if sd = 0 then compare_by_x else compare_by_y) points"
    define h where "h = cnt div 2"
    let ?L = "build_tree_recursive qs al (take h srt) h (depth + 1)"
    let ?R = "build_tree_recursive qs al (drop (Suc h) srt) (cnt - h - 1) (depth + 1)"
    let ?m = "srt ! h"
    have h: "h < length points" "h < cnt" "cnt - h - 1 < cnt" "cnt - h - 1 \<le> h"
      using False less.prems(1) by (auto simp: h_def)
    have len: "length srt = cnt" and set: "set srt = set points"
      by (simp_all add: srt_def qsort_contract.qs_length [OF qs] qsort_contract.qs_set [OF qs] less.prems)
    have L: "kd_inv ?L" "mset (kd_entries ?L) = mset (take h srt)" "depth_recursive ?L = floorlog 2 h"
      using less.IH [of h "take h srt" "depth + 1"] h len set less.prems(2) by (auto dest: in_set_takeD)
    have R: "kd_inv ?R" "mset (kd_entries ?R) = mset (drop (Suc h) srt)"
      "depth_recursive ?R = floorlog 2 (cnt - h - 1)"
      using less.IH [of "cnt - h - 1" "drop (Suc h) srt" "depth + 1"] h len set less.prems(2)
      by (auto dest: in_set_dropD)
    have step: "build_tree_recursive qs al points cnt depth = kdnode_update_bounds
        (KDNode (pd_point ?m) (pd_id ?m) (pd_data ?m) sd ?L ?R
          (mbr_create (px (pd_point ?m)) (py (pd_point ?m)) (px (pd_point ?m)) (py (pd_point ?m))) 1)"
      unfolding h_def using al False sd_def srt_def by (intro build_tree_Suc) simp_all
    have sd: "sd < 2" by (simp add: sd_def)
    have "kd_inv (build_tree_recursive qs al points cnt depth)"
      unfolding step
    proof (rule update_bounds_inv [OF L(1) R(1) _ sd])
      show "pt_num (pd_point ?m)" using less.prems h len set by (metis nth_mem)
    next
      fix e assume "e \<in> set (kd_entries ?L)"
      then have "e \<in> set (take h srt)" using arg_cong [OF L(2), of set_mset] by simp
      then show "dkey (kd_coord sd (pd_point e)) \<le> dkey (kd_coord sd (pd_point ?m))"
        using compare_split(1) [OF qs less.prems(2) h(1) sd srt_def] by simp
    next
      fix e assume "e \<in> set (kd_entries ?R)"
      then have "e \<in> set (drop (Suc h) srt)" using arg_cong [OF R(2), of set_mset] by simp
      then show "dkey (kd_coord sd (pd_point ?m)) \<le> dkey (kd_coord sd (pd_point e))"
        using compare_split(2) [OF qs less.prems(2) h(1) sd srt_def] by simp
    qed
    moreover have "mset (kd_entries (build_tree_recursive qs al points cnt depth)) = mset points"
      unfolding step using L(2) R(2)
        qsort_contract.qs_split [OF qs h(1), of "if sd = 0 then compare_by_x else compare_by_y", folded srt_def]
      by simp
    moreover have "floorlog 2 (cnt - h - 1) \<le> floorlog 2 h"
      using h(4) by (rule floorlog_mono)
    then have "depth_recursive (build_tree_recursive qs al points cnt depth) = floorlog 2 cnt"
      unfolding step using L(3) R(3) False by (simp add: compute_floorlog [of 2 cnt] h_def max_def)
    ultimately show ?thesis by blast
  qed
qed

lemma kdtree_bulk_load_ok:
  fixes qs :: "'d qsort"
  assumes qs: "qsort_contract qs" and al: "al sizeof_KDNode" "al (length points * sizeof_KDPointData)"
    and n: "\<And>e. e \<in> set points \<Longrightarrow> pt_num (pd_point e)" and ne: "points \<noteq> []"
  shows "\<exists>t'. kdtree_bulk_load qs al t points = (KD_OK, t') \<and> kdtree_inv t' \<and>
    mset (kd_entries (kt_root t')) = mset points \<and> kdtree_depth t' = floorlog 2 (length points)"
proof -
  let ?root = "build_tree_recursive qs al points (length points) 0"
  let ?b = "fold (\<lambda>e m. mbr_expand_point m (pd_point e)) points mbr_empty"
  have r: "kd_inv ?root" "mset (kd_entries ?root) = mset points" "depth_recursive ?root = floorlog 2 (length points)"
    using build_tree_correct [where al = al and depth = 0 and points = points and cnt = "length points", OF qs al(1)] n
    by simp_all
  have set: "set (kd_entries ?root) = set points"
    using arg_cong [OF r(2), of set_mset] by simp
  have b: "?b = fold (\<lambda>p m. mbr_expand_point m p) (map pd_point points) mbr_empty"
    by (simp add: fold_map comp_def)
  have "mbr_num ?b" "\<And>e. e \<in> set points \<Longrightarrow> bounds_point ?b (pd_point e)"
    unfolding b using n by (auto intro!: fold_expand_num fold_expand_bounds)
  moreover have "?root \<noteq> KNull"
    using ne set by (metis kd_entries_empty set_empty)
  ultimately show ?thesis
    using r set mset_eq_length [OF r(2)] al ne
    by (simp add: kdtree_bulk_load_def Let_def kdtree_free_def kdtree_inv_def kdtree_depth_def)
qed

subsection \<open>Balance\<close>

lemma ceil_log2_Suc: "0 < n \<Longrightarrow> ceil_log2 (n + 1) = floorlog 2 n"
  by (simp add: ceil_log2_def)

lemma ceil_log2_least: "n \<le> 2 ^ ceil_log2 n \<and> (\<forall>k. n \<le> 2 ^ k \<longrightarrow> ceil_log2 n \<le> k)"
proof (cases "n \<le> 1")
  case True
  then show ?thesis by (simp add: ceil_log2_def)
next
  case False
  have "n - 1 < 2 ^ floorlog 2 (n - 1)"
    using False floorlog_bounds [of "n - 1" 2] by simp
  moreover have "floorlog 2 (n - 1) \<le> k" if "n \<le> 2 ^ k" for k
    using False that floorlog_le_iff [of 2 "n - 1" k] by simp
  ultimately show ?thesis using False by (simp add: ceil_log2_def)
qed

end
