(* ===== verification/KDTree_Select.thy ===== *)
theory KDTree_Select
  imports KDTree_Query
begin

text \<open>
  The queries of the k-d tree that are built on the range query: the selection of the k nearest
  entries, the radius query, and the block partition.
\<close>

subsection \<open>Selection of the nearest entries\<close>

lemma min_dist_fold:
  assumes n: "\<And>x. x \<in> set ds \<Longrightarrow> \<not> isnan (snd x)" and i: "i < length ds"
  shows "i + 1 \<le> hi \<Longrightarrow> hi \<le> length ds \<Longrightarrow>
    (let m = fold (\<lambda>j min_idx. if flt (snd (ds ! j)) (snd (ds ! min_idx)) then j else min_idx) [i + 1..<hi] i in
     i \<le> m \<and> m < hi \<and> (\<forall>j. i \<le> j \<longrightarrow> j < hi \<longrightarrow> dkey (snd (ds ! m)) \<le> dkey (snd (ds ! j))))"
proof (induction hi)
  case 0
  then show ?case by simp
next
  case (Suc hi)
  let ?f = "\<lambda>j min_idx. if flt (snd (ds ! j)) (snd (ds ! min_idx)) then j else min_idx"
  have num: "\<not> isnan (snd (ds ! j))" if "j < length ds" for j
    using n that by simp
  show ?case
  proof (cases "hi = i")
    case True
    then show ?thesis by (simp add: less_Suc_eq)
  next
    case False
    with Suc.prems have hi: "i + 1 \<le> hi" "hi \<le> length ds" "hi < length ds" by simp_all
    define m where "m = fold ?f [i + 1..<hi] i"
    have m: "i \<le> m" "m < hi" "\<And>j. i \<le> j \<Longrightarrow> j < hi \<Longrightarrow> dkey (snd (ds ! m)) \<le> dkey (snd (ds ! j))"
      using Suc.IH [OF hi(1,2)] by (simp_all add: Let_def m_def)
    have split: "fold ?f [i + 1..<Suc hi] i = ?f hi m"
      using hi(1) by (simp add: upt_Suc_append m_def)
    have flt: "flt (snd (ds ! hi)) (snd (ds ! m)) \<longleftrightarrow> dkey (snd (ds ! hi)) < dkey (snd (ds ! m))"
      using num hi m by (simp add: order_rules)
    show ?thesis
    proof (cases "flt (snd (ds ! hi)) (snd (ds ! m))")
      case True
      then have "dkey (snd (ds ! hi)) \<le> dkey (snd (ds ! j))" if "i \<le> j" "j < hi" for j
        using m(3) [OF that] flt by simp
      with True hi show ?thesis unfolding split Let_def by (auto simp: less_Suc_eq)
    next
      case False
      with m flt show ?thesis unfolding split Let_def by (auto simp: less_Suc_eq)
    qed
  qed
qed

lemma min_dist_index_spec:
  assumes "\<And>x. x \<in> set ds \<Longrightarrow> \<not> isnan (snd x)" "i < length ds"
  shows "i \<le> min_dist_index ds i" "min_dist_index ds i < length ds"
    "i \<le> j \<Longrightarrow> j < length ds \<Longrightarrow> dkey (snd (ds ! min_dist_index ds i)) \<le> dkey (snd (ds ! j))"
  using min_dist_fold [OF assms, of "length ds"] assms(2) by (auto simp: min_dist_index_def Let_def)

text \<open>The state of the selection loop before round \<open>i\<close>.\<close>

definition sel_inv :: "'d KDPointData list \<Rightarrow> (nat \<times> double) list \<Rightarrow> nat \<Rightarrow> (nat \<times> double) list \<times> 'd KDQueryResult \<Rightarrow> bool" where
  "sel_inv A ds0 i st = (mset (fst st) = mset ds0 \<and> kr_entries (snd st) = map (\<lambda>x. A ! fst x) (take i (fst st)) \<and>
     (\<forall>a b. a < i \<longrightarrow> a \<le> b \<longrightarrow> b < length ds0 \<longrightarrow> dkey (snd (fst st ! a)) \<le> dkey (snd (fst st ! b))))"

lemma select_step_inv:
  assumes inv: "sel_inv A ds0 i st" and n: "\<And>x. x \<in> set ds0 \<Longrightarrow> \<not> isnan (snd x)" and i: "i < length ds0"
  shows "sel_inv A ds0 (Suc i) (select_step malloc_ok A i st)"
proof -
  obtain ds res where st: "st = (ds, res)" by (cases st)
  have ms: "mset ds = mset ds0" and res: "kr_entries res = map (\<lambda>x. A ! fst x) (take i ds)"
    and ord: "\<And>a b. a < i \<Longrightarrow> a \<le> b \<Longrightarrow> b < length ds0 \<Longrightarrow> dkey (snd (ds ! a)) \<le> dkey (snd (ds ! b))"
    using inv by (auto simp: sel_inv_def st)
  have len: "length ds = length ds0" using mset_eq_length [OF ms] .
  have set: "set ds = set ds0" using mset_eq_setD [OF ms] .
  define m where "m = min_dist_index ds i"
  have m: "i \<le> m" "m < length ds" "\<And>j. i \<le> j \<Longrightarrow> j < length ds \<Longrightarrow> dkey (snd (ds ! m)) \<le> dkey (snd (ds ! j))"
    using min_dist_index_spec [of ds i] n set i len by (simp_all add: m_def)
  define ds' where "ds' = (if m \<noteq> i then ds[i := ds ! m, m := ds ! i] else ds)"
  have ms': "mset ds' = mset ds0"
    using ms m i len mset_swap [of m ds i] by (simp add: ds'_def)
  have len': "length ds' = length ds0" by (simp add: ds'_def len)
  have before: "ds' ! a = ds ! a" if "a < i" for a
    using that m by (simp add: ds'_def)
  have at: "ds' ! i = ds ! m"
    using m i len by (simp add: ds'_def nth_list_update)
  have after: "\<exists>c. i \<le> c \<and> c < length ds0 \<and> ds' ! b = ds ! c" if "i \<le> b" "b < length ds0" for b
  proof (cases "b = m \<and> m \<noteq> i")
    case True
    with i len m show ?thesis by (intro exI [of _ i]) (simp add: ds'_def)
  next
    case False
    with that m len at show ?thesis
      by (cases "b = i") (auto simp: ds'_def intro: exI [of _ m] exI [of _ b])
  qed
  have ord': "dkey (snd (ds' ! a)) \<le> dkey (snd (ds' ! b))" if ab: "a < Suc i" "a \<le> b" "b < length ds0" for a b
  proof (cases "b < i")
    case True
    with ab ord before show ?thesis by simp
  next
    case False
    with ab after [of b] obtain c where c: "i \<le> c" "c < length ds0" "ds' ! b = ds ! c" by auto
    show ?thesis
    proof (cases "a < i")
      case True
      with c ord [of a c] before show ?thesis by simp
    next
      case False
      with ab have "a = i" by simp
      with c m(3) len at show ?thesis by simp
    qed
  qed
  have "take i ds' = take i ds"
    using before len len' i by (intro nth_take_lemma) simp_all
  then have tk: "take (Suc i) ds' = take i ds @ [ds' ! i]"
    using i len' by (simp add: take_Suc_conv_app_nth)
  have step: "select_step malloc_ok A i st = (ds', kd_add_entry malloc_ok res (A ! fst (ds' ! i)))"
    by (simp add: select_step_def st m_def [symmetric] ds'_def kd_add_entry_def Let_def)
  show ?thesis
    unfolding sel_inv_def step using ms' res tk ord' by simp
qed

lemma select_fold_inv:
  assumes "sel_inv A ds0 0 st" "\<And>x. x \<in> set ds0 \<Longrightarrow> \<not> isnan (snd x)" "m \<le> length ds0"
  shows "sel_inv A ds0 m (fold (select_step malloc_ok A) [0..<m] st)"
  using assms by (induction m) (simp_all add: select_step_inv)

lemma kdtree_bounds_all:
  assumes "kdtree_inv t"
  shows "filter (\<lambda>e. mbr_contains_point (kt_bounds t) (pd_point e)) (kd_entries (kt_root t)) = kd_entries (kt_root t)"
  using assms by (auto simp: kdtree_inv_def bounds_point_def filter_id_conv)

lemma map_nth_fst_mset:
  assumes "mset ds = mset (map (\<lambda>i. (i, f i)) [0..<length A])"
  shows "mset (map (\<lambda>x. A ! fst x) ds) = mset A"
proof -
  have "mset (map (\<lambda>x. A ! fst x) ds) = image_mset (\<lambda>x. A ! fst x) (mset ds)" by simp
  also have "\<dots> = mset (map (\<lambda>x. A ! fst x) (map (\<lambda>i. (i, f i)) [0..<length A]))"
    unfolding assms by (simp only: mset_map)
  also have "map (\<lambda>x. A ! fst x) (map (\<lambda>i. (i, f i)) [0..<length A]) = A"
    by (simp add: comp_def map_nth)
  finally show ?thesis .
qed

lemma kdtree_k_nearest_ok:
  assumes inv: "kdtree_inv t" and ne: "kt_root t \<noteq> KNull" and k: "0 < k"
    and fin: "\<And>e. e \<in> set (kd_entries (kt_root t)) \<Longrightarrow> pt_finite (pd_point e)" and q: "pt_finite q"
  shows "\<exists>res' rest. kdtree_k_nearest malloc_ok t q k res = (KD_OK, res') \<and>
    mset (kr_entries res' @ rest) = mset (kd_entries (kt_root t)) \<and>
    length (kr_entries res') = min k (kt_size t) \<and>
    sorted (map (\<lambda>e. dist_key q (pd_point e)) (kr_entries res')) \<and>
    (\<forall>a \<in> set (kr_entries res'). \<forall>b \<in> set rest. dist_key q (pd_point a) \<le> dist_key q (pd_point b))"
proof -
  obtain all0 :: "'a KDQueryResult" where all0: "kdresult_init malloc_ok (kt_size t) = (KD_OK, all0)" "kr_entries all0 = []"
    using kdresult_init_ok by blast
  define A where "A = kd_entries (kt_root t)"
  have A: "kr_entries (range_query_recursive malloc_ok (kt_root t) (kt_bounds t) all0) = A"
    using inv all0(2) kdtree_bounds_all [OF inv]
    by (simp add: range_query_recursive_filter kdtree_inv_def A_def)
  define D where "D i = point_distance_sq q (pd_point (A ! i))" for i
  define ds0 where "ds0 = map (\<lambda>i. (i, D i)) [0..<length A]"
  define m where "m = min k (length A)"
  obtain ds res' where run: "fold (select_step malloc_ok A) [0..<m] (ds0, kdresult_clear res) = (ds, res')"
    by (cases "fold (select_step malloc_ok A) [0..<m] (ds0, kdresult_clear res)")
  have num: "\<not> isnan (snd x)" if "x \<in> set ds0" for x
    using that by (auto simp: ds0_def D_def A_def distance_sq_num(1) fin [OF nth_mem] q)
  have "sel_inv A ds0 0 (ds0, kdresult_clear res)"
    by (simp add: sel_inv_def)
  then have "sel_inv A ds0 m (ds, res')"
    using select_fold_inv [of A ds0 "(ds0, kdresult_clear res)" m] num run by (simp add: m_def ds0_def)
  then have ms: "mset ds = mset ds0" and ent: "kr_entries res' = map (\<lambda>x. A ! fst x) (take m ds)"
    and ord: "\<And>a b. a < m \<Longrightarrow> a \<le> b \<Longrightarrow> b < length A \<Longrightarrow> dkey (snd (ds ! a)) \<le> dkey (snd (ds ! b))"
    by (auto simp: sel_inv_def ds0_def)
  have len: "length ds = length A" using mset_eq_length [OF ms] by (simp add: ds0_def)
  have key: "dist_key q (pd_point (A ! fst (ds ! i))) = dkey (snd (ds ! i))" if "i < length A" for i
  proof -
    have "ds ! i \<in> set ds0" using that len mset_eq_setD [OF ms] by (metis nth_mem)
    then show ?thesis by (auto simp: ds0_def D_def dist_key_def)
  qed
  let ?rest = "map (\<lambda>x. A ! fst x) (drop m ds)"
  have "kr_entries res' @ ?rest = map (\<lambda>x. A ! fst x) ds"
    by (simp add: ent flip: map_append)
  then have "mset (kr_entries res' @ ?rest) = mset A"
    using map_nth_fst_mset [of ds D A] ms by (simp add: ds0_def)
  moreover have "length (kr_entries res') = min k (kt_size t)"
    using inv len by (simp add: ent m_def kdtree_inv_def A_def)
  moreover have "sorted (map (\<lambda>e. dist_key q (pd_point e)) (kr_entries res'))"
    using ord key len by (auto simp: ent sorted_iff_nth_mono m_def)
  moreover have "\<forall>a \<in> set (kr_entries res'). \<forall>b \<in> set ?rest. dist_key q (pd_point a) \<le> dist_key q (pd_point b)"
  proof (intro ballI)
    fix a b
    assume "a \<in> set (kr_entries res')" "b \<in> set ?rest"
    then obtain i j where i: "i < length (take m ds)" "a = map (\<lambda>x. A ! fst x) (take m ds) ! i"
      and j: "j < length (drop m ds)" "b = map (\<lambda>x. A ! fst x) (drop m ds) ! j"
      by (auto simp only: ent in_set_conv_nth length_map)
    have l: "i < m" "m + j < length A" using i(1) j(1) len by simp_all
    have "a = A ! fst (ds ! i)" "b = A ! fst (ds ! (m + j))"
      using i j len by simp_all
    then show "dist_key q (pd_point a) \<le> dist_key q (pd_point b)"
      using ord [of i "m + j"] key [of i] key [of "m + j"] l by simp
  qed
  moreover have "kdtree_k_nearest malloc_ok t q k res = (KD_OK, res')"
    using ne k all0(1) A run
    by (simp add: kdtree_k_nearest_def Let_def malloc_ok_simp ds0_def D_def m_def)
  ultimately show ?thesis unfolding A_def by blast
qed

subsection \<open>Radius queries\<close>

definition radius_box :: "Point \<Rightarrow> double \<Rightarrow> MBR" where
  "radius_box q r = mbr_create (fsub (px q) r) (fsub (py q) r) (fadd (px q) r) (fadd (py q) r)"

lemma fold_add_if:
  "kr_entries (fold (\<lambda>e res. if P e then snd (kdresult_add malloc_ok res (pd_point e) (pd_id e) (pd_data e)) else res) es res) =
    kr_entries res @ filter P es"
  by (induction es arbitrary: res) (simp_all add: kdresult_add_def Let_def malloc_ok_simp)

lemma kdtree_radius_query_filter:
  assumes "kd_inv (kt_root t)"
  shows "\<exists>res'. kdtree_radius_query malloc_ok t q r res = (KD_OK, res') \<and>
    kr_entries res' = filter (\<lambda>e. mbr_contains_point (radius_box q r) (pd_point e) \<and>
      fle (point_distance_sq q (pd_point e)) (fmul r r)) (kd_entries (kt_root t))"
proof -
  obtain box0 :: "'a KDQueryResult" where "kdresult_init malloc_ok 64 = (KD_OK, box0)"
    using kdresult_init_ok by blast
  then show ?thesis
    using assms by (simp add: kdtree_radius_query_def kdtree_range_query_def Let_def fold_add_if
        range_query_recursive_filter radius_box_def)
qed

text \<open>A point outside the rounded box is at least as far as the radius, after rounding.\<close>

lemma outside_box_far:
  assumes q: "pt_finite q" and r: "finite_d r" and p: "pt_finite p" and "0 \<le> dkey r"
    and out: "\<not> mbr_contains_point (radius_box q r) p"
  shows "dkey (fmul r r) \<le> dist_key q p"
proof -
  have axis: "dkey (fmul r r) \<le> dist_key q p"
    if sd: "sd < 2" and o: "dkey (kd_coord sd p) < dkey (fsub (kd_coord sd q) r) \<or>
      dkey (fadd (kd_coord sd q) r) < dkey (kd_coord sd p)" for sd
  proof -
    let ?w = "fsub (kd_coord sd p) (kd_coord sd q)"
    note f = kd_coord_finite [OF q, of sd] kd_coord_finite [OF p, of sd]
    have "\<bar>dkey r\<bar> \<le> \<bar>dkey ?w\<bar>"
      using o fadd_less_far [OF f(1) r f(2)] fsub_greater_far [OF f(1) r f(2)] \<open>0 \<le> dkey r\<close>
      by (auto simp del: abs_dkey)
    then have "dkey (fmul r r) \<le> dkey (fmul ?w ?w)"
      using f r by (intro fmul_self_mono) (simp_all add: finite_not_nan fsub_rounds(2))
    also have "\<dots> \<le> dist_key q p" using distance_sq_num(2) [OF q p sd] .
    finally show ?thesis .
  qed
  have "mbr_num (radius_box q r)"
    using q r by (simp add: mbr_num_def radius_box_def mbr_create_def pt_finite_def fsub_rounds(2) fadd_rounds(2))
  then have "dkey (px p) < dkey (fsub (px q) r) \<or> dkey (fadd (px q) r) < dkey (px p) \<or>
      dkey (py p) < dkey (fsub (py q) r) \<or> dkey (fadd (py q) r) < dkey (py p)"
    using out pt_finite_num [OF p] by (auto simp: mbr_contains_point_key radius_box_def mbr_create_def)
  then show ?thesis
    using axis [of 0] axis [of 1] by (auto simp: kd_coord_def)
qed

subsection \<open>The partition into blocks\<close>

text \<open>The subtrees that become blocks, and the entries of the nodes above them.\<close>

fun block_nodes :: "nat \<Rightarrow> 'd KDNode \<Rightarrow> 'd KDNode list" where
  "block_nodes k KNull = []"
| "block_nodes k (KDNode p oid data sd l r b n) =
     (if unat n \<le> k \<or> l = KNull \<and> r = KNull then [KDNode p oid data sd l r b n]
      else block_nodes k l @ block_nodes k r)"

fun split_entries :: "nat \<Rightarrow> 'd KDNode \<Rightarrow> 'd KDPointData list" where
  "split_entries k KNull = []"
| "split_entries k (KDNode p oid data sd l r b n) =
     (if unat n \<le> k \<or> l = KNull \<and> r = KNull then []
      else \<lparr>pd_point = p, pd_id = oid, pd_data = data\<rparr> # split_entries k l @ split_entries k r)"

lemma collect_leaf_bounds_blocks:
  "fst (collect_leaf_bounds malloc_ok t k acc) = fst acc @ map kd_bounds (block_nodes k t)"
  by (induction t arbitrary: acc) (auto simp: malloc_ok_simp split: prod.splits)

lemma block_nodes_partition:
  "mset (kd_entries t) = mset (concat (map kd_entries (block_nodes k t))) + mset (split_entries k t)"
  by (induction t) auto

lemma block_nodes_inv:
  "kd_inv t \<Longrightarrow> s \<in> set (block_nodes k t) \<Longrightarrow> kd_inv s \<and> s \<noteq> KNull \<and>
     (unat (subtree_size s) \<le> k \<or> length (kd_entries s) = 1)"
  by (induction t) (auto split: if_splits)

lemma kdtree_partition_blocks:
  assumes "kdtree_partition malloc_ok t k = (KD_OK, blocks)"
  shows "blocks = map kd_bounds (block_nodes k (kt_root t))"
  using assms collect_leaf_bounds_blocks [of "kt_root t" k "([], 16)"]
  by (auto simp: kdtree_partition_def malloc_ok_simp split: if_splits)

subsection \<open>Where insertion would attach a point\<close>

lemma find_leaf_insert:
  assumes "t \<noteq> KNull"
  shows "\<exists>q oid data sd l r b n. find_leaf_loop t p = KDNode q oid data sd l r b n \<and>
    (if flt (kd_coord sd p) (kd_coord sd q) then l = KNull else r = KNull)"
  using assms by (induction t p rule: find_leaf_loop.induct) auto

end
