(* ===== verification/KDTree_Props.thy ===== *)
theory KDTree_Props
  imports KDTree_Select Geometry_Props
begin

text \<open>
  The properties of kdtree.c, with their witnesses.  The witnesses use the tree that the bulk load
  builds, with insertion sort for \<open>qsort\<close>, from the corners of the sample triangle.
\<close>

definition sample_entries :: "nat KDPointData list" where
  "sample_entries = map (\<lambda>(i, p). \<lparr>pd_point = p, pd_id = of_nat i, pd_data = i\<rparr>) (enumerate 1 (exterior sample_triangle))"

definition sample_tree :: "nat KDTree" where
  "sample_tree = snd (kdtree_bulk_load isort_by malloc_ok kdtree_init sample_entries)"

lemma isort_by_contract: "qsort_contract isort_by"
  by (rule isort.qsort_contract_axioms)

lemma sample_entries_finite: "e \<in> set sample_entries \<Longrightarrow> pt_finite (pd_point e)"
  by (auto simp: sample_entries_def sample_triangle_def pt_finite_def)

lemma sample_tree_facts:
  "kdtree_inv sample_tree" "mset (kd_entries (kt_root sample_tree)) = mset sample_entries"
proof -
  have "sample_entries \<noteq> []" by (simp add: sample_entries_def sample_triangle_def)
  then obtain t' where "kdtree_bulk_load isort_by malloc_ok kdtree_init sample_entries = (KD_OK, t')"
    "kdtree_inv t'" "mset (kd_entries (kt_root t')) = mset sample_entries"
    using kdtree_bulk_load_ok [where al = malloc_ok and points = sample_entries and t = kdtree_init, OF isort_by_contract]
      sample_entries_finite by (auto simp: malloc_ok_simp pt_finite_num)
  then show "kdtree_inv sample_tree" "mset (kd_entries (kt_root sample_tree)) = mset sample_entries"
    by (simp_all add: sample_tree_def)
qed

lemma sample_tree_root: "kt_root sample_tree \<noteq> KNull" "kd_inv (kt_root sample_tree)"
  using sample_tree_facts by (auto simp: kdtree_inv_def sample_entries_def sample_triangle_def)

lemma sample_tree_finite: "\<forall>e \<in> set (kd_entries (kt_root sample_tree)). pt_finite (pd_point e)"
  using mset_eq_setD [OF sample_tree_facts(2)] sample_entries_finite by auto

lemma sample_query_finite: "pt_finite \<lparr>px = d_two, py = d_one\<rparr>"
  by (simp add: pt_finite_def)

subsection \<open>Construction\<close>

text \<open>
  Inserting a point into a well-formed k-d tree, when the node can be allocated, returns \<open>KD_OK\<close>
  and a well-formed tree (split order, bounds of every subtree, subtree sizes, tree size and tree
  bounds) whose entries are the old ones and the new one.
\<close>

theorem kdtree_insert_correct:
  assumes "kdtree_inv t" "pt_num p" "al sizeof_KDNode"
  shows "fst (kdtree_insert al t p oid data) = KD_OK \<and> kdtree_inv (snd (kdtree_insert al t p oid data)) \<and>
    mset (kd_entries (kt_root (snd (kdtree_insert al t p oid data)))) =
      add_mset \<lparr>pd_point = p, pd_id = oid, pd_data = data\<rparr> (mset (kd_entries (kt_root t)))"
  using kdtree_insert_ok [where al = al, OF assms(3,2,1), of oid data] by auto

theorem kdtree_insert_correct_witness:
  "kdtree_inv (snd (kdtree_insert malloc_ok sample_tree \<lparr>px = d_two, py = d_one\<rparr> 9 0))"
  using kdtree_insert_correct [where al = malloc_ok, OF sample_tree_facts(1) pt_finite_num [OF sample_query_finite]]
  by (simp add: malloc_ok_simp)

lemma bulk_load_balanced:
  fixes qs :: "'d qsort"
  assumes "qsort_contract qs" "points \<noteq> []" "\<forall>e \<in> set points. pt_num (pd_point e)"
  shows "fst (kdtree_bulk_load qs malloc_ok t points) = KD_OK \<and>
    kdtree_inv (snd (kdtree_bulk_load qs malloc_ok t points)) \<and>
    mset (kd_entries (kt_root (snd (kdtree_bulk_load qs malloc_ok t points)))) = mset points \<and>
    2 ^ kdtree_depth (snd (kdtree_bulk_load qs malloc_ok t points)) \<le> 2 * length points \<and>
    kdtree_is_balanced (snd (kdtree_bulk_load qs malloc_ok t points))"
proof -
  obtain t' where t': "kdtree_bulk_load qs malloc_ok t points = (KD_OK, t')" "kdtree_inv t'"
    "mset (kd_entries (kt_root t')) = mset points" "kdtree_depth t' = floorlog 2 (length points)"
    using kdtree_bulk_load_ok [where al = malloc_ok and points = points and t = t, OF assms(1)] assms(2,3)
    by (auto simp: malloc_ok_simp)
  have n: "0 < length points" "length points = kt_size t'"
    using assms(2) t'(2) mset_eq_length [OF t'(3)] by (simp_all add: kdtree_inv_def)
  have "2 ^ (floorlog 2 (length points) - 1) \<le> length points"
    using floorlog_bounds [OF n(1), of 2] by simp
  moreover have "0 < floorlog 2 (length points)"
    using n(1) by (simp add: compute_floorlog)
  then have "2 ^ floorlog 2 (length points) = (2::nat) * 2 ^ (floorlog 2 (length points) - 1)"
    by (simp flip: power_Suc)
  ultimately have "2 ^ kdtree_depth t' \<le> 2 * length points"
    by (simp add: t'(4))
  moreover have "kdtree_is_balanced t'"
    using n by (simp add: kdtree_is_balanced_def t'(4) ceil_log2_def)
  ultimately show ?thesis using t'(1-3) by simp
qed

text \<open>
  C33: A bulk load of points without NaN coordinates replaces the tree by a well-formed one with
  exactly the given entries, whatever \<open>qsort\<close> does to equal elements; its depth is the number of
  binary digits of the number of points, so it passes \<open>kdtree_is_balanced\<close>.
\<close>

theorem kdtree_bulk_load_correct:
  fixes qs :: "'d qsort"
  assumes "qsort_contract qs" "points \<noteq> []" "\<forall>e \<in> set points. pt_num (pd_point e)"
  shows "fst (kdtree_bulk_load qs malloc_ok t points) = KD_OK \<and>
    kdtree_inv (snd (kdtree_bulk_load qs malloc_ok t points)) \<and>
    mset (kd_entries (kt_root (snd (kdtree_bulk_load qs malloc_ok t points)))) = mset points \<and>
    2 ^ kdtree_depth (snd (kdtree_bulk_load qs malloc_ok t points)) \<le> 2 * length points \<and>
    kdtree_is_balanced (snd (kdtree_bulk_load qs malloc_ok t points))"
  by (rule bulk_load_balanced [OF assms])

theorem kdtree_bulk_load_correct_witness:
  "kdtree_is_balanced (snd (kdtree_bulk_load isort_by malloc_ok kdtree_init sample_entries))"
  using kdtree_bulk_load_correct [where points = sample_entries and t = kdtree_init, OF isort_by_contract] sample_entries_finite
  by (auto simp: pt_finite_num sample_entries_def sample_triangle_def)

subsection \<open>Queries\<close>

text \<open>
  C29: A range query on a well-formed tree returns exactly the entries a scan of all entries would
  return, each as often as it was inserted; skipping subtrees by their bounds loses nothing.
\<close>

theorem kdtree_range_query_scan:
  assumes "kdtree_inv t"
  shows "fst (kdtree_range_query malloc_ok t rng res) = KD_OK \<and>
    kr_entries (snd (kdtree_range_query malloc_ok t rng res)) =
      filter (\<lambda>e. mbr_contains_point rng (pd_point e)) (kd_entries (kt_root t))"
  using assms by (simp add: kdtree_range_query_def range_query_recursive_filter kdtree_inv_def)

theorem kdtree_range_query_scan_witness:
  "kr_entries (snd (kdtree_range_query malloc_ok sample_tree (sample_box d_one d_two) \<lparr>kr_entries = [], kr_capacity = 4\<rparr>)) =
    filter (\<lambda>e. mbr_contains_point (sample_box d_one d_two) (pd_point e)) (kd_entries (kt_root sample_tree))"
  using kdtree_range_query_scan [OF sample_tree_facts(1)] by blast

text \<open>
  C30: The nearest-neighbour search returns an entry of the tree that no entry is closer than, by the
  rounded squared distance the code computes, although it prunes the far side with the rounded square
  of a rounded difference.  (When every squared distance is \<open>DBL_MAX\<close> or more, the search keeps the
  root, because its start value is \<open>DBL_MAX\<close>.)
\<close>

theorem kdtree_nearest_closest:
  assumes "kdtree_inv t" "kt_root t \<noteq> KNull" "\<forall>e \<in> set (kd_entries (kt_root t)). pt_finite (pd_point e)" "pt_finite q"
  shows "\<exists>p oid data. kdtree_nearest t q = Inr (p, oid, data) \<and>
    \<lparr>pd_point = p, pd_id = oid, pd_data = data\<rparr> \<in> set (kd_entries (kt_root t)) \<and>
    ((\<forall>e \<in> set (kd_entries (kt_root t)). dkey (point_distance_sq q p) \<le> dkey (point_distance_sq q (pd_point e))) \<or>
     (\<forall>e \<in> set (kd_entries (kt_root t)). fle DBL_MAX (point_distance_sq q (pd_point e))))"
proof -
  obtain p oid data where r: "kdtree_nearest t q = Inr (p, oid, data)"
    using assms(2) by (cases "kt_root t") (auto simp: kdtree_nearest_def Let_def)
  have inv: "kd_inv (kt_root t)" using assms(1) by (simp add: kdtree_inv_def)
  have "fle DBL_MAX (point_distance_sq q (pd_point e))"
    if "e \<in> set (kd_entries (kt_root t))" "dkey DBL_MAX \<le> dist_key q (pd_point e)" for e
    using that distance_sq_num(1) [OF assms(4), of "pd_point e"] assms(3) by (simp add: order_rules dist_key_def)
  with kdtree_nearest_spec [OF inv _ assms(4) r] assms(3) r show ?thesis
    unfolding dist_key_def by blast
qed

theorem kdtree_nearest_closest_witness:
  "\<exists>p oid data. kdtree_nearest sample_tree \<lparr>px = d_two, py = d_one\<rparr> = Inr (p, oid, data)"
  using kdtree_nearest_closest [OF sample_tree_facts(1) sample_tree_root(1) sample_tree_finite sample_query_finite]
  by blast

text \<open>
  C31: The k-nearest query returns \<open>min k size\<close> entries in order of distance, and no entry it leaves
  out is closer than one it returns: result and rest together are the entries of the tree.
\<close>

theorem kdtree_k_nearest_correct:
  assumes "kdtree_inv t" "kt_root t \<noteq> KNull" "0 < k"
    "\<forall>e \<in> set (kd_entries (kt_root t)). pt_finite (pd_point e)" "pt_finite q"
  shows "\<exists>res' rest. kdtree_k_nearest malloc_ok t q k res = (KD_OK, res') \<and>
    mset (kr_entries res' @ rest) = mset (kd_entries (kt_root t)) \<and>
    length (kr_entries res') = min k (kt_size t) \<and>
    sorted (map (\<lambda>e. dkey (point_distance_sq q (pd_point e))) (kr_entries res')) \<and>
    (\<forall>a \<in> set (kr_entries res'). \<forall>b \<in> set rest.
       dkey (point_distance_sq q (pd_point a)) \<le> dkey (point_distance_sq q (pd_point b)))"
  using kdtree_k_nearest_ok [OF assms(1-3) _ assms(5)] assms(4) unfolding dist_key_def by blast

theorem kdtree_k_nearest_correct_witness:
  "\<exists>res'. kdtree_k_nearest malloc_ok sample_tree \<lparr>px = d_two, py = d_one\<rparr> 2 \<lparr>kr_entries = [], kr_capacity = 4\<rparr> = (KD_OK, res') \<and>
    length (kr_entries res') = min 2 (kt_size sample_tree)"
  using kdtree_k_nearest_correct [OF sample_tree_facts(1) sample_tree_root(1) _ sample_tree_finite sample_query_finite, of 2]
  by fastforce

text \<open>
  C34: The radius query returns only entries whose rounded squared distance is at most the rounded
  square of the radius, and every entry whose rounded squared distance is strictly smaller: the box
  it searches first, whose corners are rounded too, cuts off nothing but ties.
\<close>

theorem kdtree_radius_query_correct:
  assumes "kdtree_inv t" "\<forall>e \<in> set (kd_entries (kt_root t)). pt_finite (pd_point e)" "pt_finite q"
    "finite_d r" "fle d_zero r"
  shows "\<exists>res'. kdtree_radius_query malloc_ok t q r res = (KD_OK, res') \<and>
    (\<forall>e \<in> set (kr_entries res'). e \<in> set (kd_entries (kt_root t)) \<and> fle (point_distance_sq q (pd_point e)) (fmul r r)) \<and>
    (\<forall>e \<in> set (kd_entries (kt_root t)). flt (point_distance_sq q (pd_point e)) (fmul r r) \<longrightarrow> e \<in> set (kr_entries res'))"
proof -
  have inv: "kd_inv (kt_root t)" using assms(1) by (simp add: kdtree_inv_def)
  have r0: "0 \<le> dkey r" using assms(4,5) by (simp add: order_rules finite_not_nan)
  have "mbr_contains_point (radius_box q r) (pd_point e)"
    if "e \<in> set (kd_entries (kt_root t))" "flt (point_distance_sq q (pd_point e)) (fmul r r)" for e
    using that outside_box_far [OF assms(3,4) _ r0, of "pd_point e"] assms(2) by (auto simp: flt_def dist_key_def)
  with kdtree_radius_query_filter [OF inv, of q r res] show ?thesis
    by (auto simp: order_defs)
qed

theorem kdtree_radius_query_correct_witness:
  "\<exists>res'. kdtree_radius_query malloc_ok sample_tree \<lparr>px = d_two, py = d_one\<rparr> d_one \<lparr>kr_entries = [], kr_capacity = 4\<rparr> = (KD_OK, res') \<and>
    (\<forall>e \<in> set (kr_entries res'). e \<in> set (kd_entries (kt_root sample_tree)))"
proof -
  have "fle d_zero d_one" by (simp add: order_rules)
  then show ?thesis
    using kdtree_radius_query_correct [OF sample_tree_facts(1) sample_tree_finite sample_query_finite, of d_one] by fastforce
qed

text \<open>
  The block partition.  The blocks are the bounds of disjoint subtrees, each a single node or one
  whose recorded size is at most the limit; each entry lies in a block, or is the entry of a node
  above the blocks, which is in no block's subtree.
\<close>

theorem kdtree_partition_correct:
  assumes "kdtree_inv t" "kdtree_partition malloc_ok t k = (KD_OK, blocks)"
  shows "\<exists>subtrees above. blocks = map kd_bounds subtrees \<and>
    mset (kd_entries (kt_root t)) = mset (concat (map kd_entries subtrees)) + mset above \<and>
    (\<forall>s \<in> set subtrees. (unat (subtree_size s) \<le> k \<or> length (kd_entries s) = 1) \<and>
      (\<forall>e \<in> set (kd_entries s). mbr_contains_point (kd_bounds s) (pd_point e))) \<and>
    set above = set (split_entries k (kt_root t))"
proof -
  have inv: "kd_inv (kt_root t)" using assms(1) by (simp add: kdtree_inv_def)
  have "\<forall>s \<in> set (block_nodes k (kt_root t)). (unat (subtree_size s) \<le> k \<or> length (kd_entries s) = 1) \<and>
      (\<forall>e \<in> set (kd_entries s). mbr_contains_point (kd_bounds s) (pd_point e))"
    using block_nodes_inv [OF inv] kd_inv_bounds by (blast dest: bounds_point_def [THEN iffD1])
  then show ?thesis
    using kdtree_partition_blocks [OF assms(2)] block_nodes_partition [of "kt_root t" k] by blast
qed

theorem kdtree_partition_correct_witness:
  "\<exists>blocks (subtrees :: nat KDNode list). kdtree_partition malloc_ok sample_tree 1 = (KD_OK, blocks) \<and> blocks = map kd_bounds subtrees"
proof -
  obtain blocks where "kdtree_partition malloc_ok sample_tree 1 = (KD_OK, blocks)"
    using sample_tree_root(1) by (simp add: kdtree_partition_def malloc_ok_simp)
  then show ?thesis using kdtree_partition_correct [OF sample_tree_facts(1), of 1 blocks] by blast
qed

definition chain_tree :: "nat KDTree" where
  "chain_tree = \<lparr>kt_root = KDNode (point_create d_two d_two) 2 2 0
       (KDNode (point_create d_one d_one) 1 1 1 KNull KNull (sample_box d_one d_one) 1)
       (KDNode (point_create d_three d_three) 3 3 1 KNull KNull (sample_box d_three d_three) 1)
       (sample_box d_one d_three) 3,
     kt_size = 3, kt_bounds = sample_box d_one d_three\<rparr>"

text \<open>
  The blocks need not cover the tree: in the well-formed tree with the root (2,2) and the children
  (1,1) and (3,3), partitioned into blocks of one point, the root lies in no block.
\<close>

theorem kdtree_partition_misses_root:
  "kdtree_inv chain_tree \<and>
   kdtree_partition malloc_ok chain_tree 1 = (KD_OK, [sample_box d_one d_one, sample_box d_three d_three]) \<and>
   point_create d_two d_two \<in> pd_point ` set (kd_entries (kt_root chain_tree)) \<and>
   \<not> mbr_contains_point (sample_box d_one d_one) (point_create d_two d_two) \<and>
   \<not> mbr_contains_point (sample_box d_three d_three) (point_create d_two d_two)"
proof -
  have k: "mbr_contains_point (sample_box lo hi) (point_create x x) \<longleftrightarrow> dkey lo \<le> dkey x \<and> dkey x \<le> dkey hi"
    if "\<not> isnan lo" "\<not> isnan hi" "\<not> isnan x" for lo hi x
    using that by (subst mbr_contains_point_key) (auto simp: sample_box_def mbr_create_def point_create_def pt_num_def mbr_num_def)
  have n: "pt_num (point_create x x) \<longleftrightarrow> \<not> isnan x" for x
    by (simp add: pt_num_def point_create_def)
  have "kdtree_inv chain_tree"
    by (simp add: kdtree_inv_def chain_tree_def bounds_point_def n k) (simp add: kd_coord_def point_create_def)
  then show ?thesis
    by (simp add: k) (simp add: chain_tree_def kdtree_partition_def malloc_ok_simp)
qed

end
