(* ===== verification/QuadTree.thy ===== *)
theory QuadTree
  imports Geometry_Objects
begin

text \<open>
  src/include/quadtree.h and src/src/quadtree.c: the quadtree of the pages of an index.

  A node pointer is a datatype with the constructor \<open>QTNull\<close> for NULL; the four children are four
  arguments in the order of the enumeration (NW, NE, SW, SE), so a loop over \<open>children[q]\<close> is written
  out.  A pointer to an item inside a node is the value of the item.  \<open>'d\<close> is the type of the
  \<open>void *\<close> data pointers.
\<close>

subsection \<open>Types\<close>

definition QT_DEFAULT_CAPACITY :: nat where "QT_DEFAULT_CAPACITY = 8"
definition QT_MAX_DEPTH :: int where "QT_MAX_DEPTH = 20"

definition sizeof_QTNode :: nat where "sizeof_QTNode = 96"
definition sizeof_QTItem :: nat where "sizeof_QTItem = 64"
definition sizeof_QuadTree :: nat where "sizeof_QuadTree = 32"

datatype Quadrant = QT_NW | QT_NE | QT_SW | QT_SE

record 'd QTItem =
  qi_id :: "64 word"
  qi_bounds :: MBR
  qi_centroid :: Point
  qi_data :: 'd

datatype 'd QTNode = QTNull
  | QTNode (qn_bounds: MBR) (qn_items: "'d QTItem list") (qn_capacity: nat)
      (qn_nw: "'d QTNode") (qn_ne: "'d QTNode") (qn_sw: "'d QTNode") (qn_se: "'d QTNode")
      (qn_depth: int) (qn_leaf: bool)

record 'd QuadTree =
  qt_root :: "'d QTNode"
  qt_total_items :: nat
  qt_node_capacity :: nat
  qt_max_depth :: int

record 'd QTQueryResult =
  qr_items :: "'d QTItem list"
  qr_capacity :: nat

datatype QTError = QT_OK | QT_ERR_NULL_PTR | QT_ERR_ALLOC | QT_ERR_BOUNDS | QT_ERR_NOT_FOUND | QT_ERR_FULL

subsection \<open>Query results\<close>

definition qtresult_init :: "allocator \<Rightarrow> nat \<Rightarrow> QTError \<times> 'd QTQueryResult" where
  "qtresult_init al capacity =
     (let cap = (if capacity > 0 then capacity else 16) in
      if al (cap * sizeof_QTItem) then (QT_OK, \<lparr>qr_items = [], qr_capacity = cap\<rparr>)
      else (QT_ERR_ALLOC, \<lparr>qr_items = [], qr_capacity = 0\<rparr>))"

definition qtresult_free :: "'d QTQueryResult \<Rightarrow> 'd QTQueryResult" where
  "qtresult_free result = \<lparr>qr_items = [], qr_capacity = 0\<rparr>"

definition qtresult_clear :: "'d QTQueryResult \<Rightarrow> 'd QTQueryResult" where
  "qtresult_clear result = result\<lparr>qr_items := []\<rparr>"

definition qtresult_add :: "allocator \<Rightarrow> 'd QTQueryResult \<Rightarrow> 'd QTItem \<Rightarrow> QTError \<times> 'd QTQueryResult" where
  "qtresult_add al result item =
     (if length (qr_items result) \<ge> qr_capacity result then
        (let new_cap = qr_capacity result * GROWTH_FACTOR in
         if al (new_cap * sizeof_QTItem)
         then (QT_OK, result\<lparr>qr_items := qr_items result @ [item], qr_capacity := new_cap\<rparr>)
         else (QT_ERR_ALLOC, result))
      else (QT_OK, result\<lparr>qr_items := qr_items result @ [item]\<rparr>))"

subsection \<open>Nodes\<close>

definition qtnode_create :: "allocator \<Rightarrow> MBR \<Rightarrow> nat \<Rightarrow> int \<Rightarrow> 'd QTNode" where
  "qtnode_create al bounds capacity depth =
     (let cap = (if capacity > 0 then capacity else QT_DEFAULT_CAPACITY) in
      if al sizeof_QTNode \<and> al (cap * sizeof_QTItem)
      then QTNode bounds [] cap QTNull QTNull QTNull QTNull depth True
      else QTNull)"

definition qt_mid_x :: "MBR \<Rightarrow> double" where
  "qt_mid_x b = fdiv (fadd (min_x b) (max_x b)) d_two"

definition qt_mid_y :: "MBR \<Rightarrow> double" where
  "qt_mid_y b = fdiv (fadd (min_y b) (max_y b)) d_two"

definition qtnode_get_quadrant :: "'d QTNode \<Rightarrow> Point \<Rightarrow> Quadrant" where
  "qtnode_get_quadrant node p =
     (case node of QTNull \<Rightarrow> QT_NW
      | QTNode b is cap nw ne sw se d leaf \<Rightarrow>
          if flt (px p) (qt_mid_x b) then (if flt (py p) (qt_mid_y b) then QT_SW else QT_NW)
          else (if flt (py p) (qt_mid_y b) then QT_SE else QT_NE))"

text \<open>The rectangle of a quadrant of \<open>b\<close>, as \<open>qtnode_split\<close> and \<open>qtnode_quadrant_bounds\<close> compute it.\<close>

fun quadrant_rect :: "MBR \<Rightarrow> Quadrant \<Rightarrow> MBR" where
  "quadrant_rect b QT_NW = mbr_create (min_x b) (qt_mid_y b) (qt_mid_x b) (max_y b)"
| "quadrant_rect b QT_NE = mbr_create (qt_mid_x b) (qt_mid_y b) (max_x b) (max_y b)"
| "quadrant_rect b QT_SW = mbr_create (min_x b) (min_y b) (qt_mid_x b) (qt_mid_y b)"
| "quadrant_rect b QT_SE = mbr_create (qt_mid_x b) (min_y b) (max_x b) (qt_mid_y b)"

definition qtnode_quadrant_bounds :: "'d QTNode \<Rightarrow> Quadrant \<Rightarrow> MBR" where
  "qtnode_quadrant_bounds node q =
     (case node of QTNull \<Rightarrow> mbr_empty | QTNode b is cap nw ne sw se d leaf \<Rightarrow> quadrant_rect b q)"

text \<open>
  Splitting.  One step of the redistribution puts an item into the first child that contains it and
  has room in the array it was created with.  The four children are fresh leaves; they are kept as
  their item lists here.
\<close>

definition put_if :: "MBR \<Rightarrow> nat \<Rightarrow> 'd QTItem \<Rightarrow> 'd QTItem list \<Rightarrow> bool" where
  "put_if b cap item is = (mbr_contains_mbr b (qi_bounds item) \<and> length is < cap)"

fun redistribute ::
  "MBR \<Rightarrow> nat \<Rightarrow> 'd QTItem list \<Rightarrow> 'd QTItem list \<times> 'd QTItem list \<times> 'd QTItem list \<times> 'd QTItem list \<Rightarrow>
   'd QTItem list \<times> 'd QTItem list \<times> 'd QTItem list \<times> 'd QTItem list" where
  "redistribute b cap [] acc = acc"
| "redistribute b cap (item # items) (nw, ne, sw, se) =
     redistribute b cap items
       (if put_if (quadrant_rect b QT_NW) cap item nw then (nw @ [item], ne, sw, se)
        else if put_if (quadrant_rect b QT_NE) cap item ne then (nw, ne @ [item], sw, se)
        else if put_if (quadrant_rect b QT_SW) cap item sw then (nw, ne, sw @ [item], se)
        else if put_if (quadrant_rect b QT_SE) cap item se then (nw, ne, sw, se @ [item])
        else (nw, ne, sw, se))"

definition with_items :: "'d QTItem list \<Rightarrow> 'd QTNode \<Rightarrow> 'd QTNode" where
  "with_items items node =
     (case node of QTNull \<Rightarrow> QTNull
      | QTNode b is cap nw ne sw se d leaf \<Rightarrow> QTNode b items cap nw ne sw se d leaf)"

text \<open>At the end the array of the node itself is emptied: \<open>node->item_count = 0\<close>.\<close>

definition qtnode_split :: "allocator \<Rightarrow> 'd QTNode \<Rightarrow> nat \<Rightarrow> QTError \<times> 'd QTNode" where
  "qtnode_split al node capacity =
     (case node of QTNull \<Rightarrow> (QT_ERR_NULL_PTR, node)
      | QTNode b items cap nw ne sw se d leaf \<Rightarrow>
          if \<not> leaf then (QT_ERR_NULL_PTR, node)
          else
            let child = (\<lambda>q. qtnode_create al (quadrant_rect b q) capacity (d + 1));
                cs = map child [QT_NW, QT_NE, QT_SW, QT_SE]
            in if QTNull \<in> set cs then (QT_ERR_ALLOC, QTNode b items cap QTNull QTNull QTNull QTNull d leaf)
               else case redistribute b (qn_capacity (child QT_NW)) items ([], [], [], []) of
                 (i_nw, i_ne, i_sw, i_se) \<Rightarrow>
                   (QT_OK, QTNode b [] cap (with_items i_nw (child QT_NW)) (with_items i_ne (child QT_NE))
                      (with_items i_sw (child QT_SW)) (with_items i_se (child QT_SE)) d False))"

text \<open>Appending to the array of a node, with its reallocation.\<close>

definition qtnode_append :: "allocator \<Rightarrow> 'd QTNode \<Rightarrow> 'd QTItem \<Rightarrow> QTError \<times> 'd QTNode" where
  "qtnode_append al node item =
     (case node of QTNull \<Rightarrow> (QT_ERR_NULL_PTR, QTNull)
      | QTNode b items cap nw ne sw se d leaf \<Rightarrow>
          if length items \<ge> cap then
            (let new_cap = cap * GROWTH_FACTOR in
             if al (new_cap * sizeof_QTItem) then (QT_OK, QTNode b (items @ [item]) new_cap nw ne sw se d leaf)
             else (QT_ERR_ALLOC, node))
          else (QT_OK, QTNode b (items @ [item]) cap nw ne sw se d leaf))"

text \<open>
  The measure of the insertion: a leaf may still split until the maximal depth, an internal node is
  above its children.
\<close>

fun qt_height :: "int \<Rightarrow> 'd QTNode \<Rightarrow> nat" where
  "qt_height md QTNull = 0"
| "qt_height md (QTNode b items cap nw ne sw se d leaf) =
     (if leaf then 2 * nat (md - d) + 2
      else 1 + max (max (qt_height md nw) (qt_height md ne)) (max (qt_height md sw) (qt_height md se)))"

lemma qt_height_with_items [simp]: "qt_height md (with_items is n) = qt_height md n"
  by (cases n) (simp_all add: with_items_def)

lemma qt_height_create: "qt_height md (qtnode_create al b cap d) \<le> 2 * nat (md - d) + 2"
  by (simp add: qtnode_create_def Let_def)

lemma qt_height_split:
  assumes "qtnode_split al (QTNode b items cap nw ne sw se d True) k = (QT_OK, node')" "d < md"
  shows "qt_height md node' < qt_height md (QTNode b items cap nw ne sw se d True)"
proof -
  have "2 * nat (md - (d + 1)) + 2 = 2 * nat (md - d)"
    using assms(2) by simp
  then have c: "qt_height md (qtnode_create al c k (d + 1)) \<le> 2 * nat (md - d)" for c
    using qt_height_create [of md al c k "d + 1"] by simp
  show ?thesis
    using assms(1) c by (auto simp: qtnode_split_def Let_def less_Suc_eq_le split: if_splits prod.splits
        intro: le_SucI)
qed

function qtnode_insert :: "allocator \<Rightarrow> 'd QTNode \<Rightarrow> 'd QTItem \<Rightarrow> nat \<Rightarrow> int \<Rightarrow> QTError \<times> 'd QTNode" where
  "qtnode_insert al QTNull item node_capacity max_depth = (QT_ERR_NULL_PTR, QTNull)"
| "qtnode_insert al (QTNode b items cap nw ne sw se d leaf) item node_capacity max_depth =
     (let node = QTNode b items cap nw ne sw se d leaf in
      if \<not> mbr_intersects b (qi_bounds item) then (QT_ERR_BOUNDS, node)
      else if leaf then
        (if length items \<ge> node_capacity \<and> d < max_depth then
           (case qtnode_split al node node_capacity of (err, node') \<Rightarrow>
              if err \<noteq> QT_OK then (err, node')
              else qtnode_insert al node' item node_capacity max_depth)
         else qtnode_append al node item)
      else if nw \<noteq> QTNull \<and> mbr_contains_mbr (qn_bounds nw) (qi_bounds item) then
        (case qtnode_insert al nw item node_capacity max_depth of (err, c) \<Rightarrow>
           (err, QTNode b items cap c ne sw se d leaf))
      else if ne \<noteq> QTNull \<and> mbr_contains_mbr (qn_bounds ne) (qi_bounds item) then
        (case qtnode_insert al ne item node_capacity max_depth of (err, c) \<Rightarrow>
           (err, QTNode b items cap nw c sw se d leaf))
      else if sw \<noteq> QTNull \<and> mbr_contains_mbr (qn_bounds sw) (qi_bounds item) then
        (case qtnode_insert al sw item node_capacity max_depth of (err, c) \<Rightarrow>
           (err, QTNode b items cap nw ne c se d leaf))
      else if se \<noteq> QTNull \<and> mbr_contains_mbr (qn_bounds se) (qi_bounds item) then
        (case qtnode_insert al se item node_capacity max_depth of (err, c) \<Rightarrow>
           (err, QTNode b items cap nw ne sw c d leaf))
      else qtnode_append al node item)"
  by pat_completeness auto
termination
proof (relation "measure (\<lambda>(al, node, item, node_capacity, max_depth). qt_height max_depth node)", goal_cases)
  case (2 al b items cap nw ne sw se d leaf item node_capacity max_depth x p node')
  then show ?case
    using qt_height_split [of al b items cap nw ne sw se d node_capacity node' max_depth] by simp
qed auto

declare qtnode_insert.simps(2) [simp del]

subsection \<open>Traversals\<close>

fun add_items :: "allocator \<Rightarrow> ('d QTItem \<Rightarrow> bool) \<Rightarrow> 'd QTItem list \<Rightarrow> 'd QTQueryResult \<Rightarrow> 'd QTQueryResult" where
  "add_items al P [] result = result"
| "add_items al P (item # items) result =
     add_items al P items (if P item then snd (qtresult_add al result item) else result)"

fun qtnode_query_range :: "allocator \<Rightarrow> 'd QTNode \<Rightarrow> MBR \<Rightarrow> 'd QTQueryResult \<Rightarrow> 'd QTQueryResult" where
  "qtnode_query_range al QTNull rng result = result"
| "qtnode_query_range al (QTNode b items cap nw ne sw se d leaf) rng result =
     (if \<not> mbr_intersects b rng then result
      else let result1 = add_items al (\<lambda>item. mbr_intersects (qi_bounds item) rng) items result in
        if leaf then result1
        else qtnode_query_range al se rng (qtnode_query_range al sw rng
               (qtnode_query_range al ne rng (qtnode_query_range al nw rng result1))))"

fun qtnode_query_point :: "allocator \<Rightarrow> 'd QTNode \<Rightarrow> Point \<Rightarrow> 'd QTQueryResult \<Rightarrow> 'd QTQueryResult" where
  "qtnode_query_point al QTNull p result = result"
| "qtnode_query_point al (QTNode b items cap nw ne sw se d leaf) p result =
     (if \<not> mbr_contains_point b p then result
      else let result1 = add_items al (\<lambda>item. mbr_contains_point (qi_bounds item) p) items result in
        if leaf then result1
        else qtnode_query_point al se p (qtnode_query_point al sw p
               (qtnode_query_point al ne p (qtnode_query_point al nw p result1))))"

text \<open>The first of two results, in the order of the loop over the children.\<close>

definition or_else :: "'a option \<Rightarrow> 'a option \<Rightarrow> 'a option" where
  "or_else a b = (case a of None \<Rightarrow> b | Some x \<Rightarrow> Some x)"

fun qtnode_find :: "'d QTNode \<Rightarrow> 64 word \<Rightarrow> 'd QTItem option" where
  "qtnode_find QTNull oid = None"
| "qtnode_find (QTNode b items cap nw ne sw se d leaf) oid =
     or_else (List.find (\<lambda>item. qi_id item = oid) items)
       (if leaf then None
        else or_else (qtnode_find nw oid) (or_else (qtnode_find ne oid)
               (or_else (qtnode_find sw oid) (qtnode_find se oid))))"

text \<open>The new node is None when nothing was removed.\<close>

fun qtnode_remove :: "'d QTNode \<Rightarrow> 64 word \<Rightarrow> 'd QTNode option" where
  "qtnode_remove QTNull oid = None"
| "qtnode_remove (QTNode b items cap nw ne sw se d leaf) oid =
     (case find_index (\<lambda>item. qi_id item = oid) items of
        Some i \<Rightarrow> Some (QTNode b (remove_at i items) cap nw ne sw se d leaf)
      | None \<Rightarrow>
          if leaf then None
          else (case qtnode_remove nw oid of Some c \<Rightarrow> Some (QTNode b items cap c ne sw se d leaf)
          | None \<Rightarrow> (case qtnode_remove ne oid of Some c \<Rightarrow> Some (QTNode b items cap nw c sw se d leaf)
          | None \<Rightarrow> (case qtnode_remove sw oid of Some c \<Rightarrow> Some (QTNode b items cap nw ne c se d leaf)
          | None \<Rightarrow> (case qtnode_remove se oid of Some c \<Rightarrow> Some (QTNode b items cap nw ne sw c d leaf)
          | None \<Rightarrow> None)))))"

fun qtnode_collect_all :: "allocator \<Rightarrow> 'd QTNode \<Rightarrow> 'd QTQueryResult \<Rightarrow> 'd QTQueryResult" where
  "qtnode_collect_all al QTNull result = result"
| "qtnode_collect_all al (QTNode b items cap nw ne sw se d leaf) result =
     (let result1 = add_items al (\<lambda>item. True) items result in
      if leaf then result1
      else qtnode_collect_all al se (qtnode_collect_all al sw
             (qtnode_collect_all al ne (qtnode_collect_all al nw result1))))"

text \<open>The counters are the number of nodes, the maximal depth and the number of leaves.\<close>

fun qtnode_count :: "'d QTNode \<Rightarrow> nat \<times> int \<times> nat \<Rightarrow> nat \<times> int \<times> nat" where
  "qtnode_count QTNull acc = acc"
| "qtnode_count (QTNode b items cap nw ne sw se d leaf) (total_nodes, max_depth, leaf_count) =
     (let total_nodes' = total_nodes + 1; max_depth' = (if d > max_depth then d else max_depth) in
      if leaf then (total_nodes', max_depth', leaf_count + 1)
      else qtnode_count se (qtnode_count sw (qtnode_count ne (qtnode_count nw
             (total_nodes', max_depth', leaf_count)))))"

subsection \<open>The tree\<close>

definition quadtree_init :: "allocator \<Rightarrow> MBR \<Rightarrow> nat \<Rightarrow> int \<Rightarrow> QTError \<times> 'd QuadTree" where
  "quadtree_init al bounds node_capacity max_depth =
     (let cap = (if node_capacity > 0 then node_capacity else QT_DEFAULT_CAPACITY);
          rt = qtnode_create al bounds cap 0;
          qt = \<lparr>qt_root = rt, qt_total_items = 0, qt_node_capacity = cap,
                qt_max_depth = (if max_depth > 0 then max_depth else QT_MAX_DEPTH)\<rparr>
      in if rt = QTNull then (QT_ERR_ALLOC, qt) else (QT_OK, qt))"

definition quadtree_create :: "allocator \<Rightarrow> MBR \<Rightarrow> nat \<Rightarrow> int \<Rightarrow> 'd QuadTree option" where
  "quadtree_create al bounds node_capacity max_depth =
     (if \<not> al sizeof_QuadTree then None
      else case quadtree_init al bounds node_capacity max_depth of
        (err, qt) \<Rightarrow> if err \<noteq> QT_OK then None else Some qt)"

definition quadtree_free :: "'d QuadTree \<Rightarrow> 'd QuadTree" where
  "quadtree_free qt = qt\<lparr>qt_root := QTNull, qt_total_items := 0\<rparr>"

definition quadtree_insert_with_centroid ::
  "allocator \<Rightarrow> 'd QuadTree \<Rightarrow> 64 word \<Rightarrow> MBR \<Rightarrow> Point \<Rightarrow> 'd \<Rightarrow> QTError \<times> 'd QuadTree" where
  "quadtree_insert_with_centroid al qt oid bounds centroid data =
     (if qt_root qt = QTNull then (QT_ERR_NULL_PTR, qt)
      else case qtnode_insert al (qt_root qt)
            \<lparr>qi_id = oid, qi_bounds = bounds, qi_centroid = centroid, qi_data = data\<rparr>
            (qt_node_capacity qt) (qt_max_depth qt) of
        (err, rt) \<Rightarrow>
          (err, qt\<lparr>qt_root := rt,
             qt_total_items := (if err = QT_OK then qt_total_items qt + 1 else qt_total_items qt)\<rparr>))"

definition quadtree_insert ::
  "allocator \<Rightarrow> 'd QuadTree \<Rightarrow> 64 word \<Rightarrow> MBR \<Rightarrow> 'd \<Rightarrow> QTError \<times> 'd QuadTree" where
  "quadtree_insert al qt oid bounds data =
     quadtree_insert_with_centroid al qt oid bounds (mbr_centroid bounds) data"

definition quadtree_remove :: "'d QuadTree \<Rightarrow> 64 word \<Rightarrow> QTError \<times> 'd QuadTree" where
  "quadtree_remove qt oid =
     (if qt_root qt = QTNull then (QT_ERR_NULL_PTR, qt)
      else case qtnode_remove (qt_root qt) oid of
        Some rt \<Rightarrow> (QT_OK, qt\<lparr>qt_root := rt, qt_total_items := qt_total_items qt - 1\<rparr>)
      | None \<Rightarrow> (QT_ERR_NOT_FOUND, qt))"

definition quadtree_query_range ::
  "allocator \<Rightarrow> 'd QuadTree \<Rightarrow> MBR \<Rightarrow> 'd QTQueryResult \<Rightarrow> QTError \<times> 'd QTQueryResult" where
  "quadtree_query_range al qt rng result =
     (QT_OK, qtnode_query_range al (qt_root qt) rng (qtresult_clear result))"

definition quadtree_query_point ::
  "allocator \<Rightarrow> 'd QuadTree \<Rightarrow> Point \<Rightarrow> 'd QTQueryResult \<Rightarrow> QTError \<times> 'd QTQueryResult" where
  "quadtree_query_point al qt p result =
     (QT_OK, qtnode_query_point al (qt_root qt) p (qtresult_clear result))"

definition mbr_adjacent_or_intersects :: "MBR \<Rightarrow> MBR \<Rightarrow> bool" where
  "mbr_adjacent_or_intersects a b =
     (\<not> (flt (fadd (max_x a) d_1e_9) (min_x b) \<or> fgt (fsub (min_x a) d_1e_9) (max_x b) \<or>
         flt (fadd (max_y a) d_1e_9) (min_y b) \<or> fgt (fsub (min_y a) d_1e_9) (max_y b)))"

text \<open>The region expanded by a hundredth of its size, and by at least a millionth.\<close>

definition expand_region :: "MBR \<Rightarrow> MBR" where
  "expand_region region =
     (let dx0 = fmul (fsub (max_x region) (min_x region)) d_0_01;
          dy0 = fmul (fsub (max_y region) (min_y region)) d_0_01;
          dx = (if flt dx0 d_1e_6 then d_1e_6 else dx0);
          dy = (if flt dy0 d_1e_6 then d_1e_6 else dy0)
      in mbr_create (fsub (min_x region) dx) (fsub (min_y region) dy)
           (fadd (max_x region) dx) (fadd (max_y region) dy))"

definition quadtree_find_adjacent_to_region ::
  "allocator \<Rightarrow> 'd QuadTree \<Rightarrow> MBR \<Rightarrow> 'd QTQueryResult \<Rightarrow> QTError \<times> 'd QTQueryResult" where
  "quadtree_find_adjacent_to_region al qt region result =
     (let result0 = qtresult_clear result in
      case qtresult_init al 64 of
        (QT_OK, all0) \<Rightarrow>
          (let all_items = qr_items (qtnode_query_range al (qt_root qt) (expand_region region) all0)
           in (QT_OK, add_items al (\<lambda>item. mbr_adjacent_or_intersects (qi_bounds item) region) all_items result0))
      | (err, all0) \<Rightarrow> (err, result0))"

definition quadtree_find_adjacent ::
  "allocator \<Rightarrow> 'd QuadTree \<Rightarrow> 64 word \<Rightarrow> 'd QTQueryResult \<Rightarrow> QTError \<times> 'd QTQueryResult" where
  "quadtree_find_adjacent al qt oid result =
     (case qtnode_find (qt_root qt) oid of
        None \<Rightarrow> (QT_ERR_NOT_FOUND, result)
      | Some item \<Rightarrow> quadtree_find_adjacent_to_region al qt (qi_bounds item) result)"

definition quadtree_query_radius ::
  "allocator \<Rightarrow> 'd QuadTree \<Rightarrow> Point \<Rightarrow> double \<Rightarrow> 'd QTQueryResult \<Rightarrow> QTError \<times> 'd QTQueryResult" where
  "quadtree_query_radius al qt center radius result =
     (let box = mbr_create (fsub (px center) radius) (fsub (py center) radius)
                  (fadd (px center) radius) (fadd (py center) radius) in
      case qtresult_init al 64 of
        (QT_OK, box0) \<Rightarrow>
          (let box_items = qr_items (qtnode_query_range al (qt_root qt) box box0);
               radius_sq = fmul radius radius
           in (QT_OK, add_items al (\<lambda>item. fle (point_distance_sq center (qi_centroid item)) radius_sq)
                 box_items (qtresult_clear result)))
      | (err, box0) \<Rightarrow> (err, result))"

definition quadtree_get :: "'d QuadTree \<Rightarrow> 64 word \<Rightarrow> QTError + 'd QTItem" where
  "quadtree_get qt oid =
     (case qtnode_find (qt_root qt) oid of None \<Rightarrow> Inl QT_ERR_NOT_FOUND | Some item \<Rightarrow> Inr item)"

definition quadtree_update :: "allocator \<Rightarrow> 'd QuadTree \<Rightarrow> 64 word \<Rightarrow> MBR \<Rightarrow> QTError \<times> 'd QuadTree" where
  "quadtree_update al qt oid new_bounds =
     (case qtnode_find (qt_root qt) oid of
        None \<Rightarrow> (QT_ERR_NOT_FOUND, qt)
      | Some item \<Rightarrow>
          (case quadtree_remove qt oid of
             (QT_OK, qt') \<Rightarrow> quadtree_insert al qt' oid new_bounds (qi_data item)
           | (err, qt') \<Rightarrow> (err, qt')))"

definition quadtree_get_all :: "allocator \<Rightarrow> 'd QuadTree \<Rightarrow> 'd QTQueryResult \<Rightarrow> QTError \<times> 'd QTQueryResult" where
  "quadtree_get_all al qt result = (QT_OK, qtnode_collect_all al (qt_root qt) (qtresult_clear result))"

text \<open>The total of items, the number of nodes, the maximal depth and the number of leaves.\<close>

definition quadtree_stats :: "'d QuadTree \<Rightarrow> nat \<times> nat \<times> int \<times> nat" where
  "quadtree_stats qt = (qt_total_items qt, qtnode_count (qt_root qt) (0, 0, 0))"

definition quadtree_clear :: "allocator \<Rightarrow> 'd QuadTree \<Rightarrow> 'd QuadTree" where
  "quadtree_clear al qt =
     (if qt_root qt = QTNull then qt
      else snd (quadtree_init al (qn_bounds (qt_root qt)) (qt_node_capacity qt) (qt_max_depth qt)))"

end
