(* ===== verification/QuadTree_Inv.thy ===== *)
theory QuadTree_Inv
  imports QuadTree
begin

text \<open>
  The invariant of the quadtree: an item below the root lies inside the bounds of every node on its
  path.  Range and point queries on such a tree are scans of the items; insertion keeps the invariant
  and stores the new item, and may lose old ones in a split; removal takes out the first item with the
  id.
\<close>

fun qt_items :: "'d QTNode \<Rightarrow> 'd QTItem list" where
  "qt_items QTNull = []"
| "qt_items (QTNode b items cap nw ne sw se d leaf) =
     items @ (if leaf then [] else qt_items nw @ qt_items ne @ qt_items sw @ qt_items se)"

definition qt_within :: "'d QTNode \<Rightarrow> bool" where
  "qt_within n = (\<forall>i \<in> set (qt_items n). mbr_contains_mbr (qn_bounds n) (qi_bounds i))"

fun qt_inv :: "'d QTNode \<Rightarrow> bool" where
  "qt_inv QTNull = True"
| "qt_inv (QTNode b items cap nw ne sw se d leaf) =
     (leaf \<or> (nw \<noteq> QTNull \<and> qt_inv nw \<and> qt_within nw \<and> ne \<noteq> QTNull \<and> qt_inv ne \<and> qt_within ne \<and>
       sw \<noteq> QTNull \<and> qt_inv sw \<and> qt_within sw \<and> se \<noteq> QTNull \<and> qt_inv se \<and> qt_within se))"

lemma qt_within_Null [simp]: "qt_within QTNull"
  by (simp add: qt_within_def)

lemma qt_within_bounds: "qt_within n \<Longrightarrow> i \<in> set (qt_items n) \<Longrightarrow> bounds_mbr (qn_bounds n) (qi_bounds i)"
  by (auto simp: qt_within_def bounds_mbr_def dest: mbr_contains_mbr_num)

subsection \<open>Query results\<close>

definition qr_wf :: "'d QTQueryResult \<Rightarrow> bool" where
  "qr_wf r = (length (qr_items r) \<le> qr_capacity r \<and> 0 < qr_capacity r)"

interpretation qt_result: growable qr_items "\<lambda>al r i. snd (qtresult_add al r i)" qr_wf
proof
  fix al and s :: "'d QTQueryResult" and x
  show "qr_items (snd (qtresult_add malloc_ok s x)) = qr_items s @ [x]"
    by (simp add: qtresult_add_def Let_def malloc_ok_simp)
  show "qr_items (snd (qtresult_add al s x)) = qr_items s @ [x] \<or> snd (qtresult_add al s x) = s"
    by (auto simp: qtresult_add_def Let_def)
  assume "qr_wf s"
  then show "qr_wf (snd (qtresult_add al s x))"
    by (auto simp: qtresult_add_def Let_def qr_wf_def GROWTH_FACTOR_def)
qed

lemma add_items_filter [simp]: "qr_items (add_items malloc_ok P items res) = qr_items res @ filter P items"
  by (induction items arbitrary: res) (simp_all add: qtresult_add_def Let_def malloc_ok_simp)

lemma qtresult_clear_items [simp]: "qr_items (qtresult_clear r) = []"
  by (simp add: qtresult_clear_def)

lemma qtresult_init_ok: "\<exists>r. qtresult_init malloc_ok n = (QT_OK, r) \<and> qr_items r = []"
  by (simp add: qtresult_init_def Let_def malloc_ok_simp)

lemma collect_all_items: "qr_items (qtnode_collect_all malloc_ok n res) = qr_items res @ qt_items n"
  by (induction n arbitrary: res) (simp_all add: Let_def)

subsection \<open>Queries are scans\<close>

lemma query_range_scan:
  assumes "mbr_num rng"
  shows "qt_inv n \<Longrightarrow> qt_within n \<or> mbr_intersects (qn_bounds n) rng \<Longrightarrow>
    qr_items (qtnode_query_range malloc_ok n rng res) =
      qr_items res @ filter (\<lambda>i. mbr_intersects (qi_bounds i) rng) (qt_items n)"
proof (induction n arbitrary: res)
  case QTNull
  then show ?case by simp
next
  case (QTNode b items cap nw ne sw se d leaf)
  show ?case
  proof (cases "mbr_intersects b rng")
    case True
    with QTNode show ?thesis by (cases leaf) (simp_all add: Let_def)
  next
    case False
    then have w: "qt_within (QTNode b items cap nw ne sw se d leaf)" using QTNode.prems by simp
    have "filter (\<lambda>i. mbr_intersects (qi_bounds i) rng) (qt_items (QTNode b items cap nw ne sw se d leaf)) = []"
      using False assms box_region.hit_visits [of b _ rng] qt_within_bounds [OF w] by (intro filter_empty_if) fastforce
    with False show ?thesis by simp
  qed
qed

lemma query_range_outside: "\<not> mbr_intersects (qn_bounds n) rng \<Longrightarrow> qtnode_query_range al n rng res = res"
  by (cases n) auto

lemma query_point_scan:
  "qt_inv n \<Longrightarrow> qt_within n \<or> mbr_contains_point (qn_bounds n) p \<Longrightarrow>
    qr_items (qtnode_query_point malloc_ok n p res) =
      qr_items res @ filter (\<lambda>i. mbr_contains_point (qi_bounds i) p) (qt_items n)"
proof (induction n arbitrary: res)
  case QTNull
  then show ?case by simp
next
  case (QTNode b items cap nw ne sw se d leaf)
  show ?case
  proof (cases "mbr_contains_point b p")
    case True
    with QTNode show ?thesis by (cases leaf) (simp_all add: Let_def)
  next
    case False
    then have w: "qt_within (QTNode b items cap nw ne sw se d leaf)" using QTNode.prems by simp
    have "filter (\<lambda>i. mbr_contains_point (qi_bounds i) p) (qt_items (QTNode b items cap nw ne sw se d leaf)) = []"
      using False stab_region.hit_visits [of b _ p] qt_within_bounds [OF w] by (intro filter_empty_if) fastforce
    with False show ?thesis by simp
  qed
qed

subsection \<open>Splitting\<close>

definition fits :: "MBR \<Rightarrow> 'd QTItem \<Rightarrow> bool" where
  "fits b i = (\<exists>q \<in> {QT_NW, QT_NE, QT_SW, QT_SE}. mbr_contains_mbr (quadrant_rect b q) (qi_bounds i))"

definition quad_msets :: "'a list \<times> 'a list \<times> 'a list \<times> 'a list \<Rightarrow> 'a multiset" where
  "quad_msets = (\<lambda>(a, b, c, d). mset a + mset b + mset c + mset d)"

definition quads_in :: "MBR \<Rightarrow> 'd QTItem list \<times> 'd QTItem list \<times> 'd QTItem list \<times> 'd QTItem list \<Rightarrow> bool" where
  "quads_in b = (\<lambda>(nw, ne, sw, se).
     (\<forall>i \<in> set nw. mbr_contains_mbr (quadrant_rect b QT_NW) (qi_bounds i)) \<and>
     (\<forall>i \<in> set ne. mbr_contains_mbr (quadrant_rect b QT_NE) (qi_bounds i)) \<and>
     (\<forall>i \<in> set sw. mbr_contains_mbr (quadrant_rect b QT_SW) (qi_bounds i)) \<and>
     (\<forall>i \<in> set se. mbr_contains_mbr (quadrant_rect b QT_SE) (qi_bounds i)))"

lemma redistribute_in: "quads_in b acc \<Longrightarrow> quads_in b (redistribute b cap items acc)"
proof (induction items arbitrary: acc)
  case Nil
  then show ?case by simp
next
  case (Cons i items)
  obtain nw ne sw se where acc: "acc = (nw, ne, sw, se)" by (cases acc)
  show ?case
    using Cons.prems unfolding acc redistribute.simps
    by (intro Cons.IH) (auto simp: quads_in_def put_if_def)
qed

lemma redistribute_subset: "quad_msets (redistribute b cap items acc) \<subseteq># mset items + quad_msets acc"
proof (induction items arbitrary: acc)
  case Nil
  then show ?case by simp
next
  case (Cons i items)
  obtain nw ne sw se where acc: "acc = (nw, ne, sw, se)" by (cases acc)
  let ?acc' = "if put_if (quadrant_rect b QT_NW) cap i nw then (nw @ [i], ne, sw, se)
        else if put_if (quadrant_rect b QT_NE) cap i ne then (nw, ne @ [i], sw, se)
        else if put_if (quadrant_rect b QT_SW) cap i sw then (nw, ne, sw @ [i], se)
        else if put_if (quadrant_rect b QT_SE) cap i se then (nw, ne, sw, se @ [i])
        else (nw, ne, sw, se)"
  have "quad_msets ?acc' \<subseteq># add_mset i (quad_msets acc)"
    by (auto simp: quad_msets_def acc)
  then have "mset items + quad_msets ?acc' \<subseteq># mset (i # items) + quad_msets acc"
    using subset_mset.add_left_mono [of "quad_msets ?acc'" "add_mset i (quad_msets acc)" "mset items"] by simp
  with Cons.IH [of ?acc'] show ?case
    unfolding acc redistribute.simps by (rule subset_mset.order_trans)
qed

text \<open>Exactly the items that no quadrant contains are dropped, when the arrays have room.\<close>

lemma redistribute_fits:
  "length items + size (quad_msets acc) \<le> cap \<Longrightarrow>
    quad_msets (redistribute b cap items acc) = mset (filter (fits b) items) + quad_msets acc"
proof (induction items arbitrary: acc)
  case Nil
  then show ?case by simp
next
  case (Cons i items)
  obtain nw ne sw se where acc: "acc = (nw, ne, sw, se)" by (cases acc)
  let ?acc' = "if put_if (quadrant_rect b QT_NW) cap i nw then (nw @ [i], ne, sw, se)
        else if put_if (quadrant_rect b QT_NE) cap i ne then (nw, ne @ [i], sw, se)
        else if put_if (quadrant_rect b QT_SW) cap i sw then (nw, ne, sw @ [i], se)
        else if put_if (quadrant_rect b QT_SE) cap i se then (nw, ne, sw, se @ [i])
        else (nw, ne, sw, se)"
  have room: "length nw < cap" "length ne < cap" "length sw < cap" "length se < cap"
    using Cons.prems by (simp_all add: acc quad_msets_def)
  have m: "quad_msets ?acc' = (if fits b i then add_mset i (quad_msets acc) else quad_msets acc)"
    using room by (auto simp: quad_msets_def acc fits_def put_if_def)
  have "length items + size (quad_msets ?acc') \<le> cap"
    using Cons.prems unfolding m by (simp split: if_split)
  from Cons.IH [OF this] show ?case
    unfolding acc redistribute.simps m [unfolded acc] by (simp add: acc)
qed

lemma split_correct:
  assumes "qtnode_split al (QTNode b items cap nw ne sw se d True) k = (QT_OK, node')"
  shows "qt_inv node' \<and> qn_bounds node' = b \<and> node' \<noteq> QTNull \<and> \<not> qn_leaf node' \<and>
    mset (qt_items node') \<subseteq># mset items \<and>
    (0 < k \<longrightarrow> length items \<le> k \<longrightarrow> mset (qt_items node') = mset (filter (fits b) items))"
proof -
  define c where "c = (if 0 < k then k else QT_DEFAULT_CAPACITY)"
  obtain i_nw i_ne i_sw i_se where r: "redistribute b c items ([], [], [], []) = (i_nw, i_ne, i_sw, i_se)"
    by (cases "redistribute b c items ([], [], [], [])")
  let ?leaf = "\<lambda>q is. QTNode (quadrant_rect b q) is c QTNull QTNull QTNull QTNull (d + 1) True"
  have n: "node' = QTNode b [] cap (?leaf QT_NW i_nw) (?leaf QT_NE i_ne) (?leaf QT_SW i_sw) (?leaf QT_SE i_se) d False"
    using assms r by (simp add: qtnode_split_def qtnode_create_def with_items_def c_def Let_def split: if_splits)
  have "quads_in b (i_nw, i_ne, i_sw, i_se)"
    unfolding r [symmetric] by (rule redistribute_in) (simp add: quads_in_def)
  then have "qt_inv node'"
    by (auto simp: n quads_in_def qt_within_def)
  moreover have m: "mset (qt_items node') = quad_msets (i_nw, i_ne, i_sw, i_se)"
    by (simp add: n quad_msets_def)
  moreover have "quad_msets (i_nw, i_ne, i_sw, i_se) \<subseteq># mset items"
    using redistribute_subset [of b c items "([], [], [], [])"] by (simp add: r quad_msets_def)
  moreover have "quad_msets (i_nw, i_ne, i_sw, i_se) = mset (filter (fits b) items)" if "length items \<le> c"
    using redistribute_fits [of items "([], [], [], [])" c b] that unfolding r by (simp add: quad_msets_def)
  ultimately show ?thesis
    by (auto simp: n c_def simp del: qt_items.simps)
qed

lemma split_malloc_ok:
  "\<exists>node'. qtnode_split malloc_ok (QTNode b items cap nw ne sw se d True) k = (QT_OK, node')"
  by (simp add: qtnode_split_def qtnode_create_def Let_def malloc_ok_simp split: prod.split)

lemma split_error:
  assumes "qtnode_split al (QTNode b items cap nw ne sw se d True) k = (err, node')" "err \<noteq> QT_OK"
  shows "err = QT_ERR_ALLOC \<and> node' = QTNode b items cap QTNull QTNull QTNull QTNull d True"
  using assms by (auto simp: qtnode_split_def Let_def split: if_splits prod.splits)

subsection \<open>Insertion\<close>

text \<open>What an insertion does to a node: the outcome of \<open>qtnode_insert\<close> on every branch.\<close>

definition ins_mset :: "QTError \<Rightarrow> 'a \<Rightarrow> 'a multiset \<Rightarrow> 'a multiset \<Rightarrow> bool" where
  "ins_mset err x m m' = (if err = QT_OK then x \<in># m' \<and> m' \<subseteq># add_mset x m else m' \<subseteq># m)"

lemma ins_mset_add: "ins_mset err x m m' \<Longrightarrow> ins_mset err x (m + z) (m' + z)"
  using subset_mset.add_right_mono [of m' "add_mset x m" z]
  by (auto simp: ins_mset_def subset_mset.add_right_mono)

lemma ins_mset_set: "ins_mset err x m m' \<Longrightarrow> y \<in># m' \<Longrightarrow> y = x \<or> y \<in># m"
  by (auto simp: ins_mset_def dest: mset_subset_eqD split: if_splits)

definition inserted :: "'d QTNode \<Rightarrow> 'd QTItem \<Rightarrow> QTError \<times> 'd QTNode \<Rightarrow> bool" where
  "inserted node item r = (case r of (err, node') \<Rightarrow>
     qt_inv node' \<and> qn_bounds node' = qn_bounds node \<and> node' \<noteq> QTNull \<and>
     ins_mset err item (mset (qt_items node)) (mset (qt_items node')))"

lemma append_inserted:
  assumes "qt_inv (QTNode b items cap nw ne sw se d leaf)"
  shows "inserted (QTNode b items cap nw ne sw se d leaf) item
    (qtnode_append al (QTNode b items cap nw ne sw se d leaf) item)"
  using assms by (auto simp: inserted_def ins_mset_def qtnode_append_def Let_def)

lemma inserted_within:
  assumes "inserted c item (err, c')" "qt_within c" "mbr_contains_mbr (qn_bounds c) (qi_bounds item)"
  shows "qt_within c'"
proof -
  have "set (qt_items c') \<subseteq> insert item (set (qt_items c))"
    using assms(1) ins_mset_set [of err item "mset (qt_items c)" "mset (qt_items c')"] by (auto simp: inserted_def)
  with assms show ?thesis by (auto simp: qt_within_def inserted_def)
qed

lemma inserted_child:
  assumes "qt_inv (QTNode b items cap nw ne sw se d False)" "inserted c item (err, c')"
    "mbr_contains_mbr (qn_bounds c) (qi_bounds item)"
  shows "c = nw \<Longrightarrow> inserted (QTNode b items cap nw ne sw se d False) item (err, QTNode b items cap c' ne sw se d False)"
    "c = ne \<Longrightarrow> inserted (QTNode b items cap nw ne sw se d False) item (err, QTNode b items cap nw c' sw se d False)"
    "c = sw \<Longrightarrow> inserted (QTNode b items cap nw ne sw se d False) item (err, QTNode b items cap nw ne c' se d False)"
    "c = se \<Longrightarrow> inserted (QTNode b items cap nw ne sw se d False) item (err, QTNode b items cap nw ne sw c' d False)"
proof -
  have w: "qt_within c \<Longrightarrow> qt_within c'" using inserted_within [OF assms(2) _ assms(3)] by blast
  have b: "qn_bounds c' = qn_bounds c" and i: "qt_inv c'" "c' \<noteq> QTNull"
    using assms(2) by (auto simp: inserted_def)
  have m: "ins_mset err item (mset (qt_items c) + z) (mset (qt_items c') + z)" for z
    using assms(2) by (intro ins_mset_add) (simp add: inserted_def)
  show "inserted (QTNode b items cap nw ne sw se d False) item (err, QTNode b items cap c' ne sw se d False)" if "c = nw"
    using that assms(1) w b i m [of "mset items + mset (qt_items ne) + mset (qt_items sw) + mset (qt_items se)"] by (simp add: inserted_def add_ac)
  show "inserted (QTNode b items cap nw ne sw se d False) item (err, QTNode b items cap nw c' sw se d False)" if "c = ne"
    using that assms(1) w b i m [of "mset items + mset (qt_items nw) + mset (qt_items sw) + mset (qt_items se)"] by (simp add: inserted_def add_ac)
  show "inserted (QTNode b items cap nw ne sw se d False) item (err, QTNode b items cap nw ne c' se d False)" if "c = sw"
    using that assms(1) w b i m [of "mset items + mset (qt_items nw) + mset (qt_items ne) + mset (qt_items se)"] by (simp add: inserted_def add_ac)
  show "inserted (QTNode b items cap nw ne sw se d False) item (err, QTNode b items cap nw ne sw c' d False)" if "c = se"
    using that assms(1) w b i m [of "mset items + mset (qt_items nw) + mset (qt_items ne) + mset (qt_items sw)"] by (simp add: inserted_def add_ac)
qed

lemma inserted_after_split:
  assumes "inserted node' item r" "mset (qt_items node') \<subseteq># mset (qt_items node)" "qn_bounds node' = qn_bounds node"
  shows "inserted node item r"
proof -
  have "ins_mset err item (mset (qt_items node)) m'" if "ins_mset err item (mset (qt_items node')) m'" for err m'
    using that assms(2) subset_mset.order_trans [of m' "mset (qt_items node')" "mset (qt_items node)"]
      subset_mset.order_trans [of m' "add_mset item (mset (qt_items node'))" "add_mset item (mset (qt_items node))"]
    by (auto simp: ins_mset_def split: if_splits)
  with assms show ?thesis by (auto simp: inserted_def)
qed

lemma inserted_same: "qt_inv node \<Longrightarrow> node \<noteq> QTNull \<Longrightarrow> err \<noteq> QT_OK \<Longrightarrow> inserted node item (err, node)"
  by (simp add: inserted_def ins_mset_def)

lemma insert_correct:
  "qt_inv node \<Longrightarrow> node \<noteq> QTNull \<Longrightarrow> inserted node item (qtnode_insert al node item k md)"
proof (induction al node item k md rule: qtnode_insert.induct)
  case (1 al item k md)
  then show ?case by simp
next
  case (2 al b items cap nw ne sw se d leaf item k md)
  let ?node = "QTNode b items cap nw ne sw se d leaf"
  show ?case
  proof (cases "mbr_intersects b (qi_bounds item)")
    case False
    then show ?thesis
      using 2(6) by (subst qtnode_insert.simps) (simp add: Let_def inserted_same)
  next
    case int: True
    show ?thesis
    proof (cases leaf)
      case leaf: True
      show ?thesis
      proof (cases "length items \<ge> k \<and> d < md")
        case True
        obtain err node' where sp: "qtnode_split al ?node k = (err, node')" by (cases "qtnode_split al ?node k")
        show ?thesis
        proof (cases "err = QT_OK")
          case ok: True
          have s: "qt_inv node'" "qn_bounds node' = b" "node' \<noteq> QTNull" "mset (qt_items node') \<subseteq># mset (qt_items ?node)"
            using split_correct [of al b items cap nw ne sw se d k node'] sp leaf ok by auto
          have "inserted node' item (qtnode_insert al node' item k md)"
            using 2(1) [OF refl _ leaf True sp [symmetric]] int ok s by simp
          then have "inserted ?node item (qtnode_insert al node' item k md)"
            by (rule inserted_after_split) (use s in simp_all)
          with int leaf True sp ok show ?thesis by (subst qtnode_insert.simps) (simp add: Let_def)
        next
          case False
          then have e: "node' = QTNode b items cap QTNull QTNull QTNull QTNull d True"
            using split_error [of al b items cap nw ne sw se d k err node'] sp leaf by simp
          then have "inserted ?node item (err, node')"
            using False leaf by (simp add: inserted_def ins_mset_def)
          with int leaf True sp False show ?thesis by (subst qtnode_insert.simps) (simp add: Let_def)
        qed
      next
        case False
        with int leaf show ?thesis
          using append_inserted [OF 2(6)] by (subst qtnode_insert.simps) (auto simp: Let_def)
      qed
    next
      case nleaf: False
      note inv = 2(6) [unfolded nleaf [THEN eqTrueI, simplified]]
      let ?in = "\<lambda>c. c \<noteq> QTNull \<and> mbr_contains_mbr (qn_bounds c) (qi_bounds item)"
      have ch: "qt_inv nw" "qt_inv ne" "qt_inv sw" "qt_inv se" using 2(6) nleaf by simp_all
      have unfold: "qtnode_insert al ?node item k md =
        (if ?in nw then (case qtnode_insert al nw item k md of (err, c) \<Rightarrow> (err, QTNode b items cap c ne sw se d leaf))
         else if ?in ne then (case qtnode_insert al ne item k md of (err, c) \<Rightarrow> (err, QTNode b items cap nw c sw se d leaf))
         else if ?in sw then (case qtnode_insert al sw item k md of (err, c) \<Rightarrow> (err, QTNode b items cap nw ne c se d leaf))
         else if ?in se then (case qtnode_insert al se item k md of (err, c) \<Rightarrow> (err, QTNode b items cap nw ne sw c d leaf))
         else qtnode_append al ?node item)"
        using int nleaf by (subst qtnode_insert.simps) (simp add: Let_def)
      have into: "inserted c item (qtnode_insert al c item k md)"
        if "c = nw \<and> ?in nw \<or> c = ne \<and> \<not> ?in nw \<and> ?in ne \<or> c = sw \<and> \<not> ?in nw \<and> \<not> ?in ne \<and> ?in sw \<or>
          c = se \<and> \<not> ?in nw \<and> \<not> ?in ne \<and> \<not> ?in sw \<and> ?in se" for c
        using that 2(2-5) [OF refl _ nleaf] int ch by (elim disjE) auto
      show ?thesis
        unfolding unfold using into inserted_child [of b items cap nw ne sw se d _ item] 2(6) nleaf append_inserted [OF 2(6)]
        by (auto split: prod.splits)
    qed
  qed
qed

lemma contains_intersects: "mbr_contains_mbr a i \<Longrightarrow> mbr_intersects a i"
proof -
  assume c: "mbr_contains_mbr a i"
  then have "mbr_num a" "mbr_num i" using mbr_contains_mbr_num by blast+
  with c show ?thesis by (simp add: mbr_contains_mbr_key mbr_intersects_key)
qed

lemma append_malloc_ok: "node \<noteq> QTNull \<Longrightarrow> fst (qtnode_append malloc_ok node item) = QT_OK"
  by (cases node) (simp_all add: qtnode_append_def Let_def malloc_ok_simp)

lemma insert_malloc_ok:
  "node \<noteq> QTNull \<Longrightarrow> fst (qtnode_insert malloc_ok node item k md) =
    (if mbr_intersects (qn_bounds node) (qi_bounds item) then QT_OK else QT_ERR_BOUNDS)"
proof (induction "malloc_ok" node item k md rule: qtnode_insert.induct)
  case (1 item k md)
  then show ?case by simp
next
  case (2 b items cap nw ne sw se d leaf item k md)
  let ?node = "QTNode b items cap nw ne sw se d leaf"
  show ?case
  proof (cases "mbr_intersects b (qi_bounds item)")
    case False
    then show ?thesis by (subst qtnode_insert.simps) (simp add: Let_def)
  next
    case int: True
    show ?thesis
    proof (cases leaf)
      case leaf: True
      obtain node' where sp: "qtnode_split malloc_ok ?node k = (QT_OK, node')"
        using split_malloc_ok [of b items cap nw ne sw se d k] leaf by auto
      have s: "qn_bounds node' = b" "node' \<noteq> QTNull"
        using split_correct [of malloc_ok b items cap nw ne sw se d k node'] sp leaf by auto
      have "fst (qtnode_insert malloc_ok node' item k md) = QT_OK" if "length items \<ge> k \<and> d < md"
        using 2(1) [OF refl _ leaf that sp [symmetric]] int s by simp
      then show ?thesis
        using int leaf sp append_malloc_ok [of ?node item]
        by (subst qtnode_insert.simps) (auto simp: Let_def)
    next
      case nleaf: False
      have in_child: "fst (qtnode_insert malloc_ok c item k md) = QT_OK"
        if "fst (qtnode_insert malloc_ok c item k md) =
              (if mbr_intersects (qn_bounds c) (qi_bounds item) then QT_OK else QT_ERR_BOUNDS)"
          "mbr_contains_mbr (qn_bounds c) (qi_bounds item)" for c
        using that contains_intersects by auto
      show ?thesis
        using int nleaf append_malloc_ok [of ?node item] 2(2-5) [OF refl _ nleaf] in_child
        by (subst qtnode_insert.simps) (auto simp: Let_def split: prod.splits)
    qed
  qed
qed

lemma insert_outside:
  "node \<noteq> QTNull \<Longrightarrow> \<not> mbr_intersects (qn_bounds node) (qi_bounds item) \<Longrightarrow>
    qtnode_insert al node item k md = (QT_ERR_BOUNDS, node)"
  by (cases node) (simp_all add: qtnode_insert.simps Let_def)

subsection \<open>Lookup and removal\<close>

lemma find_append: "List.find P (xs @ ys) = or_else (List.find P xs) (List.find P ys)"
  by (induction xs) (simp_all add: or_else_def)

lemma or_else_None [simp]: "or_else a None = a"
  by (cases a) (simp_all add: or_else_def)

lemma qtnode_find_items: "qtnode_find n oid = List.find (\<lambda>i. qi_id i = oid) (qt_items n)"
  by (induction n) (simp_all add: find_append)

lemma find_index_append:
  "find_index P (xs @ ys) =
    (case find_index P xs of Some i \<Rightarrow> Some i | None \<Rightarrow> map_option (\<lambda>i. length xs + i) (find_index P ys))"
  by (cases "find_index P ys"; induction xs) (auto split: option.splits)

lemma remove_at_append:
  "remove_at i (xs @ ys) = (if i < length xs then remove_at i xs @ ys else xs @ remove_at (i - length xs) ys)"
  by (auto simp: remove_at_def Suc_diff_le)

definition remove_first :: "('a \<Rightarrow> bool) \<Rightarrow> 'a list \<Rightarrow> 'a list option" where
  "remove_first P xs = map_option (\<lambda>i. remove_at i xs) (find_index P xs)"

lemma remove_first_append:
  "remove_first P (xs @ ys) =
    (case remove_first P xs of Some zs \<Rightarrow> Some (zs @ ys) | None \<Rightarrow> map_option (\<lambda>zs. xs @ zs) (remove_first P ys))"
  using find_index_Some [of P xs]
  by (cases "find_index P ys") (auto simp: remove_first_def find_index_append remove_at_append split: option.splits)

lemma remove_first_subset: "remove_first P xs = Some ys \<Longrightarrow> set ys \<subseteq> set xs"
  by (auto simp: remove_first_def dest: subsetD [OF set_remove_at_subset])

lemma remove_first_mset:
  "remove_first P xs = Some ys \<Longrightarrow> \<exists>x \<in> set xs. P x \<and> List.find P xs = Some x \<and> mset xs = add_mset x (mset ys)"
proof (induction xs arbitrary: ys)
  case Nil
  then show ?case by (simp add: remove_first_def)
next
  case (Cons x xs)
  show ?case
  proof (cases "P x")
    case True
    with Cons.prems show ?thesis by (simp add: remove_first_def remove_at_def)
  next
    case False
    with Cons.prems obtain zs where "remove_first P xs = Some zs" "ys = x # zs"
      by (auto simp: remove_first_def remove_at_def option.map_comp comp_def)
    with Cons.IH [of zs] False show ?thesis by auto
  qed
qed

lemma remove_first_None: "remove_first P xs = None \<longleftrightarrow> (\<forall>x \<in> set xs. \<not> P x)"
  by (simp add: remove_first_def find_index_None)

lemma qtnode_remove_correct:
  assumes "qt_inv n"
  shows "(case qtnode_remove n oid of
      None \<Rightarrow> remove_first (\<lambda>i. qi_id i = oid) (qt_items n) = None
    | Some n' \<Rightarrow> remove_first (\<lambda>i. qi_id i = oid) (qt_items n) = Some (qt_items n') \<and> qt_inv n' \<and>
        n' \<noteq> QTNull \<and> qn_bounds n' = qn_bounds n)"
  using assms
proof (induction n)
  case QTNull
  then show ?case by (simp add: remove_first_def)
next
  case (QTNode b items cap nw ne sw se d leaf)
  have w: "qt_within n'" if "qt_within c" "remove_first P (qt_items c) = Some (qt_items n')" "qn_bounds n' = qn_bounds c"
    for c n' P
    using that remove_first_subset [OF that(2)] by (auto simp: qt_within_def)
  have own: "find_index P items = map_option (\<lambda>_. the (find_index P items)) (remove_first P items)" for P
    by (cases "find_index P items") (simp_all add: remove_first_def)
  show ?case
  proof (cases leaf)
    case True
    then show ?thesis by (auto simp: remove_first_def split: option.splits)
  next
    case False
    with QTNode.prems have inv: "qt_inv nw" "qt_inv ne" "qt_inv sw" "qt_inv se" by simp_all
    show ?thesis
      using QTNode.IH(1) [OF inv(1)] QTNode.IH(2) [OF inv(2)] QTNode.IH(3) [OF inv(3)] QTNode.IH(4) [OF inv(4)]
        QTNode.prems False
      by (auto simp: remove_first_append remove_first_def [of _ items] split: option.splits intro: w)
  qed
qed

end
