(* ===== verification/QuadTree_Props.thy ===== *)
theory QuadTree_Props
  imports QuadTree_Inv Geometry_Props
begin

text \<open>
  The properties of quadtree.c, with their witnesses.  The witnesses use a tree over the rectangle
  from (1,1) to (3,3) with room for one item in a node.
\<close>

definition quadtree_inv :: "'d QuadTree \<Rightarrow> bool" where
  "quadtree_inv qt = (qt_root qt \<noteq> QTNull \<and> qt_inv (qt_root qt) \<and>
     length (qt_items (qt_root qt)) \<le> qt_total_items qt \<and> 0 < qt_node_capacity qt)"

lemma quadrants: "{QT_NW, QT_NE, QT_SW, QT_SE} = UNIV"
proof -
  have "q \<in> {QT_NW, QT_NE, QT_SW, QT_SE}" for q by (cases q) simp_all
  then show ?thesis by blast
qed

definition sample_quadtree :: "nat QuadTree" where
  "sample_quadtree = snd (quadtree_init malloc_ok (sample_box d_one d_three) 1 4)"

lemma quadtree_init_inv: "quadtree_inv (snd (quadtree_init malloc_ok b k md))"
  by (simp add: quadtree_inv_def quadtree_init_def qtnode_create_def Let_def malloc_ok_simp QT_DEFAULT_CAPACITY_def)

lemma quadtree_init_bounds: "qn_bounds (qt_root (snd (quadtree_init malloc_ok b k md))) = b"
  by (simp add: quadtree_init_def qtnode_create_def Let_def malloc_ok_simp)

lemma sample_quadtree_inv: "quadtree_inv sample_quadtree"
  unfolding sample_quadtree_def by (rule quadtree_init_inv)

definition spanning_tree :: "nat QuadTree" where
  "spanning_tree = snd (quadtree_insert malloc_ok sample_quadtree 1 (sample_box d_one d_three) 0)"

lemma sample_mid_value: "fdiv (fadd d_one d_three) d_two = d_two" by code_simp

lemma sample_mid: "qt_mid_x (sample_box d_one d_three) = d_two" "qt_mid_y (sample_box d_one d_three) = d_two"
  by (simp_all add: qt_mid_x_def qt_mid_y_def sample_box_def mbr_create_def sample_mid_value)

lemma sample_contains: "\<not> isnan a \<Longrightarrow> \<not> isnan b \<Longrightarrow> \<not> isnan c \<Longrightarrow> \<not> isnan d \<Longrightarrow> mbr_contains_mbr (sample_box a b) (sample_box c d) = 
   (dkey a \<le> dkey c \<and> dkey c \<le> dkey d \<and> dkey d \<le> dkey b)"
  by (subst mbr_contains_mbr_key) (auto simp: sample_box_def mbr_num_def mbr_create_def)

lemma sample_intersects: "\<not> isnan a \<Longrightarrow> \<not> isnan b \<Longrightarrow> \<not> isnan c \<Longrightarrow> \<not> isnan d \<Longrightarrow> mbr_intersects (sample_box a b) (sample_box c d) = 
   (dkey a \<le> dkey b \<and> dkey c \<le> dkey d \<and> dkey c \<le> dkey b \<and> dkey a \<le> dkey d)"
  by (subst mbr_intersects_key) (auto simp: sample_box_def mbr_num_def mbr_create_def)

lemma sample_quadrants: "quadrant_rect (sample_box d_one d_three) QT_NW = mbr_create d_one d_two d_two d_three"
  "quadrant_rect (sample_box d_one d_three) QT_NE = sample_box d_two d_three"
  "quadrant_rect (sample_box d_one d_three) QT_SW = sample_box d_one d_two"
  "quadrant_rect (sample_box d_one d_three) QT_SE = mbr_create d_two d_one d_three d_two"
  by (simp_all add: sample_mid quadrant_rect.simps) (simp_all add: sample_box_def mbr_create_def)

lemma sample_nw_misses: "\<not> mbr_contains_mbr (mbr_create d_one d_two d_two d_three) (sample_box c c')" if "c = d_one" "c' = d_one \<or> c' = d_three"
  using that by (auto simp: mbr_contains_mbr_def mbr_is_empty_def sample_box_def mbr_create_def order_rules)

lemma sample_se_misses: "\<not> mbr_contains_mbr (mbr_create d_two d_one d_three d_two) (sample_box c c')" if "c = d_one" "c' = d_one \<or> c' = d_three"
  using that by (auto simp: mbr_contains_mbr_def mbr_is_empty_def sample_box_def mbr_create_def order_rules)

lemma spanning_tree_value: "spanning_tree = \<lparr>qt_root = QTNode (sample_box d_one d_three) [\<lparr>qi_id = 1, qi_bounds = sample_box d_one d_three, qi_centroid = mbr_centroid (sample_box d_one d_three), qi_data = 0\<rparr>] 1 QTNull QTNull QTNull QTNull 0 True, qt_total_items = 1, qt_node_capacity = 1, qt_max_depth = 4\<rparr>"
  by (simp add: spanning_tree_def sample_quadtree_def quadtree_init_def qtnode_create_def malloc_ok_simp quadtree_insert_def quadtree_insert_with_centroid_def
   qtnode_insert.simps(2) sample_intersects qtnode_append_def)

subsection \<open>Queries\<close>

text \<open>
  C32: On a well-formed quadtree a range query returns exactly the stored items whose bounds intersect
  the range, in the order of a full traversal, when the range meets the bounds of the root; otherwise
  it returns nothing.  So an item that sticks out of the root's bounds is missed only by ranges that
  lie outside these bounds.
\<close>

theorem quadtree_query_range_scan:
  assumes "quadtree_inv qt" "mbr_num rng"
  shows "fst (quadtree_query_range malloc_ok qt rng res) = QT_OK \<and>
    qr_items (snd (quadtree_query_range malloc_ok qt rng res)) =
      (if mbr_intersects (qn_bounds (qt_root qt)) rng
       then filter (\<lambda>i. mbr_intersects (qi_bounds i) rng) (qt_items (qt_root qt)) else [])"
  using assms query_range_scan [OF assms(2), of "qt_root qt"]
  by (simp add: quadtree_query_range_def quadtree_inv_def query_range_outside)

theorem quadtree_query_range_scan_witness:
  "qr_items (snd (quadtree_query_range malloc_ok sample_quadtree (sample_box d_one d_two) \<lparr>qr_items = [], qr_capacity = 4\<rparr>)) =
    (if mbr_intersects (qn_bounds (qt_root sample_quadtree)) (sample_box d_one d_two)
     then filter (\<lambda>i. mbr_intersects (qi_bounds i) (sample_box d_one d_two)) (qt_items (qt_root sample_quadtree)) else [])"
  using quadtree_query_range_scan [OF sample_quadtree_inv, of "sample_box d_one d_two"] by simp

subsection \<open>Insertion\<close>

text \<open>
  C35: Inserting an item whose bounds meet the bounds of the root stores it and keeps the tree well
  formed; the tree holds nothing else but items it held before.  An item outside the root's bounds is
  refused with \<open>QT_ERR_BOUNDS\<close> and the tree stays as it was.
\<close>

theorem quadtree_insert_correct:
  assumes "quadtree_inv qt"
  shows "let item = \<lparr>qi_id = oid, qi_bounds = b, qi_centroid = mbr_centroid b, qi_data = data\<rparr>;
      (err, qt') = quadtree_insert malloc_ok qt oid b data in
    if mbr_intersects (qn_bounds (qt_root qt)) b
    then err = QT_OK \<and> quadtree_inv qt' \<and> item \<in> set (qt_items (qt_root qt')) \<and>
      mset (qt_items (qt_root qt')) \<subseteq># add_mset item (mset (qt_items (qt_root qt))) \<and>
      qt_total_items qt' = qt_total_items qt + 1
    else err = QT_ERR_BOUNDS \<and> qt' = qt"
proof -
  let ?item = "\<lparr>qi_id = oid, qi_bounds = b, qi_centroid = mbr_centroid b, qi_data = data\<rparr>"
  obtain err rt where r: "qtnode_insert malloc_ok (qt_root qt) ?item (qt_node_capacity qt) (qt_max_depth qt) = (err, rt)"
    by (cases "qtnode_insert malloc_ok (qt_root qt) ?item (qt_node_capacity qt) (qt_max_depth qt)")
  have e: "err = (if mbr_intersects (qn_bounds (qt_root qt)) b then QT_OK else QT_ERR_BOUNDS)"
    using insert_malloc_ok [of "qt_root qt" ?item "qt_node_capacity qt" "qt_max_depth qt"] assms r
    by (simp add: quadtree_inv_def)
  have i: "inserted (qt_root qt) ?item (err, rt)"
    using insert_correct [of "qt_root qt" ?item malloc_ok "qt_node_capacity qt" "qt_max_depth qt"] assms r
    by (simp add: quadtree_inv_def)
  have o: "rt = qt_root qt" if "\<not> mbr_intersects (qn_bounds (qt_root qt)) b"
    using that insert_outside [where node = "qt_root qt" and item = ?item] assms r by (simp add: quadtree_inv_def)
  have l: "length (qt_items rt) \<le> Suc (length (qt_items (qt_root qt)))"
    if "mset (qt_items rt) \<subseteq># add_mset ?item (mset (qt_items (qt_root qt)))"
    using size_mset_mono [OF that] by simp
  show ?thesis
    using assms e i o l r
    by (auto simp: quadtree_insert_def quadtree_insert_with_centroid_def quadtree_inv_def inserted_def ins_mset_def)
qed

theorem quadtree_insert_correct_witness:
  "let (err, qt') = quadtree_insert malloc_ok sample_quadtree 1 (sample_box d_one d_two) 0 in
    if mbr_intersects (qn_bounds (qt_root sample_quadtree)) (sample_box d_one d_two)
    then err = QT_OK \<and> quadtree_inv qt' else err = QT_ERR_BOUNDS \<and> qt' = sample_quadtree"
  using quadtree_insert_correct [OF sample_quadtree_inv, of 1 "sample_box d_one d_two" 0]
  by (auto simp: Let_def split: if_splits)

text \<open>
  What a split does to the items of a full leaf: the new children hold exactly the items that lie
  entirely inside one of the four quadrants.  The items that span quadrants are dropped from the tree.
\<close>

theorem qtnode_split_keeps_fitting:
  assumes "qtnode_split al (QTNode b items cap nw ne sw se d True) k = (QT_OK, node')"
    "0 < k" "length items \<le> k"
  shows "mset (qt_items node') =
    mset (filter (\<lambda>i. \<exists>q. mbr_contains_mbr (qtnode_quadrant_bounds (QTNode b items cap nw ne sw se d True) q) (qi_bounds i)) items)"
proof -
  have "fits b i \<longleftrightarrow> (\<exists>q. mbr_contains_mbr (quadrant_rect b q) (qi_bounds i))" for i :: "'a QTItem"
    unfolding fits_def quadrants by simp
  then show ?thesis
    using split_correct [OF assms(1)] assms(2,3) by (simp add: qtnode_quadrant_bounds_def)
qed

theorem qtnode_split_keeps_fitting_witness:
  "\<exists>node' :: nat QTNode. qtnode_split malloc_ok (QTNode (sample_box d_one d_three) [] 1 QTNull QTNull QTNull QTNull 0 True) 1 = (QT_OK, node') \<and>
    mset (qt_items node') = {#}"
proof -
  obtain node' :: "nat QTNode" where n: "qtnode_split malloc_ok (QTNode (sample_box d_one d_three) [] 1 QTNull QTNull QTNull QTNull 0 True) 1 =
      (QT_OK, node')"
    using split_malloc_ok by blast
  then show ?thesis using qtnode_split_keeps_fitting [OF n] by (intro exI [of _ node']) simp
qed


subsection \<open>Lookup, removal, update\<close>

text \<open>
  \<open>quadtree_get\<close> finds an item exactly when one with the id is stored, and returns the first in
  traversal order; \<open>quadtree_remove\<close> then removes exactly that item, keeps the tree well formed and
  counts it off; without such an item it reports \<open>QT_ERR_NOT_FOUND\<close> and changes nothing.
\<close>

theorem quadtree_get_remove:
  assumes "quadtree_inv qt"
  shows "case quadtree_get qt oid of
      Inl err \<Rightarrow> err = QT_ERR_NOT_FOUND \<and> (\<forall>i \<in> set (qt_items (qt_root qt)). qi_id i \<noteq> oid) \<and>
        quadtree_remove qt oid = (QT_ERR_NOT_FOUND, qt)
    | Inr item \<Rightarrow> item \<in> set (qt_items (qt_root qt)) \<and> qi_id item = oid \<and>
        (let (err, qt') = quadtree_remove qt oid in err = QT_OK \<and> quadtree_inv qt' \<and>
           mset (qt_items (qt_root qt)) = add_mset item (mset (qt_items (qt_root qt'))) \<and>
           qt_total_items qt = qt_total_items qt' + 1)"
proof -
  let ?P = "\<lambda>i. qi_id i = oid"
  let ?items = "qt_items (qt_root qt)"
  have nn: "qt_root qt \<noteq> QTNull" and inv: "qt_inv (qt_root qt)" using assms by (simp_all add: quadtree_inv_def)
  show ?thesis
  proof (cases "qtnode_remove (qt_root qt) oid")
    case None
    then have none: "\<forall>x \<in> set ?items. \<not> ?P x"
      using qtnode_remove_correct [OF inv, of oid] remove_first_None [of ?P ?items] by simp
    then have "List.find ?P ?items = None" by (simp add: find_None_iff)
    with none nn None show ?thesis
      by (simp add: quadtree_get_def qtnode_find_items quadtree_remove_def)
  next
    case (Some n')
    then have n': "remove_first ?P ?items = Some (qt_items n')" "qt_inv n'" "n' \<noteq> QTNull"
      using qtnode_remove_correct [OF inv, of oid] by simp_all
    obtain x where x: "x \<in> set ?items" "?P x" "List.find ?P ?items = Some x" "mset ?items = add_mset x (mset (qt_items n'))"
      using remove_first_mset [OF n'(1)] by blast
    have "length ?items = Suc (length (qt_items n'))"
      using arg_cong [OF x(4), of size] by simp
    then have "length (qt_items n') \<le> qt_total_items qt - 1" "0 < qt_total_items qt"
      using assms by (auto simp: quadtree_inv_def)
    with assms x n' nn Some show ?thesis
      by (simp add: quadtree_get_def qtnode_find_items quadtree_remove_def quadtree_inv_def)
  qed
qed

theorem quadtree_get_remove_witness: "quadtree_remove sample_quadtree 5 = (QT_ERR_NOT_FOUND, sample_quadtree)"
proof -
  have "quadtree_get sample_quadtree 5 = Inl QT_ERR_NOT_FOUND" by code_simp
  then show ?thesis using quadtree_get_remove [OF sample_quadtree_inv, of 5] by simp
qed

end
