(* ===== verification/Page.thy ===== *)
theory Page
  imports Geometry_Objects
begin

unbundle bit_operations_syntax

text \<open>
  src/include/page.h and the pages and tracks of src/src/page.c.

  Pages are shared: the pool, the tracks, the allocation tree and the page quadtree all hold
  \<open>Page *\<close>.  A page pointer is an address, a natural number, into a heap that maps addresses to
  pages and knows which are allocated.  Reading a freed page is undefined in C; the model reads the
  last contents, and the invariants say where no freed page is read.  Tracks are never freed before
  the pool and keep their position in its array, so a \<open>DiskTrack *\<close> is that position.

  \<open>header.object_count\<close> is the length of the list of objects.  \<open>raw_data\<close> is never used by the code
  and is left out.  Words are stored in the byte order of a little-endian machine.
\<close>

subsection \<open>Constants and types\<close>

definition PAGE_SIZE :: nat where "PAGE_SIZE = 4096"
definition PAGES_PER_TRACK :: nat where "PAGES_PER_TRACK = 16"
definition MAX_OBJECTS_PER_PAGE :: nat where "MAX_OBJECTS_PER_PAGE = 64"

definition PAGE_STATUS_ALLOCATED :: "32 word" where "PAGE_STATUS_ALLOCATED = 1"
definition PAGE_STATUS_FULL :: "32 word" where "PAGE_STATUS_FULL = 2"
definition PAGE_STATUS_DIRTY :: "32 word" where "PAGE_STATUS_DIRTY = 4"
definition PAGE_STATUS_PINNED :: "32 word" where "PAGE_STATUS_PINNED = 8"

definition sizeof_Page :: nat where "sizeof_Page = 104"
definition sizeof_SpatialObject :: nat where "sizeof_SpatialObject = 144"
definition sizeof_DiskTrack :: nat where "sizeof_DiskTrack = 88"

record PageHeader =
  ph_page_id :: "32 word"
  ph_track_id :: "32 word"
  ph_flags :: "32 word"
  ph_extent :: MBR
  ph_centroid :: Point
  ph_checksum :: "64 word"

record Page =
  pg_header :: PageHeader
  pg_objects :: "SpatialObject list"
  pg_capacity :: nat
  pg_in_memory :: bool

datatype PageError = PAGE_OK | PAGE_ERR_NULL_PTR | PAGE_ERR_ALLOC | PAGE_ERR_FULL | PAGE_ERR_NOT_FOUND
  | PAGE_ERR_IO | PAGE_ERR_CORRUPT | PAGE_ERR_INVALID_ID

record Heap =
  hp_page :: "nat \<Rightarrow> Page"
  hp_live :: "nat list"
  hp_next :: nat

record DiskTrack =
  dt_track_id :: "32 word"
  dt_pages :: "nat list"
  dt_capacity :: nat
  dt_extent :: MBR
  dt_centroid :: Point
  dt_is_full :: bool

abbreviation page_id :: "Page \<Rightarrow> 32 word" where "page_id p \<equiv> ph_page_id (pg_header p)"
abbreviation page_extent :: "Page \<Rightarrow> MBR" where "page_extent p \<equiv> ph_extent (pg_header p)"

definition set_header :: "(PageHeader \<Rightarrow> PageHeader) \<Rightarrow> Page \<Rightarrow> Page" where
  "set_header f page = page\<lparr>pg_header := f (pg_header page)\<rparr>"

subsection \<open>Checksums\<close>

definition FNV_OFFSET :: "64 word" where "FNV_OFFSET = 14695981039346656037"
definition FNV_PRIME :: "64 word" where "FNV_PRIME = 1099511628211"

text \<open>The \<open>n\<close> low bytes of a word, the lowest first.\<close>

definition word_bytes :: "nat \<Rightarrow> 'a :: len word \<Rightarrow> 8 word list" where
  "word_bytes n w = map (\<lambda>i. ucast (drop_bit (8 * i) w)) [0..<n]"

definition point_bytes :: "Point \<Rightarrow> 8 word list" where
  "point_bytes p = word_bytes 8 (dbits (px p)) @ word_bytes 8 (dbits (py p))"

definition mbr_bytes :: "MBR \<Rightarrow> 8 word list" where
  "mbr_bytes m = word_bytes 8 (dbits (min_x m)) @ word_bytes 8 (dbits (min_y m)) @
     word_bytes 8 (dbits (max_x m)) @ word_bytes 8 (dbits (max_y m))"

definition fnv1a_hash :: "8 word list \<Rightarrow> 64 word" where
  "fnv1a_hash bytes = fold (\<lambda>b hash. (hash XOR ucast b) * FNV_PRIME) bytes FNV_OFFSET"

definition page_checksum :: "Page \<Rightarrow> 64 word" where
  "page_checksum page =
     fold (\<lambda>obj hash. hash XOR fnv1a_hash (word_bytes 8 (so_id obj)) XOR fnv1a_hash (point_bytes (so_centroid obj)))
       (pg_objects page)
       (fnv1a_hash (word_bytes 4 (page_id page)) XOR
        fnv1a_hash (word_bytes 4 (ph_track_id (pg_header page))) XOR
        fnv1a_hash (word_bytes 4 (word_of_nat (length (pg_objects page)) :: 32 word)))"

definition page_verify :: "Page \<Rightarrow> bool" where
  "page_verify page = (ph_checksum (pg_header page) = page_checksum page)"

subsection \<open>Pages\<close>

text \<open>The page that \<open>page_create\<close> initialises.\<close>

definition new_page :: "32 word \<Rightarrow> 32 word \<Rightarrow> Page" where
  "new_page pid tid =
     \<lparr>pg_header = \<lparr>ph_page_id = pid, ph_track_id = tid, ph_flags = PAGE_STATUS_ALLOCATED, ph_extent = mbr_empty,
        ph_centroid = point_create d_zero d_zero, ph_checksum = 0\<rparr>,
      pg_objects = [], pg_capacity = MAX_OBJECTS_PER_PAGE, pg_in_memory = True\<rparr>"

definition page_create :: "allocator \<Rightarrow> Heap \<Rightarrow> 32 word \<Rightarrow> 32 word \<Rightarrow> nat option \<times> Heap" where
  "page_create al h pid tid =
     (if al sizeof_Page \<and> al (MAX_OBJECTS_PER_PAGE * sizeof_SpatialObject)
      then (Some (hp_next h), h\<lparr>hp_page := (hp_page h)(hp_next h := new_page pid tid),
              hp_live := hp_next h # hp_live h, hp_next := hp_next h + 1\<rparr>)
      else (None, h))"

definition page_free :: "Heap \<Rightarrow> nat \<Rightarrow> Heap" where
  "page_free h a = h\<lparr>hp_live := removeAll a (hp_live h)\<rparr>"

text \<open>The operations on one page, on its value.\<close>

definition page_add_object :: "allocator \<Rightarrow> Page \<Rightarrow> SpatialObject \<Rightarrow> PageError \<times> Page" where
  "page_add_object al page obj =
     (if length (pg_objects page) \<ge> pg_capacity page then (PAGE_ERR_FULL, page)
      else case spatial_object_copy al obj of (err, copy) \<Rightarrow>
        if err \<noteq> GEOM_OK then (PAGE_ERR_ALLOC, page)
        else
          let objects = pg_objects page @ [copy];
              flags = ph_flags (pg_header page) OR PAGE_STATUS_DIRTY;
              flags' = (if length objects \<ge> pg_capacity page then flags OR PAGE_STATUS_FULL else flags)
          in (PAGE_OK, page\<lparr>pg_objects := objects,
                pg_header := (pg_header page)\<lparr>ph_flags := flags', ph_extent := mbr_expand_mbr (page_extent page) (so_mbr obj)\<rparr>\<rparr>))"

definition page_update_derived :: "Page \<Rightarrow> Page" where
  "page_update_derived page =
     (let (extent, cx, cy) = fold (\<lambda>obj (m, cx, cy).
            (mbr_expand_mbr m (so_mbr obj), fadd cx (px (so_centroid obj)), fadd cy (py (so_centroid obj))))
            (pg_objects page) (mbr_empty, d_zero, d_zero);
          n = length (pg_objects page);
          centroid = (if n > 0 then \<lparr>px = fdiv cx (double_of_nat n), py = fdiv cy (double_of_nat n)\<rparr>
                      else ph_centroid (pg_header page));
          page' = set_header (\<lambda>hd. hd\<lparr>ph_extent := extent, ph_centroid := centroid\<rparr>) page
      in set_header (\<lambda>hd. hd\<lparr>ph_checksum := page_checksum page'\<rparr>) page')"

definition page_remove_object :: "Page \<Rightarrow> 64 word \<Rightarrow> PageError \<times> Page" where
  "page_remove_object page oid =
     (case find_index (\<lambda>obj. so_id obj = oid) (pg_objects page) of
        Some i \<Rightarrow> (PAGE_OK, page_update_derived
          (set_header (\<lambda>hd. hd\<lparr>ph_flags := (ph_flags hd OR PAGE_STATUS_DIRTY) AND NOT PAGE_STATUS_FULL\<rparr>)
            (page\<lparr>pg_objects := remove_at i (pg_objects page)\<rparr>)))
      | None \<Rightarrow> (PAGE_ERR_NOT_FOUND, page))"

text \<open>A pointer to an object of a page is its index.\<close>

definition page_find_object :: "Page \<Rightarrow> 64 word \<Rightarrow> nat option" where
  "page_find_object page oid = find_index (\<lambda>obj. so_id obj = oid) (pg_objects page)"

definition page_is_full :: "Page \<Rightarrow> bool" where
  "page_is_full page = (length (pg_objects page) \<ge> pg_capacity page)"

definition page_utilization :: "Page \<Rightarrow> double" where
  "page_utilization page =
     (if pg_capacity page = 0 then d_zero
      else fdiv (double_of_nat (length (pg_objects page))) (double_of_nat (pg_capacity page)))"

subsection \<open>Tracks\<close>

definition track_create :: "allocator \<Rightarrow> 32 word \<Rightarrow> DiskTrack option" where
  "track_create al tid =
     (if al sizeof_DiskTrack \<and> al (PAGES_PER_TRACK * sizeof_ptr)
      then Some \<lparr>dt_track_id = tid, dt_pages = [], dt_capacity = PAGES_PER_TRACK, dt_extent = mbr_empty,
                 dt_centroid = point_create d_zero d_zero, dt_is_full = False\<rparr>
      else None)"

text \<open>The loop adds up the centroids of the pages whose extent is not empty.\<close>

definition track_update_derived :: "Heap \<Rightarrow> DiskTrack \<Rightarrow> DiskTrack" where
  "track_update_derived h track =
     (let (extent, cx, cy, valid) = fold (\<lambda>a (m, cx, cy, valid).
            let hd = pg_header (hp_page h a); m' = mbr_expand_mbr m (ph_extent hd) in
            if \<not> mbr_is_empty (ph_extent hd)
            then (m', fadd cx (px (ph_centroid hd)), fadd cy (py (ph_centroid hd)), valid + 1)
            else (m', cx, cy, valid)) (dt_pages track) (mbr_empty, d_zero, d_zero, 0 :: nat)
      in track\<lparr>dt_extent := extent,
           dt_centroid := (if valid > 0 then \<lparr>px = fdiv cx (double_of_nat valid), py = fdiv cy (double_of_nat valid)\<rparr>
             else dt_centroid track)\<rparr>)"

definition track_add_page :: "Heap \<Rightarrow> DiskTrack \<Rightarrow> nat \<Rightarrow> PageError \<times> Heap \<times> DiskTrack" where
  "track_add_page h track a =
     (if length (dt_pages track) \<ge> dt_capacity track then (PAGE_ERR_FULL, h, track)
      else let pages = dt_pages track @ [a];
               h' = h\<lparr>hp_page := (hp_page h)(a := set_header (\<lambda>hd. hd\<lparr>ph_track_id := dt_track_id track\<rparr>) (hp_page h a))\<rparr>;
               track' = track\<lparr>dt_pages := pages,
                 dt_is_full := (if length pages \<ge> dt_capacity track then True else dt_is_full track)\<rparr>
           in (PAGE_OK, h', track_update_derived h' track'))"

definition track_remove_page :: "Heap \<Rightarrow> DiskTrack \<Rightarrow> 32 word \<Rightarrow> PageError \<times> DiskTrack" where
  "track_remove_page h track pid =
     (case find_index (\<lambda>a. page_id (hp_page h a) = pid) (dt_pages track) of
        Some i \<Rightarrow> (PAGE_OK, track_update_derived h
          (track\<lparr>dt_pages := remove_at i (dt_pages track), dt_is_full := False\<rparr>))
      | None \<Rightarrow> (PAGE_ERR_NOT_FOUND, track))"

definition track_find_page :: "Heap \<Rightarrow> DiskTrack \<Rightarrow> 32 word \<Rightarrow> nat option" where
  "track_find_page h track pid = List.find (\<lambda>a. page_id (hp_page h a) = pid) (dt_pages track)"

definition track_has_space :: "DiskTrack \<Rightarrow> bool" where
  "track_has_space track = (length (dt_pages track) < dt_capacity track)"

definition track_object_count :: "Heap \<Rightarrow> DiskTrack \<Rightarrow> nat" where
  "track_object_count h track = sum_list (map (\<lambda>a. length (pg_objects (hp_page h a))) (dt_pages track))"

end
