(* ===== verification/PagePool.thy ===== *)
theory PagePool
  imports Page
begin

text \<open>
  The page pool of src/src/page.c, over the heap of pages.  A pointer result is an option of an
  address; a track pointer is the position of the track in the pool's array.
\<close>

record PagePool =
  pp_pages :: "nat list"
  pp_page_capacity :: nat
  pp_tracks :: "DiskTrack list"
  pp_track_capacity :: nat
  pp_next_page_id :: "32 word"
  pp_next_track_id :: "32 word"

definition zero_pool :: PagePool where
  "zero_pool = \<lparr>pp_pages = [], pp_page_capacity = 0, pp_tracks = [], pp_track_capacity = 0,
     pp_next_page_id = 0, pp_next_track_id = 0\<rparr>"

definition page_pool_init :: "allocator \<Rightarrow> PageError \<times> PagePool" where
  "page_pool_init al =
     (let pool1 = zero_pool\<lparr>pp_page_capacity := 256\<rparr> in
      if \<not> al (256 * sizeof_ptr) then (PAGE_ERR_ALLOC, pool1)
      else let pool2 = pool1\<lparr>pp_track_capacity := 64\<rparr> in
        if \<not> al (64 * sizeof_ptr) then (PAGE_ERR_ALLOC, pool2)
        else (PAGE_OK, pool2\<lparr>pp_next_page_id := 1, pp_next_track_id := 1\<rparr>))"

definition page_pool_free :: "Heap \<Rightarrow> PagePool \<Rightarrow> Heap \<times> PagePool" where
  "page_pool_free h pool = (fold (\<lambda>a h. page_free h a) (pp_pages pool) h, zero_pool)"

definition page_pool_get_track :: "PagePool \<Rightarrow> 32 word \<Rightarrow> nat option" where
  "page_pool_get_track pool tid = find_index (\<lambda>t. dt_track_id t = tid) (pp_tracks pool)"

text \<open>Adding a page to the track at a position.\<close>

definition pool_track_add :: "Heap \<Rightarrow> PagePool \<Rightarrow> nat \<Rightarrow> nat \<Rightarrow> PageError \<times> Heap \<times> PagePool" where
  "pool_track_add h pool t a =
     (case track_add_page h (pp_tracks pool ! t) a of
        (err, h', track') \<Rightarrow> (err, h', pool\<lparr>pp_tracks := (pp_tracks pool)[t := track']\<rparr>))"

definition page_pool_alloc ::
  "allocator \<Rightarrow> Heap \<Rightarrow> PagePool \<Rightarrow> 32 word \<Rightarrow> nat option \<times> Heap \<times> PagePool" where
  "page_pool_alloc al h pool tid =
     (let full = length (pp_pages pool) \<ge> pp_page_capacity pool;
          new_cap = pp_page_capacity pool * GROWTH_FACTOR
      in if full \<and> \<not> al (new_cap * sizeof_ptr) then (None, h, pool)
      else
        let pool1 = (if full then pool\<lparr>pp_page_capacity := new_cap\<rparr> else pool);
            pool2 = pool1\<lparr>pp_next_page_id := pp_next_page_id pool1 + 1\<rparr>
        in case page_create al h (pp_next_page_id pool1) tid of
             (None, h1) \<Rightarrow> (None, h1, pool2)
           | (Some a, h1) \<Rightarrow>
               (let pool3 = pool2\<lparr>pp_pages := pp_pages pool2 @ [a]\<rparr> in
                if tid > 0 then
                  (case page_pool_get_track pool3 tid of
                     None \<Rightarrow> (Some a, h1, pool3)
                   | Some t \<Rightarrow> (case pool_track_add h1 pool3 t a of (err, h2, pool4) \<Rightarrow> (Some a, h2, pool4)))
                else (Some a, h1, pool3)))"

definition page_pool_free_page :: "Heap \<Rightarrow> PagePool \<Rightarrow> 32 word \<Rightarrow> PageError \<times> Heap \<times> PagePool" where
  "page_pool_free_page h pool pid =
     (case find_index (\<lambda>a. page_id (hp_page h a) = pid) (pp_pages pool) of
        None \<Rightarrow> (PAGE_ERR_NOT_FOUND, h, pool)
      | Some i \<Rightarrow>
          (let a = pp_pages pool ! i;
               tid = ph_track_id (pg_header (hp_page h a));
               pool1 = (if tid > 0 then
                   (case page_pool_get_track pool tid of
                      None \<Rightarrow> pool
                    | Some t \<Rightarrow> pool\<lparr>pp_tracks := (pp_tracks pool)[t := snd (track_remove_page h (pp_tracks pool ! t) pid)]\<rparr>)
                 else pool)
           in (PAGE_OK, page_free h a, pool1\<lparr>pp_pages := remove_at i (pp_pages pool1)\<rparr>)))"

definition page_pool_get :: "Heap \<Rightarrow> PagePool \<Rightarrow> 32 word \<Rightarrow> nat option" where
  "page_pool_get h pool pid = List.find (\<lambda>a. page_id (hp_page h a) = pid) (pp_pages pool)"

definition page_pool_create_track :: "allocator \<Rightarrow> PagePool \<Rightarrow> nat option \<times> PagePool" where
  "page_pool_create_track al pool =
     (let full = length (pp_tracks pool) \<ge> pp_track_capacity pool;
          new_cap = pp_track_capacity pool * GROWTH_FACTOR
      in if full \<and> \<not> al (new_cap * sizeof_ptr) then (None, pool)
      else
        let pool1 = (if full then pool\<lparr>pp_track_capacity := new_cap\<rparr> else pool);
            pool2 = pool1\<lparr>pp_next_track_id := pp_next_track_id pool1 + 1\<rparr>
        in case track_create al (pp_next_track_id pool1) of
             None \<Rightarrow> (None, pool2)
           | Some track \<Rightarrow> (Some (length (pp_tracks pool2)), pool2\<lparr>pp_tracks := pp_tracks pool2 @ [track]\<rparr>))"

text \<open>The matching pages, in the order of the pool; the array is allocated only if there are any.\<close>

definition page_pool_query_region :: "allocator \<Rightarrow> Heap \<Rightarrow> PagePool \<Rightarrow> MBR \<Rightarrow> PageError + nat list" where
  "page_pool_query_region al h pool region =
     (let matching = filter (\<lambda>a. mbr_intersects (page_extent (hp_page h a)) region) (pp_pages pool) in
      if length matching = 0 then Inr []
      else if \<not> al (length matching * sizeof_ptr) then Inl PAGE_ERR_ALLOC
      else Inr matching)"

definition pool_object_count :: "Heap \<Rightarrow> PagePool \<Rightarrow> nat" where
  "pool_object_count h pool = sum_list (map (\<lambda>a. length (pg_objects (hp_page h a))) (pp_pages pool))"

text \<open>The numbers of pages, tracks and objects.\<close>

definition page_pool_stats :: "Heap \<Rightarrow> PagePool \<Rightarrow> nat \<times> nat \<times> nat" where
  "page_pool_stats h pool = (length (pp_pages pool), length (pp_tracks pool), pool_object_count h pool)"

end
