(* ===== verification/PageCache.thy ===== *)
theory PageCache
  imports PagePool
begin

text \<open>
  The LRU cache of page references of src/src/page.c.

  A \<open>PageRef\<close> has one pair of links, and the code uses \<open>next\<close> both for the LRU list and for the
  chains of the hash table: what an insertion writes for the chain is overwritten two lines later by
  the link of the LRU list.  So the references are one list, the most recently used first, and the
  chain that starts at an entry of the table is the rest of that list from there.  A \<open>PageRef *\<close> is
  the identity \<open>pr_ref\<close>.

  The eviction loop may run forever; it is a partial function, whose value is None when it does not
  return.  The clock is an argument.
\<close>

record PageRef =
  pr_ref :: nat
  pr_page_id :: "32 word"
  pr_access_count :: "32 word"
  pr_last_access :: "64 word"

record PageCache =
  pc_list :: "PageRef list"
  pc_table :: "nat option list"
  pc_count :: nat
  pc_capacity :: nat
  pc_next_ref :: nat

definition sizeof_PageRef :: nat where "sizeof_PageRef = 32"

definition page_hash :: "32 word \<Rightarrow> nat \<Rightarrow> nat" where
  "page_hash pid hash_size = unat pid mod hash_size"

definition page_cache_init :: "allocator \<Rightarrow> nat \<Rightarrow> PageError \<times> PageCache" where
  "page_cache_init al capacity =
     (let cap = (if capacity > 0 then capacity else 64);
          cache = \<lparr>pc_list = [], pc_table = [], pc_count = 0, pc_capacity = cap, pc_next_ref = 0\<rparr>
      in if \<not> al (cap * 2 * sizeof_ptr) then (PAGE_ERR_ALLOC, cache)
         else (PAGE_OK, cache\<lparr>pc_table := replicate (cap * 2) None\<rparr>))"

definition page_cache_free :: "PageCache \<Rightarrow> PageCache" where
  "page_cache_free cache = \<lparr>pc_list = [], pc_table = [], pc_count = 0, pc_capacity = 0, pc_next_ref = 0\<rparr>"

text \<open>The chain of a table entry: the LRU list from that reference on.\<close>

definition chain_from :: "PageCache \<Rightarrow> nat option \<Rightarrow> PageRef list" where
  "chain_from cache entry =
     (case entry of None \<Rightarrow> [] | Some r \<Rightarrow> dropWhile (\<lambda>ref. pr_ref ref \<noteq> r) (pc_list cache))"

text \<open>Unlinking the victim from the chain of its bucket; only a bucket that starts with it changes.\<close>

definition unlink_bucket :: "nat \<Rightarrow> nat option \<Rightarrow> nat option list \<Rightarrow> nat \<Rightarrow> nat option list" where
  "unlink_bucket r succ table i = (if table ! i = Some r then table[i := succ] else table)"

partial_function (option) page_cache_evict :: "Heap \<Rightarrow> PagePool \<Rightarrow> PageCache \<Rightarrow> nat \<Rightarrow> PageCache option" where
  "page_cache_evict h pool cache n =
     (if n = 0 \<or> pc_list cache = [] then Some cache
      else
        let victim = last (pc_list cache);
            pinned = (case page_pool_get h pool (pr_page_id victim) of
                None \<Rightarrow> False | Some a \<Rightarrow> ph_flags (pg_header (hp_page h a)) AND PAGE_STATUS_PINNED \<noteq> 0)
        in if pinned then page_cache_evict h pool cache n
           else page_cache_evict h pool
             (cache\<lparr>pc_list := butlast (pc_list cache),
                    pc_table := unlink_bucket (pr_ref victim) None (pc_table cache)
                      (page_hash (pr_page_id victim) (length (pc_table cache))),
                    pc_count := pc_count cache - 1\<rparr>) (n - 1))"

text \<open>
  A lookup: the page and the new cache, or None if the eviction it starts does not return.  A hit
  moves the reference to the front; a miss adds a new reference for the page of the pool.
\<close>

definition page_cache_get ::
  "allocator \<Rightarrow> 64 word \<Rightarrow> Heap \<Rightarrow> PagePool \<Rightarrow> PageCache \<Rightarrow> 32 word \<Rightarrow> (nat option \<times> PageCache) option" where
  "page_cache_get al now h pool cache pid =
     (let i = page_hash pid (length (pc_table cache)) in
      case List.find (\<lambda>ref. pr_page_id ref = pid) (chain_from cache (pc_table cache ! i)) of
        Some ref \<Rightarrow>
          (let ref' = ref\<lparr>pr_access_count := pr_access_count ref + 1, pr_last_access := now\<rparr>;
               others = filter (\<lambda>x. pr_ref x \<noteq> pr_ref ref) (pc_list cache)
           in Some (page_pool_get h pool pid, cache\<lparr>pc_list := ref' # others\<rparr>))
      | None \<Rightarrow>
          (case page_pool_get h pool pid of
             None \<Rightarrow> Some (None, cache)
           | Some a \<Rightarrow>
               (case (if pc_count cache \<ge> pc_capacity cache then page_cache_evict h pool cache 1 else Some cache) of
                  None \<Rightarrow> None
                | Some cache1 \<Rightarrow>
                    if \<not> al sizeof_PageRef then Some (Some a, cache1)
                    else
                      let ref = \<lparr>pr_ref = pc_next_ref cache1, pr_page_id = pid, pr_access_count = 1, pr_last_access = now\<rparr>
                      in Some (Some a, cache1\<lparr>pc_list := ref # pc_list cache1,
                           pc_table := (pc_table cache1)[i := Some (pr_ref ref)],
                           pc_count := pc_count cache1 + 1, pc_next_ref := pc_next_ref cache1 + 1\<rparr>))))"

definition set_page_flags :: "(32 word \<Rightarrow> 32 word) \<Rightarrow> Heap \<Rightarrow> nat \<Rightarrow> Heap" where
  "set_page_flags f h a =
     h\<lparr>hp_page := (hp_page h)(a := set_header (\<lambda>hd. hd\<lparr>ph_flags := f (ph_flags hd)\<rparr>) (hp_page h a))\<rparr>"

definition page_cache_pin :: "Heap \<Rightarrow> PagePool \<Rightarrow> 32 word \<Rightarrow> PageError \<times> Heap" where
  "page_cache_pin h pool pid =
     (case page_pool_get h pool pid of None \<Rightarrow> (PAGE_ERR_NOT_FOUND, h)
      | Some a \<Rightarrow> (PAGE_OK, set_page_flags (\<lambda>f. f OR PAGE_STATUS_PINNED) h a))"

definition page_cache_unpin :: "Heap \<Rightarrow> PagePool \<Rightarrow> 32 word \<Rightarrow> PageError \<times> Heap" where
  "page_cache_unpin h pool pid =
     (case page_pool_get h pool pid of None \<Rightarrow> (PAGE_ERR_NOT_FOUND, h)
      | Some a \<Rightarrow> (PAGE_OK, set_page_flags (\<lambda>f. f AND NOT PAGE_STATUS_PINNED) h a))"

definition page_cache_mark_dirty :: "Heap \<Rightarrow> PagePool \<Rightarrow> 32 word \<Rightarrow> PageError \<times> Heap" where
  "page_cache_mark_dirty h pool pid =
     (case page_pool_get h pool pid of None \<Rightarrow> (PAGE_ERR_NOT_FOUND, h)
      | Some a \<Rightarrow> (PAGE_OK, set_page_flags (\<lambda>f. f OR PAGE_STATUS_DIRTY) h a))"

definition page_cache_flush :: "Heap \<Rightarrow> PagePool \<Rightarrow> Heap" where
  "page_cache_flush h pool =
     fold (\<lambda>a h. if ph_flags (pg_header (hp_page h a)) AND PAGE_STATUS_DIRTY \<noteq> 0
              then set_page_flags (\<lambda>f. f AND NOT PAGE_STATUS_DIRTY) h a else h)
       (pp_pages pool) h"

definition page_cache_hit_rate :: "PageCache \<Rightarrow> double" where
  "page_cache_hit_rate cache =
     (if pc_count cache = 0 then d_zero
      else let total = fold (\<lambda>ref n. n + ucast (pr_access_count ref)) (pc_list cache) (0 :: 64 word) in
        if total = 0 then d_zero
        else fdiv (double_of_nat (unat (total - word_of_nat (pc_count cache)))) (double_of_nat (unat total)))"

end
