(* ===== verification/PageCache_Inv.thy ===== *)
theory PageCache_Inv
  imports PageCache
begin

text \<open>
  The LRU cache: what an eviction does and when it returns, the invariant of the list and the table,
  and the transparency of lookups: the cache never changes which page is returned.
\<close>

subsection \<open>Eviction\<close>

definition pinned_ref :: "Heap \<Rightarrow> PagePool \<Rightarrow> PageRef \<Rightarrow> bool" where
  "pinned_ref h pool ref =
     (case page_pool_get h pool (pr_page_id ref) of
        None \<Rightarrow> False | Some a \<Rightarrow> ph_flags (pg_header (hp_page h a)) AND PAGE_STATUS_PINNED \<noteq> 0)"

text \<open>One turn of the eviction loop that removes the tail.\<close>

definition drop_tail :: "PageCache \<Rightarrow> PageCache" where
  "drop_tail cache =
     (let victim = last (pc_list cache) in
      cache\<lparr>pc_list := butlast (pc_list cache),
            pc_table := unlink_bucket (pr_ref victim) None (pc_table cache)
              (page_hash (pr_page_id victim) (length (pc_table cache))),
            pc_count := pc_count cache - 1\<rparr>)"

lemma evict_unfold:
  "page_cache_evict h pool cache n =
     (if n = 0 \<or> pc_list cache = [] then Some cache
      else if pinned_ref h pool (last (pc_list cache)) then page_cache_evict h pool cache n
      else page_cache_evict h pool (drop_tail cache) (n - 1))"
  by (subst page_cache_evict.simps) (simp add: drop_tail_def pinned_ref_def Let_def)

lemma evict_done [simp]: "n = 0 \<or> pc_list cache = [] \<Longrightarrow> page_cache_evict h pool cache n = Some cache"
  by (subst evict_unfold) simp

lemma evict_step:
  "0 < n \<Longrightarrow> pc_list cache \<noteq> [] \<Longrightarrow> \<not> pinned_ref h pool (last (pc_list cache)) \<Longrightarrow>
    page_cache_evict h pool cache n = page_cache_evict h pool (drop_tail cache) (n - 1)"
  by (subst evict_unfold) simp

text \<open>The loop does not move past a pinned page: if it returns, none of the pages it had to look at was pinned.\<close>

definition victims :: "nat \<Rightarrow> PageRef list \<Rightarrow> PageRef list" where
  "victims n refs = drop (length refs - n) refs"

lemma victims_last: "0 < n \<Longrightarrow> refs \<noteq> [] \<Longrightarrow> victims n refs = victims (n - 1) (butlast refs) @ [last refs]"
proof (induction refs rule: rev_induct)
  case (snoc x xs)
  then show ?case by (cases n) (auto simp: victims_def Suc_diff_le)
qed simp

lemma victims_none [simp]: "victims 0 refs = []" "victims n [] = []"
  by (simp_all add: victims_def)

lemma drop_tail_simps [simp]:
  "pc_list (drop_tail cache) = butlast (pc_list cache)" "pc_count (drop_tail cache) = pc_count cache - 1"
  "pc_capacity (drop_tail cache) = pc_capacity cache" "pc_next_ref (drop_tail cache) = pc_next_ref cache"
  "length (pc_table (drop_tail cache)) = length (pc_table cache)"
  by (simp_all add: drop_tail_def Let_def unlink_bucket_def)

lemma evict_returns_unpinned:
  assumes returns: "page_cache_evict h pool cache n = Some cache'"
  shows "\<forall>ref \<in> set (victims n (pc_list cache)). \<not> pinned_ref h pool ref"
proof (rule page_cache_evict.raw_induct [where P = "\<lambda>h pool cache n cache'.
    \<forall>ref \<in> set (victims n (pc_list cache)). \<not> pinned_ref h pool ref", OF _ returns], goal_cases)
  case (1 evict h pool cache n cache')
  show ?case
  proof (cases "n = 0 \<or> pc_list cache = []")
    case False
    then have n: "0 < n" "pc_list cache \<noteq> []" by auto
    show ?thesis
    proof (cases "pinned_ref h pool (last (pc_list cache))")
      case True
      with 1(2) n have "evict h pool cache n = Some cache'"
        by (simp add: pinned_ref_def Let_def split: if_splits)
      then show ?thesis by (rule 1(1))
    next
      case False
      with 1(2) n have "evict h pool (drop_tail cache) (n - 1) = Some cache'"
        by (simp add: pinned_ref_def drop_tail_def Let_def split: if_splits)
      from 1(1) [OF this] False n show ?thesis by (simp add: victims_last)
    qed
  qed auto
qed

lemma evict_unpinned:
  assumes "\<forall>ref \<in> set (victims n (pc_list cache)). \<not> pinned_ref h pool ref"
  shows "page_cache_evict h pool cache n = Some ((drop_tail ^^ min n (length (pc_list cache))) cache)"
  using assms
proof (induction n arbitrary: cache)
  case 0
  then show ?case by simp
next
  case (Suc n)
  show ?case
  proof (cases "pc_list cache = []")
    case True
    then show ?thesis by simp
  next
    case False
    with Suc.prems have unpinned: "\<not> pinned_ref h pool (last (pc_list cache))"
      "\<forall>ref \<in> set (victims n (pc_list (drop_tail cache))). \<not> pinned_ref h pool ref"
      by (simp_all add: victims_last)
    have len: "min (Suc n) (length (pc_list cache)) = Suc (min n (length (pc_list (drop_tail cache))))"
      using False by (cases "pc_list cache") simp_all
    have "page_cache_evict h pool cache (Suc n) = page_cache_evict h pool (drop_tail cache) n"
      using evict_step [of "Suc n" cache h pool] False unpinned(1) by simp
    then show ?thesis using Suc.IH [OF unpinned(2)] by (simp only: len funpow_Suc_right comp_apply)
  qed
qed

lemma evict_None_iff:
  "page_cache_evict h pool cache n = None \<longleftrightarrow> (\<exists>ref \<in> set (victims n (pc_list cache)). pinned_ref h pool ref)"
  using evict_unpinned [of n cache h pool] evict_returns_unpinned [of h pool cache n]
  by (cases "page_cache_evict h pool cache n") auto

lemma drop_tails:
  "pc_list ((drop_tail ^^ k) cache) = take (length (pc_list cache) - k) (pc_list cache)"
  "pc_count ((drop_tail ^^ k) cache) = pc_count cache - k"
  by (induction k) (simp_all add: butlast_take)

subsection \<open>The invariant\<close>

definition cache_wf :: "PageCache \<Rightarrow> bool" where
  "cache_wf c = (distinct (map pr_ref (pc_list c)) \<and> (\<forall>ref \<in> set (pc_list c). pr_ref ref < pc_next_ref c) \<and>
     pc_count c = length (pc_list c) \<and> pc_count c \<le> pc_capacity c \<and> 0 < pc_capacity c \<and>
     length (pc_table c) = 2 * pc_capacity c \<and>
     (\<forall>i < length (pc_table c). \<forall>r. pc_table c ! i = Some r \<longrightarrow>
        (\<exists>ref \<in> set (pc_list c). pr_ref ref = r \<and> page_hash (pr_page_id ref) (length (pc_table c)) = i)))"

lemma cache_wf_init: "page_cache_init al n = (PAGE_OK, c) \<Longrightarrow> cache_wf c"
  by (auto simp: page_cache_init_def cache_wf_def Let_def split: if_splits)

lemma cache_wf_drop_tail:
  assumes "cache_wf c" "pc_list c \<noteq> []"
  shows "cache_wf (drop_tail c)"
proof -
  let ?v = "last (pc_list c)" and ?n = "length (pc_table c)"
  define l where "l = butlast (pc_list c)"
  have split: "pc_list c = l @ [?v]" using assms(2) by (simp add: l_def)
  have d: "distinct (map pr_ref (l @ [?v]))" using assms(1) split unfolding cache_wf_def by metis
  have entry: "\<exists>ref \<in> set l. pr_ref ref = r \<and> page_hash (pr_page_id ref) ?n = i"
    if i: "i < ?n" and r: "pc_table (drop_tail c) ! i = Some r" for i r
  proof -
    let ?b = "page_hash (pr_page_id ?v) ?n"
    have t: "pc_table c ! i = Some r"
      using r i by (cases "i = ?b") (auto simp: drop_tail_def Let_def unlink_bucket_def split: if_splits)
    then obtain ref where ref: "ref \<in> set (l @ [?v])" "pr_ref ref = r" "page_hash (pr_page_id ref) ?n = i"
      using assms(1) i split unfolding cache_wf_def by metis
    have "ref \<noteq> ?v"
    proof
      assume "ref = ?v"
      with ref t have "pc_table (drop_tail c) ! i = None"
        using i by (simp add: drop_tail_def Let_def unlink_bucket_def)
      with r show False by simp
    qed
    with ref show ?thesis by auto
  qed
  have "set l \<subseteq> set (pc_list c)" by (simp add: l_def in_set_butlastD subsetI)
  moreover have "distinct (map pr_ref l)" using d by simp
  moreover have "length l = length (pc_list c) - 1" by (simp add: l_def)
  ultimately show ?thesis using assms(1) entry
    unfolding cache_wf_def drop_tail_simps l_def [symmetric] by auto
qed

lemma cache_wf_drop_tails: "cache_wf c \<Longrightarrow> k \<le> length (pc_list c) \<Longrightarrow> cache_wf ((drop_tail ^^ k) c)"
proof (induction k)
  case (Suc k)
  then have "cache_wf ((drop_tail ^^ k) c)" by simp
  moreover have "pc_list ((drop_tail ^^ k) c) \<noteq> []" using Suc.prems by (cases "pc_list c") (simp_all add: drop_tails)
  ultimately show ?case by (simp add: cache_wf_drop_tail)
qed simp

lemma evict_wf:
  assumes "cache_wf c" "page_cache_evict h pool c n = Some c'"
  shows "cache_wf c' \<and> pc_list c' = take (length (pc_list c) - n) (pc_list c) \<and> pc_capacity c' = pc_capacity c \<and>
    length (pc_table c') = length (pc_table c) \<and> pc_count c' = pc_count c - n"
proof -
  let ?k = "min n (length (pc_list c))"
  have c': "c' = (drop_tail ^^ ?k) c"
    using evict_unpinned [OF evict_returns_unpinned [OF assms(2)]] assms(2) by simp
  have "pc_capacity ((drop_tail ^^ k) c) = pc_capacity c \<and> length (pc_table ((drop_tail ^^ k) c)) = length (pc_table c)" for k
    by (induction k) simp_all
  moreover have "pc_count c = length (pc_list c)" using assms(1) by (simp add: cache_wf_def)
  ultimately show ?thesis
    using cache_wf_drop_tails [OF assms(1), of ?k] by (simp add: c' drop_tails min_def)
qed


subsection \<open>Lookup\<close>

lemma chain_from_subset: "set (chain_from c e) \<subseteq> set (pc_list c)"
  by (auto simp: chain_from_def dest: set_dropWhileD split: option.splits)

lemma cache_wf_touch:
  assumes wf: "cache_wf c" and ref: "ref \<in> set (pc_list c)" and same: "pr_ref ref' = pr_ref ref" "pr_page_id ref' = pr_page_id ref"
  shows "cache_wf (c\<lparr>pc_list := ref' # filter (\<lambda>x. pr_ref x \<noteq> pr_ref ref) (pc_list c)\<rparr>)"
proof -
  let ?l = "pc_list c" and ?o = "filter (\<lambda>x. pr_ref x \<noteq> pr_ref ref) (pc_list c)"
  have d: "distinct (map pr_ref ?l)" using wf by (simp add: cache_wf_def)
  have uniq: "x = ref" if "x \<in> set ?l" "pr_ref x = pr_ref ref" for x
    using d that ref by (auto simp: distinct_map dest: inj_onD)
  have d': "distinct (map pr_ref (ref' # ?o))" using d same by (auto simp: distinct_map_filter)
  have "{x \<in> set ?l. pr_ref x = pr_ref ref} = {ref}" using uniq ref by blast
  moreover have "distinct ?l" using d by (simp add: distinct_map)
  ultimately have "length (filter (\<lambda>x. pr_ref x = pr_ref ref) ?l) = 1"
    by (metis (no_types) One_nat_def card.empty card.insert distinct_card distinct_filter empty_iff finite.emptyI set_filter)
  then have len: "length (ref' # ?o) = length ?l"
    using sum_length_filter_compl [of "\<lambda>x. pr_ref x = pr_ref ref" ?l] by simp
  have entry: "\<exists>x \<in> set (ref' # ?o). pr_ref x = r \<and> page_hash (pr_page_id x) n = i"
    if ex: "\<exists>x \<in> set ?l. pr_ref x = r \<and> page_hash (pr_page_id x) n = i" for r n i
  proof -
    obtain x where x: "x \<in> set ?l" "pr_ref x = r" "page_hash (pr_page_id x) n = i" using ex by blast
    then show ?thesis using uniq [of x] same by (cases "pr_ref x = pr_ref ref") auto
  qed
  have fresh: "\<forall>x \<in> set (ref' # ?o). pr_ref x < pc_next_ref c"
    using wf ref same by (auto simp: cache_wf_def)
  have tab: "\<exists>x \<in> set (ref' # ?o). pr_ref x = r \<and> page_hash (pr_page_id x) (length (pc_table c)) = i"
    if i: "i < length (pc_table c)" "pc_table c ! i = Some r" for i r
    by (rule entry) (use wf i in \<open>unfold cache_wf_def, blast\<close>)
  show ?thesis
    unfolding cache_wf_def using wf [unfolded cache_wf_def] d' fresh tab len
    by (simp del: distinct.simps list.map list.set filter.simps)
qed

lemma cache_wf_add:
  assumes wf: "cache_wf c" and room: "pc_count c < pc_capacity c"
    and ref: "pr_ref ref = pc_next_ref c" "i = page_hash (pr_page_id ref) (length (pc_table c))"
  shows "cache_wf (c\<lparr>pc_list := ref # pc_list c, pc_table := (pc_table c)[i := Some (pr_ref ref)],
    pc_count := pc_count c + 1, pc_next_ref := pc_next_ref c + 1\<rparr>)"
proof -
  have "\<exists>x \<in> set (ref # pc_list c). pr_ref x = r \<and> page_hash (pr_page_id x) (length (pc_table c)) = j"
    if j: "j < length (pc_table c)" "(pc_table c)[i := Some (pr_ref ref)] ! j = Some r" for j r
  proof (cases "j = i")
    case True
    then show ?thesis using j ref by simp
  next
    case False
    then have "pc_table c ! j = Some r" using j by simp
    then have "\<exists>x \<in> set (pc_list c). pr_ref x = r \<and> page_hash (pr_page_id x) (length (pc_table c)) = j"
      using wf j(1) unfolding cache_wf_def by blast
    then show ?thesis by simp
  qed
  moreover have "distinct (map pr_ref (ref # pc_list c))" "\<forall>x \<in> set (ref # pc_list c). pr_ref x < pc_next_ref c + 1"
    using wf ref(1) unfolding cache_wf_def by (auto simp: less_Suc_eq)
  ultimately show ?thesis using wf room unfolding cache_wf_def by simp
qed

lemma page_cache_get_spec:
  assumes wf: "cache_wf c" and run: "page_cache_get al now h pool c pid = Some (r, c')"
  shows "r = page_pool_get h pool pid \<and> cache_wf c'"
proof -
  let ?i = "page_hash pid (length (pc_table c))"
  show ?thesis
  proof (cases "List.find (\<lambda>ref. pr_page_id ref = pid) (chain_from c (pc_table c ! ?i))")
    case (Some ref)
    then have "ref \<in> set (pc_list c)"
      using chain_from_subset by (auto simp: find_Some_iff dest: nth_mem)
    from cache_wf_touch [OF wf this] Some run show ?thesis
      by (auto simp: page_cache_get_def Let_def)
  next
    case None
    show ?thesis
    proof (cases "page_pool_get h pool pid")
      case None
      with \<open>List.find _ _ = None\<close> run wf show ?thesis by (simp add: page_cache_get_def Let_def)
    next
      case (Some a)
      then obtain c1 where c1: "(if pc_count c \<ge> pc_capacity c then page_cache_evict h pool c 1 else Some c) = Some c1"
        using None run by (simp add: page_cache_get_def Let_def split: option.splits)
      have c1_wf: "cache_wf c1 \<and> length (pc_table c1) = length (pc_table c) \<and> pc_capacity c1 = pc_capacity c \<and>
          pc_count c1 < pc_capacity c1"
      proof (cases "pc_count c \<ge> pc_capacity c")
        case True
        with c1 evict_wf [OF wf, of h pool 1 c1] wf show ?thesis by (auto simp: cache_wf_def)
      next
        case False
        with c1 wf show ?thesis by simp
      qed
      let ?new = "\<lparr>pr_ref = pc_next_ref c1, pr_page_id = pid, pr_access_count = 1, pr_last_access = now\<rparr>"
      note add = cache_wf_add [of c1 ?new ?i]
      show ?thesis
        using run None Some c1 c1_wf add by (auto simp: page_cache_get_def Let_def split: if_splits)
    qed
  qed
qed

lemma page_cache_get_returns:
  "page_cache_get al now h pool c pid = None \<longleftrightarrow>
    (List.find (\<lambda>ref. pr_page_id ref = pid) (chain_from c (pc_table c ! page_hash pid (length (pc_table c)))) = None \<and>
     page_pool_get h pool pid \<noteq> None \<and> pc_capacity c \<le> pc_count c \<and> pc_list c \<noteq> [] \<and> pinned_ref h pool (last (pc_list c)))"
proof -
  have "(\<exists>ref \<in> set (victims 1 (pc_list c)). pinned_ref h pool ref) \<longleftrightarrow> pc_list c \<noteq> [] \<and> pinned_ref h pool (last (pc_list c))"
    using victims_last [of 1 "pc_list c"] by (cases "pc_list c = []") simp_all
  then show ?thesis
    using evict_None_iff [of h pool c 1] by (auto simp: page_cache_get_def Let_def split: option.splits)
qed

end
