(* ===== verification/DiskManager.thy ===== *)
theory DiskManager
  imports PageCache KDTree_Query
begin

text \<open>
  src/include/disk_manager.h and src/src/disk_manager.c without the file: the page pool with its
  cache and allocation tree, and the choice of a track for a new page.

  The heap of pages is part of the state.  The data pointers of the allocation tree are page
  addresses.  The file path, the memory map and the file are left to the persistence layer; the
  operations here do not touch them.
\<close>

definition DM_DEFAULT_CACHE_SIZE :: nat where "DM_DEFAULT_CACHE_SIZE = 128"
definition DM_MAGIC :: "32 word" where "DM_MAGIC = 0x55524249"
definition DM_VERSION :: "32 word" where "DM_VERSION = 1"

datatype AllocationStrategy = ALLOC_NEAREST_TRACK | ALLOC_NEW_TRACK | ALLOC_BEST_FIT | ALLOC_SEQUENTIAL

record DiskManagerConfig =
  dc_cache_size :: nat
  dc_page_size :: nat
  dc_pages_per_track :: nat
  dc_strategy :: AllocationStrategy
  dc_use_mmap :: bool
  dc_sync_on_write :: bool

record DiskFileHeader =
  fh_magic :: "32 word"
  fh_version :: "32 word"
  fh_page_count :: "32 word"
  fh_track_count :: "32 word"
  fh_object_count :: "64 word"
  fh_bounds :: MBR
  fh_created_time :: "64 word"
  fh_modified_time :: "64 word"
  fh_page_size :: "32 word"
  fh_pages_per_track :: "32 word"
  fh_index_offset :: "64 word"
  fh_data_offset :: "64 word"
  fh_reserved :: "8 word list"

record IOStats =
  io_pages_read :: "64 word"
  io_pages_written :: "64 word"
  io_cache_hits :: "64 word"
  io_cache_misses :: "64 word"
  io_seeks :: "64 word"
  io_bytes_read :: "64 word"
  io_bytes_written :: "64 word"

record DiskManager =
  dm_config :: DiskManagerConfig
  dm_header :: DiskFileHeader
  dm_heap :: Heap
  dm_pool :: PagePool
  dm_cache :: PageCache
  dm_tree :: "nat KDTree"
  dm_stats :: IOStats
  dm_is_open :: bool
  dm_is_dirty :: bool

datatype DiskManagerError = DM_OK | DM_ERR_NULL_PTR | DM_ERR_ALLOC | DM_ERR_IO | DM_ERR_NOT_OPEN | DM_ERR_CORRUPT
  | DM_ERR_VERSION | DM_ERR_FULL | DM_ERR_NOT_FOUND

definition zero_header :: DiskFileHeader where
  "zero_header = \<lparr>fh_magic = 0, fh_version = 0, fh_page_count = 0, fh_track_count = 0, fh_object_count = 0,
     fh_bounds = zero_mbr, fh_created_time = 0, fh_modified_time = 0, fh_page_size = 0, fh_pages_per_track = 0,
     fh_index_offset = 0, fh_data_offset = 0, fh_reserved = replicate 64 0\<rparr>"

definition zero_stats :: IOStats where
  "zero_stats = \<lparr>io_pages_read = 0, io_pages_written = 0, io_cache_hits = 0, io_cache_misses = 0, io_seeks = 0,
     io_bytes_read = 0, io_bytes_written = 0\<rparr>"

definition disk_manager_default_config :: DiskManagerConfig where
  "disk_manager_default_config = \<lparr>dc_cache_size = DM_DEFAULT_CACHE_SIZE, dc_page_size = PAGE_SIZE,
     dc_pages_per_track = PAGES_PER_TRACK, dc_strategy = ALLOC_BEST_FIT, dc_use_mmap = False,
     dc_sync_on_write = False\<rparr>"

text \<open>\<open>h\<close> is the heap the manager starts with.  A failed start leaves a pool that was freed.\<close>

definition disk_manager_init :: "allocator \<Rightarrow> Heap \<Rightarrow> DiskManagerConfig option \<Rightarrow> DiskManagerError \<times> DiskManager" where
  "disk_manager_init al h config =
     (let cfg = (case config of Some c \<Rightarrow> c | None \<Rightarrow> disk_manager_default_config);
          dm = \<lparr>dm_config = cfg, dm_header = zero_header, dm_heap = h, dm_pool = zero_pool,
                dm_cache = \<lparr>pc_list = [], pc_table = [], pc_count = 0, pc_capacity = 0, pc_next_ref = 0\<rparr>,
                dm_tree = kdtree_init, dm_stats = zero_stats, dm_is_open = False, dm_is_dirty = False\<rparr>
      in case page_pool_init al of
           (PAGE_OK, pool) \<Rightarrow>
             (case page_cache_init al (dc_cache_size cfg) of
                (PAGE_OK, cache) \<Rightarrow> (DM_OK, dm\<lparr>dm_pool := pool, dm_cache := cache\<rparr>)
              | (err, cache) \<Rightarrow> (DM_ERR_ALLOC, dm\<lparr>dm_cache := cache\<rparr>))
         | (err, pool) \<Rightarrow> (DM_ERR_ALLOC, dm\<lparr>dm_pool := pool\<rparr>))"

definition update_allocation_tree :: "allocator \<Rightarrow> DiskManager \<Rightarrow> nat \<Rightarrow> DiskManager" where
  "update_allocation_tree al dm a =
     (let hd = pg_header (hp_page (dm_heap dm) a) in
      dm\<lparr>dm_tree := snd (kdtree_insert al (dm_tree dm) (ph_centroid hd) (ucast (ph_page_id hd)) a)\<rparr>)"

definition disk_manager_rebuild_allocation_tree :: "allocator \<Rightarrow> DiskManager \<Rightarrow> DiskManager" where
  "disk_manager_rebuild_allocation_tree al dm =
     fold (\<lambda>a dm. if length (pg_objects (hp_page (dm_heap dm) a)) > 0 then update_allocation_tree al dm a else dm)
       (pp_pages (dm_pool dm)) (dm\<lparr>dm_tree := kdtree_init\<rparr>)"

definition disk_manager_optimize :: "allocator \<Rightarrow> DiskManager \<Rightarrow> DiskManagerError \<times> DiskManager" where
  "disk_manager_optimize al dm = (DM_OK, disk_manager_rebuild_allocation_tree al dm)"

definition disk_manager_create_track :: "allocator \<Rightarrow> DiskManager \<Rightarrow> nat option \<times> DiskManager" where
  "disk_manager_create_track al dm =
     (case page_pool_create_track al (dm_pool dm) of
        (None, pool) \<Rightarrow> (None, dm\<lparr>dm_pool := pool\<rparr>)
      | (Some t, pool) \<Rightarrow> (Some t, dm\<lparr>dm_pool := pool, dm_is_dirty := True,
            dm_header := (dm_header dm)\<lparr>fh_track_count := fh_track_count (dm_header dm) + 1\<rparr>\<rparr>))"

definition disk_manager_get_track :: "DiskManager \<Rightarrow> 32 word \<Rightarrow> nat option" where
  "disk_manager_get_track dm tid = page_pool_get_track (dm_pool dm) tid"

text \<open>
  Both searches keep the track with the least cost, the first of equal ones; a cost that is not
  below \<open>DBL_MAX\<close> is never taken.
\<close>

definition best_track :: "(DiskTrack \<Rightarrow> double) \<Rightarrow> DiskTrack list \<Rightarrow> nat option" where
  "best_track cost tracks =
     fst (fold (\<lambda>t (best, best_cost).
         if \<not> track_has_space (tracks ! t) then (best, best_cost)
         else if flt (cost (tracks ! t)) best_cost then (Some t, cost (tracks ! t))
         else (best, best_cost)) [0..<length tracks] (None, DBL_MAX))"

definition track_expansion :: "Point \<Rightarrow> DiskTrack \<Rightarrow> double" where
  "track_expansion centroid track =
     fsub (mbr_area (mbr_expand_point (dt_extent track) centroid)) (mbr_area (dt_extent track))"

definition disk_manager_find_best_track :: "DiskManager \<Rightarrow> Point \<Rightarrow> nat option" where
  "disk_manager_find_best_track dm centroid =
     (let tracks = pp_tracks (dm_pool dm) in
      case dc_strategy (dm_config dm) of
        ALLOC_NEAREST_TRACK \<Rightarrow> best_track (\<lambda>t. point_distance centroid (dt_centroid t)) tracks
      | ALLOC_BEST_FIT \<Rightarrow> best_track (track_expansion centroid) tracks
      | ALLOC_SEQUENTIAL \<Rightarrow>
          (if length tracks > 0 \<and> track_has_space (tracks ! (length tracks - 1)) then Some (length tracks - 1) else None)
      | ALLOC_NEW_TRACK \<Rightarrow> None)"

text \<open>
  The pool has already added the page to the track when the disk manager adds it again.
\<close>

definition disk_manager_alloc_page :: "allocator \<Rightarrow> DiskManager \<Rightarrow> Point \<Rightarrow> nat option \<times> DiskManager" where
  "disk_manager_alloc_page al dm centroid =
     (let (track, dm1) = (case disk_manager_find_best_track dm centroid of
            Some t \<Rightarrow> if track_has_space (pp_tracks (dm_pool dm) ! t) then (Some t, dm) else disk_manager_create_track al dm
          | None \<Rightarrow> disk_manager_create_track al dm)
      in case track of
           None \<Rightarrow> (None, dm1)
         | Some t \<Rightarrow>
             (case page_pool_alloc al (dm_heap dm1) (dm_pool dm1) (dt_track_id (pp_tracks (dm_pool dm1) ! t)) of
                (None, h, pool) \<Rightarrow> (None, dm1\<lparr>dm_heap := h, dm_pool := pool\<rparr>)
              | (Some a, h, pool) \<Rightarrow>
                  (let h1 = h\<lparr>hp_page := (hp_page h)(a := set_header (\<lambda>hd. hd\<lparr>ph_centroid := centroid\<rparr>) (hp_page h a))\<rparr>;
                       (err, h2, pool2) = pool_track_add h1 pool t a;
                       dm2 = update_allocation_tree al (dm1\<lparr>dm_heap := h2, dm_pool := pool2\<rparr>) a
                   in (Some a, dm2\<lparr>dm_is_dirty := True,
                         dm_header := (dm_header dm2)\<lparr>fh_bounds := mbr_expand_point (fh_bounds (dm_header dm2)) centroid,
                           fh_page_count := fh_page_count (dm_header dm2) + 1\<rparr>\<rparr>))))"

definition disk_manager_free_page :: "allocator \<Rightarrow> DiskManager \<Rightarrow> 32 word \<Rightarrow> DiskManagerError \<times> DiskManager" where
  "disk_manager_free_page al dm pid =
     (case page_pool_free_page (dm_heap dm) (dm_pool dm) pid of
        (PAGE_OK, h, pool) \<Rightarrow>
          (DM_OK, disk_manager_rebuild_allocation_tree al (dm\<lparr>dm_heap := h, dm_pool := pool, dm_is_dirty := True,
             dm_header := (dm_header dm)\<lparr>fh_page_count := fh_page_count (dm_header dm) - 1\<rparr>\<rparr>))
      | (err, h, pool) \<Rightarrow> (DM_ERR_NOT_FOUND, dm))"

definition disk_manager_query_region :: "allocator \<Rightarrow> DiskManager \<Rightarrow> MBR \<Rightarrow> PageError + nat list" where
  "disk_manager_query_region al dm region = page_pool_query_region al (dm_heap dm) (dm_pool dm) region"

definition disk_manager_get_stats :: "DiskManager \<Rightarrow> IOStats" where
  "disk_manager_get_stats dm = dm_stats dm"

definition disk_manager_reset_stats :: "DiskManager \<Rightarrow> DiskManager" where
  "disk_manager_reset_stats dm = dm\<lparr>dm_stats := zero_stats\<rparr>"

text \<open>The number of changes of track between consecutive pages; the first page and pages without a track do not count.\<close>

definition disk_manager_estimate_seeks :: "DiskManager \<Rightarrow> 32 word list \<Rightarrow> 64 word" where
  "disk_manager_estimate_seeks dm page_ids =
     fst (fold (\<lambda>pid (seeks, last_track).
         case page_pool_get (dm_heap dm) (dm_pool dm) pid of
           None \<Rightarrow> (seeks, last_track)
         | Some a \<Rightarrow>
             (let tid = ph_track_id (pg_header (hp_page (dm_heap dm) a)) in
              (if tid \<noteq> last_track \<and> last_track \<noteq> 0 then seeks + 1 else seeks, tid)))
       page_ids (0, 0))"

definition disk_manager_query_tracks :: "allocator \<Rightarrow> DiskManager \<Rightarrow> MBR \<Rightarrow> DiskManagerError + nat list" where
  "disk_manager_query_tracks al dm region =
     (let matching = filter (\<lambda>t. mbr_intersects (dt_extent (pp_tracks (dm_pool dm) ! t)) region)
            [0..<length (pp_tracks (dm_pool dm))] in
      if length matching = 0 then Inr []
      else if \<not> al (length matching * sizeof_ptr) then Inl DM_ERR_ALLOC
      else Inr matching)"

definition disk_manager_validate :: "DiskManager \<Rightarrow> DiskManagerError" where
  "disk_manager_validate dm =
     (if \<not> dm_is_open dm then DM_ERR_NOT_OPEN
      else if fh_magic (dm_header dm) \<noteq> DM_MAGIC then DM_ERR_CORRUPT
      else if fh_version (dm_header dm) > DM_VERSION then DM_ERR_VERSION
      else if \<exists>a \<in> set (pp_pages (dm_pool dm)). \<not> page_verify (hp_page (dm_heap dm) a) then DM_ERR_CORRUPT
      else DM_OK)"

end
