(* ===== verification/Page_Inv.thy ===== *)
theory Page_Inv
  imports PagePool
begin

text \<open>
  Pages as bounded containers: what adding and removing an object does to the objects, the extent and
  the flags, and the memory invariant of the pool: its page pointers are distinct, allocated, and the
  tracks point only to pages of the pool.
\<close>

subsection \<open>Pages\<close>

text \<open>
  A page has room for 64 objects and bounds those it has.  Rectangles have no NaN coordinates.
\<close>

definition page_inv :: "Page \<Rightarrow> bool" where
  "page_inv p = (pg_capacity p = MAX_OBJECTS_PER_PAGE \<and> length (pg_objects p) \<le> pg_capacity p \<and> mbr_num (page_extent p) \<and>
     (\<forall>obj \<in> set (pg_objects p). bounds_mbr (page_extent p) (so_mbr obj)))"

lemma page_inv_num: "page_inv p \<Longrightarrow> obj \<in> set (pg_objects p) \<Longrightarrow> mbr_num (so_mbr obj)"
  by (simp add: page_inv_def bounds_mbr_def)

lemma new_page_inv: "page_inv (new_page pid tid)"
  by (simp add: page_inv_def new_page_def)

lemma set_header_simps [simp]:
  "pg_objects (set_header f p) = pg_objects p" "pg_capacity (set_header f p) = pg_capacity p"
  "pg_header (set_header f p) = f (pg_header p)" "pg_in_memory (set_header f p) = pg_in_memory p"
  by (simp_all add: set_header_def)

lemma page_inv_header:
  "page_inv p \<Longrightarrow> ph_extent (f (pg_header p)) = page_extent p \<Longrightarrow> page_inv (set_header f p)"
  by (simp add: page_inv_def)

lemma object_view_mbr: "object_view a = object_view b \<Longrightarrow> so_mbr a = so_mbr b"
  by (simp add: object_view_def)

lemma object_view_id: "object_view a = object_view b \<Longrightarrow> so_id a = so_id b"
  by (simp add: object_view_def)

lemma page_add_object_full: "pg_capacity p \<le> length (pg_objects p) \<Longrightarrow> page_add_object al p obj = (PAGE_ERR_FULL, p)"
  by (simp add: page_add_object_def)

lemma page_add_object_ok:
  assumes "length (pg_objects p) < pg_capacity p"
  shows "\<exists>p' copy. page_add_object malloc_ok p obj = (PAGE_OK, p') \<and> pg_objects p' = pg_objects p @ [copy] \<and>
    object_view copy = object_view obj \<and> pg_capacity p' = pg_capacity p \<and> page_id p' = page_id p \<and>
    page_extent p' = mbr_expand_mbr (page_extent p) (so_mbr obj)"
proof -
  obtain d where "spatial_object_copy malloc_ok obj = (GEOM_OK, d)" "object_view d = object_view obj"
    using spatial_object_copy_ok by blast
  with assms show ?thesis by (simp add: page_add_object_def Let_def)
qed

lemma page_add_object_cases:
  assumes "page_add_object al p obj = (err, p')"
  shows "err = PAGE_OK \<and> length (pg_objects p) < pg_capacity p \<or> err = PAGE_ERR_FULL \<and> p' = p \<or> err = PAGE_ERR_ALLOC \<and> p' = p"
  using assms by (auto simp: page_add_object_def Let_def split: if_splits prod.splits)

lemma page_inv_add:
  assumes p: "page_inv p" and n: "mbr_num (so_mbr obj)" and o: "pg_objects p' = pg_objects p @ [copy]"
    and c: "object_view copy = object_view obj" and cap: "pg_capacity p' = pg_capacity p"
    and e: "page_extent p' = mbr_expand_mbr (page_extent p) (so_mbr obj)" and l: "length (pg_objects p) < pg_capacity p"
  shows "page_inv p'"
proof -
  have "mbr_num (page_extent p)" using p by (simp add: page_inv_def)
  note ext = ext_mbr.expand_covers [OF this n] ext_mbr.expand_keeps [OF this n] ext_mbr.expand_rok [OF this n]
  show ?thesis
    using p l ext object_view_mbr [OF c] by (auto simp: page_inv_def o cap e)
qed

text \<open>The loop of \<open>page_update_derived\<close> computes the extent from the objects alone.\<close>

lemma update_derived_fold:
  "fst (fold (\<lambda>obj (m, cx, cy). (mbr_expand_mbr m (so_mbr obj), fadd cx (f obj), fadd cy (g obj))) objs (m, cx, cy)) =
    fold (\<lambda>b m. mbr_expand_mbr m b) (map so_mbr objs) m"
  by (induction objs arbitrary: m cx cy) simp_all

lemma page_update_derived_simps [simp]:
  "pg_objects (page_update_derived p) = pg_objects p" "pg_capacity (page_update_derived p) = pg_capacity p"
  "page_id (page_update_derived p) = page_id p" "ph_track_id (pg_header (page_update_derived p)) = ph_track_id (pg_header p)"
  "ph_flags (pg_header (page_update_derived p)) = ph_flags (pg_header p)"
  by (simp_all add: page_update_derived_def Let_def split: prod.splits)

lemma page_update_derived_extent [simp]:
  "page_extent (page_update_derived p) = fold (\<lambda>b m. mbr_expand_mbr m b) (map so_mbr (pg_objects p)) mbr_empty"
proof -
  have "page_extent (page_update_derived p) = fst (fold (\<lambda>obj (m, cx, cy). (mbr_expand_mbr m (so_mbr obj),
      fadd cx (px (so_centroid obj)), fadd cy (py (so_centroid obj)))) (pg_objects p) (mbr_empty, d_zero, d_zero))"
    by (simp add: page_update_derived_def Let_def split: prod.splits)
  then show ?thesis by (simp only: update_derived_fold)
qed

lemma page_update_derived_inv:
  assumes "pg_capacity p = MAX_OBJECTS_PER_PAGE" "length (pg_objects p) \<le> pg_capacity p"
    "\<And>obj. obj \<in> set (pg_objects p) \<Longrightarrow> mbr_num (so_mbr obj)"
  shows "page_inv (page_update_derived p)"
  using assms ext_mbr.fold_rok [of mbr_empty "map so_mbr (pg_objects p)"]
    ext_mbr.fold_covers [of mbr_empty "map so_mbr (pg_objects p)"]
  by (auto simp: page_inv_def)

lemma page_inv_update: "page_inv p \<Longrightarrow> page_inv (page_update_derived p)"
  by (rule page_update_derived_inv) (auto simp: page_inv_def bounds_mbr_def)

text \<open>The checksum covers neither the extent nor the centroid of the page, so it is correct after an update.\<close>

lemma page_checksum_header:
  "page_checksum (set_header f p) = page_checksum p"
  if "ph_page_id (f (pg_header p)) = page_id p" "ph_track_id (f (pg_header p)) = ph_track_id (pg_header p)"
  using that by (simp add: page_checksum_def)

lemma page_verify_update: "page_verify (page_update_derived p)"
  by (simp add: page_verify_def page_update_derived_def Let_def page_checksum_header split: prod.splits)

lemma page_remove_object_cases:
  "case page_remove_object p oid of (err, p') \<Rightarrow>
     if \<exists>obj \<in> set (pg_objects p). so_id obj = oid
     then err = PAGE_OK \<and> (\<exists>i < length (pg_objects p). so_id (pg_objects p ! i) = oid \<and>
       pg_objects p' = remove_at i (pg_objects p) \<and> page_find_object p oid = Some i) \<and>
       pg_capacity p' = pg_capacity p \<and> page_id p' = page_id p
     else err = PAGE_ERR_NOT_FOUND \<and> p' = p"
proof (cases "find_index (\<lambda>obj. so_id obj = oid) (pg_objects p)")
  case None
  then have "\<not> (\<exists>obj \<in> set (pg_objects p). so_id obj = oid)" by (simp add: find_index_None)
  with None show ?thesis by (simp add: page_remove_object_def)
next
  case (Some i)
  then have i: "i < length (pg_objects p)" "so_id (pg_objects p ! i) = oid"
    using find_index_Some by fastforce+
  then have "\<exists>obj \<in> set (pg_objects p). so_id obj = oid" using nth_mem by blast
  with Some i show ?thesis
    by (auto simp: page_remove_object_def page_find_object_def)
qed

lemma page_remove_object_inv: "page_inv p \<Longrightarrow> page_inv (snd (page_remove_object p oid))"
proof (cases "find_index (\<lambda>obj. so_id obj = oid) (pg_objects p)")
  case (Some i)
  assume p: "page_inv p"
  have i: "i < length (pg_objects p)" using find_index_Some [OF Some] by simp
  have "mbr_num (so_mbr obj)" if "obj \<in> set (remove_at i (pg_objects p))" for obj
    using page_inv_num [OF p] set_remove_at_subset [of i "pg_objects p"] that by blast
  then have "page_inv (page_update_derived
      (set_header (\<lambda>hd. hd\<lparr>ph_flags := (ph_flags hd OR PAGE_STATUS_DIRTY) AND NOT PAGE_STATUS_FULL\<rparr>)
        (p\<lparr>pg_objects := remove_at i (pg_objects p)\<rparr>)))"
    using p i by (intro page_update_derived_inv) (auto simp: page_inv_def)
  with Some show ?thesis by (simp add: page_remove_object_def)
qed (simp add: page_remove_object_def)

subsection \<open>The pool\<close>

definition pool_inv :: "Heap \<Rightarrow> PagePool \<Rightarrow> bool" where
  "pool_inv h pool = (distinct (pp_pages pool) \<and> set (pp_pages pool) \<subseteq> set (hp_live h) \<and>
     (\<forall>a \<in> set (hp_live h). a < hp_next h) \<and>
     (\<forall>t \<in> set (pp_tracks pool). set (dt_pages t) \<subseteq> set (pp_pages pool)) \<and>
     (\<forall>a \<in> set (pp_pages pool). page_inv (hp_page h a)))"

text \<open>Page pointers into freed memory: reading one is undefined behaviour.\<close>

definition dangling :: "Heap \<Rightarrow> nat list \<Rightarrow> bool" where
  "dangling h as = (\<exists>a \<in> set as. a \<notin> set (hp_live h))"

lemma pool_inv_not_dangling:
  "pool_inv h pool \<Longrightarrow> \<not> dangling h (pp_pages pool) \<and> (\<forall>t \<in> set (pp_tracks pool). \<not> dangling h (dt_pages t))"
  by (auto simp: pool_inv_def dangling_def)

lemma track_update_derived_pages [simp]:
  "dt_pages (track_update_derived h t) = dt_pages t" "dt_track_id (track_update_derived h t) = dt_track_id t"
  "dt_capacity (track_update_derived h t) = dt_capacity t" "dt_is_full (track_update_derived h t) = dt_is_full t"
  by (simp_all add: track_update_derived_def Let_def split: prod.splits)

lemma track_add_page_cases:
  assumes "track_add_page h t a = (err, h', t')"
  shows "hp_live h' = hp_live h \<and> hp_next h' = hp_next h \<and> dt_track_id t' = dt_track_id t \<and> dt_capacity t' = dt_capacity t \<and>
    (if length (dt_pages t) < dt_capacity t then err = PAGE_OK \<and> dt_pages t' = dt_pages t @ [a] \<and>
       hp_page h' = (hp_page h)(a := set_header (\<lambda>hd. hd\<lparr>ph_track_id := dt_track_id t\<rparr>) (hp_page h a))
     else err = PAGE_ERR_FULL \<and> t' = t \<and> h' = h)"
  using assms by (auto simp: track_add_page_def Let_def)

text \<open>Changing the page at an address of the pool, or adding a pool page to a track, keeps the invariant.\<close>

lemma pool_inv_set_page:
  "pool_inv h pool \<Longrightarrow> page_inv p \<Longrightarrow> pool_inv (h\<lparr>hp_page := (hp_page h)(a := p)\<rparr>) pool"
  by (auto simp: pool_inv_def)

lemma pool_track_add_inv:
  assumes "pool_inv h pool" "a \<in> set (pp_pages pool)" "pool_track_add h pool t a = (err, h', pool')"
  shows "pool_inv h' pool' \<and> pp_pages pool' = pp_pages pool \<and> hp_live h' = hp_live h \<and> hp_next h' = hp_next h \<and>
    (\<forall>b. pg_objects (hp_page h' b) = pg_objects (hp_page h b) \<and> pg_capacity (hp_page h' b) = pg_capacity (hp_page h b) \<and>
      page_id (hp_page h' b) = page_id (hp_page h b)) \<and> length (pp_tracks pool') = length (pp_tracks pool)"
proof -
  obtain t' where add: "track_add_page h (pp_tracks pool ! t) a = (err, h', t')"
    and pool': "pool' = pool\<lparr>pp_tracks := (pp_tracks pool)[t := t']\<rparr>"
    using assms(3) by (auto simp: pool_track_add_def split: prod.splits)
  note c = track_add_page_cases [OF add]
  have pages: "page_inv (hp_page h' b)" if "b \<in> set (pp_pages pool)" for b
    using that c assms(1) by (auto simp: pool_inv_def page_inv_header split: if_splits)
  have "set (dt_pages u) \<subseteq> set (pp_pages pool)" if u: "u \<in> set ((pp_tracks pool)[t := t'])" for u
  proof (cases "t < length (pp_tracks pool)")
    case True
    then have "pp_tracks pool ! t \<in> set (pp_tracks pool)" by simp
    then have "set (dt_pages t') \<subseteq> set (pp_pages pool)"
      using c assms(1,2) by (auto simp: pool_inv_def split: if_splits)
    moreover have "u = t' \<or> u \<in> set (pp_tracks pool)"
      using u set_update_subset_insert [of "pp_tracks pool" t t'] by blast
    ultimately show ?thesis using assms(1) unfolding pool_inv_def by blast
  next
    case False
    then have "u \<in> set (pp_tracks pool)" using u by (simp add: list_update_beyond)
    then show ?thesis using assms(1) unfolding pool_inv_def by blast
  qed
  with c pages assms(1) show ?thesis
    by (auto simp: pool_inv_def pool' split: if_splits)
qed

lemma pool_inv_new_page:
  assumes "pool_inv h pool"
  shows "pool_inv (h\<lparr>hp_page := (hp_page h)(hp_next h := new_page pid tid), hp_live := hp_next h # hp_live h,
      hp_next := hp_next h + 1\<rparr>) (pool\<lparr>pp_pages := pp_pages pool @ [hp_next h]\<rparr>)"
  using assms by (auto simp: pool_inv_def new_page_inv less_Suc_eq)

lemma pool_inv_fields:
  "pp_pages pool' = pp_pages pool \<Longrightarrow> pp_tracks pool' = pp_tracks pool \<Longrightarrow> pool_inv h pool' = pool_inv h pool"
  by (simp add: pool_inv_def)

lemma page_pool_alloc_ok:
  assumes inv: "pool_inv h pool" and run: "page_pool_alloc malloc_ok h pool tid = (r, h', pool')"
  shows "\<exists>a. r = Some a \<and> a = hp_next h \<and> pool_inv h' pool' \<and> pp_pages pool' = pp_pages pool @ [a] \<and>
    a \<notin> set (hp_live h) \<and> pg_objects (hp_page h' a) = [] \<and> page_id (hp_page h' a) = pp_next_page_id pool \<and>
    (\<forall>b. b \<noteq> a \<longrightarrow> pg_objects (hp_page h' b) = pg_objects (hp_page h b) \<and> page_id (hp_page h' b) = page_id (hp_page h b)) \<and>
    length (pp_tracks pool') = length (pp_tracks pool)"
proof -
  let ?a = "hp_next h" and ?np = "new_page (pp_next_page_id pool) tid"
  define h1 where "h1 = h\<lparr>hp_page := (hp_page h)(?a := ?np), hp_live := ?a # hp_live h, hp_next := ?a + 1\<rparr>"
  define pool1 where "pool1 = (if length (pp_pages pool) \<ge> pp_page_capacity pool
    then pool\<lparr>pp_page_capacity := pp_page_capacity pool * GROWTH_FACTOR\<rparr> else pool)"
  define pool3 where "pool3 = pool1\<lparr>pp_next_page_id := pp_next_page_id pool1 + 1, pp_pages := pp_pages pool1 @ [?a]\<rparr>"
  have p1: "pp_pages pool1 = pp_pages pool" "pp_tracks pool1 = pp_tracks pool" "pp_next_page_id pool1 = pp_next_page_id pool"
    by (simp_all add: pool1_def)
  have p3: "pp_pages pool3 = pp_pages pool @ [?a]" "pp_tracks pool3 = pp_tracks pool"
    by (simp_all add: pool3_def p1)
  have "pool_inv h1 (pool\<lparr>pp_pages := pp_pages pool @ [?a]\<rparr>)"
    using pool_inv_new_page [OF inv] by (simp add: h1_def)
  then have inv3: "pool_inv h1 pool3"
    by (simp add: p3 pool_inv_fields [of pool3 "pool\<lparr>pp_pages := pp_pages pool @ [?a]\<rparr>"])
  have fresh: "?a \<notin> set (hp_live h)" using inv by (auto simp: pool_inv_def)
  have new: "pg_objects ?np = []" "page_id ?np = pp_next_page_id pool" by (simp_all add: new_page_def)
  have "page_pool_alloc malloc_ok h pool tid = (if tid > 0 then (case page_pool_get_track pool3 tid of None \<Rightarrow> (Some ?a, h1, pool3)
      | Some t \<Rightarrow> (case pool_track_add h1 pool3 t ?a of (err, h2, pool4) \<Rightarrow> (Some ?a, h2, pool4))) else (Some ?a, h1, pool3))"
    unfolding page_pool_alloc_def page_create_def Let_def pool3_def pool1_def h1_def
    by (simp add: malloc_ok_simp cong: option.case_cong)
  then have run': "(r, h', pool') = (if tid > 0 then (case page_pool_get_track pool3 tid of None \<Rightarrow> (Some ?a, h1, pool3)
      | Some t \<Rightarrow> (case pool_track_add h1 pool3 t ?a of (err, h2, pool4) \<Rightarrow> (Some ?a, h2, pool4))) else (Some ?a, h1, pool3))"
    using run by simp
  show ?thesis
  proof (cases "tid > 0 \<and> page_pool_get_track pool3 tid \<noteq> None")
    case False
    with run' have "r = Some ?a" "h' = h1" "pool' = pool3" by (auto split: if_splits)
    with inv3 fresh new p3 show ?thesis by (simp add: h1_def)
  next
    case True
    then obtain t where t: "page_pool_get_track pool3 tid = Some t" by blast
    obtain err h2 pool4 where add: "pool_track_add h1 pool3 t ?a = (err, h2, pool4)" by (cases "pool_track_add h1 pool3 t ?a")
    have "r = Some ?a" "h' = h2" "pool' = pool4" using run' True t add by simp_all
    with pool_track_add_inv [OF inv3 _ add] fresh new p3 show ?thesis by (auto simp: h1_def)
  qed
qed

lemma page_pool_create_track_ok:
  assumes "page_pool_create_track malloc_ok pool = (r, pool')"
  shows "r = Some (length (pp_tracks pool)) \<and> pp_pages pool' = pp_pages pool \<and>
    (\<exists>t. pp_tracks pool' = pp_tracks pool @ [t] \<and> dt_pages t = [] \<and> dt_capacity t = PAGES_PER_TRACK \<and>
      dt_track_id t = pp_next_track_id pool) \<and> (pool_inv h pool \<longrightarrow> pool_inv h pool')"
  using assms
  by (cases "length (pp_tracks pool) \<ge> pp_track_capacity pool")
    (clarsimp simp: page_pool_create_track_def track_create_def malloc_ok_simp Let_def pool_inv_def; fail)+

lemma query_region_ok:
  "page_pool_query_region malloc_ok h pool rng =
    Inr (filter (\<lambda>a. mbr_intersects (page_extent (hp_page h a)) rng) (pp_pages pool))"
  by (auto simp: page_pool_query_region_def malloc_ok_simp Let_def filter_empty_conv)

end
