(* ===== verification/DiskManager_Inv.thy ===== *)
theory DiskManager_Inv
  imports DiskManager Page_Inv
begin

text \<open>
  The invariant of the disk manager: the memory invariant of the pool, and an allocation tree that
  points only to pages of the pool and counts its entries.  Allocating a page, creating a track and
  rebuilding the tree keep it.  Freeing a page does not: the last property of the theory shows the
  track that keeps a pointer to the freed page.
\<close>

definition tree_inv :: "nat KDTree \<Rightarrow> nat set \<Rightarrow> bool" where
  "tree_inv t pages = (kt_size t = length (kd_entries (kt_root t)) \<and> pd_data ` set (kd_entries (kt_root t)) \<subseteq> pages)"

definition dm_inv :: "DiskManager \<Rightarrow> bool" where
  "dm_inv dm = (pool_inv (dm_heap dm) (dm_pool dm) \<and> tree_inv (dm_tree dm) (set (pp_pages (dm_pool dm))))"

lemma tree_inv_init: "tree_inv kdtree_init pages"
  by (simp add: tree_inv_def kdtree_init_def)

lemma tree_inv_insert:
  assumes "tree_inv t pages" "a \<in> pages"
  shows "tree_inv (snd (kdtree_insert malloc_ok t p oid a)) pages"
  using assms by (auto simp: tree_inv_def kdtree_insert_def Let_def insert_recursive_nonnull malloc_ok_simp
      insert_recursive_set insert_recursive_length)

lemma tree_inv_mono: "tree_inv t pages \<Longrightarrow> pages \<subseteq> pages' \<Longrightarrow> tree_inv t pages'"
  by (auto simp: tree_inv_def)

text \<open>The nearest-neighbour search returns an entry of the tree, whatever the coordinates are.\<close>

definition nn_from :: "'d KDPointData set \<Rightarrow> 'd NNState \<Rightarrow> bool" where
  "nn_from E s = (\<lparr>pd_point = nn_best s, pd_id = nn_best_id s, pd_data = nn_best_data s\<rparr> \<in> E)"

lemma nearest_recursive_from: "nn_from E s \<Longrightarrow> set (kd_entries t) \<subseteq> E \<Longrightarrow> nn_from E (nearest_recursive t s)"
proof (induction t arbitrary: s)
  case KNull
  then show ?case by simp
next
  case (KDNode p oid data sd l r b n)
  define s1 where "s1 = (if flt (point_distance_sq (nn_query s) p) (nn_best_dist_sq s)
    then s\<lparr>nn_best_dist_sq := point_distance_sq (nn_query s) p, nn_best := p, nn_best_id := oid, nn_best_data := data\<rparr> else s)"
  have s1: "nn_from E s1"
    using KDNode.prems by (simp add: s1_def nn_from_def)
  have l: "nn_from E s' \<Longrightarrow> nn_from E (nearest_recursive l s')" and r: "nn_from E s' \<Longrightarrow> nn_from E (nearest_recursive r s')" for s'
    using KDNode by simp_all
  show ?case
    unfolding nearest_recursive.simps Let_def s1_def [symmetric] using l r s1 by simp
qed

lemma kdtree_nearest_data:
  assumes "tree_inv t pages" "kt_size t > 0"
  shows "\<exists>p oid a. kdtree_nearest t q = Inr (p, oid, a) \<and> a \<in> pages"
proof -
  have "kt_root t \<noteq> KNull" using assms by (auto simp: tree_inv_def)
  then obtain p oid data sd l r b n where root: "kt_root t = KDNode p oid data sd l r b n" by (cases "kt_root t") auto
  let ?s = "\<lparr>nn_query = q, nn_best = p, nn_best_id = oid, nn_best_data = data, nn_best_dist_sq = DBL_MAX\<rparr>"
  have "nn_from (set (kd_entries (kt_root t))) (nearest_recursive (kt_root t) ?s)"
    by (intro nearest_recursive_from order_refl) (simp add: nn_from_def root)
  then have "nn_best_data (nearest_recursive (kt_root t) ?s) \<in> pages"
    using assms(1) unfolding nn_from_def tree_inv_def by force
  then show ?thesis
    by (simp add: kdtree_nearest_def root Let_def del: nearest_recursive.simps)
qed

subsection \<open>The operations keep the invariant\<close>

lemma update_tree_fields [simp]:
  "dm_heap (update_allocation_tree al dm a) = dm_heap dm" "dm_pool (update_allocation_tree al dm a) = dm_pool dm"
  "dm_header (update_allocation_tree al dm a) = dm_header dm" "dm_config (update_allocation_tree al dm a) = dm_config dm"
  by (simp_all add: update_allocation_tree_def Let_def)

lemma update_tree_inv:
  "tree_inv (dm_tree dm) pages \<Longrightarrow> a \<in> pages \<Longrightarrow> tree_inv (dm_tree (update_allocation_tree malloc_ok dm a)) pages"
  by (simp add: update_allocation_tree_def Let_def tree_inv_insert)

lemma rebuild_fold:
  assumes "set as \<subseteq> pages"
  shows "let dm' = fold (\<lambda>a dm. if length (pg_objects (hp_page (dm_heap dm) a)) > 0 then update_allocation_tree malloc_ok dm a else dm) as dm in
    dm_heap dm' = dm_heap dm \<and> dm_pool dm' = dm_pool dm \<and> (tree_inv (dm_tree dm) pages \<longrightarrow> tree_inv (dm_tree dm') pages)"
  using assms
proof (induction as arbitrary: dm)
  case Nil
  then show ?case by simp
next
  case (Cons a as)
  then have a: "a \<in> pages" "set as \<subseteq> pages" by simp_all
  show ?case
    using Cons.IH [OF a(2), of dm] Cons.IH [OF a(2), of "update_allocation_tree malloc_ok dm a"]
      update_tree_inv [OF _ a(1), of dm] by (simp add: Let_def)
qed

lemma rebuild_inv:
  "dm_heap (disk_manager_rebuild_allocation_tree malloc_ok dm) = dm_heap dm"
  "dm_pool (disk_manager_rebuild_allocation_tree malloc_ok dm) = dm_pool dm"
  "pool_inv (dm_heap dm) (dm_pool dm) \<Longrightarrow> dm_inv (disk_manager_rebuild_allocation_tree malloc_ok dm)"
  using rebuild_fold [of "pp_pages (dm_pool dm)" "set (pp_pages (dm_pool dm))" "dm\<lparr>dm_tree := kdtree_init\<rparr>"]
  by (simp_all add: disk_manager_rebuild_allocation_tree_def Let_def dm_inv_def tree_inv_init)

lemma create_track_ok:
  assumes "dm_inv dm" "disk_manager_create_track malloc_ok dm = (r, dm')"
  shows "r = Some (length (pp_tracks (dm_pool dm))) \<and> dm_inv dm' \<and> dm_heap dm' = dm_heap dm \<and>
    pp_pages (dm_pool dm') = pp_pages (dm_pool dm)"
  using assms page_pool_create_track_ok [of "dm_pool dm" _ _ "dm_heap dm"]
  by (auto simp: disk_manager_create_track_def dm_inv_def split: prod.splits option.splits)

lemma disk_manager_alloc_page_ok:
  assumes inv: "dm_inv dm" and run: "disk_manager_alloc_page malloc_ok dm c = (r, dm')"
  shows "\<exists>a. r = Some a \<and> dm_inv dm' \<and> pp_pages (dm_pool dm') = pp_pages (dm_pool dm) @ [a] \<and>
    a \<notin> set (pp_pages (dm_pool dm)) \<and> pg_objects (hp_page (dm_heap dm') a) = [] \<and>
    (\<forall>b. b \<noteq> a \<longrightarrow> pg_objects (hp_page (dm_heap dm') b) = pg_objects (hp_page (dm_heap dm) b))"
proof -
  define td where "td = (case disk_manager_find_best_track dm c of
        Some t \<Rightarrow> if track_has_space (pp_tracks (dm_pool dm) ! t) then (Some t, dm) else disk_manager_create_track malloc_ok dm
      | None \<Rightarrow> disk_manager_create_track malloc_ok dm)"
  obtain track dm1 where td: "td = (track, dm1)" by (cases td)
  note t = td [unfolded td_def, symmetric]
  have "(track, dm1) = disk_manager_create_track malloc_ok dm \<or> (\<exists>t. track = Some t \<and> dm1 = dm)"
    using t by (auto split: option.splits if_splits)
  then obtain t where d1: "track = Some t" "dm_inv dm1" "dm_heap dm1 = dm_heap dm" "pp_pages (dm_pool dm1) = pp_pages (dm_pool dm)"
  proof (elim disjE exE conjE)
    assume c: "(track, dm1) = disk_manager_create_track malloc_ok dm"
    show ?thesis by (rule that) (use create_track_ok [OF inv c [symmetric]] in simp_all)
  next
    fix t
    assume "track = Some t" "dm1 = dm"
    then show ?thesis using inv by (intro that [of t]) simp_all
  qed
  obtain r1 h pool where al: "page_pool_alloc malloc_ok (dm_heap dm1) (dm_pool dm1) (dt_track_id (pp_tracks (dm_pool dm1) ! t)) = (r1, h, pool)"
    by (metis prod_cases3)
  have p1: "pool_inv (dm_heap dm1) (dm_pool dm1)" using d1(2) by (simp add: dm_inv_def)
  obtain a where a: "r1 = Some a" "pool_inv h pool" "pp_pages pool = pp_pages (dm_pool dm) @ [a]" "a \<notin> set (hp_live (dm_heap dm))"
    "pg_objects (hp_page h a) = []" "\<And>b. b \<noteq> a \<Longrightarrow> pg_objects (hp_page h b) = pg_objects (hp_page (dm_heap dm) b)"
    using page_pool_alloc_ok [OF p1 al] d1 by auto
  define h1 where "h1 = h\<lparr>hp_page := (hp_page h)(a := set_header (\<lambda>hd. hd\<lparr>ph_centroid := c\<rparr>) (hp_page h a))\<rparr>"
  have "page_inv (hp_page h a)" using a(2,3) by (simp add: pool_inv_def)
  then have inv1: "pool_inv h1 pool"
    unfolding h1_def by (intro pool_inv_set_page a(2) page_inv_header) simp_all
  obtain e2 h2 pool2 where add: "pool_track_add h1 pool t a = (e2, h2, pool2)" by (metis prod_cases3)
  have ap: "a \<in> set (pp_pages pool)" by (simp add: a(3))
  note p2 = pool_track_add_inv [OF inv1 ap add]
  define dm2 where "dm2 = update_allocation_tree malloc_ok (dm1\<lparr>dm_heap := h2, dm_pool := pool2\<rparr>) a"
  have "(r, dm') = (Some a, dm2\<lparr>dm_is_dirty := True,
      dm_header := (dm_header dm2)\<lparr>fh_bounds := mbr_expand_point (fh_bounds (dm_header dm2)) c,
        fh_page_count := fh_page_count (dm_header dm2) + 1\<rparr>\<rparr>)"
    using run t d1(1) al a(1) add
    by (simp add: disk_manager_alloc_page_def t [symmetric] Let_def h1_def [symmetric] dm2_def)
  then have r: "r = Some a" "dm_heap dm' = h2" "dm_pool dm' = pool2" "dm_tree dm' = dm_tree dm2"
    by (simp_all add: dm2_def)
  have "tree_inv (dm_tree dm1) (set (pp_pages pool2))"
    using d1(2,4) p2 a(3) by (auto simp: dm_inv_def intro: tree_inv_mono)
  then have "tree_inv (dm_tree dm') (set (pp_pages pool2))"
    unfolding r dm2_def using p2 ap by (intro update_tree_inv) simp_all
  then have "dm_inv dm'" using r p2 by (simp add: dm_inv_def)
  moreover have "a \<notin> set (pp_pages (dm_pool dm))"
    using a(4) inv by (auto simp: dm_inv_def pool_inv_def)
  ultimately show ?thesis
    using r p2 a by (auto simp: h1_def)
qed

lemma disk_manager_init_inv:
  "dm_inv (snd (disk_manager_init malloc_ok \<lparr>hp_page = pages, hp_live = [], hp_next = n\<rparr> cfg))"
  "fst (disk_manager_init malloc_ok h cfg) = DM_OK"
  by (simp_all add: disk_manager_init_def page_pool_init_def page_cache_init_def Let_def malloc_ok_simp dm_inv_def
      tree_inv_init pool_inv_def zero_pool_def)

end
