(* ===== verification/Page_Props.thy ===== *)
theory Page_Props
  imports PageCache_Inv DiskManager_Inv Geometry_Props
begin

text \<open>
  The properties of pages, the page pool, the cache and the disk manager, with their witnesses.  The
  witnesses use the empty page 1 of track 1 and the sample triangle.
\<close>

definition sample_page :: Page where
  "sample_page = new_page 1 1"

lemma sample_page_facts: "page_inv sample_page" "length (pg_objects sample_page) < pg_capacity sample_page"
  by (simp_all add: sample_page_def new_page_inv) (simp add: new_page_def MAX_OBJECTS_PER_PAGE_def)

lemma sample_object_mbr: "mbr_num (so_mbr sample_object)"
  by (simp add: sample_object_def)

subsection \<open>Pages\<close>

text \<open>
  Adding an object to a page, on every branch.  A full page is unchanged and reports
  \<open>PAGE_ERR_FULL\<close>; a failed copy changes nothing and reports \<open>PAGE_ERR_ALLOC\<close>; otherwise the page gets a
  copy at the end, keeps its invariant (at most 64 objects, all inside the extent), is marked dirty,
  and is marked full exactly if the object took the last place or the mark was there before.
\<close>

theorem page_add_object_correct:
  assumes "page_inv p" "mbr_num (so_mbr obj)"
  shows "case page_add_object al p obj of (err, p') \<Rightarrow>
    page_inv p' \<and>
    (if length (pg_objects p) \<ge> MAX_OBJECTS_PER_PAGE then err = PAGE_ERR_FULL \<and> p' = p
     else if fst (spatial_object_copy al obj) \<noteq> GEOM_OK then err = PAGE_ERR_ALLOC \<and> p' = p
     else err = PAGE_OK \<and> pg_objects p' = pg_objects p @ [snd (spatial_object_copy al obj)] \<and>
       ph_flags (pg_header p') = ph_flags (pg_header p) OR PAGE_STATUS_DIRTY OR
         (if length (pg_objects p') = MAX_OBJECTS_PER_PAGE then PAGE_STATUS_FULL else 0))"
proof -
  obtain err d where c: "spatial_object_copy al obj = (err, d)" by (cases "spatial_object_copy al obj")
  have cap: "pg_capacity p = MAX_OBJECTS_PER_PAGE" "length (pg_objects p) \<le> MAX_OBJECTS_PER_PAGE" "mbr_num (page_extent p)"
    using assms(1) by (simp_all add: page_inv_def)
  have mbr: "so_mbr d = so_mbr obj" if "err = GEOM_OK"
    using c that by (auto simp: spatial_object_copy_def spatial_object_set_properties_def Let_def
        split: prod.splits if_splits option.splits)
  note ext = ext_mbr.expand_covers [OF cap(3) assms(2)] ext_mbr.expand_keeps [OF cap(3) assms(2)] ext_mbr.expand_rok [OF cap(3) assms(2)]
  show ?thesis
  proof (cases "length (pg_objects p) < MAX_OBJECTS_PER_PAGE \<and> err = GEOM_OK")
    case False
    then show ?thesis using assms(1) cap by (auto simp: page_add_object_def c)
  next
    case True
    let ?p' = "snd (page_add_object al p obj)"
    have p': "pg_objects ?p' = pg_objects p @ [d]" "pg_capacity ?p' = pg_capacity p"
      "page_extent ?p' = mbr_expand_mbr (page_extent p) (so_mbr obj)"
      using True cap(1) by (simp_all add: page_add_object_def c Let_def)
    have "page_inv ?p'"
      using assms(1) True cap p' ext mbr by (auto simp: page_inv_def)
    then show ?thesis
      using True cap by (auto simp: page_add_object_def c Let_def or.assoc)
  qed
qed

theorem page_add_object_correct_witness:
  "case page_add_object malloc_ok sample_page sample_object of (err, p') \<Rightarrow> page_inv p'"
  using page_add_object_correct [OF sample_page_facts(1) sample_object_mbr, of malloc_ok] by (simp split: prod.splits)

text \<open>
  Removing an object from a page.  If an object has the id, the first one is taken out, the
  others keep their order, and the page, whose extent and centroid are computed anew, keeps its
  invariant, has the extent that the remaining objects alone determine, and passes \<open>page_verify\<close>;
  otherwise the page is unchanged and the result is \<open>PAGE_ERR_NOT_FOUND\<close>.
\<close>

theorem page_remove_object_correct:
  assumes "page_inv p"
  shows "case page_remove_object p oid of (err, p') \<Rightarrow>
    page_inv p' \<and>
    (case page_find_object p oid of
       None \<Rightarrow> err = PAGE_ERR_NOT_FOUND \<and> p' = p \<and> (\<forall>obj \<in> set (pg_objects p). so_id obj \<noteq> oid)
     | Some i \<Rightarrow> err = PAGE_OK \<and> page_verify p' \<and> so_id (pg_objects p ! i) = oid \<and>
         (\<forall>j < i. so_id (pg_objects p ! j) \<noteq> oid) \<and>
         pg_objects p' = take i (pg_objects p) @ drop (Suc i) (pg_objects p) \<and>
         page_extent p' = fold (\<lambda>b m. mbr_expand_mbr m b) (map so_mbr (pg_objects p')) mbr_empty)"
proof (cases "page_find_object p oid")
  case None
  then have f: "find_index (\<lambda>obj. so_id obj = oid) (pg_objects p) = None" by (simp add: page_find_object_def)
  then have "\<forall>obj \<in> set (pg_objects p). so_id obj \<noteq> oid" unfolding find_index_None by simp
  with assms None f show ?thesis by (simp add: page_remove_object_def)
next
  case (Some i)
  then have f: "find_index (\<lambda>obj. so_id obj = oid) (pg_objects p) = Some i" by (simp add: page_find_object_def)
  note i = find_index_Some [OF f]
  let ?p' = "snd (page_remove_object p oid)"
  obtain q where q: "?p' = page_update_derived q" "pg_objects q = remove_at i (pg_objects p)"
    by (simp add: page_remove_object_def f)
  show ?thesis
    using i q page_remove_object_inv [OF assms, of oid] page_verify_update [of q] Some page_update_derived_extent [of q]
    by (simp add: page_remove_object_def f remove_at_def split: prod.splits)
qed

theorem page_remove_object_correct_witness:
  "page_inv (snd (page_remove_object sample_page 7))"
  using page_remove_object_correct [OF sample_page_facts(1), of 7] by (simp split: prod.splits)

subsection \<open>The pool\<close>

definition sample_pool :: PagePool where
  "sample_pool = snd (page_pool_init malloc_ok)"

definition empty_heap :: Heap where
  "empty_heap = \<lparr>hp_page = (\<lambda>a. new_page 0 0), hp_live = [], hp_next = 1\<rparr>"

lemma sample_pool_facts: "pool_inv empty_heap sample_pool" "pp_pages sample_pool = []"
  by (simp_all add: sample_pool_def empty_heap_def page_pool_init_def malloc_ok_simp zero_pool_def pool_inv_def)

text \<open>
  A page that the pool allocates can be looked up by its id.  Allocation in a pool where no page
  has the next id returns a new, empty page with that id, keeps the memory invariant, appends the page
  to the pool, and lookups of other ids are as before.
\<close>

theorem page_pool_alloc_get:
  assumes "pool_inv h pool" "\<forall>a \<in> set (pp_pages pool). page_id (hp_page h a) \<noteq> pp_next_page_id pool"
  shows "\<exists>a h' pool'. page_pool_alloc malloc_ok h pool tid = (Some a, h', pool') \<and> a \<notin> set (hp_live h) \<and>
    pool_inv h' pool' \<and> pp_pages pool' = pp_pages pool @ [a] \<and> pg_objects (hp_page h' a) = [] \<and>
    page_pool_get h' pool' (pp_next_page_id pool) = Some a \<and>
    (\<forall>pid. pid \<noteq> pp_next_page_id pool \<longrightarrow> page_pool_get h' pool' pid = page_pool_get h pool pid)"
proof -
  obtain r h' pool' where run: "page_pool_alloc malloc_ok h pool tid = (r, h', pool')"
    by (cases "page_pool_alloc malloc_ok h pool tid")
  from page_pool_alloc_ok [OF assms(1) run] obtain a where a: "r = Some a" "pool_inv h' pool'"
    "pp_pages pool' = pp_pages pool @ [a]" "a \<notin> set (hp_live h)" "pg_objects (hp_page h' a) = []"
    "page_id (hp_page h' a) = pp_next_page_id pool" "\<And>b. b \<noteq> a \<Longrightarrow> page_id (hp_page h' b) = page_id (hp_page h b)"
    by blast
  have old: "page_id (hp_page h' b) = page_id (hp_page h b)" if "b \<in> set (pp_pages pool)" for b
  proof -
    have "b \<in> set (hp_live h)" using that assms(1) unfolding pool_inv_def by blast
    with a(4) have "b \<noteq> a" by blast
    then show ?thesis by (rule a(7))
  qed
  have find: "List.find (\<lambda>b. page_id (hp_page h' b) = pid) (as @ [a]) =
      (if pid = pp_next_page_id pool then Some a else List.find (\<lambda>b. page_id (hp_page h b) = pid) as)"
    if "set as \<subseteq> set (pp_pages pool)" for pid as
    using that old assms(2) by (induction as) (auto simp: a(6))
  show ?thesis
    using run a find [OF order_refl] by (simp add: page_pool_get_def)
qed

theorem page_pool_alloc_get_witness:
  "\<exists>a h' pool'. page_pool_alloc malloc_ok empty_heap sample_pool 0 = (Some a, h', pool') \<and>
    page_pool_get h' pool' (pp_next_page_id sample_pool) = Some a"
  using page_pool_alloc_get [OF sample_pool_facts(1), of 0] sample_pool_facts(2) by auto

subsection \<open>The cache\<close>

definition sample_cache :: PageCache where
  "sample_cache = snd (page_cache_init malloc_ok 3)"

lemma sample_cache_wf: "cache_wf sample_cache"
  by (rule cache_wf_init [of malloc_ok 3]) (simp add: sample_cache_def page_cache_init_def malloc_ok_simp Let_def)

text \<open>
  C38: The cache is transparent.  If a lookup through the cache returns, the result is the page that the
  pool itself would return, and the invariant of the cache is kept: the references are distinct and
  as many as the counter says, at most the capacity, and each entry of the hash table leads to a
  reference of its bucket in the LRU list.
\<close>

theorem page_cache_get_transparent:
  assumes "cache_wf c" "page_cache_get al now h pool c pid = Some (r, c')"
  shows "r = page_pool_get h pool pid \<and> cache_wf c'"
  using assms by (rule page_cache_get_spec)

theorem page_cache_get_transparent_witness: "\<exists>r c'. page_cache_get malloc_ok 0 empty_heap sample_pool sample_cache 5 = Some (r, c') \<and> cache_wf c'"
proof -
  have "page_cache_get malloc_ok 0 empty_heap sample_pool sample_cache 5 \<noteq> None"
    unfolding page_cache_get_returns by (simp add: page_pool_get_def sample_pool_facts)
  then obtain r c' where "page_cache_get malloc_ok 0 empty_heap sample_pool sample_cache 5 = Some (r, c')" by auto
  with page_cache_get_transparent [OF sample_cache_wf this] show ?thesis by blast
qed

text \<open>
  C37: When an eviction returns.  The loop of \<open>page_cache_evict\<close> returns exactly if none of the \<open>n\<close> least
  recently used references is of a pinned page, and then it has removed these references and no other;
  at a pinned page it starts over with the same page, for ever.
\<close>

theorem page_cache_evict_returns:
  "(case page_cache_evict h pool c n of
      None \<Rightarrow> filter (pinned_ref h pool) (drop (length (pc_list c) - n) (pc_list c)) \<noteq> []
    | Some c' \<Rightarrow> filter (pinned_ref h pool) (drop (length (pc_list c) - n) (pc_list c)) = [] \<and>
        pc_list c' = take (length (pc_list c) - n) (pc_list c) \<and> pc_count c' = pc_count c - min n (length (pc_list c)))"
proof (cases "page_cache_evict h pool c n")
  case None
  then show ?thesis using evict_None_iff [of h pool c n] by (simp add: victims_def filter_empty_conv)
next
  case (Some c')
  note u = evict_returns_unpinned [OF Some]
  have "c' = (drop_tail ^^ min n (length (pc_list c))) c" using evict_unpinned [OF u] Some by simp
  then show ?thesis using u Some by (simp add: drop_tails victims_def min_def filter_empty_conv)
qed

text \<open>
  The cache can hold a page twice.  The LRU list and the chains of the hash table share the
  \<open>next\<close> pointer, so moving a reference to the front takes it out of its chain: after four lookups of
  the pages 1 and 7, which have the same bucket, page 1 has two references.
\<close>

definition two_pages :: PagePool where
  "two_pages = sample_pool\<lparr>pp_pages := [1, 7]\<rparr>"

definition numbered_heap :: Heap where
  "numbered_heap = \<lparr>hp_page = (\<lambda>a. new_page (of_nat a) 0), hp_live = [7, 1], hp_next = 8\<rparr>"

fun cache_lookups :: "Heap \<Rightarrow> PagePool \<Rightarrow> PageCache \<Rightarrow> 32 word list \<Rightarrow> PageCache option" where
  "cache_lookups h pool c [] = Some c"
| "cache_lookups h pool c (pid # pids) =
     (case page_cache_get malloc_ok 0 h pool c pid of None \<Rightarrow> None | Some (r, c') \<Rightarrow> cache_lookups h pool c' pids)"

theorem page_cache_holds_page_twice:
  "map_option (\<lambda>c. map pr_page_id (pc_list c)) (cache_lookups numbered_heap two_pages sample_cache [1, 7, 1, 1]) =
    Some [1, 1, 7]"
  by code_simp

subsection \<open>The disk manager\<close>

lemma best_track_scan:
  fixes tracks cost
  defines "cand \<equiv> \<lambda>u. track_has_space (tracks ! u)"
  defines "step \<equiv> \<lambda>t (best, best_cost). if \<not> track_has_space (tracks ! t) then (best, best_cost)
         else if flt (cost (tracks ! t)) best_cost then (Some t, cost (tracks ! t)) else (best, best_cost)"
  shows "case fold step [0..<n] (None, DBL_MAX) of
      (None, c) \<Rightarrow> c = DBL_MAX \<and> (\<forall>u < n. cand u \<longrightarrow> \<not> flt (cost (tracks ! u)) DBL_MAX)
    | (Some t, c) \<Rightarrow> c = cost (tracks ! t) \<and> t < n \<and> cand t \<and> flt c DBL_MAX \<and>
        (\<forall>u < n. cand u \<longrightarrow> \<not> flt (cost (tracks ! u)) c) \<and> (\<forall>u < t. cand u \<longrightarrow> \<not> fle (cost (tracks ! u)) c)"
proof (induction n)
  case 0
  then show ?case by simp
next
  case (Suc n)
  obtain best c where s: "fold step [0..<n] (None, DBL_MAX) = (best, c)" by (cases "fold step [0..<n] (None, DBL_MAX)")
  have eq: "fold step [0..<Suc n] (None, DBL_MAX) = step n (best, c)" using s by simp
  show ?case
    using Suc unfolding eq s
    by (cases best) (auto simp: step_def cand_def less_Suc_eq order_defs split: if_splits)
qed

text \<open>
  The track for a new page.  \<open>disk_manager_find_best_track\<close> with the nearest-track and the best-fit
  strategies returns the first of the tracks with a free place whose cost, the distance of the
  centroids or the growth of the extent, is least, provided it is below \<open>DBL_MAX\<close>; it returns no track
  exactly if there is none.  A track whose cost is NaN is never taken.
\<close>

theorem find_best_track_least:
  assumes "dc_strategy (dm_config dm) = ALLOC_BEST_FIT \<and> cost = track_expansion c \<or>
    dc_strategy (dm_config dm) = ALLOC_NEAREST_TRACK \<and> cost = (\<lambda>t. point_distance c (dt_centroid t))"
  shows "let tracks = pp_tracks (dm_pool dm); free = (\<lambda>u. u < length tracks \<and> track_has_space (tracks ! u)) in
    case disk_manager_find_best_track dm c of
      None \<Rightarrow> \<forall>u. free u \<longrightarrow> \<not> flt (cost (tracks ! u)) DBL_MAX
    | Some t \<Rightarrow> free t \<and> flt (cost (tracks ! t)) DBL_MAX \<and> (\<forall>u. free u \<longrightarrow> \<not> flt (cost (tracks ! u)) (cost (tracks ! t))) \<and>
        (\<forall>u < t. free u \<longrightarrow> \<not> fle (cost (tracks ! u)) (cost (tracks ! t)))"
proof -
  have "disk_manager_find_best_track dm c = best_track cost (pp_tracks (dm_pool dm))"
    using assms by (auto simp: disk_manager_find_best_track_def Let_def)
  then show ?thesis
    using best_track_scan [where tracks = "pp_tracks (dm_pool dm)" and cost = cost and n = "length (pp_tracks (dm_pool dm))"]
    by (auto simp: best_track_def Let_def split: option.splits prod.splits)
qed

definition fresh_manager :: "Heap \<Rightarrow> DiskManager" where
  "fresh_manager h = snd (disk_manager_init malloc_ok h None)"

definition one_track_manager :: DiskManager where
  "one_track_manager = snd (disk_manager_create_track malloc_ok (fresh_manager empty_heap))"

theorem find_best_track_least_witness:
  "case disk_manager_find_best_track one_track_manager (point_create d_one d_two) of
     None \<Rightarrow> \<not> flt (track_expansion (point_create d_one d_two) (pp_tracks (dm_pool one_track_manager) ! 0)) DBL_MAX
   | Some t \<Rightarrow> t = 0"
proof -
  let ?dm = one_track_manager and ?c = "point_create d_one d_two"
  have cfg: "dc_strategy (dm_config ?dm) = ALLOC_BEST_FIT" and tracks: "length (pp_tracks (dm_pool ?dm)) = 1"
    and room: "track_has_space (pp_tracks (dm_pool ?dm) ! 0)"
    by (simp_all add: one_track_manager_def fresh_manager_def disk_manager_init_def page_pool_init_def page_cache_init_def
        Let_def malloc_ok_simp disk_manager_default_config_def zero_pool_def disk_manager_create_track_def
        page_pool_create_track_def track_create_def track_has_space_def PAGES_PER_TRACK_def)
  show ?thesis
    using find_best_track_least [of ?dm "track_expansion ?c" ?c] cfg tracks room
    by (auto simp: Let_def split: option.splits)
qed

lemma fresh_manager_inv: "dm_inv (fresh_manager empty_heap)"
  by (simp add: fresh_manager_def empty_heap_def disk_manager_init_inv)

text \<open>
  The disk manager gives out fresh pages.  With an allocator that succeeds, allocating a page
  returns a page that was in no use, empty, the last of the pool; no other page changes its objects;
  and the invariant is kept: distinct, allocated pages with room for 64 objects, and tracks and an
  allocation tree that point only to them.
\<close>

theorem disk_manager_alloc_page_fresh:
  assumes "dm_inv dm"
  shows "\<exists>a dm'. disk_manager_alloc_page malloc_ok dm c = (Some a, dm') \<and> dm_inv dm' \<and>
    pp_pages (dm_pool dm') = pp_pages (dm_pool dm) @ [a] \<and> a \<notin> set (pp_pages (dm_pool dm)) \<and>
    pg_objects (hp_page (dm_heap dm') a) = [] \<and> \<not> dangling (dm_heap dm') (pp_pages (dm_pool dm')) \<and>
    (\<forall>b. b \<noteq> a \<longrightarrow> pg_objects (hp_page (dm_heap dm') b) = pg_objects (hp_page (dm_heap dm) b))"
proof -
  obtain r dm' where run: "disk_manager_alloc_page malloc_ok dm c = (r, dm')" by (cases "disk_manager_alloc_page malloc_ok dm c")
  from disk_manager_alloc_page_ok [OF assms run] obtain a where a: "r = Some a" "dm_inv dm'"
    "pp_pages (dm_pool dm') = pp_pages (dm_pool dm) @ [a]" "a \<notin> set (pp_pages (dm_pool dm))"
    "pg_objects (hp_page (dm_heap dm') a) = []"
    "\<forall>b. b \<noteq> a \<longrightarrow> pg_objects (hp_page (dm_heap dm') b) = pg_objects (hp_page (dm_heap dm) b)" by blast
  have "\<not> dangling (dm_heap dm') (pp_pages (dm_pool dm'))"
    using a(2) pool_inv_not_dangling [of "dm_heap dm'" "dm_pool dm'"] by (simp add: dm_inv_def)
  with run a show ?thesis by blast
qed

theorem disk_manager_alloc_page_fresh_witness:
  "\<exists>a dm'. disk_manager_alloc_page malloc_ok (fresh_manager empty_heap) (point_create d_one d_two) = (Some a, dm') \<and> dm_inv dm'"
  using disk_manager_alloc_page_fresh [OF fresh_manager_inv] by blast

lemmas alloc_defs = fresh_manager_def disk_manager_init_def page_pool_init_def page_cache_init_def Let_def malloc_ok_simp zero_pool_def
  disk_manager_alloc_page_def disk_manager_find_best_track_def disk_manager_default_config_def best_track_def
  disk_manager_create_track_def page_pool_create_track_def track_create_def page_pool_alloc_def page_create_def
  page_pool_get_track_def pool_track_add_def track_add_page_def PAGES_PER_TRACK_def update_allocation_tree_def

text \<open>
  A freed page stays on its track.  The disk manager adds a new page to its track a second time
  after the pool has added it, so the first page is twice on the track, and
  \<open>disk_manager_free_page\<close>, which takes out one of the two, leaves a pointer to freed memory.
\<close>

theorem free_page_leaves_dangling:
  "case disk_manager_alloc_page malloc_ok (fresh_manager h) c of (r, dm) \<Rightarrow>
     r = Some (hp_next h) \<and> map dt_pages (pp_tracks (dm_pool dm)) = [[hp_next h, hp_next h]] \<and>
     (case disk_manager_free_page malloc_ok dm 1 of (err, dm') \<Rightarrow>
        err = DM_OK \<and> pp_pages (dm_pool dm') = [] \<and> map dt_pages (pp_tracks (dm_pool dm')) = [[hp_next h]] \<and>
        dangling (dm_heap dm') [hp_next h])"
  by (simp add: alloc_defs disk_manager_free_page_def page_pool_free_page_def track_remove_page_def new_page_def remove_at_def
      disk_manager_rebuild_allocation_tree_def dangling_def page_free_def)

lemma first_page_checksum:
  "fnv1a_hash (word_bytes 4 (1 :: 32 word)) XOR fnv1a_hash (word_bytes 4 (1 :: 32 word)) XOR
    fnv1a_hash (word_bytes 4 (0 :: 32 word)) \<noteq> 0"
  by code_simp

lemma first_page_unverified:
  "pg_objects p = [] \<Longrightarrow> page_id p = 1 \<Longrightarrow> ph_track_id (pg_header p) = 1 \<Longrightarrow> ph_checksum (pg_header p) = 0 \<Longrightarrow> \<not> page_verify p"
  using first_page_checksum by (simp add: page_verify_def page_checksum_def)

lemma first_alloc_page:
  "case disk_manager_alloc_page malloc_ok (fresh_manager h) c of (r, dm) \<Rightarrow>
     pp_pages (dm_pool dm) = [hp_next h] \<and> pg_objects (hp_page (dm_heap dm) (hp_next h)) = [] \<and>
     page_id (hp_page (dm_heap dm) (hp_next h)) = 1 \<and> ph_track_id (pg_header (hp_page (dm_heap dm) (hp_next h))) = 1 \<and>
     ph_checksum (pg_header (hp_page (dm_heap dm) (hp_next h))) = 0"
  by (simp add: alloc_defs new_page_def)

text \<open>
  A fresh page looks corrupt.  The checksum of a page that was just allocated was never computed,
  so \<open>page_verify\<close> fails and \<open>disk_manager_validate\<close> reports \<open>DM_ERR_CORRUPT\<close> for an open manager with a
  correct header right after its first page was allocated.
\<close>

theorem validate_rejects_fresh_page:
  "disk_manager_validate ((snd (disk_manager_alloc_page malloc_ok (fresh_manager h) c))
     \<lparr>dm_is_open := True, dm_header := zero_header\<lparr>fh_magic := DM_MAGIC, fh_version := DM_VERSION\<rparr>\<rparr>) = DM_ERR_CORRUPT"
  using first_alloc_page [of h c] first_page_unverified
  by (simp add: disk_manager_validate_def zero_header_def split: prod.splits)

end
