(* ===== verification/SpatialIndex.thy ===== *)
theory SpatialIndex
  imports DiskManager KDTree_Select QuadTree_Inv
begin

text \<open>
  src/include/spatial_index.h and src/src/spatial_index.c without saving and loading.

  A \<open>SpatialObject *\<close> into a page is the pair of the page's address and the index of the object.
  The data pointers of the block tree are such pairs, those of the page quadtree are page addresses.
  A block's track pointer is the position of the track; NULL is None.  \<open>page_ids\<close> of a query result
  is allocated but never filled, and is left out.
\<close>

definition SI_DEFAULT_BLOCK_SIZE :: nat where "SI_DEFAULT_BLOCK_SIZE = 1024"
definition SI_DEFAULT_PAGE_CAPACITY :: nat where "SI_DEFAULT_PAGE_CAPACITY = 64"
definition sizeof_SpatialBlock :: nat where "sizeof_SpatialBlock = 72"
definition sizeof_SpatialIndex :: nat where "sizeof_SpatialIndex = 616"

type_synonym obj_ptr = "nat \<times> nat"

record SpatialIndexConfig =
  sc_block_size :: nat
  sc_page_capacity :: nat
  sc_cache_size :: nat
  sc_build_quadtree :: bool
  sc_persist :: bool
  sc_data_path :: "string option"

record SpatialBlock =
  sb_block_id :: "32 word"
  sb_bounds :: MBR
  sb_centroid :: Point
  sb_track :: "nat option"
  sb_object_count :: nat

record SpatialQueryResult =
  sr_objects :: "obj_ptr list"
  sr_capacity :: nat
  sr_pages_accessed :: nat

record AdjacentPagesResult =
  ar_pages :: "nat list"
  ar_track_ids :: "32 word list"

record SpatialIndexStats =
  ss_total_objects :: nat
  ss_total_blocks :: nat
  ss_total_pages :: nat
  ss_total_tracks :: nat
  ss_kdtree_depth :: nat
  ss_quadtree_depth :: int
  ss_avg_objects_per_page :: double
  ss_page_utilization :: double
  ss_bounds :: MBR

record SpatialIndex =
  si_config :: SpatialIndexConfig
  si_block_tree :: "obj_ptr KDTree"
  si_page_tree :: "nat QuadTree option"
  si_disk :: DiskManager
  si_blocks :: "SpatialBlock list"
  si_block_capacity :: nat
  si_next_object_id :: "64 word"
  si_next_block_id :: "32 word"
  si_is_built :: bool
  si_bounds :: MBR

datatype SpatialIndexError = SI_OK | SI_ERR_NULL_PTR | SI_ERR_ALLOC | SI_ERR_NOT_BUILT | SI_ERR_NOT_FOUND
  | SI_ERR_FULL | SI_ERR_IO | SI_ERR_INVALID

abbreviation si_heap :: "SpatialIndex \<Rightarrow> Heap" where "si_heap idx \<equiv> dm_heap (si_disk idx)"
abbreviation si_pool :: "SpatialIndex \<Rightarrow> PagePool" where "si_pool idx \<equiv> dm_pool (si_disk idx)"

definition si_page :: "SpatialIndex \<Rightarrow> nat \<Rightarrow> Page" where
  "si_page idx a = hp_page (si_heap idx) a"

definition si_set_page :: "SpatialIndex \<Rightarrow> nat \<Rightarrow> Page \<Rightarrow> SpatialIndex" where
  "si_set_page idx a page =
     idx\<lparr>si_disk := (si_disk idx)\<lparr>dm_heap := (si_heap idx)\<lparr>hp_page := (hp_page (si_heap idx))(a := page)\<rparr>\<rparr>\<rparr>"

text \<open>The object a pointer points to.\<close>

definition si_deref :: "SpatialIndex \<Rightarrow> obj_ptr \<Rightarrow> SpatialObject" where
  "si_deref idx p = pg_objects (si_page idx (fst p)) ! snd p"

subsection \<open>Query results\<close>

definition spatial_result_init :: "allocator \<Rightarrow> nat \<Rightarrow> SpatialIndexError \<times> SpatialQueryResult" where
  "spatial_result_init al capacity =
     (let cap = (if capacity > 0 then capacity else 64);
          result = \<lparr>sr_objects = [], sr_capacity = cap, sr_pages_accessed = 0\<rparr>
      in if al (cap * sizeof_ptr) \<and> al (cap * 4) then (SI_OK, result) else (SI_ERR_ALLOC, result))"

definition spatial_result_free :: "SpatialQueryResult \<Rightarrow> SpatialQueryResult" where
  "spatial_result_free result = \<lparr>sr_objects = [], sr_capacity = 0, sr_pages_accessed = 0\<rparr>"

definition spatial_result_clear :: "SpatialQueryResult \<Rightarrow> SpatialQueryResult" where
  "spatial_result_clear result = result\<lparr>sr_objects := [], sr_pages_accessed := 0\<rparr>"

definition spatial_result_add :: "allocator \<Rightarrow> SpatialQueryResult \<Rightarrow> obj_ptr \<Rightarrow> SpatialIndexError \<times> SpatialQueryResult" where
  "spatial_result_add al result obj =
     (if length (sr_objects result) \<ge> sr_capacity result then
        (let new_cap = sr_capacity result * GROWTH_FACTOR in
         if al (new_cap * sizeof_ptr) \<and> al (new_cap * 4)
         then (SI_OK, result\<lparr>sr_objects := sr_objects result @ [obj], sr_capacity := new_cap\<rparr>)
         else (SI_ERR_ALLOC, result))
      else (SI_OK, result\<lparr>sr_objects := sr_objects result @ [obj]\<rparr>))"

subsection \<open>Pages for objects\<close>

definition find_page_for_object :: "SpatialIndex \<Rightarrow> 64 word \<Rightarrow> nat option" where
  "find_page_for_object idx oid =
     List.find (\<lambda>a. page_find_object (si_page idx a) oid \<noteq> None) (pp_pages (si_pool idx))"

definition get_page_for_insert :: "allocator \<Rightarrow> SpatialIndex \<Rightarrow> SpatialObject \<Rightarrow> nat option \<times> SpatialIndex" where
  "get_page_for_insert al idx obj =
     (let nearest = (if kt_size (dm_tree (si_disk idx)) > 0
            then (case kdtree_nearest (dm_tree (si_disk idx)) (so_centroid obj) of
                Inr (p, pid, a) \<Rightarrow> if \<not> page_is_full (si_page idx a) then Some a else None
              | Inl err \<Rightarrow> None)
            else None)
      in case nearest of
           Some a \<Rightarrow> (Some a, idx)
         | None \<Rightarrow> (case disk_manager_alloc_page al (si_disk idx) (so_centroid obj) of
             (r, dm) \<Rightarrow> (r, idx\<lparr>si_disk := dm\<rparr>)))"

definition create_block :: "allocator \<Rightarrow> SpatialIndex \<Rightarrow> MBR \<Rightarrow> bool \<times> SpatialIndex" where
  "create_block al idx bounds =
     (let full = length (si_blocks idx) \<ge> si_block_capacity idx;
          new_cap = si_block_capacity idx * GROWTH_FACTOR
      in if full \<and> \<not> al (new_cap * sizeof_SpatialBlock) then (False, idx)
      else
        let (track, dm) = disk_manager_create_track al (si_disk idx);
            block = \<lparr>sb_block_id = si_next_block_id idx, sb_bounds = bounds, sb_centroid = mbr_centroid bounds,
                     sb_track = track, sb_object_count = 0\<rparr>
        in (True, idx\<lparr>si_blocks := si_blocks idx @ [block],
              si_block_capacity := (if full then new_cap else si_block_capacity idx),
              si_next_block_id := si_next_block_id idx + 1, si_disk := dm\<rparr>))"

definition insert_page_item :: "allocator \<Rightarrow> (nat \<Rightarrow> Page) \<Rightarrow> nat \<Rightarrow> nat QuadTree \<Rightarrow> nat QuadTree" where
  "insert_page_item al pages a qt =
     (let hd = pg_header (pages a) in
      if length (pg_objects (pages a)) > 0
      then snd (quadtree_insert_with_centroid al qt (ucast (ph_page_id hd)) (ph_extent hd) (ph_centroid hd) a)
      else qt)"

definition build_page_quadtree :: "allocator \<Rightarrow> SpatialIndex \<Rightarrow> SpatialIndexError \<times> SpatialIndex" where
  "build_page_quadtree al idx =
     (if \<not> sc_build_quadtree (si_config idx) then (SI_OK, idx)
      else
        let idx1 = idx\<lparr>si_page_tree := None\<rparr> in
        if pp_pages (si_pool idx1) = [] then (SI_OK, idx1)
        else case quadtree_create al (si_bounds idx1) 8 QT_MAX_DEPTH of
               None \<Rightarrow> (SI_ERR_ALLOC, idx1)
             | Some qt \<Rightarrow> (SI_OK, idx1\<lparr>si_page_tree :=
                 Some (fold (insert_page_item al (hp_page (si_heap idx1))) (pp_pages (si_pool idx1)) qt)\<rparr>))"

subsection \<open>Creation\<close>

definition spatial_index_default_config :: SpatialIndexConfig where
  "spatial_index_default_config = \<lparr>sc_block_size = SI_DEFAULT_BLOCK_SIZE, sc_page_capacity = SI_DEFAULT_PAGE_CAPACITY,
     sc_cache_size = DM_DEFAULT_CACHE_SIZE, sc_build_quadtree = True, sc_persist = False, sc_data_path = None\<rparr>"

definition spatial_index_init ::
  "allocator \<Rightarrow> Heap \<Rightarrow> SpatialIndexConfig option \<Rightarrow> SpatialIndexError \<times> SpatialIndex" where
  "spatial_index_init al h config =
     (let cfg = (case config of Some c \<Rightarrow> c | None \<Rightarrow> spatial_index_default_config) in
      case disk_manager_init al h (Some (disk_manager_default_config\<lparr>dc_cache_size := sc_cache_size cfg\<rparr>)) of
        (err, dm) \<Rightarrow>
          (let idx = \<lparr>si_config = cfg, si_block_tree = kdtree_init, si_page_tree = None, si_disk = dm, si_blocks = [],
                 si_block_capacity = 16, si_next_object_id = 1, si_next_block_id = 1, si_is_built = False,
                 si_bounds = mbr_empty\<rparr>
           in if err \<noteq> DM_OK then (SI_ERR_ALLOC, idx)
              else if \<not> al (16 * sizeof_SpatialBlock) then (SI_ERR_ALLOC, idx)
              else (SI_OK, idx)))"

definition spatial_index_create :: "allocator \<Rightarrow> Heap \<Rightarrow> SpatialIndexConfig option \<Rightarrow> SpatialIndex option" where
  "spatial_index_create al h config =
     (if \<not> al sizeof_SpatialIndex then None
      else case spatial_index_init al h config of (err, idx) \<Rightarrow> if err \<noteq> SI_OK then None else Some idx)"

subsection \<open>Insertion and removal\<close>

text \<open>
  The result is the status, the index and the caller's object, which gets its id and its derived data.
\<close>

definition spatial_index_insert ::
  "allocator \<Rightarrow> SpatialIndex \<Rightarrow> SpatialObject \<Rightarrow> SpatialIndexError \<times> SpatialIndex \<times> SpatialObject" where
  "spatial_index_insert al idx obj =
     (let (obj1, idx1) = (if so_id obj = 0
            then (obj\<lparr>so_id := si_next_object_id idx\<rparr>, idx\<lparr>si_next_object_id := si_next_object_id idx + 1\<rparr>)
            else (obj, idx));
          obj2 = snd (spatial_object_update_derived obj1)
      in case get_page_for_insert al idx1 obj2 of
           (None, idx2) \<Rightarrow> (SI_ERR_ALLOC, idx2, obj2)
         | (Some a, idx2) \<Rightarrow>
             (let (err, page) = page_add_object al (si_page idx2 a) obj2;
                  (target, idx3) =
                    (if err = PAGE_OK then (Inr a, si_set_page idx2 a page)
                     else case disk_manager_alloc_page al (si_disk idx2) (so_centroid obj2) of
                       (None, dm) \<Rightarrow> (Inl SI_ERR_ALLOC, idx2\<lparr>si_disk := dm\<rparr>)
                     | (Some a', dm) \<Rightarrow>
                         (let idx2' = idx2\<lparr>si_disk := dm\<rparr>;
                              (err', page') = page_add_object al (si_page idx2' a') obj2
                          in if err' \<noteq> PAGE_OK then (Inl SI_ERR_FULL, idx2')
                             else (Inr a', si_set_page idx2' a' page')))
              in case target of
                   Inl e \<Rightarrow> (e, idx3, obj2)
                 | Inr a'' \<Rightarrow>
                     (let idx4 = si_set_page idx3 a'' (page_update_derived (si_page idx3 a''));
                          dm = disk_manager_rebuild_allocation_tree al (si_disk idx4)
                      in (SI_OK, idx4\<lparr>si_disk := dm, si_bounds := mbr_expand_mbr (si_bounds idx4) (so_mbr obj2),
                            si_is_built := False\<rparr>, obj2))))"

fun spatial_index_bulk_insert ::
  "allocator \<Rightarrow> SpatialIndex \<Rightarrow> SpatialObject list \<Rightarrow> SpatialIndexError \<times> SpatialIndex \<times> SpatialObject list" where
  "spatial_index_bulk_insert al idx [] = (SI_OK, idx, [])"
| "spatial_index_bulk_insert al idx (obj # objs) =
     (case spatial_index_insert al idx obj of (err, idx1, obj') \<Rightarrow>
        if err \<noteq> SI_OK then (err, idx1, obj' # objs)
        else case spatial_index_bulk_insert al idx1 objs of (err', idx2, objs') \<Rightarrow> (err', idx2, obj' # objs'))"

definition spatial_index_remove :: "allocator \<Rightarrow> SpatialIndex \<Rightarrow> 64 word \<Rightarrow> SpatialIndexError \<times> SpatialIndex" where
  "spatial_index_remove al idx oid =
     (case find_page_for_object idx oid of
        None \<Rightarrow> (SI_ERR_NOT_FOUND, idx)
      | Some a \<Rightarrow>
          (case page_remove_object (si_page idx a) oid of
             (err, page) \<Rightarrow>
               if err \<noteq> PAGE_OK then (SI_ERR_NOT_FOUND, idx)
               else let idx1 = si_set_page idx a (page_update_derived page) in
                 (SI_OK, idx1\<lparr>si_disk := disk_manager_rebuild_allocation_tree al (si_disk idx1), si_is_built := False\<rparr>)))"

definition spatial_index_update ::
  "allocator \<Rightarrow> SpatialIndex \<Rightarrow> 64 word \<Rightarrow> SpatialObject \<Rightarrow> SpatialIndexError \<times> SpatialIndex" where
  "spatial_index_update al idx oid new_obj =
     (case spatial_index_remove al idx oid of (err, idx1) \<Rightarrow>
        if err \<noteq> SI_OK then (err, idx1)
        else let obj_copy = (snd (spatial_object_copy al new_obj))\<lparr>so_id := oid\<rparr> in
          case spatial_index_insert al idx1 obj_copy of (err', idx2, obj') \<Rightarrow> (err', idx2))"

subsection \<open>Building\<close>

text \<open>The object pointers of the pool, page by page.\<close>

definition all_ptrs :: "SpatialIndex \<Rightarrow> obj_ptr list" where
  "all_ptrs idx = concat (map (\<lambda>a. map (\<lambda>j. (a, j)) [0..<length (pg_objects (si_page idx a))]) (pp_pages (si_pool idx)))"

definition object_point :: "SpatialIndex \<Rightarrow> obj_ptr \<Rightarrow> obj_ptr KDPointData" where
  "object_point idx p = \<lparr>pd_point = so_centroid (si_deref idx p), pd_id = so_id (si_deref idx p), pd_data = p\<rparr>"

definition spatial_index_build ::
  "obj_ptr qsort \<Rightarrow> allocator \<Rightarrow> SpatialIndex \<Rightarrow> SpatialIndexError \<times> SpatialIndex" where
  "spatial_index_build qs al idx =
     (let total_objects = pool_object_count (si_heap idx) (si_pool idx) in
      if total_objects = 0 then (SI_OK, idx\<lparr>si_is_built := True\<rparr>)
      else if \<not> al (total_objects * sizeof_KDPointData) then (SI_ERR_ALLOC, idx)
      else
        let points = map (object_point idx) (all_ptrs idx);
            (err, bt) = kdtree_bulk_load qs al kdtree_init points;
            idx1 = idx\<lparr>si_block_tree := bt\<rparr>
        in if err \<noteq> KD_OK then (SI_ERR_ALLOC, idx1)
        else case kdtree_partition al bt (sc_block_size (si_config idx1)) of (perr, bounds) \<Rightarrow>
          if perr \<noteq> KD_OK then (SI_ERR_ALLOC, idx1)
          else
            let cap = (if length bounds > 0 then length bounds else 16);
                idx2 = idx1\<lparr>si_blocks := [], si_block_capacity := cap\<rparr>
            in if \<not> al (cap * sizeof_SpatialBlock) then (SI_ERR_ALLOC, idx2)
            else
              let idx3 = fold (\<lambda>b i. snd (create_block al i b)) bounds idx2 in
              case build_page_quadtree al idx3 of (qerr, idx4) \<Rightarrow>
                if qerr \<noteq> SI_OK then (qerr, idx4) else (SI_OK, idx4\<lparr>si_is_built := True\<rparr>))"

definition spatial_index_optimize ::
  "obj_ptr qsort \<Rightarrow> allocator \<Rightarrow> SpatialIndex \<Rightarrow> SpatialIndexError \<times> SpatialIndex" where
  "spatial_index_optimize qs al idx = spatial_index_build qs al idx"

subsection \<open>Queries\<close>

definition collect_page :: "allocator \<Rightarrow> (nat \<Rightarrow> Page) \<Rightarrow> MBR \<Rightarrow> nat \<Rightarrow> SpatialQueryResult \<Rightarrow> SpatialQueryResult" where
  "collect_page al pages rng a result =
     fold (\<lambda>j res. if mbr_intersects (so_mbr (pg_objects (pages a) ! j)) rng
              then snd (spatial_result_add al res (a, j)) else res)
       [0..<length (pg_objects (pages a))] result"

definition spatial_index_query_range ::
  "allocator \<Rightarrow> SpatialIndex \<Rightarrow> MBR \<Rightarrow> SpatialQueryResult \<Rightarrow> SpatialIndexError \<times> SpatialQueryResult" where
  "spatial_index_query_range al idx rng result =
     (let result0 = spatial_result_clear result in
      case page_pool_query_region al (si_heap idx) (si_pool idx) rng of
        Inl err \<Rightarrow> (SI_ERR_IO, result0)
      | Inr pages \<Rightarrow> (SI_OK, fold (collect_page al (hp_page (si_heap idx)) rng) pages result0))"

definition spatial_index_query_point ::
  "allocator \<Rightarrow> SpatialIndex \<Rightarrow> Point \<Rightarrow> SpatialQueryResult \<Rightarrow> SpatialIndexError \<times> SpatialQueryResult" where
  "spatial_index_query_point al idx p result =
     spatial_index_query_range al idx (mbr_create (px p) (py p) (px p) (py p)) result"

definition spatial_index_query_knn ::
  "allocator \<Rightarrow> SpatialIndex \<Rightarrow> Point \<Rightarrow> nat \<Rightarrow> SpatialQueryResult \<Rightarrow> SpatialIndexError \<times> SpatialQueryResult" where
  "spatial_index_query_knn al idx p k result =
     (if k = 0 then (SI_OK, result)
      else let result0 = spatial_result_clear result in
        case kdresult_init al k of
          (KD_OK, kd0) \<Rightarrow>
            (case kdtree_k_nearest al (si_block_tree idx) p k kd0 of
               (KD_OK, kd) \<Rightarrow>
                 (SI_OK, fold (\<lambda>e res. snd (spatial_result_add al res (pd_data e))) (kr_entries kd) result0)
             | (err, kd) \<Rightarrow> (SI_ERR_NOT_FOUND, result0))
        | (err, kd0) \<Rightarrow> (SI_ERR_ALLOC, result0))"

definition spatial_index_find_adjacent_pages ::
  "allocator \<Rightarrow> SpatialIndex \<Rightarrow> MBR \<Rightarrow> SpatialIndexError \<times> AdjacentPagesResult \<times> SpatialIndex" where
  "spatial_index_find_adjacent_pages al idx region =
     (let none = \<lparr>ar_pages = [], ar_track_ids = []\<rparr>;
          (err, idx1) = (if si_page_tree idx = None then build_page_quadtree al idx else (SI_OK, idx))
      in if err \<noteq> SI_OK then (err, none, idx1)
      else case si_page_tree idx1 of
        None \<Rightarrow> (SI_ERR_NOT_BUILT, none, idx1)
      | Some qt \<Rightarrow>
          (case qtresult_init al 64 of
             (QT_OK, qr0) \<Rightarrow>
               (case quadtree_find_adjacent_to_region al qt region qr0 of
                  (QT_OK, qr) \<Rightarrow>
                    (let n = length (qr_items qr) in
                     if n = 0 then (SI_OK, none, idx1)
                     else if \<not> al (n * sizeof_ptr) \<or> \<not> al (n * 4) then (SI_ERR_ALLOC, none, idx1)
                     else (SI_OK, \<lparr>ar_pages = map qi_data (qr_items qr),
                         ar_track_ids = map (\<lambda>i. ph_track_id (pg_header (si_page idx1 (qi_data i)))) (qr_items qr)\<rparr>, idx1))
                | (qerr, qr) \<Rightarrow> (SI_ERR_NOT_FOUND, none, idx1))
           | (qerr, qr0) \<Rightarrow> (SI_ERR_ALLOC, none, idx1)))"

text \<open>The first page that has the object, and its first object with the id.\<close>

fun get_in_pages :: "(nat \<Rightarrow> Page) \<Rightarrow> nat list \<Rightarrow> 64 word \<Rightarrow> obj_ptr option" where
  "get_in_pages pages [] oid = None"
| "get_in_pages pages (a # as) oid =
     (case page_find_object (pages a) oid of Some j \<Rightarrow> Some (a, j) | None \<Rightarrow> get_in_pages pages as oid)"

definition spatial_index_get :: "SpatialIndex \<Rightarrow> 64 word \<Rightarrow> obj_ptr option" where
  "spatial_index_get idx oid = get_in_pages (hp_page (si_heap idx)) (pp_pages (si_pool idx)) oid"

subsection \<open>Blocks, statistics, clearing\<close>

text \<open>A block pointer is its position.\<close>

definition spatial_index_get_block :: "SpatialIndex \<Rightarrow> Point \<Rightarrow> nat option" where
  "spatial_index_get_block idx p = find_index (\<lambda>b. mbr_contains_point (sb_bounds b) p) (si_blocks idx)"

definition spatial_index_query_blocks :: "allocator \<Rightarrow> SpatialIndex \<Rightarrow> MBR \<Rightarrow> SpatialIndexError + nat list" where
  "spatial_index_query_blocks al idx region =
     (let matching = filter (\<lambda>i. mbr_intersects (sb_bounds (si_blocks idx ! i)) region) [0..<length (si_blocks idx)] in
      if length matching = 0 then Inr []
      else if \<not> al (length matching * sizeof_ptr) then Inl SI_ERR_ALLOC
      else Inr matching)"

definition spatial_index_get_all_blocks :: "allocator \<Rightarrow> SpatialIndex \<Rightarrow> SpatialIndexError + nat list" where
  "spatial_index_get_all_blocks al idx =
     (let n = length (si_blocks idx) in
      if \<not> al (n * sizeof_ptr) \<and> n > 0 then Inl SI_ERR_ALLOC else Inr [0..<n])"

definition spatial_index_stats :: "SpatialIndex \<Rightarrow> SpatialIndexStats" where
  "spatial_index_stats idx =
     (let (pages, tracks, objects) = page_pool_stats (si_heap idx) (si_pool idx) in
      \<lparr>ss_total_objects = objects, ss_total_blocks = length (si_blocks idx), ss_total_pages = pages,
       ss_total_tracks = tracks, ss_kdtree_depth = kdtree_depth (si_block_tree idx),
       ss_quadtree_depth = (case si_page_tree idx of None \<Rightarrow> 0
         | Some qt \<Rightarrow> (case quadtree_stats qt of (items, nodes, depth, leaves) \<Rightarrow> depth)),
       ss_avg_objects_per_page = (if pages > 0 then fdiv (double_of_nat objects) (double_of_nat pages) else d_zero),
       ss_page_utilization = (if pages > 0
         then fdiv (fold (\<lambda>a total. fadd total (page_utilization (si_page idx a))) (pp_pages (si_pool idx)) d_zero)
                (double_of_nat pages) else d_zero),
       ss_bounds = si_bounds idx\<rparr>)"

definition spatial_index_clear :: "allocator \<Rightarrow> SpatialIndex \<Rightarrow> SpatialIndex" where
  "spatial_index_clear al idx =
     (let h = fold (\<lambda>a h. page_free h a) (pp_pages (si_pool idx)) (si_heap idx);
          pool = (si_pool idx)\<lparr>pp_pages := [], pp_tracks := []\<rparr>
      in idx\<lparr>si_block_tree := kdtree_init,
           si_page_tree := map_option (quadtree_clear al) (si_page_tree idx),
           si_disk := (si_disk idx)\<lparr>dm_heap := h, dm_pool := pool\<rparr>,
           si_blocks := [], si_bounds := mbr_empty, si_is_built := False\<rparr>)"

end
