(* ===== verification/SpatialIndex_Inv.thy ===== *)
theory SpatialIndex_Inv
  imports SpatialIndex DiskManager_Inv
begin

text \<open>
  The index as a bag of objects: insertion adds one, removal takes one out, range queries scan all of
  them, a build copies all of them into the block tree.  The abstraction \<open>si_views\<close> is the multiset of
  the stored objects up to the capacities of their arrays.
\<close>

definition si_objects :: "SpatialIndex \<Rightarrow> SpatialObject list" where
  "si_objects idx = concat (map (\<lambda>a. pg_objects (si_page idx a)) (pp_pages (si_pool idx)))"

type_synonym view = "64 word \<times> (GeomType \<times> Point list \<times> Point list list) \<times> Point \<times> MBR \<times> 8 word list"

definition si_views :: "SpatialIndex \<Rightarrow> view multiset" where
  "si_views idx = image_mset object_view (mset (si_objects idx))"

definition si_inv :: "SpatialIndex \<Rightarrow> bool" where
  "si_inv idx = dm_inv (si_disk idx)"

lemma si_inv_pool: "si_inv idx \<Longrightarrow> pool_inv (si_heap idx) (si_pool idx)"
  by (simp add: si_inv_def dm_inv_def)

lemma si_inv_page: "si_inv idx \<Longrightarrow> a \<in> set (pp_pages (si_pool idx)) \<Longrightarrow> page_inv (si_page idx a)"
  by (auto simp: si_inv_def dm_inv_def pool_inv_def si_page_def)

lemma si_inv_distinct: "si_inv idx \<Longrightarrow> distinct (pp_pages (si_pool idx))"
  by (simp add: si_inv_def dm_inv_def pool_inv_def)

lemma si_page_set [simp]: "si_page (si_set_page idx a p) b = (if b = a then p else si_page idx b)"
  by (simp add: si_page_def si_set_page_def)

lemma si_pool_set [simp]: "si_pool (si_set_page idx a p) = si_pool idx"
  by (simp add: si_set_page_def)

lemma concat_map_upd_mset:
  "distinct as \<Longrightarrow> a \<in> set as \<Longrightarrow>
    mset (concat (map (\<lambda>b. if b = a then x else f b) as)) + mset (f a) = mset (concat (map f as)) + mset x"
proof (induction as)
  case Nil
  then show ?case by simp
next
  case (Cons b as)
  show ?case
  proof (cases "b = a")
    case True
    with Cons.prems have eq: "map (\<lambda>b. if b = a then x else f b) as = map f as" by auto
    show ?thesis unfolding list.map concat.simps mset_append eq using True by simp
  next
    case False
    with Cons show ?thesis by simp
  qed
qed

lemma si_objects_set_page:
  assumes "si_inv idx" "a \<in> set (pp_pages (si_pool idx))"
  shows "mset (si_objects (si_set_page idx a p)) + mset (pg_objects (si_page idx a)) = mset (si_objects idx) + mset (pg_objects p)"
  using concat_map_upd_mset [OF si_inv_distinct [OF assms(1)] assms(2), of "pg_objects p" "\<lambda>b. pg_objects (si_page idx b)"]
  by (simp add: si_objects_def if_distrib [of pg_objects])

lemma si_views_set_page:
  assumes "si_inv idx" "a \<in> set (pp_pages (si_pool idx))"
  shows "si_views (si_set_page idx a p) + image_mset object_view (mset (pg_objects (si_page idx a))) =
    si_views idx + image_mset object_view (mset (pg_objects p))"
  using arg_cong [OF si_objects_set_page [OF assms, of p], of "image_mset object_view"] by (simp add: si_views_def)

lemma si_inv_set_page: "si_inv idx \<Longrightarrow> page_inv p \<Longrightarrow> si_inv (si_set_page idx a p)"
  by (simp add: si_inv_def dm_inv_def si_set_page_def pool_inv_set_page)

text \<open>What depends only on the heap and the list of pages.\<close>

lemma si_same_pages:
  assumes "si_heap idx' = si_heap idx" "pp_pages (si_pool idx') = pp_pages (si_pool idx)"
  shows "si_objects idx' = si_objects idx" "si_views idx' = si_views idx" "si_page idx' a = si_page idx a"
    "all_ptrs idx' = all_ptrs idx" "si_deref idx' p = si_deref idx p"
  using assms by (simp_all add: si_objects_def si_views_def si_page_def all_ptrs_def si_deref_def)

subsection \<open>Insertion\<close>

lemma get_page_for_insert_ok:
  assumes inv: "si_inv idx" and run: "get_page_for_insert malloc_ok idx obj = (r, idx')"
  shows "\<exists>a. r = Some a \<and> si_inv idx' \<and> a \<in> set (pp_pages (si_pool idx')) \<and> \<not> page_is_full (si_page idx' a) \<and>
    si_objects idx' = si_objects idx \<and> si_next_object_id idx' = si_next_object_id idx"
proof -
  let ?tree = "dm_tree (si_disk idx)"
  let ?near = "if kt_size ?tree > 0 then (case kdtree_nearest ?tree (so_centroid obj) of
      Inr (p, pid, a) \<Rightarrow> if \<not> page_is_full (si_page idx a) then Some a else None | Inl err \<Rightarrow> None) else None"
  have tree: "tree_inv ?tree (set (pp_pages (si_pool idx)))"
    using inv by (simp add: si_inv_def dm_inv_def)
  show ?thesis
  proof (cases ?near)
    case (Some a)
    then have "kt_size ?tree > 0" by (auto split: if_splits)
    then have "a \<in> set (pp_pages (si_pool idx)) \<and> \<not> page_is_full (si_page idx a)"
      using kdtree_nearest_data [OF tree, of "so_centroid obj"] Some by (auto split: if_splits)
    moreover have "r = Some a" "idx' = idx" using run Some by (simp_all add: get_page_for_insert_def)
    ultimately show ?thesis using inv by simp
  next
    case None
    obtain r' dm where al: "disk_manager_alloc_page malloc_ok (si_disk idx) (so_centroid obj) = (r', dm)"
      by (cases "disk_manager_alloc_page malloc_ok (si_disk idx) (so_centroid obj)")
    have r: "r = r'" "idx' = idx\<lparr>si_disk := dm\<rparr>"
      using run None al unfolding get_page_for_insert_def Let_def by simp_all
    have "dm_inv (si_disk idx)" using inv by (simp add: si_inv_def)
    from disk_manager_alloc_page_ok [OF this al] obtain a where a: "r' = Some a" "dm_inv dm"
      "pp_pages (dm_pool dm) = pp_pages (si_pool idx) @ [a]" "a \<notin> set (pp_pages (si_pool idx))"
      "pg_objects (hp_page (dm_heap dm) a) = []"
      "\<And>b. b \<noteq> a \<Longrightarrow> pg_objects (hp_page (dm_heap dm) b) = pg_objects (hp_page (si_heap idx) b)"
      by blast
    have eq: "map (\<lambda>b. pg_objects (hp_page (dm_heap dm) b)) (pp_pages (si_pool idx)) =
        map (\<lambda>b. pg_objects (hp_page (si_heap idx) b)) (pp_pages (si_pool idx))"
      using a(4,6) by (intro map_cong refl) metis
    have objs: "si_objects idx' = si_objects idx"
      by (simp add: si_objects_def si_page_def r a) (simp only: eq)
    have "page_inv (hp_page (dm_heap dm) a)" using a(2,3) by (simp add: dm_inv_def pool_inv_def)
    then have "\<not> page_is_full (hp_page (dm_heap dm) a)"
      using a(5) by (simp add: page_inv_def page_is_full_def MAX_OBJECTS_PER_PAGE_def)
    with r a objs show ?thesis by (simp add: si_inv_def si_page_def)
  qed
qed

definition insert_object :: "SpatialIndex \<Rightarrow> SpatialObject \<Rightarrow> SpatialObject" where
  "insert_object idx obj = snd (spatial_object_update_derived
     (if so_id obj = 0 then obj\<lparr>so_id := si_next_object_id idx\<rparr> else obj))"

lemma si_inv_rebuild:
  "si_inv idx \<Longrightarrow> si_inv (idx\<lparr>si_disk := disk_manager_rebuild_allocation_tree malloc_ok (si_disk idx),
     si_bounds := b, si_is_built := f\<rparr>)"
  using rebuild_inv(3) [of "si_disk idx"] by (simp add: si_inv_def dm_inv_def)

lemma page_objects_view:
  "pg_objects p' = pg_objects p @ [copy] \<Longrightarrow> image_mset object_view (mset (pg_objects p')) =
    add_mset (object_view copy) (image_mset object_view (mset (pg_objects p)))"
  by simp

lemma spatial_index_insert_ok:
  assumes inv: "si_inv idx" and num: "mbr_num (so_mbr (insert_object idx obj))"
  shows "\<exists>idx'. spatial_index_insert malloc_ok idx obj = (SI_OK, idx', insert_object idx obj) \<and> si_inv idx' \<and>
    si_views idx' = add_mset (object_view (insert_object idx obj)) (si_views idx) \<and>
    si_bounds idx' = mbr_expand_mbr (si_bounds idx) (so_mbr (insert_object idx obj)) \<and> \<not> si_is_built idx'"
proof -
  let ?obj = "insert_object idx obj"
  define idx1 where "idx1 = (if so_id obj = 0 then idx\<lparr>si_next_object_id := si_next_object_id idx + 1\<rparr> else idx)"
  have idx1: "si_inv idx1" "si_objects idx1 = si_objects idx" "si_bounds idx1 = si_bounds idx"
    using inv by (simp_all add: idx1_def si_inv_def si_objects_def si_page_def)
  obtain r idx2 where g: "get_page_for_insert malloc_ok idx1 ?obj = (r, idx2)"
    by (cases "get_page_for_insert malloc_ok idx1 ?obj")
  obtain a where a: "r = Some a" "si_inv idx2" "a \<in> set (pp_pages (si_pool idx2))" "\<not> page_is_full (si_page idx2 a)"
    "si_objects idx2 = si_objects idx"
    using get_page_for_insert_ok [OF idx1(1) g] idx1(2) by auto
  have b2: "si_bounds idx2 = si_bounds idx"
    using g idx1(3) by (auto simp: get_page_for_insert_def Let_def split: option.splits prod.splits if_splits)
  have room: "length (pg_objects (si_page idx2 a)) < pg_capacity (si_page idx2 a)"
    using a(4) by (simp add: page_is_full_def)
  obtain p copy where p: "page_add_object malloc_ok (si_page idx2 a) ?obj = (PAGE_OK, p)"
    "pg_objects p = pg_objects (si_page idx2 a) @ [copy]" "object_view copy = object_view ?obj"
    "pg_capacity p = pg_capacity (si_page idx2 a)"
    "page_extent p = mbr_expand_mbr (page_extent (si_page idx2 a)) (so_mbr ?obj)"
    using page_add_object_ok [OF room, of ?obj] by auto
  have pinv: "page_inv p"
    using page_inv_add [OF si_inv_page [OF a(2,3)] num p(2,3,4,5) room] .
  define idx4 where "idx4 = si_set_page (si_set_page idx2 a p) a (page_update_derived p)"
  have idx4_alt: "idx4 = si_set_page idx2 a (page_update_derived p)"
    by (simp add: idx4_def si_set_page_def)
  have inv4: "si_inv idx4"
    unfolding idx4_alt by (intro si_inv_set_page a(2) page_inv_update pinv)
  have "si_views idx4 + image_mset object_view (mset (pg_objects (si_page idx2 a))) =
      si_views idx2 + image_mset object_view (mset (pg_objects p))"
    unfolding idx4_alt using si_views_set_page [OF a(2,3), of "page_update_derived p"] by simp
  then have views4: "si_views idx4 = add_mset (object_view ?obj) (si_views idx2)"
    using page_objects_view [OF p(2)] p(3) by simp
  define idx' where "idx' = idx4\<lparr>si_disk := disk_manager_rebuild_allocation_tree malloc_ok (si_disk idx4),
    si_bounds := mbr_expand_mbr (si_bounds idx4) (so_mbr ?obj), si_is_built := False\<rparr>"
  have run: "spatial_index_insert malloc_ok idx obj = (SI_OK, idx', ?obj)"
    using g a(1) p(1)
    by (simp add: spatial_index_insert_def insert_object_def idx1_def idx'_def idx4_def Let_def split: if_splits)
  have "si_inv idx'" unfolding idx'_def by (rule si_inv_rebuild [OF inv4])
  moreover have "si_views idx' = si_views idx4"
    by (rule si_same_pages) (simp_all add: idx'_def rebuild_inv)
  moreover have "si_views idx2 = si_views idx" using a(5) by (simp add: si_views_def)
  moreover have "si_bounds idx4 = si_bounds idx" using b2 by (simp add: idx4_def si_set_page_def)
  ultimately show ?thesis using run views4 by (simp add: idx'_def)
qed

end
