(* ===== verification/SpatialIndex_Query.thy ===== *)
theory SpatialIndex_Query
  imports SpatialIndex_Inv
begin

text \<open>
  Removal and lookup by id, range queries as scans of all objects, the build of the block tree, and
  the k-nearest query on a built index.
\<close>

subsection \<open>Lookup and removal\<close>

lemma get_in_pages_Some:
  "get_in_pages pages as oid = Some (a, j) \<Longrightarrow> a \<in> set as \<and> page_find_object (pages a) oid = Some j \<and>
     List.find (\<lambda>a. page_find_object (pages a) oid \<noteq> None) as = Some a"
  by (induction as) (auto split: option.splits)

lemma get_in_pages_None:
  "get_in_pages pages as oid = None \<longleftrightarrow> (\<forall>a \<in> set as. \<forall>obj \<in> set (pg_objects (pages a)). so_id obj \<noteq> oid)"
proof -
  have "get_in_pages pages as oid = None \<longleftrightarrow> (\<forall>a \<in> set as. page_find_object (pages a) oid = None)"
    by (induction as) (auto split: option.splits)
  then show ?thesis by (simp add: page_find_object_def find_index_None)
qed

lemma page_find_object_Some:
  "page_find_object p oid = Some j \<Longrightarrow> j < length (pg_objects p) \<and> so_id (pg_objects p ! j) = oid"
  using find_index_Some [of "\<lambda>obj. so_id obj = oid" "pg_objects p" j] by (simp add: page_find_object_def)

lemma all_ptrs_valid:
  "(a, j) \<in> set (all_ptrs idx) \<longleftrightarrow> a \<in> set (pp_pages (si_pool idx)) \<and> j < length (pg_objects (si_page idx a))"
  by (force simp: all_ptrs_def)

lemma deref_ptrs: "map (si_deref idx) (all_ptrs idx) = si_objects idx"
proof -
  have "map (si_deref idx) (map (\<lambda>j. (a, j)) [0..<length (pg_objects (si_page idx a))]) = pg_objects (si_page idx a)" for a
    by (simp add: comp_def si_deref_def map_nth)
  then show ?thesis
    by (simp add: all_ptrs_def si_objects_def map_concat comp_def)
qed

lemma si_objects_set: "set (si_objects idx) = (\<Union>a \<in> set (pp_pages (si_pool idx)). set (pg_objects (si_page idx a)))"
  by (simp add: si_objects_def)

lemma spatial_index_get_cases:
  "case spatial_index_get idx oid of
     Some p \<Rightarrow> p \<in> set (all_ptrs idx) \<and> so_id (si_deref idx p) = oid
   | None \<Rightarrow> \<forall>obj \<in> set (si_objects idx). so_id obj \<noteq> oid"
proof (cases "spatial_index_get idx oid")
  case None
  then have "\<forall>obj \<in> set (si_objects idx). so_id obj \<noteq> oid"
    by (auto simp: spatial_index_get_def get_in_pages_None si_objects_set si_page_def)
  with None show ?thesis by simp
next
  case (Some p)
  then obtain a j where p: "p = (a, j)" and g: "get_in_pages (hp_page (si_heap idx)) (pp_pages (si_pool idx)) oid = Some (a, j)"
    by (cases p) (auto simp: spatial_index_get_def)
  from get_in_pages_Some [OF g] page_find_object_Some [of "si_page idx a" oid j] Some show ?thesis
    by (auto simp: p all_ptrs_valid si_deref_def si_page_def)
qed

lemma mset_remove_at_add: "i < length xs \<Longrightarrow> mset xs = add_mset (xs ! i) (mset (remove_at i xs))"
  by (simp add: mset_remove_at)

lemma spatial_index_remove_ok:
  assumes inv: "si_inv idx"
  shows "case spatial_index_get idx oid of
      None \<Rightarrow> spatial_index_remove malloc_ok idx oid = (SI_ERR_NOT_FOUND, idx)
    | Some p \<Rightarrow> \<exists>idx'. spatial_index_remove malloc_ok idx oid = (SI_OK, idx') \<and> si_inv idx' \<and>
        si_views idx = add_mset (object_view (si_deref idx p)) (si_views idx') \<and> \<not> si_is_built idx'"
proof (cases "spatial_index_get idx oid")
  case None
  then have "find_page_for_object idx oid = None"
    by (auto simp: find_page_for_object_def spatial_index_get_def get_in_pages_None find_None_iff si_page_def
        page_find_object_def find_index_None dest: find_index_Some)
  with None show ?thesis by (simp add: spatial_index_remove_def)
next
  case (Some p)
  then obtain a j where p: "p = (a, j)" and g: "get_in_pages (hp_page (si_heap idx)) (pp_pages (si_pool idx)) oid = Some (a, j)"
    by (cases p) (auto simp: spatial_index_get_def)
  have a: "a \<in> set (pp_pages (si_pool idx))" "page_find_object (si_page idx a) oid = Some j"
    "find_page_for_object idx oid = Some a"
    using get_in_pages_Some [OF g] by (simp_all add: si_page_def find_page_for_object_def)
  note j = page_find_object_Some [OF a(2)]
  obtain err page where r: "page_remove_object (si_page idx a) oid = (err, page)" by (cases "page_remove_object (si_page idx a) oid")
  have ex: "\<exists>obj \<in> set (pg_objects (si_page idx a)). so_id obj = oid" using j nth_mem by blast
  have page: "err = PAGE_OK" "pg_objects page = remove_at j (pg_objects (si_page idx a))"
    using page_remove_object_cases [of "si_page idx a" oid] ex a(2) by (auto simp: r)
  have pinv: "page_inv page" using page_remove_object_inv [OF si_inv_page [OF inv a(1)], of oid] by (simp add: r)
  define idx1 where "idx1 = si_set_page idx a (page_update_derived page)"
  define idx' where "idx' = idx1\<lparr>si_disk := disk_manager_rebuild_allocation_tree malloc_ok (si_disk idx1), si_is_built := False\<rparr>"
  have run: "spatial_index_remove malloc_ok idx oid = (SI_OK, idx')"
    by (simp add: spatial_index_remove_def a(3) r page(1) idx'_def idx1_def Let_def)
  have inv1: "si_inv idx1" unfolding idx1_def by (intro si_inv_set_page inv page_inv_update pinv)
  then have "si_inv idx'"
    using rebuild_inv(3) [of "si_disk idx1"] by (simp add: si_inv_def dm_inv_def idx'_def)
  moreover have "si_views idx' = si_views idx1"
    by (rule si_same_pages) (simp_all add: idx'_def rebuild_inv)
  moreover have "si_views idx = add_mset (object_view (si_deref idx p)) (si_views idx1)"
    using si_views_set_page [OF inv a(1), of "page_update_derived page"] j
      mset_remove_at_add [of j "pg_objects (si_page idx a)"]
    by (simp add: idx1_def page p si_deref_def)
  ultimately show ?thesis using run Some by (simp add: idx'_def)
qed

subsection \<open>Range queries\<close>

lemma spatial_result_add_ok: "sr_objects (snd (spatial_result_add malloc_ok r p)) = sr_objects r @ [p]"
  by (simp add: spatial_result_add_def Let_def malloc_ok_simp)

definition sr_wf :: "SpatialQueryResult \<Rightarrow> bool" where
  "sr_wf r = (length (sr_objects r) \<le> sr_capacity r \<and> 0 < sr_capacity r)"

interpretation si_result: growable sr_objects "\<lambda>al r p. snd (spatial_result_add al r p)" sr_wf
proof
  fix al s x
  show "sr_objects (snd (spatial_result_add malloc_ok s x)) = sr_objects s @ [x]"
    by (rule spatial_result_add_ok)
  show "sr_objects (snd (spatial_result_add al s x)) = sr_objects s @ [x] \<or> snd (spatial_result_add al s x) = s"
    by (auto simp: spatial_result_add_def Let_def)
  assume "sr_wf s"
  then show "sr_wf (snd (spatial_result_add al s x))"
    by (auto simp: spatial_result_add_def Let_def sr_wf_def GROWTH_FACTOR_def)
qed

lemma collect_page_filter:
  "sr_objects (collect_page malloc_ok pages rng a res) =
    sr_objects res @ filter (\<lambda>p. mbr_intersects (so_mbr (pg_objects (pages (fst p)) ! snd p)) rng)
      (map (\<lambda>j. (a, j)) [0..<length (pg_objects (pages a))])"
proof -
  have "sr_objects (fold (\<lambda>j res. if mbr_intersects (so_mbr (pg_objects (pages a) ! j)) rng
      then snd (spatial_result_add malloc_ok res (a, j)) else res) js res) =
    sr_objects res @ filter (\<lambda>p. mbr_intersects (so_mbr (pg_objects (pages (fst p)) ! snd p)) rng) (map (\<lambda>j. (a, j)) js)" for js
    by (induction js arbitrary: res) (simp_all add: spatial_result_add_ok)
  then show ?thesis by (simp add: collect_page_def)
qed

lemma collect_pages_concat:
  "sr_objects (fold (collect_page malloc_ok pages rng) as res) =
    sr_objects res @ concat (map (\<lambda>a. filter (\<lambda>p. mbr_intersects (so_mbr (pg_objects (pages (fst p)) ! snd p)) rng)
      (map (\<lambda>j. (a, j)) [0..<length (pg_objects (pages a))])) as)"
  by (induction as arbitrary: res) (simp_all add: collect_page_filter)

text \<open>Pages are regions of the search: the extent of a page bounds the objects its pointers lead to.\<close>

interpretation page_region: search_region "\<lambda>r i. bounds_mbr r (fst i)" "\<lambda>r q. mbr_num q \<longrightarrow> mbr_intersects r q"
  "\<lambda>(i :: MBR \<times> obj_ptr) q. mbr_num q \<and> mbr_intersects (fst i) q"
  by standard (rule box_region.hit_visits)

lemma query_range_scan_all:
  assumes inv: "si_inv idx" and rng: "mbr_num rng"
  shows "\<exists>res'. spatial_index_query_range malloc_ok idx rng res = (SI_OK, res') \<and>
    sr_objects res' = filter (\<lambda>p. mbr_intersects (so_mbr (si_deref idx p)) rng) (all_ptrs idx)"
proof -
  let ?pages = "pp_pages (si_pool idx)"
  let ?ptrs = "\<lambda>a. map (\<lambda>j. (a, j)) [0..<length (pg_objects (si_page idx a))]"
  let ?hit = "\<lambda>p. mbr_intersects (so_mbr (si_deref idx p)) rng"
  have skip: "filter ?hit (?ptrs a) = []" if "a \<in> set ?pages" "\<not> mbr_intersects (page_extent (si_page idx a)) rng" for a
  proof -
    let ?items = "map (\<lambda>p. (so_mbr (si_deref idx p), p)) (?ptrs a)"
    have "filter (\<lambda>i. mbr_num rng \<and> mbr_intersects (fst i) rng) ?items = []"
      using that si_inv_page [OF inv that(1)] rng
      by (intro page_region.skip_is_sound [of _ "page_extent (si_page idx a)"]) (auto simp: page_inv_def si_deref_def)
    then show ?thesis using rng by (simp add: filter_map comp_def)
  qed
  have "concat (map (\<lambda>a. filter ?hit (?ptrs a)) (filter (\<lambda>a. mbr_intersects (page_extent (si_page idx a)) rng) as)) =
      filter ?hit (concat (map ?ptrs as))" if "set as \<subseteq> set ?pages" for as
    using that by (induction as) (simp_all add: skip)
  then show ?thesis
    by (simp add: spatial_index_query_range_def query_region_ok Let_def collect_pages_concat spatial_result_clear_def
        all_ptrs_def si_deref_def si_page_def)
qed

subsection \<open>Building\<close>

lemma create_track_same:
  "disk_manager_create_track malloc_ok dm = (r, dm') \<Longrightarrow> dm_inv dm \<Longrightarrow> dm_inv dm' \<and> dm_heap dm' = dm_heap dm \<and>
    pp_pages (dm_pool dm') = pp_pages (dm_pool dm)"
  using create_track_ok by blast

lemma create_block_same:
  assumes "si_inv idx"
  shows "si_inv (snd (create_block malloc_ok idx b)) \<and> si_heap (snd (create_block malloc_ok idx b)) = si_heap idx \<and>
    pp_pages (si_pool (snd (create_block malloc_ok idx b))) = pp_pages (si_pool idx) \<and>
    si_block_tree (snd (create_block malloc_ok idx b)) = si_block_tree idx \<and>
    map sb_bounds (si_blocks (snd (create_block malloc_ok idx b))) = map sb_bounds (si_blocks idx) @ [b]"
proof -
  obtain r dm where t: "disk_manager_create_track malloc_ok (si_disk idx) = (r, dm)"
    by (cases "disk_manager_create_track malloc_ok (si_disk idx)")
  with create_track_same [OF t] assms show ?thesis
    by (simp add: create_block_def malloc_ok_simp Let_def si_inv_def)
qed

lemma create_blocks_same:
  assumes "si_inv idx"
  shows "let idx' = fold (\<lambda>b i. snd (create_block malloc_ok i b)) bs idx in
    si_inv idx' \<and> si_heap idx' = si_heap idx \<and> pp_pages (si_pool idx') = pp_pages (si_pool idx) \<and>
    si_block_tree idx' = si_block_tree idx \<and> map sb_bounds (si_blocks idx') = map sb_bounds (si_blocks idx) @ bs"
  using assms
proof (induction bs arbitrary: idx)
  case Nil
  then show ?case by simp
next
  case (Cons b bs)
  note c = create_block_same [OF Cons.prems, of b]
  from Cons.IH [of "snd (create_block malloc_ok idx b)"] c show ?case by (simp add: Let_def)
qed

lemma build_page_quadtree_same:
  "\<exists>idx'. build_page_quadtree malloc_ok idx = (SI_OK, idx') \<and> si_disk idx' = si_disk idx \<and>
    si_block_tree idx' = si_block_tree idx \<and> si_blocks idx' = si_blocks idx"
  by (auto simp: build_page_quadtree_def quadtree_create_def quadtree_init_def qtnode_create_def malloc_ok_simp Let_def)

lemma pool_object_count_length: "pool_object_count (si_heap idx) (si_pool idx) = length (si_objects idx)"
  by (simp add: pool_object_count_def si_objects_def si_page_def length_concat comp_def)

lemma spatial_index_build_ok:
  assumes inv: "si_inv idx" and qs: "qsort_contract qs" and ne: "si_objects idx \<noteq> []"
    and num: "\<forall>obj \<in> set (si_objects idx). pt_num (so_centroid obj)"
  shows "\<exists>idx'. spatial_index_build qs malloc_ok idx = (SI_OK, idx') \<and> si_inv idx' \<and> si_is_built idx' \<and>
    si_heap idx' = si_heap idx \<and> pp_pages (si_pool idx') = pp_pages (si_pool idx) \<and>
    kdtree_inv (si_block_tree idx') \<and>
    mset (kd_entries (kt_root (si_block_tree idx'))) = mset (map (object_point idx) (all_ptrs idx))"
proof -
  let ?points = "map (object_point idx) (all_ptrs idx)"
  have "length ?points = length (si_objects idx)" by (simp flip: deref_ptrs)
  then have pne: "?points \<noteq> []" using ne by auto
  have pnum: "pt_num (pd_point e)" if "e \<in> set ?points" for e
    using that num by (auto simp: object_point_def simp flip: deref_ptrs)
  obtain bt where bt: "kdtree_bulk_load qs malloc_ok kdtree_init ?points = (KD_OK, bt)" "kdtree_inv bt"
    "mset (kd_entries (kt_root bt)) = mset ?points"
    using kdtree_bulk_load_ok [where al = malloc_ok and points = ?points and t = kdtree_init, OF qs] pnum pne
    by (auto simp: malloc_ok_simp)
  have root: "kt_root bt \<noteq> KNull"
    using bt(3) pne by (metis kd_entries_empty mset_zero_iff)
  obtain bounds where part: "kdtree_partition malloc_ok bt (sc_block_size (si_config idx)) = (KD_OK, bounds)"
    using root by (auto simp: kdtree_partition_def malloc_ok_simp)
  define idx2 where "idx2 = idx\<lparr>si_block_tree := bt, si_blocks := [],
    si_block_capacity := (if length bounds > 0 then length bounds else 16)\<rparr>"
  define idx3 where "idx3 = fold (\<lambda>b i. snd (create_block malloc_ok i b)) bounds idx2"
  have inv2: "si_inv idx2" using inv by (simp add: idx2_def si_inv_def)
  have i3: "si_inv idx3" "si_heap idx3 = si_heap idx" "pp_pages (si_pool idx3) = pp_pages (si_pool idx)" "si_block_tree idx3 = bt"
    using create_blocks_same [OF inv2, of bounds] by (simp_all add: idx3_def idx2_def Let_def)
  obtain idx4 where q: "build_page_quadtree malloc_ok idx3 = (SI_OK, idx4)" "si_disk idx4 = si_disk idx3"
    "si_block_tree idx4 = si_block_tree idx3"
    using build_page_quadtree_same by blast
  have total: "pool_object_count (si_heap idx) (si_pool idx) \<noteq> 0"
    using ne by (simp add: pool_object_count_length)
  have "spatial_index_build qs malloc_ok idx = (SI_OK, idx4\<lparr>si_is_built := True\<rparr>)"
    using total bt(1) part q(1) unfolding idx3_def idx2_def
    by (simp add: spatial_index_build_def malloc_ok_simp Let_def)
  with i3 q bt(2,3) show ?thesis
    by (intro exI [of _ "idx4\<lparr>si_is_built := True\<rparr>"]) (simp add: si_inv_def)
qed

subsection \<open>The nearest objects\<close>

lemma fold_add_data:
  "sr_objects (fold (\<lambda>e res. snd (spatial_result_add malloc_ok res (pd_data e))) es res) = sr_objects res @ map pd_data es"
  by (induction es arbitrary: res) (simp_all add: spatial_result_add_ok)

lemma query_knn_on_tree:
  assumes inv: "kdtree_inv (si_block_tree idx)" and ents: "mset (kd_entries (kt_root (si_block_tree idx))) = mset (map (object_point idx) ptrs)"
    and fin: "\<forall>p \<in> set ptrs. pt_finite (so_centroid (si_deref idx p))" and q: "pt_finite q" and k: "0 < k" and ne: "ptrs \<noteq> []"
  shows "\<exists>res' rest. spatial_index_query_knn malloc_ok idx q k res = (SI_OK, res') \<and>
    mset (sr_objects res' @ rest) = mset ptrs \<and> length (sr_objects res') = min k (length ptrs) \<and>
    sorted (map (\<lambda>p. dist_key q (so_centroid (si_deref idx p))) (sr_objects res')) \<and>
    (\<forall>a \<in> set (sr_objects res'). \<forall>b \<in> set rest.
      dist_key q (so_centroid (si_deref idx a)) \<le> dist_key q (so_centroid (si_deref idx b)))"
proof -
  let ?t = "si_block_tree idx"
  have ent: "e = object_point idx (pd_data e) \<and> pd_data e \<in> set ptrs" if "e \<in> set (kd_entries (kt_root ?t))" for e
    using that mset_eq_setD [OF ents] by (auto simp: object_point_def)
  have root: "kt_root ?t \<noteq> KNull" using ents ne by auto
  have tfin: "pt_finite (pd_point e)" if "e \<in> set (kd_entries (kt_root ?t))" for e
    using ent [OF that] fin by (metis KDPointData.select_convs(1) object_point_def)
  have size: "kt_size ?t = length ptrs"
    using inv mset_eq_length [OF ents] by (simp add: kdtree_inv_def)
  obtain kd0 :: "obj_ptr KDQueryResult" where kd0: "kdresult_init malloc_ok k = (KD_OK, kd0)"
    using kdresult_init_ok by blast
  obtain kd rest where kd: "kdtree_k_nearest malloc_ok ?t q k kd0 = (KD_OK, kd)"
    "mset (kr_entries kd @ rest) = mset (kd_entries (kt_root ?t))" "length (kr_entries kd) = min k (kt_size ?t)"
    "sorted (map (\<lambda>e. dist_key q (pd_point e)) (kr_entries kd))"
    "\<forall>a \<in> set (kr_entries kd). \<forall>b \<in> set rest. dist_key q (pd_point a) \<le> dist_key q (pd_point b)"
    using kdtree_k_nearest_ok [OF inv root k tfin q, of kd0] by blast
  have all: "set (kr_entries kd) \<union> set rest = set (kd_entries (kt_root ?t))"
    using mset_eq_setD [OF kd(2)] by simp
  have dist: "dist_key q (so_centroid (si_deref idx (pd_data e))) = dist_key q (pd_point e)"
    if "e \<in> set (kr_entries kd) \<union> set rest" for e
    using ent [of e] that all by (metis KDPointData.select_convs(1) object_point_def)
  obtain res' where run: "spatial_index_query_knn malloc_ok idx q k res = (SI_OK, res')" "sr_objects res' = map pd_data (kr_entries kd)"
    using k kd0 kd(1) by (simp add: spatial_index_query_knn_def Let_def fold_add_data spatial_result_clear_def)
  have "mset (map pd_data (kr_entries kd @ rest)) = mset (map pd_data (map (object_point idx) ptrs))"
    using kd(2) ents by (metis mset_map)
  also have "map pd_data (map (object_point idx) ptrs) = ptrs"
    by (simp add: comp_def object_point_def)
  finally have ms: "mset (sr_objects res' @ map pd_data rest) = mset ptrs" by (simp add: run(2))
  have len: "length (sr_objects res') = min k (length ptrs)"
    by (simp add: run(2) kd(3) size)
  have eq: "map (\<lambda>p. dist_key q (so_centroid (si_deref idx p))) (sr_objects res') =
      map (\<lambda>e. dist_key q (pd_point e)) (kr_entries kd)"
    using dist by (simp add: run(2))
  have sorted: "sorted (map (\<lambda>p. dist_key q (so_centroid (si_deref idx p))) (sr_objects res'))"
    unfolding eq by (rule kd(4))
  have far: "\<forall>a \<in> set (sr_objects res'). \<forall>b \<in> set (map pd_data rest).
      dist_key q (so_centroid (si_deref idx a)) \<le> dist_key q (so_centroid (si_deref idx b))"
    using kd(5) dist by (auto simp: run(2))
  show ?thesis using run(1) ms len sorted far by blast
qed

end
