(* ===== verification/SpatialIndex_Sim.thy ===== *)
theory SpatialIndex_Sim
  imports SpatialIndex_Query
begin

text \<open>
  The index against its abstract specification, a bag of objects.  Runs of the index are sequences of
  insertions, removals, updates and builds with an allocator that succeeds; a step of the index is a
  step of the bag, and the invariant holds in every state the runs reach.  \<open>spatial_index_clear\<close> is
  not among the operations: it breaks the invariant, see the properties of the index.
\<close>

datatype index_op = Op_insert SpatialObject | Op_remove "64 word" | Op_update "64 word" SpatialObject | Op_build

definition si_apply :: "obj_ptr qsort \<Rightarrow> index_op \<Rightarrow> SpatialIndex \<Rightarrow> SpatialIndex" where
  "si_apply qs op idx =
     (case op of
        Op_insert obj \<Rightarrow> fst (snd (spatial_index_insert malloc_ok idx obj))
      | Op_remove oid \<Rightarrow> snd (spatial_index_remove malloc_ok idx oid)
      | Op_update oid obj \<Rightarrow> snd (spatial_index_update malloc_ok idx oid obj)
      | Op_build \<Rightarrow> snd (spatial_index_build qs malloc_ok idx))"

text \<open>The object an insertion stores: the caller's with its derived data, and an id if it had none.\<close>

definition derived :: "SpatialObject \<Rightarrow> SpatialObject" where
  "derived obj = snd (spatial_object_update_derived obj)"

fun op_num :: "index_op \<Rightarrow> bool" where
  "op_num (Op_insert obj) = mbr_num (so_mbr (derived obj))"
| "op_num (Op_update oid obj) = mbr_num (so_mbr (derived obj))"
| "op_num (Op_remove oid) = True"
| "op_num Op_build = True"

definition with_id :: "64 word \<Rightarrow> view \<Rightarrow> view" where
  "with_id oid v = (oid, snd v)"

inductive bag_step :: "index_op \<Rightarrow> view multiset \<Rightarrow> view multiset \<Rightarrow> bool" where
  insert: "so_id obj \<noteq> 0 \<longrightarrow> oid = so_id obj \<Longrightarrow>
    bag_step (Op_insert obj) B (add_mset (with_id oid (object_view (derived obj))) B)"
| remove: "fst v = oid \<Longrightarrow> bag_step (Op_remove oid) (add_mset v B) B"
| remove_none: "\<forall>v \<in># B. fst v \<noteq> oid \<Longrightarrow> bag_step (Op_remove oid) B B"
| update: "fst v = oid \<Longrightarrow> oid \<noteq> 0 \<longrightarrow> oid' = oid \<Longrightarrow>
    bag_step (Op_update oid obj) (add_mset v B) (add_mset (with_id oid' (object_view (derived obj))) B)"
| update_none: "\<forall>v \<in># B. fst v \<noteq> oid \<Longrightarrow> bag_step (Op_update oid obj) B B"
| build: "bag_step Op_build B B"

inductive_cases bag_step_insertE: "bag_step (Op_insert obj) B B'"
inductive_cases bag_step_removeE: "bag_step (Op_remove oid) B B'"

inductive si_reach :: "obj_ptr qsort \<Rightarrow> SpatialIndex \<Rightarrow> bool" for qs where
  start: "spatial_index_init malloc_ok \<lparr>hp_page = pages, hp_live = [], hp_next = n\<rparr> config = (SI_OK, idx) \<Longrightarrow> si_reach qs idx"
| step: "si_reach qs idx \<Longrightarrow> op_num op \<Longrightarrow> si_reach qs (si_apply qs op idx)"

subsection \<open>Derived data depend on the view of an object\<close>

lemma geom_view_cases:
  assumes "geom_view g = geom_view g'"
  shows "(\<exists>p. g = G_point p \<and> g' = G_point p) \<or>
    (\<exists>l l'. g = G_line l \<and> g' = G_line l' \<and> ls_points l = ls_points l') \<or>
    (\<exists>p p'. g = G_polygon p \<and> g' = G_polygon p' \<and> exterior p = exterior p')"
  using assms by (cases g; cases g') simp_all

lemma derived_view_cong: "object_view (derived a) = object_view (derived b)" if "object_view a = object_view b"
proof -
  from that have g: "geom_view (so_geom a) = geom_view (so_geom b)" and o: "so_id a = so_id b" "so_centroid a = so_centroid b"
    "so_mbr a = so_mbr b" "so_properties a = so_properties b" by (simp_all add: object_view_def)
  show ?thesis
    using geom_view_cases [OF g] g o
    by (auto simp: derived_def spatial_object_update_derived_def object_view_def linestring_centroid_def linestring_mbr_def
        polygon_centroid_def polygon_mbr_def linestring_length_def split: sum.splits)
qed

lemma derived_id: "object_view (derived (a\<lparr>so_id := i\<rparr>)) = with_id i (object_view (derived a))"
  by (auto simp: derived_def spatial_object_update_derived_def object_view_def with_id_def split: Geom.splits sum.splits)

lemma derived_same_id [simp]: "so_id (derived a) = so_id a"
  by (auto simp: derived_def spatial_object_update_derived_def split: Geom.splits sum.splits)

lemma with_id_same: "fst v = i \<Longrightarrow> with_id i v = v"
  by (cases v) (simp add: with_id_def)

lemma view_mbr_with_id: "object_view a = with_id i (object_view b) \<Longrightarrow> so_mbr a = so_mbr b \<and> so_id a = i"
  by (simp add: object_view_def with_id_def)

subsection \<open>The simulation\<close>

lemma insert_object_view:
  "\<exists>oid. object_view (insert_object idx obj) = with_id oid (object_view (derived obj)) \<and>
    (so_id obj \<noteq> 0 \<longrightarrow> oid = so_id obj) \<and> so_id (insert_object idx obj) = oid"
  using derived_id [of "si_next_object_id idx" obj] with_id_same [of "object_view (derived obj)" "so_id obj"] 
  by (auto simp: insert_object_def derived_def [symmetric] object_view_def [of "derived obj"])

lemma insert_object_mbr: "so_mbr (insert_object idx obj) = so_mbr (derived obj)"
  using insert_object_view [of idx obj] view_mbr_with_id [of "insert_object idx obj"] by blast

lemma insert_sim:
  assumes "si_inv idx" "mbr_num (so_mbr (derived obj))"
  shows "\<exists>idx' oid. spatial_index_insert malloc_ok idx obj = (SI_OK, idx', insert_object idx obj) \<and> si_inv idx' \<and>
    (so_id obj \<noteq> 0 \<longrightarrow> oid = so_id obj) \<and> so_id (insert_object idx obj) = oid \<and>
    si_views idx' = add_mset (with_id oid (object_view (derived obj))) (si_views idx)"
proof -
  obtain idx' where "spatial_index_insert malloc_ok idx obj = (SI_OK, idx', insert_object idx obj)" "si_inv idx'"
    "si_views idx' = add_mset (object_view (insert_object idx obj)) (si_views idx)"
    using spatial_index_insert_ok [OF assms(1), of obj] assms(2) by (auto simp: insert_object_mbr)
  with insert_object_view [of idx obj] show ?thesis by auto
qed

lemma si_views_ids: "(\<forall>v \<in># si_views idx. fst v \<noteq> oid) \<longleftrightarrow> (\<forall>obj \<in> set (si_objects idx). so_id obj \<noteq> oid)"
  by (auto simp: si_views_def object_view_def)

lemma remove_sim:
  assumes "si_inv idx"
  shows "if \<forall>v \<in># si_views idx. fst v \<noteq> oid then spatial_index_remove malloc_ok idx oid = (SI_ERR_NOT_FOUND, idx)
    else \<exists>idx' v. spatial_index_remove malloc_ok idx oid = (SI_OK, idx') \<and> si_inv idx' \<and> fst v = oid \<and>
      si_views idx = add_mset v (si_views idx')"
proof (cases "spatial_index_get idx oid")
  case None
  with spatial_index_get_cases [of idx oid] spatial_index_remove_ok [OF assms, of oid] show ?thesis
    by (simp add: si_views_ids)
next
  case (Some p)
  then have id: "so_id (si_deref idx p) = oid" and p: "p \<in> set (all_ptrs idx)"
    using spatial_index_get_cases [of idx oid] by simp_all
  obtain idx' where idx': "spatial_index_remove malloc_ok idx oid = (SI_OK, idx')" "si_inv idx'"
    "si_views idx = add_mset (object_view (si_deref idx p)) (si_views idx')"
    using spatial_index_remove_ok [OF assms, of oid] Some by auto
  moreover have "fst (object_view (si_deref idx p)) = oid" by (simp add: object_view_def id)
  moreover have "\<not> (\<forall>v \<in># si_views idx. fst v \<noteq> oid)"
    using idx'(3) calculation(4) by auto
  ultimately show ?thesis by (metis (no_types, lifting))
qed

lemma update_object:
  "object_view (derived ((snd (spatial_object_copy malloc_ok obj))\<lparr>so_id := oid\<rparr>)) = with_id oid (object_view (derived obj))"
proof -
  obtain d where d: "spatial_object_copy malloc_ok obj = (GEOM_OK, d)" "object_view d = object_view obj"
    using spatial_object_copy_ok by blast
  then show ?thesis using derived_view_cong [OF d(2)] by (simp add: derived_id)
qed

lemma with_id_twice [simp]: "with_id i (with_id j v) = with_id i v"
  by (simp add: with_id_def)

lemma update_sim:
  assumes inv: "si_inv idx" and num: "mbr_num (so_mbr (derived obj))"
  shows "if \<forall>v \<in># si_views idx. fst v \<noteq> oid then spatial_index_update malloc_ok idx oid obj = (SI_ERR_NOT_FOUND, idx)
    else \<exists>idx' v B oid'. spatial_index_update malloc_ok idx oid obj = (SI_OK, idx') \<and> si_inv idx' \<and> fst v = oid \<and>
      (oid \<noteq> 0 \<longrightarrow> oid' = oid) \<and> si_views idx = add_mset v B \<and>
      si_views idx' = add_mset (with_id oid' (object_view (derived obj))) B"
proof (cases "\<forall>v \<in># si_views idx. fst v \<noteq> oid")
  case True
  with remove_sim [OF inv, of oid] show ?thesis by (simp add: spatial_index_update_def)
next
  case False
  let ?copy = "(snd (spatial_object_copy malloc_ok obj))\<lparr>so_id := oid\<rparr>"
  obtain idx1 v where r: "spatial_index_remove malloc_ok idx oid = (SI_OK, idx1)" "si_inv idx1" "fst v = oid"
    "si_views idx = add_mset v (si_views idx1)"
    using remove_sim [OF inv, of oid] False by auto
  have "mbr_num (so_mbr (derived ?copy))"
    using num view_mbr_with_id [OF update_object, of oid obj] by simp
  from insert_sim [OF r(2) this] obtain idx' oid' where i: "spatial_index_insert malloc_ok idx1 ?copy = (SI_OK, idx', insert_object idx1 ?copy)"
    "si_inv idx'" "oid \<noteq> 0 \<longrightarrow> oid' = oid"
    "si_views idx' = add_mset (with_id oid' (object_view (derived obj))) (si_views idx1)"
    by (auto simp: update_object)
  have upd: "spatial_index_update malloc_ok idx oid obj = (SI_OK, idx')"
    by (simp add: spatial_index_update_def r(1) i(1) Let_def)
  show ?thesis unfolding if_not_P [OF False]
    by (intro exI conjI) (rule upd i(2) r(3) i(3) r(4) i(4))+
qed

text \<open>A build changes neither the pages nor their objects, whether it succeeds or not.\<close>

lemma build_same:
  assumes "si_inv idx"
  shows "let idx' = snd (spatial_index_build qs malloc_ok idx) in si_inv idx' \<and> si_views idx' = si_views idx"
proof -
  have same: "si_inv i' \<and> si_views i' = si_views idx"
    if "si_inv i'" "si_heap i' = si_heap idx" "pp_pages (si_pool i') = pp_pages (si_pool idx)" for i'
    using that si_same_pages(2) by blast
  have blocks: "si_inv (idx\<lparr>si_block_tree := bt, si_blocks := bl, si_block_capacity := c, si_is_built := f\<rparr>)" for bt bl c f
    using assms by (simp add: si_inv_def)
  have tree: "si_inv (idx\<lparr>si_block_tree := bt\<rparr>)" for bt using assms by (simp add: si_inv_def)
  show ?thesis
  proof (cases "pool_object_count (si_heap idx) (si_pool idx) = 0")
    case True
    then show ?thesis using assms by (simp add: spatial_index_build_def si_inv_def Let_def si_views_def si_objects_def si_page_def)
  next
    case False
    obtain err bt where bt: "kdtree_bulk_load qs malloc_ok kdtree_init (map (object_point idx) (all_ptrs idx)) = (err, bt)"
      by (cases "kdtree_bulk_load qs malloc_ok kdtree_init (map (object_point idx) (all_ptrs idx))")
    obtain perr bounds where part: "kdtree_partition malloc_ok bt (sc_block_size (si_config idx)) = (perr, bounds)"
      by (cases "kdtree_partition malloc_ok bt (sc_block_size (si_config idx))")
    define idx2 where "idx2 = idx\<lparr>si_block_tree := bt, si_blocks := [],
      si_block_capacity := (if length bounds > 0 then length bounds else 16)\<rparr>"
    define idx3 where "idx3 = fold (\<lambda>b i. snd (create_block malloc_ok i b)) bounds idx2"
    have inv2: "si_inv idx2" using assms by (simp add: idx2_def si_inv_def)
    have i3: "si_inv idx3" "si_heap idx3 = si_heap idx" "pp_pages (si_pool idx3) = pp_pages (si_pool idx)"
      using create_blocks_same [OF inv2, of bounds] by (simp_all add: idx3_def idx2_def Let_def)
    obtain idx4 where q: "build_page_quadtree malloc_ok idx3 = (SI_OK, idx4)" "si_disk idx4 = si_disk idx3"
      using build_page_quadtree_same by blast
    have run: "snd (spatial_index_build qs malloc_ok idx) = (if err \<noteq> KD_OK \<or> perr \<noteq> KD_OK then idx\<lparr>si_block_tree := bt\<rparr>
        else idx4\<lparr>si_is_built := True\<rparr>)"
      using False bt part q(1) unfolding idx3_def idx2_def
      by (simp add: spatial_index_build_def malloc_ok_simp Let_def)
    have "si_inv (idx4\<lparr>si_is_built := True\<rparr>)" using i3(1) q(2) by (simp add: si_inv_def)
    then have "si_inv (idx4\<lparr>si_is_built := True\<rparr>) \<and> si_views (idx4\<lparr>si_is_built := True\<rparr>) = si_views idx"
      by (rule same) (simp_all add: q i3)
    moreover have "si_inv (idx\<lparr>si_block_tree := bt\<rparr>) \<and> si_views (idx\<lparr>si_block_tree := bt\<rparr>) = si_views idx"
      by (rule same [OF tree]) simp_all
    ultimately show ?thesis by (simp add: run)
  qed
qed

lemma si_step_sim:
  assumes inv: "si_inv idx" and num: "op_num op"
  shows "si_inv (si_apply qs op idx) \<and> bag_step op (si_views idx) (si_views (si_apply qs op idx))"
proof (cases op)
  case (Op_insert obj)
  obtain idx' oid where "spatial_index_insert malloc_ok idx obj = (SI_OK, idx', insert_object idx obj)" "si_inv idx'"
    "so_id obj \<noteq> 0 \<longrightarrow> oid = so_id obj" "si_views idx' = add_mset (with_id oid (object_view (derived obj))) (si_views idx)"
    using insert_sim [OF inv, of obj] num by (auto simp: Op_insert)
  then show ?thesis by (auto simp: Op_insert si_apply_def intro: bag_step.insert)
next
  case (Op_remove oid)
  show ?thesis
  proof (cases "\<forall>v \<in># si_views idx. fst v \<noteq> oid")
    case True
    with remove_sim [OF inv, of oid] inv show ?thesis
      by (simp add: Op_remove si_apply_def bag_step.remove_none del: split_paired_All)
  next
    case False
    obtain idx' v where r: "spatial_index_remove malloc_ok idx oid = (SI_OK, idx')"
      "si_inv idx'" "fst v = oid" "si_views idx = add_mset v (si_views idx')"
      using remove_sim [OF inv, of oid, unfolded if_not_P [OF False]] by blast
    show ?thesis unfolding r(4) using bag_step.remove [OF r(3)] r(1,2) by (simp add: Op_remove si_apply_def)
  qed
next
  case (Op_update oid obj)
  then have num': "mbr_num (so_mbr (derived obj))" using num by simp
  show ?thesis
  proof (cases "\<forall>v \<in># si_views idx. fst v \<noteq> oid")
    case True
    with update_sim [OF inv num', of oid] inv show ?thesis
      by (simp add: Op_update si_apply_def bag_step.update_none del: split_paired_All)
  next
    case False
    obtain idx' v B oid' where r:
      "spatial_index_update malloc_ok idx oid obj = (SI_OK, idx')" "si_inv idx'" "fst v = oid" "oid \<noteq> 0 \<longrightarrow> oid' = oid"
      "si_views idx = add_mset v B" "si_views idx' = add_mset (with_id oid' (object_view (derived obj))) B"
      using update_sim [OF inv num', of oid, unfolded if_not_P [OF False]] by blast
    show ?thesis unfolding r(5) using bag_step.update [OF r(3,4)] r(1,2,6) by (simp add: Op_update si_apply_def)
  qed
next
  case Op_build
  then show ?thesis using build_same [OF inv, of qs] by (simp add: si_apply_def bag_step.build Let_def)
qed

lemma spatial_index_init_inv:
  assumes "spatial_index_init malloc_ok \<lparr>hp_page = pages, hp_live = [], hp_next = n\<rparr> config = (SI_OK, idx)"
  shows "si_inv idx \<and> si_views idx = {#}"
proof -
  let ?cfg = "case config of Some c \<Rightarrow> c | None \<Rightarrow> spatial_index_default_config"
  let ?d = "disk_manager_init malloc_ok \<lparr>hp_page = pages, hp_live = [], hp_next = n\<rparr>
    (Some (disk_manager_default_config\<lparr>dc_cache_size := sc_cache_size ?cfg\<rparr>))"
  have "si_disk idx = snd ?d"
    using assms by (auto simp: spatial_index_init_def Let_def split: prod.splits if_splits)
  moreover have "dm_inv (snd ?d)" by (rule disk_manager_init_inv)
  moreover have "pp_pages (dm_pool (snd ?d)) = []"
    by (simp add: disk_manager_init_def page_pool_init_def page_cache_init_def Let_def malloc_ok_simp zero_pool_def)
  ultimately show ?thesis by (simp add: si_inv_def si_views_def si_objects_def)
qed

lemma si_reach_inv: "si_reach qs idx \<Longrightarrow> si_inv idx"
  by (induction rule: si_reach.induct) (auto simp: si_step_sim dest: spatial_index_init_inv)


subsection \<open>What the properties need of the operations\<close>

definition view_mbr :: "view \<Rightarrow> MBR" where
  "view_mbr v = fst (snd (snd (snd v)))"

lemma view_of_object [simp]: "fst (object_view obj) = so_id obj" "view_mbr (object_view obj) = so_mbr obj"
  by (simp_all add: object_view_def view_mbr_def)

lemma views_of_ptrs: "si_views idx = image_mset (\<lambda>p. object_view (si_deref idx p)) (mset (all_ptrs idx))"
  unfolding si_views_def deref_ptrs [symmetric] by (simp add: image_mset.compositionality comp_def)

lemma get_deref:
  "spatial_index_get idx oid = Some p \<Longrightarrow>
    p \<in> set (all_ptrs idx) \<and> so_id (si_deref idx p) = oid \<and> object_view (si_deref idx p) \<in># si_views idx"
  using spatial_index_get_cases [of idx oid] by (simp add: views_of_ptrs)

lemma get_None_iff: "spatial_index_get idx oid = None \<longleftrightarrow> (\<forall>v \<in># si_views idx. fst v \<noteq> oid)"
proof (cases "spatial_index_get idx oid")
  case None
  with spatial_index_get_cases [of idx oid] show ?thesis by (simp add: si_views_ids)
next
  case (Some p)
  with get_deref [OF Some] show ?thesis by force
qed

lemma page_free_fold:
  "hp_page (fold (\<lambda>a h. page_free h a) as h) = hp_page h"
  "set (hp_live (fold (\<lambda>a h. page_free h a) as h)) = set (hp_live h) - set as"
  by (induction as arbitrary: h) (auto simp: page_free_def)

lemma clear_fields:
  "hp_page (si_heap (spatial_index_clear al idx)) = hp_page (si_heap idx)"
  "set (hp_live (si_heap (spatial_index_clear al idx))) = set (hp_live (si_heap idx)) - set (pp_pages (si_pool idx))"
  "dm_tree (si_disk (spatial_index_clear al idx)) = dm_tree (si_disk idx)"
  by (simp_all add: spatial_index_clear_def Let_def page_free_fold)

text \<open>A rebuilt allocation tree has an entry for every page with objects.\<close>

lemma kdtree_insert_size: "kt_size (snd (kdtree_insert malloc_ok t p oid a)) = kt_size t + 1"
  by (simp add: kdtree_insert_def Let_def insert_recursive_nonnull malloc_ok_simp)

lemma rebuild_size_fold:
  "kt_size (dm_tree (fold (\<lambda>a dm. if length (pg_objects (hp_page (dm_heap dm) a)) > 0 then update_allocation_tree malloc_ok dm a else dm) as dm)) =
    kt_size (dm_tree dm) + length (filter (\<lambda>a. pg_objects (hp_page (dm_heap dm) a) \<noteq> []) as)"
proof (induction as arbitrary: dm)
  case Nil
  then show ?case by simp
next
  case (Cons a as)
  have "kt_size (dm_tree (update_allocation_tree malloc_ok dm a)) = kt_size (dm_tree dm) + 1"
    by (simp add: update_allocation_tree_def Let_def kdtree_insert_size)
  with Cons.IH [of dm] Cons.IH [of "update_allocation_tree malloc_ok dm a"] show ?case by simp
qed

lemma rebuild_size:
  "kt_size (dm_tree (disk_manager_rebuild_allocation_tree malloc_ok dm)) =
    length (filter (\<lambda>a. pg_objects (hp_page (dm_heap dm) a) \<noteq> []) (pp_pages (dm_pool dm)))"
  unfolding disk_manager_rebuild_allocation_tree_def rebuild_size_fold by (simp add: kdtree_init_def)

text \<open>After an insertion the allocation tree has an entry.\<close>

lemma insert_rebuilds:
  assumes "spatial_index_insert malloc_ok idx obj = (SI_OK, idx', obj')"
  shows "\<exists>dm. si_disk idx' = disk_manager_rebuild_allocation_tree malloc_ok dm"
  using assms by (auto simp: spatial_index_insert_def Let_def split: if_splits option.splits prod.splits sum.splits)

lemma insert_tree_nonempty:
  assumes "si_inv idx" "mbr_num (so_mbr (derived obj))"
  shows "0 < kt_size (dm_tree (si_disk (si_apply qs (Op_insert obj) idx)))"
proof -
  obtain idx' oid where i: "spatial_index_insert malloc_ok idx obj = (SI_OK, idx', insert_object idx obj)"
    "si_views idx' = add_mset (with_id oid (object_view (derived obj))) (si_views idx)"
    using insert_sim [OF assms] by blast
  obtain dm where dm: "si_disk idx' = disk_manager_rebuild_allocation_tree malloc_ok dm"
    using insert_rebuilds [OF i(1)] by blast
  have "si_objects idx' \<noteq> []" using i(2) by (auto simp: si_views_def)
  then obtain a where "a \<in> set (pp_pages (si_pool idx'))" "pg_objects (si_page idx' a) \<noteq> []"
    by (auto simp: si_objects_def)
  then have "filter (\<lambda>a. pg_objects (hp_page (dm_heap dm) a) \<noteq> []) (pp_pages (dm_pool dm)) \<noteq> []"
    by (auto simp: si_page_def dm rebuild_inv filter_empty_conv)
  then have "0 < kt_size (dm_tree (si_disk idx'))" by (simp add: dm rebuild_size)
  then show ?thesis by (simp add: si_apply_def i(1))
qed

lemma page_objects_le: "a \<in> set (pp_pages (si_pool idx)) \<Longrightarrow> length (pg_objects (si_page idx a)) \<le> size (si_views idx)"
proof -
  assume "a \<in> set (pp_pages (si_pool idx))"
  then have "length (pg_objects (si_page idx a)) \<le> sum_list (map (\<lambda>a. length (pg_objects (si_page idx a))) (pp_pages (si_pool idx)))"
    by (intro member_le_sum_list) auto
  then show ?thesis by (simp add: si_views_def si_objects_def length_concat comp_def)
qed

end
