(* ===== verification/SpatialIndex_Props.thy ===== *)
theory SpatialIndex_Props
  imports SpatialIndex_Sim KDTree_Props
begin

text \<open>
  The properties of the spatial index, with their witnesses.  The witnesses start from the empty index
  over an empty heap and insert the sample triangle.
\<close>

definition sample_heap :: Heap where
  "sample_heap = \<lparr>hp_page = (\<lambda>a. new_page 0 0), hp_live = [], hp_next = 1\<rparr>"

definition sample_index :: SpatialIndex where
  "sample_index = snd (spatial_index_init malloc_ok sample_heap None)"

definition sample_index_one :: SpatialIndex where
  "sample_index_one = si_apply isort_by (Op_insert sample_object) sample_index"

lemma sample_index_reach: "si_reach isort_by sample_index"
proof (rule si_reach.start [of _ 1 None])
  show "spatial_index_init malloc_ok \<lparr>hp_page = (\<lambda>a. new_page 0 0), hp_live = [], hp_next = 1\<rparr> None = (SI_OK, sample_index)"
    by (simp add: sample_index_def sample_heap_def spatial_index_init_def Let_def malloc_ok_simp disk_manager_init_inv split: prod.splits)
      (metis disk_manager_init_inv(2) fst_conv)
qed

lemma sample_index_views: "si_views sample_index = {#}"
  by (simp add: sample_index_def spatial_index_init_def Let_def malloc_ok_simp disk_manager_init_def page_pool_init_def
      page_cache_init_def zero_pool_def si_views_def si_objects_def)

lemma sample_object_num: "op_num (Op_insert sample_object)"
proof -
  have "mbr_num (so_mbr (derived sample_object))"
    
    by (simp add: derived_def sample_object_def sample_triangle_def zero_object_def spatial_object_update_derived_def
        polygon_mbr_def polygon_centroid_def mbr_expand_point_num pt_num_def split: prod.splits)
  then show ?thesis by simp
qed

lemma sample_index_one_reach: "si_reach isort_by sample_index_one"
  unfolding sample_index_one_def by (rule si_reach.step [OF sample_index_reach sample_object_num])

lemma sample_index_one_views: "si_views sample_index_one = {#object_view (derived sample_object)#}"
proof -
  obtain idx' oid where "spatial_index_insert malloc_ok sample_index sample_object = (SI_OK, idx', insert_object sample_index sample_object)"
    "so_id sample_object \<noteq> 0 \<longrightarrow> oid = so_id sample_object"
    "si_views idx' = add_mset (with_id oid (object_view (derived sample_object))) (si_views sample_index)"
    using insert_sim [OF si_reach_inv [OF sample_index_reach]] sample_object_num by (metis op_num.simps(1))
  moreover have "so_id sample_object = 7" by (simp add: sample_object_def)
  moreover have "with_id 7 (object_view (derived sample_object)) = object_view (derived sample_object)"
    using calculation(4) by (intro with_id_same) simp
  ultimately show ?thesis by (simp add: sample_index_one_def si_apply_def sample_index_views)
qed

lemma sample_object_ne: "si_objects sample_index_one \<noteq> []"
  using sample_index_one_views by (auto simp: si_views_def)

lemma sample_range_num: "mbr_num (sample_box d_one d_two)"
  by simp

subsection \<open>The index is a bag of objects\<close>



text \<open>
  C2: A range query returns a pointer to every stored object whose rectangle meets the range and to no
  other, each object once: what a scan of all objects of all pages would return, in that order.
  Skipping a page by its extent loses nothing.
\<close>

theorem spatial_index_query_range_scan:
  assumes "si_reach qs idx" "mbr_num rng"
  shows "\<exists>res'. spatial_index_query_range malloc_ok idx rng res = (SI_OK, res') \<and>
    sr_objects res' = filter (\<lambda>p. mbr_intersects (so_mbr (si_deref idx p)) rng) (all_ptrs idx) \<and>
    image_mset (\<lambda>p. object_view (si_deref idx p)) (mset (sr_objects res')) =
      filter_mset (\<lambda>v. mbr_intersects (view_mbr v) rng) (si_views idx)"
proof -
  obtain res' where r: "spatial_index_query_range malloc_ok idx rng res = (SI_OK, res')"
    "sr_objects res' = filter (\<lambda>p. mbr_intersects (so_mbr (si_deref idx p)) rng) (all_ptrs idx)"
    using query_range_scan_all [OF si_reach_inv [OF assms(1)] assms(2)] by blast
  moreover have "image_mset (\<lambda>p. object_view (si_deref idx p)) (mset (sr_objects res')) =
      filter_mset (\<lambda>v. mbr_intersects (view_mbr v) rng) (si_views idx)"
    by (simp add: r(2) views_of_ptrs filter_mset_image_mset)
  ultimately show ?thesis by blast
qed

theorem spatial_index_query_range_scan_witness:
  "\<exists>res'. spatial_index_query_range malloc_ok sample_index_one (sample_box d_one d_two)
      \<lparr>sr_objects = [], sr_capacity = 4, sr_pages_accessed = 0\<rparr> = (SI_OK, res') \<and>
    image_mset (\<lambda>p. object_view (si_deref sample_index_one p)) (mset (sr_objects res')) =
      filter_mset (\<lambda>v. mbr_intersects (view_mbr v) (sample_box d_one d_two)) {#object_view (derived sample_object)#}"
  using spatial_index_query_range_scan [OF sample_index_one_reach sample_range_num, of
      "\<lparr>sr_objects = [], sr_capacity = 4, sr_pages_accessed = 0\<rparr>"]
  unfolding sample_index_one_views by blast

text \<open>
  C6: An inserted object can be looked up by its id.  Insertion returns the object with its id and
  derived data, the index then has an object with that id, and it is the inserted one if the id is
  new; every other id is found after the insertion exactly if it was found before.
\<close>

theorem spatial_index_insert_get:
  assumes "si_reach qs idx" "op_num (Op_insert obj)"
  shows "\<exists>idx' obj' p. spatial_index_insert malloc_ok idx obj = (SI_OK, idx', obj') \<and>
    spatial_index_get idx' (so_id obj') = Some p \<and> so_id (si_deref idx' p) = so_id obj' \<and>
    (so_id obj \<noteq> 0 \<longrightarrow> so_id obj' = so_id obj) \<and>
    (spatial_index_get idx (so_id obj') = None \<longrightarrow>
      object_view (si_deref idx' p) = with_id (so_id obj') (object_view (derived obj))) \<and>
    (\<forall>oid. oid \<noteq> so_id obj' \<longrightarrow> (spatial_index_get idx' oid = None \<longleftrightarrow> spatial_index_get idx oid = None))"
proof -
  have inv: "si_inv idx" by (rule si_reach_inv [OF assms(1)])
  obtain idx' oid where i: "spatial_index_insert malloc_ok idx obj = (SI_OK, idx', insert_object idx obj)"
    "so_id obj \<noteq> 0 \<longrightarrow> oid = so_id obj" "so_id (insert_object idx obj) = oid"
    "si_views idx' = add_mset (with_id oid (object_view (derived obj))) (si_views idx)"
    using insert_sim [OF inv, of obj] assms(2) by auto
  have "spatial_index_get idx' oid \<noteq> None" by (simp add: get_None_iff i(4) with_id_def)
  then obtain p where p: "spatial_index_get idx' oid = Some p" by blast
  note d = get_deref [OF p]
  have "object_view (si_deref idx' p) = with_id oid (object_view (derived obj))" if "spatial_index_get idx oid = None"
  proof -
    have "\<forall>v \<in># si_views idx. fst v \<noteq> oid" using that by (simp only: get_None_iff)
    moreover have "fst (object_view (si_deref idx' p)) = oid" using d by simp
    moreover have "object_view (si_deref idx' p) = with_id oid (object_view (derived obj)) \<or> object_view (si_deref idx' p) \<in># si_views idx"
      using d unfolding i(4) by simp
    ultimately show ?thesis by blast
  qed
  moreover have "spatial_index_get idx' oid' = None \<longleftrightarrow> spatial_index_get idx oid' = None" if "oid' \<noteq> oid" for oid'
    using that unfolding get_None_iff i(4) by (simp add: with_id_def)
  ultimately show ?thesis using i p d by (intro exI [of _ idx'] exI [of _ "insert_object idx obj"] exI [of _ p]) simp
qed

theorem spatial_index_insert_get_witness:
  "\<exists>idx' obj' p. spatial_index_insert malloc_ok sample_index_one sample_object = (SI_OK, idx', obj') \<and>
    spatial_index_get idx' (so_id obj') = Some p"
  using spatial_index_insert_get [OF sample_index_one_reach sample_object_num] by blast

text \<open>
  Removal undoes what lookup finds.  If lookup finds no object with the id, removal reports
  \<open>SI_ERR_NOT_FOUND\<close> and changes nothing; otherwise it takes out exactly the object that lookup returns,
  marks the index as not built, and afterwards the id is found only if another object had it.
\<close>

theorem spatial_index_remove_get:
  assumes "si_reach qs idx"
  shows "case spatial_index_get idx oid of
      None \<Rightarrow> spatial_index_remove malloc_ok idx oid = (SI_ERR_NOT_FOUND, idx)
    | Some p \<Rightarrow> \<exists>idx'. spatial_index_remove malloc_ok idx oid = (SI_OK, idx') \<and> \<not> si_is_built idx' \<and>
        si_views idx = add_mset (object_view (si_deref idx p)) (si_views idx') \<and>
        (spatial_index_get idx' oid = None \<longleftrightarrow> size (filter_mset (\<lambda>v. fst v = oid) (si_views idx)) = 1)"
proof (cases "spatial_index_get idx oid")
  case None
  with spatial_index_remove_ok [OF si_reach_inv [OF assms], of oid] show ?thesis by simp
next
  case (Some p)
  then obtain idx' where r: "spatial_index_remove malloc_ok idx oid = (SI_OK, idx')" "\<not> si_is_built idx'"
    "si_views idx = add_mset (object_view (si_deref idx p)) (si_views idx')"
    using spatial_index_remove_ok [OF si_reach_inv [OF assms], of oid] by auto
  have "spatial_index_get idx' oid = None \<longleftrightarrow> filter_mset (\<lambda>v. fst v = oid) (si_views idx') = {#}"
    unfolding get_None_iff set_mset_eq_empty_iff [symmetric] set_mset_filter by blast
  then have "spatial_index_get idx' oid = None \<longleftrightarrow> size (filter_mset (\<lambda>v. fst v = oid) (si_views idx)) = 1"
    unfolding r(3) using get_deref [OF Some] by simp
  with Some r show ?thesis by simp
qed

theorem spatial_index_remove_get_witness:
  "case spatial_index_get sample_index_one 7 of
      None \<Rightarrow> spatial_index_remove malloc_ok sample_index_one 7 = (SI_ERR_NOT_FOUND, sample_index_one)
    | Some p \<Rightarrow> \<exists>idx'. spatial_index_remove malloc_ok sample_index_one 7 = (SI_OK, idx') \<and> \<not> si_is_built idx' \<and>
        si_views sample_index_one = add_mset (object_view (si_deref sample_index_one p)) (si_views idx') \<and>
        (spatial_index_get idx' 7 = None \<longleftrightarrow> size (filter_mset (\<lambda>v. fst v = 7) (si_views sample_index_one)) = 1)"
  by (rule spatial_index_remove_get [OF sample_index_one_reach])

lemma build_knn:
  assumes "si_reach qs idx" "qsort_contract qs" "si_objects idx \<noteq> []"
    "\<forall>obj \<in> set (si_objects idx). pt_finite (so_centroid obj)" "pt_finite q" "0 < k"
  shows "\<exists>idx' res' rest. spatial_index_build qs malloc_ok idx = (SI_OK, idx') \<and> si_is_built idx' \<and>
    spatial_index_query_knn malloc_ok idx' q k res = (SI_OK, res') \<and>
    mset (sr_objects res' @ rest) = mset (all_ptrs idx) \<and> length (sr_objects res') = min k (length (si_objects idx)) \<and>
    sorted (map (\<lambda>p. dist_key q (so_centroid (si_deref idx p))) (sr_objects res')) \<and>
    (\<forall>a \<in> set (sr_objects res'). \<forall>b \<in> set rest.
      dist_key q (so_centroid (si_deref idx a)) \<le> dist_key q (so_centroid (si_deref idx b)))"
proof -
  have num: "\<forall>obj \<in> set (si_objects idx). pt_num (so_centroid obj)" using assms(4) pt_finite_num by blast
  obtain idx' where b: "spatial_index_build qs malloc_ok idx = (SI_OK, idx')" "si_is_built idx'"
    "si_heap idx' = si_heap idx" "pp_pages (si_pool idx') = pp_pages (si_pool idx)" "kdtree_inv (si_block_tree idx')"
    "mset (kd_entries (kt_root (si_block_tree idx'))) = mset (map (object_point idx) (all_ptrs idx))"
    using spatial_index_build_ok [OF si_reach_inv [OF assms(1)] assms(2,3) num] by blast
  have deref: "si_deref idx' p = si_deref idx p" for p by (rule si_same_pages(5)) (simp_all add: b)
  have point: "object_point idx' = object_point idx" by (rule ext) (simp add: object_point_def deref)
  have objs: "map (si_deref idx) (all_ptrs idx) = si_objects idx" by (rule deref_ptrs)
  have ne: "all_ptrs idx \<noteq> []" using assms(3) objs by auto
  have fin: "\<forall>p \<in> set (all_ptrs idx). pt_finite (so_centroid (si_deref idx' p))"
    using assms(4) unfolding objs [symmetric] by (simp add: deref)
  have len: "length (all_ptrs idx) = length (si_objects idx)" using arg_cong [OF objs, of length] by simp
  have "mset (kd_entries (kt_root (si_block_tree idx'))) = mset (map (object_point idx') (all_ptrs idx))"
    unfolding point by (rule b(6))
  from query_knn_on_tree [OF b(5) this fin assms(5,6) ne, of res] obtain res' rest where
    "spatial_index_query_knn malloc_ok idx' q k res = (SI_OK, res')" "mset (sr_objects res' @ rest) = mset (all_ptrs idx)"
    "length (sr_objects res') = min k (length (all_ptrs idx))"
    "sorted (map (\<lambda>p. dist_key q (so_centroid (si_deref idx' p))) (sr_objects res'))"
    "\<forall>a \<in> set (sr_objects res'). \<forall>b \<in> set rest.
      dist_key q (so_centroid (si_deref idx' a)) \<le> dist_key q (so_centroid (si_deref idx' b))" by blast
  with b(1,2) show ?thesis unfolding deref len by blast
qed

text \<open>
  C3: A build makes the index ready for nearest-object queries.  For every \<open>qsort\<close> and any stored
  objects with finite centroids, the build returns \<open>SI_OK\<close>, and a following query for \<open>k\<close> objects
  returns \<open>k\<close> of them (all, if there are fewer), by increasing rounded distance of their centroids to
  the query point, and no object it leaves out is closer than one it returns.
\<close>

theorem spatial_index_build_knn:
  assumes "si_reach qs idx" "qsort_contract qs" "si_objects idx \<noteq> []"
    "\<forall>obj \<in> set (si_objects idx). pt_finite (so_centroid obj)" "pt_finite q" "0 < k"
  shows "\<exists>idx' res' rest. spatial_index_build qs malloc_ok idx = (SI_OK, idx') \<and> si_is_built idx' \<and>
    spatial_index_query_knn malloc_ok idx' q k res = (SI_OK, res') \<and>
    mset (sr_objects res' @ rest) = mset (all_ptrs idx) \<and> length (sr_objects res') = min k (length (si_objects idx)) \<and>
    sorted (map (\<lambda>p. dist_key q (so_centroid (si_deref idx p))) (sr_objects res')) \<and>
    (\<forall>a \<in> set (sr_objects res'). \<forall>b \<in> set rest.
      dist_key q (so_centroid (si_deref idx a)) \<le> dist_key q (so_centroid (si_deref idx b)))"
  by (rule build_knn [OF assms])

definition sample_point_object :: SpatialObject where
  "sample_point_object = zero_object\<lparr>so_id := 9, so_geom := G_point \<lparr>px = d_two, py = d_one\<rparr>\<rparr>"

definition sample_index_point :: SpatialIndex where
  "sample_index_point = si_apply isort_by (Op_insert sample_point_object) sample_index"

lemma sample_point_num: "op_num (Op_insert sample_point_object)"
  by (simp add: sample_point_object_def derived_def spatial_object_update_derived_def mbr_num_def mbr_create_def)

lemma image_mset_eq_mset_singleton: "image_mset f (mset xs) = {#y#} \<longleftrightarrow> (\<exists>x. xs = [x] \<and> f x = y)"
  by (cases xs) auto

lemma sample_index_point_facts:
  "si_reach isort_by sample_index_point" "si_objects sample_index_point \<noteq> []"
  "\<forall>obj \<in> set (si_objects sample_index_point). pt_finite (so_centroid obj)"
  "\<forall>obj \<in> set (si_objects sample_index_point). so_centroid obj = \<lparr>px = d_two, py = d_one\<rparr>"
proof -
  show "si_reach isort_by sample_index_point"
    unfolding sample_index_point_def by (rule si_reach.step [OF sample_index_reach sample_point_num])
  have "mbr_num (so_mbr (derived sample_point_object))" using sample_point_num by simp
  from insert_sim [OF si_reach_inv [OF sample_index_reach] this] obtain idx' oid where
    "spatial_index_insert malloc_ok sample_index sample_point_object = (SI_OK, idx', insert_object sample_index sample_point_object)"
    "si_views idx' = add_mset (with_id oid (object_view (derived sample_point_object))) (si_views sample_index)" by blast
  then have v: "si_views sample_index_point = {#with_id oid (object_view (derived sample_point_object))#}"
    by (simp add: sample_index_point_def si_apply_def sample_index_views)
  then obtain obj where o: "si_objects sample_index_point = [obj]" "object_view obj = with_id oid (object_view (derived sample_point_object))"
    by (auto simp: si_views_def image_mset_eq_mset_singleton)
  have "so_centroid obj = \<lparr>px = d_two, py = d_one\<rparr>"
    using o(2) by (simp add: object_view_def with_id_def sample_point_object_def derived_def spatial_object_update_derived_def)
  with o show "si_objects sample_index_point \<noteq> []" "\<forall>obj \<in> set (si_objects sample_index_point). pt_finite (so_centroid obj)"
    "\<forall>obj \<in> set (si_objects sample_index_point). so_centroid obj = \<lparr>px = d_two, py = d_one\<rparr>"
    by (simp_all add: pt_finite_def)
qed

theorem spatial_index_build_knn_witness:
  "\<exists>idx' res' rest. spatial_index_build isort_by malloc_ok sample_index_point = (SI_OK, idx') \<and> si_is_built idx' \<and>
    spatial_index_query_knn malloc_ok idx' \<lparr>px = d_two, py = d_one\<rparr> 1 \<lparr>sr_objects = [], sr_capacity = 4, sr_pages_accessed = 0\<rparr> =
      (SI_OK, res') \<and> mset (sr_objects res' @ rest) = mset (all_ptrs sample_index_point)"
  using spatial_index_build_knn [OF sample_index_point_facts(1) isort_by_contract sample_index_point_facts(2,3) sample_query_finite zero_less_one]
  by blast

subsection \<open>Memory safety\<close>



text \<open>
  C39: Clearing the index frees every page but leaves the allocation tree as it is: every entry of it
  then dangles, and the next insertion takes a freed page from the tree, if the nearest page was not
  full, instead of allocating one.
\<close>

theorem spatial_index_clear_dangles:
  assumes "si_reach qs idx" "0 < kt_size (dm_tree (si_disk idx))"
    "\<forall>a \<in> set (pp_pages (si_pool idx)). \<not> page_is_full (si_page idx a)"
  shows "dangling (si_heap (spatial_index_clear al idx))
      (map pd_data (kd_entries (kt_root (dm_tree (si_disk (spatial_index_clear al idx)))))) \<and>
    (\<exists>a. get_page_for_insert al' (spatial_index_clear al idx) obj = (Some a, spatial_index_clear al idx) \<and>
      a \<notin> set (hp_live (si_heap (spatial_index_clear al idx))))"
proof -
  let ?c = "spatial_index_clear al idx" and ?t = "dm_tree (si_disk idx)"
  have tree: "tree_inv ?t (set (pp_pages (si_pool idx)))"
    using si_reach_inv [OF assms(1)] by (simp add: si_inv_def dm_inv_def)
  have freed: "a \<notin> set (hp_live (si_heap ?c))" if "a \<in> set (pp_pages (si_pool idx))" for a
    using that clear_fields(2) [of al idx] by simp
  obtain p oid a where n: "kdtree_nearest ?t (so_centroid obj) = Inr (p, oid, a)" "a \<in> set (pp_pages (si_pool idx))"
    using kdtree_nearest_data [OF tree assms(2)] by blast
  have "si_page ?c a = si_page idx a" by (simp add: si_page_def clear_fields)
  then have "get_page_for_insert al' ?c obj = (Some a, ?c)"
    using n assms(2,3) by (simp add: get_page_for_insert_def clear_fields Let_def)
  moreover obtain e where e: "e \<in> set (kd_entries (kt_root ?t))" "pd_data e \<in> set (pp_pages (si_pool idx))"
    using tree assms(2) unfolding tree_inv_def
    by (metis image_subset_iff length_greater_0_conv list.set_sel(1))
  then have "dangling (si_heap ?c) (map pd_data (kd_entries (kt_root (dm_tree (si_disk ?c)))))"
    unfolding dangling_def clear_fields using freed by (auto simp: clear_fields)
  ultimately show ?thesis using freed [OF n(2)] by blast
qed

theorem spatial_index_clear_dangles_witness:
  "\<exists>a. get_page_for_insert malloc_ok (spatial_index_clear malloc_ok sample_index_one) sample_object =
      (Some a, spatial_index_clear malloc_ok sample_index_one) \<and>
    a \<notin> set (hp_live (si_heap (spatial_index_clear malloc_ok sample_index_one)))"
proof -
  have tree: "0 < kt_size (dm_tree (si_disk sample_index_one))"
    using insert_tree_nonempty [OF si_reach_inv [OF sample_index_reach]] sample_object_num
    by (simp add: sample_index_one_def)
  have "\<not> page_is_full (si_page sample_index_one a)" if a: "a \<in> set (pp_pages (si_pool sample_index_one))" for a
    using page_objects_le [OF a] si_inv_page [OF si_reach_inv [OF sample_index_one_reach] a]
    by (simp add: sample_index_one_views page_is_full_def page_inv_def MAX_OBJECTS_PER_PAGE_def)
  then show ?thesis using spatial_index_clear_dangles [OF sample_index_one_reach tree] by blast
qed

end
