(* ===== verification/PageCodec.thy ===== *)
theory PageCodec
  imports PagePool
begin

text \<open>
  The byte format of a page: \<open>page_serialize\<close> and \<open>page_deserialize\<close> of src/src/page.c.

  A page of the file is 4096 bytes: the header of 72 bytes, then 60 bytes for each object: the id, the
  type, the centroid and the rectangle.  Geometry and properties are not stored.  Words are stored in
  little-endian order and structs without padding (none of the stored ones has any).
\<close>

definition sizeof_PageHeader :: nat where "sizeof_PageHeader = 72"
definition sizeof_record :: nat where "sizeof_record = 60"

subsection \<open>Memory\<close>

text \<open>\<open>memcpy (buf + off, bytes, length bytes)\<close> within the buffer.\<close>

definition memcpy_to :: "8 word list \<Rightarrow> nat \<Rightarrow> 8 word list \<Rightarrow> 8 word list" where
  "memcpy_to buf off bytes = take off buf @ bytes @ drop (off + length bytes) buf"

definition bytes_at :: "8 word list \<Rightarrow> nat \<Rightarrow> nat \<Rightarrow> 8 word list" where
  "bytes_at buf off n = take n (drop off buf)"

fun word_of_bytes :: "8 word list \<Rightarrow> 'a :: len word" where
  "word_of_bytes [] = 0"
| "word_of_bytes (b # bs) = ucast b OR push_bit 8 (word_of_bytes bs)"

definition get_u32 :: "8 word list \<Rightarrow> nat \<Rightarrow> 32 word" where
  "get_u32 buf off = word_of_bytes (bytes_at buf off 4)"

definition get_u64 :: "8 word list \<Rightarrow> nat \<Rightarrow> 64 word" where
  "get_u64 buf off = word_of_bytes (bytes_at buf off 8)"

definition get_double :: "8 word list \<Rightarrow> nat \<Rightarrow> double" where
  "get_double buf off = Dbl (get_u64 buf off)"

definition get_point :: "8 word list \<Rightarrow> nat \<Rightarrow> Point" where
  "get_point buf off = \<lparr>px = get_double buf off, py = get_double buf (off + 8)\<rparr>"

definition get_mbr :: "8 word list \<Rightarrow> nat \<Rightarrow> MBR" where
  "get_mbr buf off = \<lparr>min_x = get_double buf off, min_y = get_double buf (off + 8),
     max_x = get_double buf (off + 16), max_y = get_double buf (off + 24)\<rparr>"

subsection \<open>Writing\<close>

fun type_code :: "GeomType \<Rightarrow> 32 word" where
  "type_code GEOM_POINT = 0"
| "type_code GEOM_LINESTRING = 1"
| "type_code GEOM_POLYGON = 2"

definition header_bytes :: "Page \<Rightarrow> 8 word list" where
  "header_bytes page =
     word_bytes 4 (page_id page) @ word_bytes 4 (ph_track_id (pg_header page)) @
     word_bytes 4 (word_of_nat (length (pg_objects page)) :: 32 word) @ word_bytes 4 (ph_flags (pg_header page)) @
     mbr_bytes (page_extent page) @ point_bytes (ph_centroid (pg_header page)) @
     word_bytes 8 (ph_checksum (pg_header page))"

text \<open>One turn of the loop: four copies, each moving the offset.\<close>

definition put_object :: "SpatialObject \<Rightarrow> 8 word list \<times> nat \<Rightarrow> 8 word list \<times> nat" where
  "put_object obj = (\<lambda>(buf, off).
     let buf1 = memcpy_to buf off (word_bytes 8 (so_id obj)); off1 = off + 8;
         buf2 = memcpy_to buf1 off1 (word_bytes 4 (type_code (so_type obj))); off2 = off1 + 4;
         buf3 = memcpy_to buf2 off2 (point_bytes (so_centroid obj)); off3 = off2 + 16;
         buf4 = memcpy_to buf3 off3 (mbr_bytes (so_mbr obj)); off4 = off3 + 32
     in (buf4, off4))"

definition page_serialize :: "Page \<Rightarrow> 8 word list \<Rightarrow> PageError \<times> 8 word list" where
  "page_serialize page buffer =
     (if length buffer < PAGE_SIZE then (PAGE_ERR_ALLOC, buffer)
      else let zeros = replicate (length buffer) 0 in
        (PAGE_OK, fst (fold put_object (pg_objects page) (memcpy_to zeros 0 (header_bytes page), sizeof_PageHeader))))"

subsection \<open>Reading\<close>

text \<open>The object that all zero bytes but the type are.\<close>

definition zero_geom :: "32 word \<Rightarrow> Geom option" where
  "zero_geom code =
     (if code = 0 then Some (G_point zero_point) else if code = 1 then Some (G_line zero_linestring)
      else if code = 2 then Some (G_polygon zero_polygon) else None)"

definition get_object :: "8 word list \<Rightarrow> nat \<Rightarrow> SpatialObject option" where
  "get_object buf off =
     (case zero_geom (get_u32 buf (off + 8)) of
        None \<Rightarrow> None
      | Some g \<Rightarrow> Some (zero_object\<lparr>so_id := get_u64 buf off, so_geom := g,
          so_centroid := get_point buf (off + 12), so_mbr := get_mbr buf (off + 28)\<rparr>))"

fun get_objects :: "8 word list \<Rightarrow> nat \<Rightarrow> nat \<Rightarrow> SpatialObject list option" where
  "get_objects buf off 0 = Some []"
| "get_objects buf off (Suc n) =
     (case get_object buf off of None \<Rightarrow> None
      | Some obj \<Rightarrow> map_option (Cons obj) (get_objects buf (off + sizeof_record) n))"

definition get_header :: "8 word list \<Rightarrow> PageHeader" where
  "get_header buf = \<lparr>ph_page_id = get_u32 buf 0, ph_track_id = get_u32 buf 4, ph_flags = get_u32 buf 12,
     ph_extent = get_mbr buf 16, ph_centroid = get_point buf 48, ph_checksum = get_u64 buf 64\<rparr>"

text \<open>
  The page must be one that \<open>page_create\<close> made, as it is wherever the code calls this: its 64 objects
  are zero bytes.  The result has no page where the C function leaves one that the model has no value
  for: when the count of the header exceeds the array (it is stored before it is checked, with
  \<open>PAGE_ERR_CORRUPT\<close>), and when a type is no enumerator (with \<open>PAGE_OK\<close>).
\<close>

definition page_deserialize :: "Page \<Rightarrow> 8 word list \<Rightarrow> PageError \<times> Page option" where
  "page_deserialize page buffer =
     (if length buffer < PAGE_SIZE then (PAGE_ERR_CORRUPT, Some page)
      else let n = unat (get_u32 buffer 8) in
        if n > MAX_OBJECTS_PER_PAGE then (PAGE_ERR_CORRUPT, None)
        else (PAGE_OK, map_option (\<lambda>objs. page\<lparr>pg_header := get_header buffer, pg_objects := objs, pg_in_memory := True\<rparr>)
               (get_objects buffer sizeof_PageHeader n)))"

subsection \<open>Words and bytes\<close>

lemma length_word_bytes [simp]: "length (word_bytes n w) = n"
  by (simp add: word_bytes_def)

lemma length_point_bytes [simp]: "length (point_bytes p) = 16"
  by (simp add: point_bytes_def)

lemma length_mbr_bytes [simp]: "length (mbr_bytes m) = 32"
  by (simp add: mbr_bytes_def)

lemma length_header_bytes [simp]: "length (header_bytes p) = sizeof_PageHeader"
  by (simp add: header_bytes_def sizeof_PageHeader_def)

lemma bit_word_of_bytes:
  fixes w :: "'a :: len word"
  shows "bit (word_of_bytes (map (\<lambda>i. ucast (drop_bit (8 * i) w)) [k..<k + n]) :: 'a word) j \<longleftrightarrow>
    j < 8 * n \<and> bit w (8 * k + j) \<and> j < LENGTH('a)"
proof (induction n arbitrary: k j)
  case 0
  then show ?case by simp
next
  case (Suc n)
  have split: "[k..<k + Suc n] = k # [Suc k..<Suc k + n]"
    using upt_conv_Cons [of k "k + Suc n"] by simp
  show ?case
  proof (cases "j < 8")
    case True
    then show ?thesis
      unfolding split by (auto simp: bit_simps Suc.IH)
  next
    case False
    then have "8 * Suc k + (j - 8) = 8 * k + j" by simp
    with False Suc.IH [of "Suc k" "j - 8"] show ?thesis
      unfolding split by (auto simp: bit_simps)
  qed
qed

lemma word_of_word_bytes [simp]:
  fixes w :: "'a :: len word"
  assumes "LENGTH('a) = 8 * n"
  shows "word_of_bytes (word_bytes n w) = w"
proof (rule bit_word_eqI)
  fix j
  assume "j < LENGTH('a)"
  then show "bit (word_of_bytes (word_bytes n w) :: 'a word) j = bit w j"
    using bit_word_of_bytes [of w 0 n j] assms by (simp add: word_bytes_def)
qed

end
