(* ===== verification/DiskFile.thy ===== *)
theory DiskFile
  imports DiskManager PageCodec
begin

text \<open>
  The data file of src/src/disk_manager.c: the header of 160 bytes, 4096 reserved bytes, then the pages
  by id.

  A file is a list of bytes and the file system maps paths to files.  A stream is the path it was
  opened with: every access seeks first, so its position does not matter; what has been written is what
  the next read sees, and the buffer of the stream is not modelled.  The device says which paths can be
  opened, and for each offset whether a read or a write there succeeds.  The clock is an argument.

  The memory map of Linux is compiled only with \<open>URBIS_USE_MMAP\<close> and is left out.  The C functions use a
  buffer of \<open>PAGE_SIZE\<close> bytes whatever \<open>config.page_size\<close> is and overrun it if that is larger; here the
  buffer has \<open>config.page_size\<close> bytes.
\<close>

record Device =
  dv_open :: "string \<Rightarrow> bool"
  dv_read :: "nat \<Rightarrow> bool"
  dv_write :: "nat \<Rightarrow> bool"

record FileState =
  fs_files :: "string \<Rightarrow> 8 word list option"
  fs_data_file :: "string option"
  fs_file_path :: "string option"

definition sizeof_DiskFileHeader :: nat where "sizeof_DiskFileHeader = 160"

text \<open>\<open>fwrite\<close> after \<open>fseek\<close>: a gap before the offset reads as zeros.\<close>

definition put_file :: "8 word list \<Rightarrow> nat \<Rightarrow> 8 word list \<Rightarrow> 8 word list" where
  "put_file file off bytes =
     take off file @ replicate (off - length file) 0 @ bytes @ drop (off + length bytes) file"

definition set_file :: "string \<Rightarrow> 8 word list \<Rightarrow> FileState \<Rightarrow> FileState" where
  "set_file path bytes fs = fs\<lparr>fs_files := (fs_files fs)(path \<mapsto> bytes)\<rparr>"

definition file_of :: "FileState \<Rightarrow> string \<Rightarrow> 8 word list" where
  "file_of fs path = (case fs_files fs path of None \<Rightarrow> [] | Some bytes \<Rightarrow> bytes)"

subsection \<open>The file header\<close>

definition file_header_bytes :: "DiskFileHeader \<Rightarrow> 8 word list" where
  "file_header_bytes fh =
     word_bytes 4 (fh_magic fh) @ word_bytes 4 (fh_version fh) @ word_bytes 4 (fh_page_count fh) @
     word_bytes 4 (fh_track_count fh) @ word_bytes 8 (fh_object_count fh) @ mbr_bytes (fh_bounds fh) @
     word_bytes 8 (fh_created_time fh) @ word_bytes 8 (fh_modified_time fh) @ word_bytes 4 (fh_page_size fh) @
     word_bytes 4 (fh_pages_per_track fh) @ word_bytes 8 (fh_index_offset fh) @ word_bytes 8 (fh_data_offset fh) @
     fh_reserved fh"

definition get_file_header :: "8 word list \<Rightarrow> DiskFileHeader" where
  "get_file_header buf =
     \<lparr>fh_magic = get_u32 buf 0, fh_version = get_u32 buf 4, fh_page_count = get_u32 buf 8, fh_track_count = get_u32 buf 12,
      fh_object_count = get_u64 buf 16, fh_bounds = get_mbr buf 24, fh_created_time = get_u64 buf 56,
      fh_modified_time = get_u64 buf 64, fh_page_size = get_u32 buf 72, fh_pages_per_track = get_u32 buf 76,
      fh_index_offset = get_u64 buf 80, fh_data_offset = get_u64 buf 88, fh_reserved = bytes_at buf 96 64\<rparr>"

definition write_header :: "Device \<Rightarrow> 64 word \<Rightarrow> FileState \<Rightarrow> DiskManager \<Rightarrow> DiskManagerError \<times> FileState \<times> DiskManager" where
  "write_header dv now fs dm =
     (case fs_data_file fs of
        None \<Rightarrow> (DM_ERR_NULL_PTR, fs, dm)
      | Some path \<Rightarrow>
          (let fh = (dm_header dm)\<lparr>fh_modified_time := now\<rparr>; dm' = dm\<lparr>dm_header := fh\<rparr> in
           if \<not> dv_write dv 0 then (DM_ERR_IO, fs, dm')
           else (DM_OK, set_file path (put_file (file_of fs path) 0 (file_header_bytes fh)) fs, dm')))"

text \<open>After a read that fails or comes up short the header is indeterminate in C; here it is unchanged.\<close>

definition read_header :: "Device \<Rightarrow> FileState \<Rightarrow> DiskManager \<Rightarrow> DiskManagerError \<times> DiskManager" where
  "read_header dv fs dm =
     (case fs_data_file fs of
        None \<Rightarrow> (DM_ERR_NULL_PTR, dm)
      | Some path \<Rightarrow>
          if \<not> dv_read dv 0 \<or> length (file_of fs path) < sizeof_DiskFileHeader then (DM_ERR_IO, dm)
          else let dm' = dm\<lparr>dm_header := get_file_header (file_of fs path)\<rparr> in
            if fh_magic (dm_header dm') \<noteq> DM_MAGIC then (DM_ERR_CORRUPT, dm')
            else if fh_version (dm_header dm') > DM_VERSION then (DM_ERR_VERSION, dm')
            else (DM_OK, dm'))"

subsection \<open>Pages in the file\<close>

definition page_file_offset :: "DiskManager \<Rightarrow> 32 word \<Rightarrow> nat" where
  "page_file_offset dm pid =
     unat (fh_data_offset (dm_header dm) + ucast (pid - 1) * word_of_nat (dc_page_size (dm_config dm)))"

text \<open>\<open>fseek\<close> takes a \<open>long\<close> and refuses a negative one.\<close>

definition LONG_LIMIT :: nat where "LONG_LIMIT = 2 ^ 63"

definition dm_page :: "DiskManager \<Rightarrow> nat \<Rightarrow> Page" where
  "dm_page dm a = hp_page (dm_heap dm) a"

definition dm_set_page :: "DiskManager \<Rightarrow> nat \<Rightarrow> Page \<Rightarrow> DiskManager" where
  "dm_set_page dm a page = dm\<lparr>dm_heap := (dm_heap dm)\<lparr>hp_page := (hp_page (dm_heap dm))(a := page)\<rparr>\<rparr>"

text \<open>None: the bytes are no page that the model has a value for, see \<open>page_deserialize\<close>.\<close>

definition read_page_from_disk :: "Device \<Rightarrow> FileState \<Rightarrow> DiskManager \<Rightarrow> nat \<Rightarrow> (DiskManagerError \<times> DiskManager) option" where
  "read_page_from_disk dv fs dm a =
     (case fs_data_file fs of
        None \<Rightarrow> Some (DM_ERR_NULL_PTR, dm)
      | Some path \<Rightarrow>
          (let off = page_file_offset dm (page_id (dm_page dm a));
               size = dc_page_size (dm_config dm);
               got = bytes_at (file_of fs path) off size
           in if off \<ge> LONG_LIMIT then Some (DM_ERR_IO, dm)
              else if \<not> dv_read dv off then Some (DM_ERR_IO, dm)
              else case page_deserialize (dm_page dm a) (if length got \<noteq> size then replicate size 0 else got) of
                (err, None) \<Rightarrow> None
              | (err, Some page) \<Rightarrow>
                  (let dm1 = dm_set_page dm a page in
                   if err \<noteq> PAGE_OK then Some (DM_ERR_CORRUPT, dm1)
                   else Some (DM_OK, dm1\<lparr>dm_stats := (dm_stats dm1)\<lparr>io_pages_read := io_pages_read (dm_stats dm1) + 1,
                          io_bytes_read := io_bytes_read (dm_stats dm1) + word_of_nat size\<rparr>\<rparr>))))"

definition write_page_to_disk ::
  "Device \<Rightarrow> FileState \<Rightarrow> DiskManager \<Rightarrow> nat \<Rightarrow> DiskManagerError \<times> FileState \<times> DiskManager" where
  "write_page_to_disk dv fs dm a =
     (case fs_data_file fs of
        None \<Rightarrow> (DM_ERR_NULL_PTR, fs, dm)
      | Some path \<Rightarrow>
          (let off = page_file_offset dm (page_id (dm_page dm a)); size = dc_page_size (dm_config dm) in
           if off \<ge> LONG_LIMIT then (DM_ERR_IO, fs, dm)
           else case page_serialize (dm_page dm a) (replicate size 0) of (err, buffer) \<Rightarrow>
             if err \<noteq> PAGE_OK then (DM_ERR_IO, fs, dm)
             else if \<not> dv_write dv off then (DM_ERR_IO, fs, dm)
             else (DM_OK, set_file path (put_file (file_of fs path) off buffer) fs,
                   dm\<lparr>dm_stats := (dm_stats dm)\<lparr>io_pages_written := io_pages_written (dm_stats dm) + 1,
                     io_bytes_written := io_bytes_written (dm_stats dm) + word_of_nat size\<rparr>\<rparr>)))"

subsection \<open>Opening and closing\<close>

text \<open>The results of the writes are not looked at: a dirty page that cannot be written is marked clean.\<close>

definition sync_page :: "Device \<Rightarrow> nat \<Rightarrow> FileState \<times> DiskManager \<Rightarrow> FileState \<times> DiskManager" where
  "sync_page dv a = (\<lambda>(fs, dm).
     if ph_flags (pg_header (dm_page dm a)) AND PAGE_STATUS_DIRTY \<noteq> 0
     then (case write_page_to_disk dv fs dm a of (err, fs1, dm1) \<Rightarrow>
       (fs1, dm1\<lparr>dm_heap := set_page_flags (\<lambda>f. f AND NOT PAGE_STATUS_DIRTY) (dm_heap dm1) a\<rparr>))
     else (fs, dm))"

definition disk_manager_sync ::
  "Device \<Rightarrow> 64 word \<Rightarrow> FileState \<Rightarrow> DiskManager \<Rightarrow> DiskManagerError \<times> FileState \<times> DiskManager" where
  "disk_manager_sync dv now fs dm =
     (if \<not> dm_is_open dm then (DM_ERR_NOT_OPEN, fs, dm)
      else let (fs1, dm1) = fold (sync_page dv) (pp_pages (dm_pool dm)) (fs, dm);
               dm2 = dm1\<lparr>dm_header := (dm_header dm1)\<lparr>fh_page_count := word_of_nat (length (pp_pages (dm_pool dm1))),
                 fh_track_count := word_of_nat (length (pp_tracks (dm_pool dm1))),
                 fh_object_count := word_of_nat (pool_object_count (dm_heap dm1) (dm_pool dm1))\<rparr>\<rparr>;
               (err, fs3, dm3) = write_header dv now fs1 dm2
           in (DM_OK, fs3, dm3\<lparr>dm_is_dirty := False\<rparr>))"

definition disk_manager_close :: "Device \<Rightarrow> 64 word \<Rightarrow> FileState \<Rightarrow> DiskManager \<Rightarrow> FileState \<times> DiskManager" where
  "disk_manager_close dv now fs dm =
     (if \<not> dm_is_open dm then (fs, dm)
      else case disk_manager_sync dv now fs dm of (err, fs1, dm1) \<Rightarrow>
        (fs1\<lparr>fs_data_file := None\<rparr>, dm1\<lparr>dm_is_open := False\<rparr>))"

definition new_file_header :: "64 word \<Rightarrow> DiskManagerConfig \<Rightarrow> DiskFileHeader" where
  "new_file_header now cfg = zero_header\<lparr>fh_magic := DM_MAGIC, fh_version := DM_VERSION, fh_bounds := mbr_empty,
     fh_created_time := now, fh_modified_time := now, fh_page_size := word_of_nat (dc_page_size cfg),
     fh_pages_per_track := word_of_nat (dc_pages_per_track cfg), fh_index_offset := word_of_nat sizeof_DiskFileHeader,
     fh_data_offset := word_of_nat (sizeof_DiskFileHeader + PAGE_SIZE)\<rparr>"

definition disk_manager_create ::
  "allocator \<Rightarrow> Device \<Rightarrow> 64 word \<Rightarrow> FileState \<Rightarrow> DiskManager \<Rightarrow> string \<Rightarrow> DiskManagerError \<times> FileState \<times> DiskManager" where
  "disk_manager_create al dv now fs dm path =
     (let (fs1, dm1) = disk_manager_close dv now fs dm in
      if \<not> dv_open dv path then (DM_ERR_IO, fs1\<lparr>fs_data_file := None\<rparr>, dm1)
      else let fs2 = set_file path [] fs1 in
        if \<not> al (length path + 1) then (DM_ERR_ALLOC, fs2\<lparr>fs_data_file := None, fs_file_path := None\<rparr>, dm1)
        else
          let fs3 = fs2\<lparr>fs_data_file := Some path, fs_file_path := Some path\<rparr>;
              (err, fs4, dm4) = write_header dv now fs3 (dm1\<lparr>dm_header := new_file_header now (dm_config dm1)\<rparr>)
          in if err \<noteq> DM_OK then (err, fs4\<lparr>fs_data_file := None, fs_file_path := None\<rparr>, dm4)
             else (DM_OK, fs4, dm4\<lparr>dm_is_open := True, dm_is_dirty := False\<rparr>))"

text \<open>
  One turn of the loop that loads the pages; None as for \<open>read_page_from_disk\<close>.  Other errors of the
  read are not looked at.  (The loop counter of the C code has 32 bits, so with a page count of
  \<open>2 ^ 32 - 1\<close> the loop would not end; the model loads the pages.)
\<close>

definition load_page :: "allocator \<Rightarrow> Device \<Rightarrow> FileState \<Rightarrow> nat \<Rightarrow> DiskManager \<Rightarrow> DiskManager option" where
  "load_page al dv fs i dm =
     (case page_pool_alloc al (dm_heap dm) (dm_pool dm) 0 of
        (None, h, pool) \<Rightarrow> Some (dm\<lparr>dm_heap := h, dm_pool := pool\<rparr>)
      | (Some a, h, pool) \<Rightarrow>
          (let dm1 = dm\<lparr>dm_heap := h, dm_pool := pool\<rparr>;
               dm2 = dm_set_page dm1 a (set_header (\<lambda>hd. hd\<lparr>ph_page_id := word_of_nat i\<rparr>) (dm_page dm1 a))
           in case read_page_from_disk dv fs dm2 a of
                None \<Rightarrow> None
              | Some (err, dm3) \<Rightarrow>
                  Some (if length (pg_objects (dm_page dm3 a)) > 0 then update_allocation_tree al dm3 a else dm3)))"

fun load_pages :: "allocator \<Rightarrow> Device \<Rightarrow> FileState \<Rightarrow> nat list \<Rightarrow> DiskManager \<Rightarrow> DiskManager option" where
  "load_pages al dv fs [] dm = Some dm"
| "load_pages al dv fs (i # is) dm =
     (case load_page al dv fs i dm of None \<Rightarrow> None | Some dm' \<Rightarrow> load_pages al dv fs is dm')"

definition disk_manager_open ::
  "allocator \<Rightarrow> Device \<Rightarrow> 64 word \<Rightarrow> FileState \<Rightarrow> DiskManager \<Rightarrow> string \<Rightarrow> (DiskManagerError \<times> FileState \<times> DiskManager) option" where
  "disk_manager_open al dv now fs dm path =
     (let (fs1, dm1) = disk_manager_close dv now fs dm in
      if \<not> dv_open dv path \<or> fs_files fs1 path = None then Some (DM_ERR_IO, fs1\<lparr>fs_data_file := None\<rparr>, dm1)
      else if \<not> al (length path + 1) then Some (DM_ERR_ALLOC, fs1\<lparr>fs_data_file := None, fs_file_path := None\<rparr>, dm1)
      else
        let fs2 = fs1\<lparr>fs_data_file := Some path, fs_file_path := Some path\<rparr> in
        case read_header dv fs2 dm1 of (err, dm2) \<Rightarrow>
          if err \<noteq> DM_OK then Some (err, fs2\<lparr>fs_data_file := None, fs_file_path := None\<rparr>, dm2)
          else map_option (\<lambda>dm3. (DM_OK, fs2, dm3\<lparr>dm_is_open := True, dm_is_dirty := False\<rparr>))
                 (load_pages al dv fs2 [1..<unat (fh_page_count (dm_header dm2)) + 1] dm2))"

definition disk_manager_free :: "Device \<Rightarrow> 64 word \<Rightarrow> FileState \<Rightarrow> DiskManager \<Rightarrow> FileState \<times> Heap" where
  "disk_manager_free dv now fs dm =
     (case disk_manager_close dv now fs dm of (fs1, dm1) \<Rightarrow>
        (fs1\<lparr>fs_data_file := None, fs_file_path := None\<rparr>, fst (page_pool_free (dm_heap dm1) (dm_pool dm1))))"

subsection \<open>Access to pages\<close>

text \<open>None: the eviction of the cache does not return, or as for \<open>read_page_from_disk\<close>.\<close>

definition disk_manager_get_page ::
  "allocator \<Rightarrow> Device \<Rightarrow> 64 word \<Rightarrow> FileState \<Rightarrow> DiskManager \<Rightarrow> 32 word \<Rightarrow> (nat option \<times> DiskManager) option" where
  "disk_manager_get_page al dv now fs dm pid =
     (case page_cache_get al now (dm_heap dm) (dm_pool dm) (dm_cache dm) pid of
        None \<Rightarrow> None
      | Some (Some a, cache) \<Rightarrow> Some (Some a, dm\<lparr>dm_cache := cache,
          dm_stats := (dm_stats dm)\<lparr>io_cache_hits := io_cache_hits (dm_stats dm) + 1\<rparr>\<rparr>)
      | Some (None, cache) \<Rightarrow>
          (let dm1 = dm\<lparr>dm_cache := cache,
                dm_stats := (dm_stats dm)\<lparr>io_cache_misses := io_cache_misses (dm_stats dm) + 1\<rparr>\<rparr>
           in case page_pool_get (dm_heap dm1) (dm_pool dm1) pid of
                None \<Rightarrow> Some (None, dm1)
              | Some a \<Rightarrow>
                  if \<not> pg_in_memory (dm_page dm1 a) \<and> dm_is_open dm1
                  then map_option (\<lambda>(err, dm2). (Some a, dm2)) (read_page_from_disk dv fs dm1 a)
                  else Some (Some a, dm1)))"

definition disk_manager_write_page ::
  "Device \<Rightarrow> FileState \<Rightarrow> DiskManager \<Rightarrow> nat \<Rightarrow> DiskManagerError \<times> FileState \<times> DiskManager" where
  "disk_manager_write_page dv fs dm a =
     (let dm1 = dm\<lparr>dm_heap := set_page_flags (\<lambda>f. f OR PAGE_STATUS_DIRTY) (dm_heap dm) a, dm_is_dirty := True\<rparr> in
      if dc_sync_on_write (dm_config dm1) \<and> dm_is_open dm1 then write_page_to_disk dv fs dm1 a else (DM_OK, fs, dm1))"

definition disk_manager_file_size :: "FileState \<Rightarrow> nat" where
  "disk_manager_file_size fs = (case fs_data_file fs of None \<Rightarrow> 0 | Some path \<Rightarrow> length (file_of fs path))"

definition disk_manager_file_exists :: "Device \<Rightarrow> FileState \<Rightarrow> string \<Rightarrow> bool" where
  "disk_manager_file_exists dv fs path = (dv_open dv path \<and> fs_files fs path \<noteq> None)"

end
