(* ===== verification/PageCodec_Inv.thy ===== *)
theory PageCodec_Inv
  imports PageCodec Page_Inv
begin

text \<open>
  Writing a page and reading it back.  \<open>stored_object\<close> is what the format keeps of an object.
\<close>

definition record_bytes :: "SpatialObject \<Rightarrow> 8 word list" where
  "record_bytes obj = word_bytes 8 (so_id obj) @ word_bytes 4 (type_code (so_type obj)) @
     point_bytes (so_centroid obj) @ mbr_bytes (so_mbr obj)"

definition stored_object :: "SpatialObject \<Rightarrow> SpatialObject" where
  "stored_object obj = zero_object\<lparr>so_id := so_id obj,
     so_geom := (case so_type obj of GEOM_POINT \<Rightarrow> G_point zero_point | GEOM_LINESTRING \<Rightarrow> G_line zero_linestring
       | GEOM_POLYGON \<Rightarrow> G_polygon zero_polygon),
     so_centroid := so_centroid obj, so_mbr := so_mbr obj\<rparr>"

definition stored_page :: "Page \<Rightarrow> Page \<Rightarrow> Page" where
  "stored_page fresh page = fresh\<lparr>pg_header := pg_header page, pg_objects := map stored_object (pg_objects page), pg_in_memory := True\<rparr>"

lemma length_record_bytes [simp]: "length (record_bytes obj) = sizeof_record"
  by (simp add: record_bytes_def sizeof_record_def)

subsection \<open>The buffer\<close>

lemma memcpy_zeros:
  "off = length pre \<Longrightarrow> length bs \<le> m \<Longrightarrow>
    memcpy_to (pre @ replicate m 0) off bs = (pre @ bs) @ replicate (m - length bs) 0"
  by (simp add: memcpy_to_def)

lemma put_object_zeros:
  assumes "off = length pre" "sizeof_record \<le> m"
  shows "put_object obj (pre @ replicate m 0, off) = ((pre @ record_bytes obj) @ replicate (m - sizeof_record) 0, off + sizeof_record)"
  using assms by (simp add: put_object_def Let_def memcpy_zeros record_bytes_def sizeof_record_def del: append_assoc)

lemma put_objects_zeros:
  "off = length pre \<Longrightarrow> sizeof_record * length objs \<le> m \<Longrightarrow>
    fst (fold put_object objs (pre @ replicate m 0, off)) =
      pre @ concat (map record_bytes objs) @ replicate (m - sizeof_record * length objs) 0"
proof (induction objs arbitrary: pre off m)
  case Nil
  then show ?case by simp
next
  case (Cons obj objs)
  have m: "sizeof_record \<le> m" using Cons.prems(2) by simp
  have step: "put_object obj (pre @ replicate m 0, off) = ((pre @ record_bytes obj) @ replicate (m - sizeof_record) 0, off + sizeof_record)"
    by (rule put_object_zeros [OF Cons.prems(1) m])
  have off: "off + sizeof_record = length (pre @ record_bytes obj)" using Cons.prems(1) by simp
  have room: "sizeof_record * length objs \<le> m - sizeof_record" using Cons.prems(2) by simp
  have "m - sizeof_record - sizeof_record * length objs = m - sizeof_record * length (obj # objs)" by simp
  with Cons.IH [OF off room] show ?case by (simp only: fold.simps comp_apply step) simp
qed

lemma page_serialize_bytes:
  assumes "length (pg_objects page) \<le> MAX_OBJECTS_PER_PAGE" "PAGE_SIZE \<le> length buffer"
  shows "page_serialize page buffer = (PAGE_OK, header_bytes page @ concat (map record_bytes (pg_objects page)) @
    replicate (length buffer - sizeof_PageHeader - sizeof_record * length (pg_objects page)) 0)"
proof -
  have fits: "sizeof_PageHeader \<le> length buffer" "sizeof_record * length (pg_objects page) \<le> length buffer - sizeof_PageHeader"
    using assms by (simp_all add: sizeof_PageHeader_def sizeof_record_def PAGE_SIZE_def MAX_OBJECTS_PER_PAGE_def)
  have "memcpy_to (replicate (length buffer) 0) 0 (header_bytes page) =
      header_bytes page @ replicate (length buffer - sizeof_PageHeader) 0"
    using memcpy_zeros [of 0 "[]" "header_bytes page" "length buffer"] fits by simp
  with put_objects_zeros [of sizeof_PageHeader "header_bytes page" "pg_objects page"] fits assms(2) show ?thesis
    by (simp add: page_serialize_def)
qed

lemma page_serialize_length:
  "length (pg_objects page) \<le> MAX_OBJECTS_PER_PAGE \<Longrightarrow> length (snd (page_serialize page buffer)) = length buffer"
proof -
  assume n: "length (pg_objects page) \<le> MAX_OBJECTS_PER_PAGE"
  have "length (concat (map record_bytes objs)) = sizeof_record * length objs" for objs
    by (induction objs) simp_all
  then show ?thesis
    using page_serialize_bytes [OF n, of buffer] n
    by (cases "PAGE_SIZE \<le> length buffer")
      (auto simp: page_serialize_def PAGE_SIZE_def sizeof_PageHeader_def sizeof_record_def MAX_OBJECTS_PER_PAGE_def)
qed

subsection \<open>Reading it back\<close>

lemma get_header_bytes: "get_header (header_bytes page @ rest) = pg_header page"
  by (simp add: get_header_def header_bytes_def get_u32_def get_u64_def get_mbr_def get_point_def get_double_def bytes_at_def
      mbr_bytes_def point_bytes_def)

lemma get_count_bytes:
  "length (pg_objects page) \<le> MAX_OBJECTS_PER_PAGE \<Longrightarrow> unat (get_u32 (header_bytes page @ rest) 8) = length (pg_objects page)"
  by (simp add: header_bytes_def get_u32_def bytes_at_def unat_of_nat MAX_OBJECTS_PER_PAGE_def)

lemma get_object_bytes:
  "off = length pre \<Longrightarrow> get_object (pre @ record_bytes obj @ rest) off = Some (stored_object obj)"
  by (cases "so_type obj")
    (simp_all add: get_object_def record_bytes_def get_u32_def get_u64_def get_mbr_def get_point_def get_double_def bytes_at_def
      mbr_bytes_def point_bytes_def zero_geom_def stored_object_def)

lemma get_objects_bytes:
  "off = length pre \<Longrightarrow> get_objects (pre @ concat (map record_bytes objs) @ rest) off (length objs) = Some (map stored_object objs)"
proof (induction objs arbitrary: pre off)
  case Nil
  then show ?case by simp
next
  case (Cons obj objs)
  have off: "off + sizeof_record = length (pre @ record_bytes obj)" using Cons.prems by simp
  from Cons.IH [OF off] get_object_bytes [OF Cons.prems, of obj "concat (map record_bytes objs) @ rest"] show ?case
    by simp
qed

lemma page_roundtrip:
  assumes "length (pg_objects page) \<le> MAX_OBJECTS_PER_PAGE" "PAGE_SIZE \<le> length buffer"
  shows "page_deserialize fresh (snd (page_serialize page buffer)) = (PAGE_OK, Some (stored_page fresh page))"
proof -
  let ?bytes = "snd (page_serialize page buffer)"
  note b = page_serialize_bytes [OF assms]
  have len: "\<not> length ?bytes < PAGE_SIZE" using page_serialize_length [OF assms(1)] assms(2) by simp
  have n: "unat (get_u32 ?bytes 8) = length (pg_objects page)" unfolding b snd_conv by (rule get_count_bytes [OF assms(1)])
  have objs: "get_objects ?bytes sizeof_PageHeader (length (pg_objects page)) = Some (map stored_object (pg_objects page))"
    unfolding b snd_conv by (rule get_objects_bytes) simp
  have hd: "get_header ?bytes = pg_header page" unfolding b snd_conv by (rule get_header_bytes)
  show ?thesis
    using assms(1) len unfolding page_deserialize_def Let_def n objs hd by (simp add: stored_page_def)
qed

text \<open>Zero bytes read as a page without objects and with id 0.\<close>

lemma word_of_zero_bytes [simp]: "word_of_bytes (replicate n 0) = 0"
  by (induction n) simp_all

lemma bytes_at_zeros [simp]: "bytes_at (replicate n 0) off k = replicate (min k (n - off)) 0"
  by (simp add: bytes_at_def)

definition zero_page_header :: PageHeader where
  "zero_page_header = \<lparr>ph_page_id = 0, ph_track_id = 0, ph_flags = 0, ph_extent = zero_mbr, ph_centroid = zero_point, ph_checksum = 0\<rparr>"

lemma page_deserialize_zeros:
  "PAGE_SIZE \<le> n \<Longrightarrow> page_deserialize fresh (replicate n 0) =
    (PAGE_OK, Some (fresh\<lparr>pg_header := zero_page_header, pg_objects := [], pg_in_memory := True\<rparr>))"
  by (simp add: page_deserialize_def get_header_def get_u32_def get_u64_def get_mbr_def get_point_def get_double_def
      zero_page_header_def zero_mbr_def zero_point_def d_zero_def)

text \<open>What a stored page keeps.\<close>

lemma stored_object_simps [simp]:
  "so_id (stored_object obj) = so_id obj" "so_centroid (stored_object obj) = so_centroid obj"
  "so_mbr (stored_object obj) = so_mbr obj" "so_type (stored_object obj) = so_type obj"
  by (simp_all add: stored_object_def so_type_def split: GeomType.split)

lemma stored_page_inv: "page_inv page \<Longrightarrow> pg_capacity fresh = MAX_OBJECTS_PER_PAGE \<Longrightarrow> page_inv (stored_page fresh page)"
  by (simp add: page_inv_def stored_page_def)

lemma stored_page_verify: "page_verify (stored_page fresh page) = page_verify page"
proof -
  have "fold (\<lambda>obj hash. hash XOR fnv1a_hash (word_bytes 8 (so_id obj)) XOR fnv1a_hash (point_bytes (so_centroid obj)))
      (map stored_object objs) s =
    fold (\<lambda>obj hash. hash XOR fnv1a_hash (word_bytes 8 (so_id obj)) XOR fnv1a_hash (point_bytes (so_centroid obj))) objs s" for objs s
    by (induction objs arbitrary: s) simp_all
  then show ?thesis by (simp add: page_verify_def page_checksum_def stored_page_def)
qed

end
