(* ===== verification/DiskFile_Inv.thy ===== *)
theory DiskFile_Inv
  imports DiskFile PageCodec_Inv DiskManager_Inv
begin

unbundle bit_operations_syntax

text \<open>
  The data file as an image of the pages: where \<open>disk_manager_sync\<close> puts each page, and what
  \<open>disk_manager_open\<close> reads back, on a device that works.
\<close>

definition working_device :: Device where
  "working_device = \<lparr>dv_open = (\<lambda>path. True), dv_read = (\<lambda>off. True), dv_write = (\<lambda>off. True)\<rparr>"

lemma working_device_simps [simp]:
  "dv_open working_device path" "dv_read working_device off" "dv_write working_device off"
  by (simp_all add: working_device_def)

subsection \<open>Files\<close>

lemma put_file_append:
  "length file \<le> off \<Longrightarrow> put_file file off bytes = file @ replicate (off - length file) 0 @ bytes"
  by (simp add: put_file_def)

lemma put_file_front: "length bytes \<le> length file \<Longrightarrow> put_file file 0 bytes = bytes @ drop (length bytes) file"
  by (simp add: put_file_def)

lemma bytes_at_front:
  "length bytes \<le> length file \<Longrightarrow> length bytes \<le> off \<Longrightarrow> bytes_at (put_file file 0 bytes) off n = bytes_at file off n"
  by (simp add: put_file_front bytes_at_def)

lemma bytes_at_append: "off + n \<le> length file \<Longrightarrow> bytes_at (file @ tail) off n = bytes_at file off n"
  by (simp add: bytes_at_def)

lemma length_file_header_bytes:
  "length (fh_reserved fh) = 64 \<Longrightarrow> length (file_header_bytes fh) = sizeof_DiskFileHeader"
  by (simp add: file_header_bytes_def sizeof_DiskFileHeader_def)

lemma file_header_roundtrip:
  "length (fh_reserved fh) = 64 \<Longrightarrow> get_file_header (file_header_bytes fh @ rest) = fh"
  by (simp add: get_file_header_def file_header_bytes_def get_u32_def get_u64_def get_mbr_def get_double_def bytes_at_def
      mbr_bytes_def)

subsection \<open>The slots of the file\<close>

definition data_start :: nat where "data_start = sizeof_DiskFileHeader + PAGE_SIZE"

definition slot_offset :: "nat \<Rightarrow> nat" where
  "slot_offset k = data_start + k * PAGE_SIZE"

definition slot :: "8 word list \<Rightarrow> nat \<Rightarrow> 8 word list" where
  "slot file k = bytes_at file (slot_offset k) PAGE_SIZE"

definition dirty :: "Page \<Rightarrow> bool" where
  "dirty p = (ph_flags (pg_header p) AND PAGE_STATUS_DIRTY \<noteq> 0)"

definition page_image :: "Page \<Rightarrow> 8 word list" where
  "page_image p = snd (page_serialize p (replicate PAGE_SIZE 0))"

text \<open>What the slot of a page holds: the page if it was dirty, otherwise a hole.\<close>

definition slot_holds :: "8 word list \<Rightarrow> nat \<Rightarrow> Page \<Rightarrow> bool" where
  "slot_holds file k p = (if dirty p then slot file k = page_image p else slot file k = [] \<or> slot file k = replicate PAGE_SIZE 0)"

lemma length_page_image: "length (pg_objects p) \<le> MAX_OBJECTS_PER_PAGE \<Longrightarrow> length (page_image p) = PAGE_SIZE"
  using page_serialize_length [of p "replicate PAGE_SIZE 0"] by (simp add: page_image_def)

lemma slot_holds_append_page:
  assumes "length file \<le> slot_offset k" "length bytes = PAGE_SIZE"
  shows "slot (file @ replicate (slot_offset k - length file) 0 @ bytes) k = bytes"
  using assms by (simp add: slot_def bytes_at_def)

lemma slot_holds_extend:
  assumes j: "j < k" and holds: "slot_holds file j p"
    and small: "length (pg_objects p) \<le> MAX_OBJECTS_PER_PAGE"
  shows "slot_holds (file @ replicate (slot_offset k - length file) 0 @ bytes) j p"
proof -
  have jk: "slot_offset j + PAGE_SIZE \<le> slot_offset k"
    using j by (auto simp: slot_offset_def PAGE_SIZE_def)
  show ?thesis
  proof (cases "slot file j = []")
    case True
    then have short: "length file \<le> slot_offset j"
      by (auto simp: slot_def bytes_at_def PAGE_SIZE_def)
    have "\<not> dirty p" using holds True length_page_image [OF small] by (auto simp: slot_holds_def PAGE_SIZE_def)
    moreover have "slot (file @ replicate (slot_offset k - length file) 0 @ bytes) j = replicate PAGE_SIZE 0"
      using short jk by (simp add: slot_def bytes_at_def)
    ultimately show ?thesis by (simp add: slot_holds_def)
  next
    case False
    then have "length (slot file j) = PAGE_SIZE"
      using holds length_page_image [OF small] by (auto simp: slot_holds_def split: if_splits)
    then have "slot_offset j + PAGE_SIZE \<le> length file"
      by (auto simp: slot_def bytes_at_def PAGE_SIZE_def)
    then have "slot (file @ replicate (slot_offset k - length file) 0 @ bytes) j = slot file j"
      by (simp add: slot_def bytes_at_append)
    then show ?thesis using holds by (simp add: slot_holds_def)
  qed
qed

subsection \<open>Offsets\<close>

definition file_format :: "DiskManager \<Rightarrow> bool" where
  "file_format dm = (dc_page_size (dm_config dm) = PAGE_SIZE \<and> fh_data_offset (dm_header dm) = word_of_nat data_start)"

lemma word_of_nat_pred: "(word_of_nat (Suc k) :: 32 word) - 1 = word_of_nat k"
  by simp

lemma ucast_word_of_nat: "k < 2 ^ 32 \<Longrightarrow> (ucast (word_of_nat k :: 32 word) :: 64 word) = word_of_nat k"
  by (simp add: unsigned_of_nat take_bit_nat_eq_self)

lemma page_file_offset_slot:
  assumes "file_format dm" "k < 2 ^ 32"
  shows "page_file_offset dm (word_of_nat (Suc k)) = slot_offset k" "slot_offset k < LONG_LIMIT"
proof -
  have bound: "slot_offset k < 2 ^ 63"
    using assms(2) by (simp add: slot_offset_def data_start_def sizeof_DiskFileHeader_def PAGE_SIZE_def)
  have "page_file_offset dm (word_of_nat (Suc k)) = unat (word_of_nat data_start + word_of_nat k * word_of_nat PAGE_SIZE :: 64 word)"
    using assms(1) by (simp only: page_file_offset_def word_of_nat_pred ucast_word_of_nat [OF assms(2)] file_format_def)
  also have "\<dots> = unat (word_of_nat (slot_offset k) :: 64 word)"
    by (simp add: slot_offset_def)
  also have "\<dots> = slot_offset k" using bound by (simp add: unat_of_nat)
  finally show "page_file_offset dm (word_of_nat (Suc k)) = slot_offset k" .
  show "slot_offset k < LONG_LIMIT" using bound by (simp add: LONG_LIMIT_def)
qed

definition page_ids_from_1 :: "DiskManager \<Rightarrow> bool" where
  "page_ids_from_1 dm = (\<forall>k < length (pp_pages (dm_pool dm)).
     page_id (dm_page dm (pp_pages (dm_pool dm) ! k)) = word_of_nat (Suc k))"

definition numbered :: "DiskManager \<Rightarrow> bool" where
  "numbered dm = (length (pp_pages (dm_pool dm)) < 2 ^ 32 \<and> page_ids_from_1 dm)"

lemma numbered_id:
  assumes "numbered dm" "k < length (pp_pages (dm_pool dm))"
  shows "page_id (dm_page dm (pp_pages (dm_pool dm) ! k)) = word_of_nat (Suc k)"
  using assms unfolding numbered_def page_ids_from_1_def by blast

subsection \<open>Writing all pages\<close>

definition clean :: "Page \<Rightarrow> Page" where
  "clean p = (if dirty p then set_header (\<lambda>h. h\<lparr>ph_flags := ph_flags h AND NOT PAGE_STATUS_DIRTY\<rparr>) p else p)"

lemma dirty_clean [simp]: "\<not> dirty (clean p)"
proof -
  have "(f AND NOT PAGE_STATUS_DIRTY) AND PAGE_STATUS_DIRTY = 0" for f :: "32 word"
    by (rule bit_word_eqI) (auto simp: bit_simps)
  then show ?thesis by (simp add: clean_def dirty_def)
qed

lemma clean_simps [simp]:
  "pg_objects (clean p) = pg_objects p" "pg_capacity (clean p) = pg_capacity p" "page_id (clean p) = page_id p"
  "page_extent (clean p) = page_extent p"
  by (simp_all add: clean_def)

lemma dm_page_set [simp]: "dm_page (dm_set_page dm a p) b = (if b = a then p else dm_page dm b)"
  by (simp add: dm_page_def dm_set_page_def)

lemma dm_set_fields [simp]:
  "dm_pool (dm_set_page dm a p) = dm_pool dm" "dm_header (dm_set_page dm a p) = dm_header dm"
  "dm_config (dm_set_page dm a p) = dm_config dm" "dm_tree (dm_set_page dm a p) = dm_tree dm"
  "dm_is_open (dm_set_page dm a p) = dm_is_open dm"
  by (simp_all add: dm_set_page_def)

lemma file_of_set [simp]: "file_of (set_file path bytes fs) path = bytes"
  by (simp add: file_of_def set_file_def)

lemma set_file_fields [simp]:
  "fs_data_file (set_file path bytes fs) = fs_data_file fs" "fs_file_path (set_file path bytes fs) = fs_file_path fs"
  "fs_files (set_file path bytes fs) = (fs_files fs)(path \<mapsto> bytes)"
  by (simp_all add: set_file_def)

lemma sync_page_ok:
  assumes ff: "file_format dm" and k: "k < 2 ^ 32" and id: "page_id (dm_page dm a) = word_of_nat (Suc k)"
    and path: "fs_data_file fs = Some path" and small: "length (pg_objects (dm_page dm a)) \<le> MAX_OBJECTS_PER_PAGE"
    and beyond: "length (file_of fs path) \<le> slot_offset k"
  shows "\<exists>fs' dm'. sync_page working_device a (fs, dm) = (fs', dm') \<and>
    fs_data_file fs' = Some path \<and> fs_file_path fs' = fs_file_path fs \<and>
    (\<exists>stats. dm' = (dm_set_page dm a (clean (dm_page dm a)))\<lparr>dm_stats := stats\<rparr>) \<and>
    (dirty (dm_page dm a) \<longrightarrow> file_of fs' path =
        file_of fs path @ replicate (slot_offset k - length (file_of fs path)) 0 @ page_image (dm_page dm a)) \<and>
    (\<not> dirty (dm_page dm a) \<longrightarrow> fs' = fs)"
proof (cases "dirty (dm_page dm a)")
  case False
  have "dm = (dm_set_page dm a (dm_page dm a))\<lparr>dm_stats := dm_stats dm\<rparr>"
    by (simp add: dm_set_page_def dm_page_def)
  with False path show ?thesis by (auto simp: sync_page_def dirty_def clean_def)
next
  case True
  note off = page_file_offset_slot [OF ff k]
  have ser: "page_serialize (dm_page dm a) (replicate PAGE_SIZE 0) = (PAGE_OK, page_image (dm_page dm a))"
    using page_serialize_bytes [OF small, of "replicate PAGE_SIZE 0"] by (simp add: page_image_def)
  have size: "dc_page_size (dm_config dm) = PAGE_SIZE" using ff by (simp add: file_format_def)
  have w: "write_page_to_disk working_device fs dm a =
      (DM_OK, set_file path (put_file (file_of fs path) (slot_offset k) (page_image (dm_page dm a))) fs,
       dm\<lparr>dm_stats := (dm_stats dm)\<lparr>io_pages_written := io_pages_written (dm_stats dm) + 1,
         io_bytes_written := io_bytes_written (dm_stats dm) + word_of_nat PAGE_SIZE\<rparr>\<rparr>)"
    using off path by (simp add: write_page_to_disk_def id ser size)
  show ?thesis
    using True path beyond unfolding sync_page_def dirty_def
    by (simp add: w put_file_append set_page_flags_def clean_def dirty_def dm_set_page_def dm_page_def)
      (intro exI [of _ "(dm_stats dm)\<lparr>io_pages_written := io_pages_written (dm_stats dm) + 1,
         io_bytes_written := io_bytes_written (dm_stats dm) + word_of_nat PAGE_SIZE\<rparr>"], simp)
qed

definition same_manager :: "DiskManager \<Rightarrow> DiskManager \<Rightarrow> bool" where
  "same_manager dm dm' = (dm_pool dm' = dm_pool dm \<and> dm_header dm' = dm_header dm \<and> dm_config dm' = dm_config dm \<and>
     dm_is_open dm' = dm_is_open dm \<and> dm_tree dm' = dm_tree dm)"

lemma same_manager_format: "same_manager dm dm' \<Longrightarrow> file_format dm' = file_format dm"
  by (simp add: same_manager_def file_format_def)

lemma sync_pages_ok:
  assumes ff: "file_format dm" and num: "numbered dm" and dist: "distinct (pp_pages (dm_pool dm))"
    and small: "\<forall>a \<in> set (pp_pages (dm_pool dm)). length (pg_objects (dm_page dm a)) \<le> MAX_OBJECTS_PER_PAGE"
    and path: "fs_data_file fs = Some path" and start: "length (file_of fs path) \<le> data_start"
  shows "k \<le> length (pp_pages (dm_pool dm)) \<Longrightarrow>
    \<exists>fs' dm'. fold (sync_page working_device) (take k (pp_pages (dm_pool dm))) (fs, dm) = (fs', dm') \<and>
      fs_data_file fs' = Some path \<and> fs_file_path fs' = fs_file_path fs \<and>
      length (file_of fs path) \<le> length (file_of fs' path) \<and> length (file_of fs' path) \<le> slot_offset k \<and>
      (\<forall>j < k. slot_holds (file_of fs' path) j (dm_page dm (pp_pages (dm_pool dm) ! j))) \<and> same_manager dm dm' \<and>
      (\<forall>a. dm_page dm' a = (if a \<in> set (take k (pp_pages (dm_pool dm))) then clean (dm_page dm a) else dm_page dm a))"
proof (induction k)
  case 0
  show ?case using path start by (simp add: slot_offset_def same_manager_def)
next
  case (Suc k)
  let ?ps = "pp_pages (dm_pool dm)" and ?a = "pp_pages (dm_pool dm) ! k"
  have k: "k < length ?ps" using Suc.prems by simp
  obtain fs1 dm1 where IH: "fold (sync_page working_device) (take k ?ps) (fs, dm) = (fs1, dm1)"
    "fs_data_file fs1 = Some path" "fs_file_path fs1 = fs_file_path fs"
    "length (file_of fs path) \<le> length (file_of fs1 path)" "length (file_of fs1 path) \<le> slot_offset k"
    "\<forall>j < k. slot_holds (file_of fs1 path) j (dm_page dm (?ps ! j))" "same_manager dm dm1"
    "\<forall>a. dm_page dm1 a = (if a \<in> set (take k ?ps) then clean (dm_page dm a) else dm_page dm a)"
    using Suc.IH [OF less_imp_le [OF k]] by blast
  have "?a \<notin> set (take k ?ps)"
    using dist k by (auto simp: in_set_conv_nth nth_eq_iff_index_eq)
  then have a: "dm_page dm1 ?a = dm_page dm ?a" using IH(8) by simp
  have bound: "k < 2 ^ 32" using num k by (simp add: numbered_def)
  have id: "page_id (dm_page dm1 ?a) = word_of_nat (Suc k)" unfolding a by (rule numbered_id [OF num k])
  have sm: "length (pg_objects (dm_page dm1 ?a)) \<le> MAX_OBJECTS_PER_PAGE" unfolding a using small k by simp
  have ff1: "file_format dm1" using ff same_manager_format [OF IH(7)] by simp
  obtain fs2 dm2 stats where s: "sync_page working_device ?a (fs1, dm1) = (fs2, dm2)" "fs_data_file fs2 = Some path"
    "fs_file_path fs2 = fs_file_path fs1" "dm2 = (dm_set_page dm1 ?a (clean (dm_page dm1 ?a)))\<lparr>dm_stats := stats\<rparr>"
    and s5: "dirty (dm_page dm1 ?a) \<longrightarrow> file_of fs2 path =
        file_of fs1 path @ replicate (slot_offset k - length (file_of fs1 path)) 0 @ page_image (dm_page dm1 ?a)"
    "\<not> dirty (dm_page dm1 ?a) \<longrightarrow> fs2 = fs1"
    using sync_page_ok [OF ff1 bound id IH(2) sm IH(5)] by blast
  note img = length_page_image [OF sm]
  have step: "slot_offset (Suc k) = slot_offset k + PAGE_SIZE" by (simp add: slot_offset_def)
  have len: "length (file_of fs1 path) \<le> length (file_of fs2 path)" "length (file_of fs2 path) \<le> slot_offset (Suc k)"
    using s5 img IH(5) by (cases "dirty (dm_page dm1 ?a)"; simp add: step)+
  have holds: "slot_holds (file_of fs2 path) j (dm_page dm (?ps ! j))" if j: "j < Suc k" for j
  proof (cases "j = k")
    case True
    have "slot (file_of fs1 path) k = []" using IH(5) by (simp add: slot_def bytes_at_def)
    then show ?thesis
      using s5 slot_holds_append_page [OF IH(5) img] True by (cases "dirty (dm_page dm1 ?a)") (simp_all add: slot_holds_def a)
  next
    case False
    then have jk: "j < k" using j by simp
    then have "slot_holds (file_of fs1 path) j (dm_page dm (?ps ! j))" using IH(6) by simp
    moreover have "length (pg_objects (dm_page dm (?ps ! j))) \<le> MAX_OBJECTS_PER_PAGE" using small jk k by simp
    ultimately show ?thesis using s5 slot_holds_extend [OF jk] by (cases "dirty (dm_page dm1 ?a)") simp_all
  qed
  have same: "same_manager dm dm2" using IH(7) by (simp add: same_manager_def s(4))
  have pages: "dm_page dm2 b = (if b \<in> set (take (Suc k) ?ps) then clean (dm_page dm b) else dm_page dm b)" for b
  proof -
    have "dm_page dm2 b = (if b = ?a then clean (dm_page dm1 ?a) else dm_page dm1 b)"
      unfolding s(4) using dm_page_set [of dm1 ?a "clean (dm_page dm1 ?a)" b] by (simp add: dm_page_def)
    then show ?thesis using IH(8) a k by (auto simp: take_Suc_conv_app_nth)
  qed
  have "fold (sync_page working_device) (take (Suc k) ?ps) (fs, dm) = (fs2, dm2)"
    using IH(1) s(1) k by (simp add: take_Suc_conv_app_nth)
  moreover have "fs_file_path fs2 = fs_file_path fs" using s(3) IH(3) by simp
  moreover have "length (file_of fs path) \<le> length (file_of fs2 path)" using len(1) IH(4) by simp
  ultimately show ?case using s(2) len(2) holds same pages by blast
qed

end
