(* ===== verification/DiskLoad_Inv.thy ===== *)
theory DiskLoad_Inv
  imports DiskFile_Inv
begin

text \<open>Loading the pages of a file whose slots hold the pages \<open>P 0, P 1, \<dots>\<close>.\<close>

definition dm_objects :: "DiskManager \<Rightarrow> SpatialObject list" where
  "dm_objects dm = concat (map (\<lambda>a. pg_objects (dm_page dm a)) (pp_pages (dm_pool dm)))"

definition empty_if_clean :: "Page \<Rightarrow> bool" where
  "empty_if_clean p = (page_inv p \<and> (pg_objects p \<noteq> [] \<longrightarrow> dirty p))"

text \<open>What a slot reads as.\<close>

lemma slot_reads:
  assumes "slot_holds file k p" "empty_if_clean p" "pg_capacity fresh = MAX_OBJECTS_PER_PAGE"
  shows "\<exists>q. page_deserialize fresh (if length (slot file k) \<noteq> PAGE_SIZE then replicate PAGE_SIZE 0 else slot file k) =
    (PAGE_OK, Some q) \<and> page_inv q \<and> pg_objects q = map stored_object (pg_objects p)"
proof (cases "dirty p")
  case True
  have small: "length (pg_objects p) \<le> MAX_OBJECTS_PER_PAGE" using assms(2) by (simp add: empty_if_clean_def page_inv_def)
  have "slot file k = page_image p" using assms(1) True by (simp add: slot_holds_def)
  then have "page_deserialize fresh (if length (slot file k) \<noteq> PAGE_SIZE then replicate PAGE_SIZE 0 else slot file k) =
      (PAGE_OK, Some (stored_page fresh p))"
    using page_roundtrip [OF small, of "replicate PAGE_SIZE 0" fresh] length_page_image [OF small] by (simp add: page_image_def)
  moreover have "page_inv (stored_page fresh p)" using assms(2,3) by (simp add: empty_if_clean_def stored_page_inv)
  ultimately show ?thesis by (simp add: stored_page_def)
next
  case False
  then have "slot file k = [] \<or> slot file k = replicate PAGE_SIZE 0" "pg_objects p = []"
    using assms(1,2) by (auto simp: slot_holds_def empty_if_clean_def)
  then have "(if length (slot file k) \<noteq> PAGE_SIZE then replicate PAGE_SIZE 0 else slot file k) = replicate PAGE_SIZE 0"
    by auto
  moreover have "mbr_num zero_mbr" by (simp add: mbr_num_def zero_mbr_def isnan_def d_zero_def dmag_def inf_mag_def)
  then have "page_inv (fresh\<lparr>pg_header := zero_page_header, pg_objects := [], pg_in_memory := True\<rparr>)"
    using assms(3) by (simp add: page_inv_def zero_page_header_def)
  ultimately show ?thesis
    using page_deserialize_zeros [OF order_refl, of fresh] \<open>pg_objects p = []\<close> by auto
qed

lemma update_allocation_tree_fields [simp]:
  "dm_is_open (update_allocation_tree al dm a) = dm_is_open dm" "dm_page (update_allocation_tree al dm a) b = dm_page dm b"
  by (simp_all add: update_allocation_tree_def Let_def dm_page_def)

definition loads_from :: "FileState \<Rightarrow> string \<Rightarrow> DiskManager \<Rightarrow> bool" where
  "loads_from fs path dm = (fs_data_file fs = Some path \<and> file_format dm \<and> dm_inv dm)"

lemma load_page_ok:
  assumes src: "loads_from fs path dm" and k: "k < 2 ^ 32" and p: "slot_holds (file_of fs path) k p" "empty_if_clean p"
  shows "\<exists>dm'. load_page malloc_ok working_device fs (Suc k) dm = Some dm' \<and> loads_from fs path dm' \<and>
    dm_header dm' = dm_header dm \<and> dm_objects dm' = dm_objects dm @ map stored_object (pg_objects p)"
proof -
  have path: "fs_data_file fs = Some path" and ff: "file_format dm" and inv: "pool_inv (dm_heap dm) (dm_pool dm)"
    and tree: "tree_inv (dm_tree dm) (set (pp_pages (dm_pool dm)))"
    using src by (simp_all add: loads_from_def dm_inv_def)
  obtain r h pool where al: "page_pool_alloc malloc_ok (dm_heap dm) (dm_pool dm) 0 = (r, h, pool)"
    by (cases "page_pool_alloc malloc_ok (dm_heap dm) (dm_pool dm) 0")
  from page_pool_alloc_ok [OF inv al] obtain a where a: "r = Some a" "pool_inv h pool" "pp_pages pool = pp_pages (dm_pool dm) @ [a]"
    "a \<notin> set (hp_live (dm_heap dm))" "\<And>b. b \<noteq> a \<Longrightarrow> pg_objects (hp_page h b) = pg_objects (hp_page (dm_heap dm) b)"
    by blast
  define dm1 where "dm1 = dm\<lparr>dm_heap := h, dm_pool := pool\<rparr>"
  define q where "q = set_header (\<lambda>hd. hd\<lparr>ph_page_id := word_of_nat (Suc k)\<rparr>) (dm_page dm1 a)"
  define dm2 where "dm2 = dm_set_page dm1 a q"
  have ff2: "file_format dm2" using ff by (simp add: dm2_def dm1_def file_format_def)
  have id: "page_id (dm_page dm2 a) = word_of_nat (Suc k)" by (simp add: dm2_def q_def)
  have cap: "pg_capacity (dm_page dm2 a) = MAX_OBJECTS_PER_PAGE"
    using a(2,3) by (simp add: dm2_def q_def) (simp add: dm1_def dm_page_def pool_inv_def page_inv_def)
  have size: "dc_page_size (dm_config dm2) = PAGE_SIZE" using ff2 by (simp add: file_format_def)
  obtain page where page: "page_deserialize (dm_page dm2 a) (if length (slot (file_of fs path) k) \<noteq> PAGE_SIZE
      then replicate PAGE_SIZE 0 else slot (file_of fs path) k) = (PAGE_OK, Some page)" "page_inv page"
    "pg_objects page = map stored_object (pg_objects p)"
    using slot_reads [OF p cap] by blast
  have off: "page_file_offset dm2 (page_id (dm_page dm2 a)) = slot_offset k" "\<not> slot_offset k \<ge> LONG_LIMIT"
    using page_file_offset_slot [OF ff2 k] by (simp_all add: id)
  obtain stats where read: "read_page_from_disk working_device fs dm2 a = Some (DM_OK, (dm_set_page dm2 a page)\<lparr>dm_stats := stats\<rparr>)"
    using path page(1) off unfolding slot_def by (simp add: read_page_from_disk_def size Let_def)
  define dm3 where "dm3 = (dm_set_page dm2 a page)\<lparr>dm_stats := stats\<rparr>"
  define dm' where "dm' = (if length (pg_objects (dm_page dm3 a)) > 0 then update_allocation_tree malloc_ok dm3 a else dm3)"
  have run: "load_page malloc_ok working_device fs (Suc k) dm = Some dm'"
    unfolding load_page_def al [unfolded a(1)] Let_def prod.case option.case dm1_def [symmetric] q_def [symmetric]
      dm2_def [symmetric] read dm3_def [symmetric] dm'_def by (rule refl)
  have f3: "dm_pool dm3 = pool" "dm_header dm3 = dm_header dm" "dm_config dm3 = dm_config dm" "dm_tree dm3 = dm_tree dm"
    by (simp_all add: dm3_def dm2_def dm1_def)
  have pages3: "dm_page dm3 b = (if b = a then page else hp_page h b)" for b
    by (simp add: dm3_def dm2_def dm1_def dm_page_def dm_set_page_def)
  have "dm_heap dm3 = (dm_heap dm2)\<lparr>hp_page := (hp_page (dm_heap dm2))(a := page)\<rparr>" by (simp add: dm3_def dm_set_page_def)
  moreover have "dm_heap dm2 = h\<lparr>hp_page := (hp_page h)(a := q)\<rparr>" by (simp add: dm2_def dm1_def dm_set_page_def)
  ultimately have "pool_inv (dm_heap dm3) pool"
    using pool_inv_set_page [OF a(2) page(2), of a] by simp
  moreover have t3: "tree_inv (dm_tree dm3) (set (pp_pages pool))" using tree a(3) by (auto simp: f3 intro: tree_inv_mono)
  moreover have "tree_inv (dm_tree dm') (set (pp_pages pool))"
    using update_tree_inv [OF t3, of a] t3 a(3) by (simp add: dm'_def)
  moreover have "dm_heap dm' = dm_heap dm3" "dm_pool dm' = pool" by (simp_all add: dm'_def f3)
  ultimately have inv': "dm_inv dm'" by (simp add: dm_inv_def)
  have old: "pg_objects (dm_page dm3 b) = pg_objects (dm_page dm b)" if b: "b \<in> set (pp_pages (dm_pool dm))" for b
  proof -
    have "b \<in> set (hp_live (dm_heap dm))" using b inv unfolding pool_inv_def by blast
    then have ba: "b \<noteq> a" using a(4) by blast
    then have "pg_objects (dm_page dm3 b) = pg_objects (hp_page h b)" by (simp add: pages3)
    then show ?thesis using a(5) [OF ba] by (simp add: dm_page_def)
  qed
  have "dm_page dm' = dm_page dm3" "dm_pool dm' = pool" by (auto simp: dm'_def f3)
  then have "dm_objects dm' = concat (map (\<lambda>b. pg_objects (dm_page dm3 b)) (pp_pages (dm_pool dm))) @ pg_objects page"
    by (simp add: dm_objects_def a(3) pages3)
  also have "map (\<lambda>b. pg_objects (dm_page dm3 b)) (pp_pages (dm_pool dm)) = map (\<lambda>b. pg_objects (dm_page dm b)) (pp_pages (dm_pool dm))"
    using old by simp
  finally have "dm_objects dm' = dm_objects dm @ map stored_object (pg_objects p)" by (simp add: dm_objects_def page(3))
  moreover have "dm_header dm' = dm_header dm" "dm_config dm' = dm_config dm" by (simp_all add: dm'_def f3)
  then have "loads_from fs path dm'" using path ff inv' by (simp add: loads_from_def file_format_def)
  ultimately show ?thesis using run \<open>dm_header dm' = dm_header dm\<close> by blast
qed

lemma load_pages_ok:
  assumes "loads_from fs path dm" "\<forall>k \<in> set ks. k < 2 ^ 32 \<and> slot_holds (file_of fs path) k (P k) \<and> empty_if_clean (P k)"
  shows "\<exists>dm'. load_pages malloc_ok working_device fs (map Suc ks) dm = Some dm' \<and> loads_from fs path dm' \<and>
    dm_header dm' = dm_header dm \<and>
    dm_objects dm' = dm_objects dm @ map stored_object (concat (map (\<lambda>k. pg_objects (P k)) ks))"
  using assms
proof (induction ks arbitrary: dm)
  case Nil
  then show ?case by simp
next
  case (Cons k ks)
  then have k: "k < 2 ^ 32" "slot_holds (file_of fs path) k (P k)" "empty_if_clean (P k)"
    and ks: "\<forall>k \<in> set ks. k < 2 ^ 32 \<and> slot_holds (file_of fs path) k (P k) \<and> empty_if_clean (P k)" by simp_all
  obtain dm1 where d: "load_page malloc_ok working_device fs (Suc k) dm = Some dm1" "loads_from fs path dm1"
    "dm_header dm1 = dm_header dm" "dm_objects dm1 = dm_objects dm @ map stored_object (pg_objects (P k))"
    using load_page_ok [OF Cons.prems(1) k] by blast
  from Cons.IH [OF d(2) ks] d show ?case by auto
qed

end
