(* ===== verification/Persistence.thy ===== *)
theory Persistence
  imports SpatialIndex DiskFile
begin

text \<open>
  Saving and loading the index, src/src/spatial_index.c: the whole index goes through the data file of
  the disk manager, and a load builds the trees anew from the pages.
\<close>

definition spatial_index_save ::
  "allocator \<Rightarrow> Device \<Rightarrow> 64 word \<Rightarrow> FileState \<Rightarrow> SpatialIndex \<Rightarrow> string \<Rightarrow> SpatialIndexError \<times> FileState \<times> SpatialIndex" where
  "spatial_index_save al dv now fs idx path =
     (case disk_manager_create al dv now fs (si_disk idx) path of (err, fs1, dm1) \<Rightarrow>
        if err \<noteq> DM_OK then (SI_ERR_IO, fs1, idx\<lparr>si_disk := dm1\<rparr>)
        else case disk_manager_sync dv now fs1 dm1 of (err2, fs2, dm2) \<Rightarrow>
          (if err2 \<noteq> DM_OK then SI_ERR_IO else SI_OK, fs2, idx\<lparr>si_disk := dm2\<rparr>))"

text \<open>None as for \<open>disk_manager_open\<close>.\<close>

definition spatial_index_load ::
  "obj_ptr qsort \<Rightarrow> allocator \<Rightarrow> Device \<Rightarrow> 64 word \<Rightarrow> FileState \<Rightarrow> SpatialIndex \<Rightarrow> string \<Rightarrow>
    (SpatialIndexError \<times> FileState \<times> SpatialIndex) option" where
  "spatial_index_load qs al dv now fs idx path =
     (case disk_manager_open al dv now fs (si_disk idx) path of
        None \<Rightarrow> None
      | Some (err, fs1, dm1) \<Rightarrow>
          if err \<noteq> DM_OK then Some (SI_ERR_IO, fs1, idx\<lparr>si_disk := dm1\<rparr>)
          else (case spatial_index_build qs al (idx\<lparr>si_disk := dm1, si_bounds := fh_bounds (dm_header dm1)\<rparr>) of
            (err2, idx2) \<Rightarrow> Some (err2, fs1, idx2)))"

text \<open>Freeing the index closes its file, with a last sync, and frees the pages.\<close>

definition spatial_index_free :: "Device \<Rightarrow> 64 word \<Rightarrow> FileState \<Rightarrow> SpatialIndex \<Rightarrow> FileState \<times> Heap" where
  "spatial_index_free dv now fs idx = disk_manager_free dv now fs (si_disk idx)"

end
