(* ===== verification/Persistence_Inv.thy ===== *)
theory Persistence_Inv
  imports DiskLoad_Inv SpatialIndex_Sim Persistence
begin

unbundle bit_operations_syntax

text \<open>
  A save followed by a load.  The pages of an index that was not saved before are numbered from 1 in
  the order of the pool, and those with objects are dirty; so all objects go to the file and come back.
\<close>

subsection \<open>Indexes that were not saved\<close>

definition unsaved :: "DiskManager \<Rightarrow> bool" where
  "unsaved dm = (\<not> dm_is_open dm \<and> dc_page_size (dm_config dm) = PAGE_SIZE \<and>
     pp_next_page_id (dm_pool dm) = word_of_nat (length (pp_pages (dm_pool dm)) + 1) \<and>
     page_ids_from_1 dm \<and>
     (\<forall>a \<in> set (pp_pages (dm_pool dm)). pg_objects (dm_page dm a) \<noteq> [] \<longrightarrow> dirty (dm_page dm a)))"

text \<open>The parts of the disk manager that only the file operations change.\<close>

definition same_file_part :: "DiskManager \<Rightarrow> DiskManager \<Rightarrow> bool" where
  "same_file_part dm dm' = (dm_config dm' = dm_config dm \<and> dm_is_open dm' = dm_is_open dm)"

lemma same_file_part_refl [simp]: "same_file_part dm dm"
  by (simp add: same_file_part_def)

lemma same_file_part_update_tree [simp]: "same_file_part dm (update_allocation_tree al dm a)"
  by (simp add: same_file_part_def)

lemma same_file_part_rebuild [simp]: "same_file_part dm (disk_manager_rebuild_allocation_tree al dm)"
proof -
  have "same_file_part (dm\<lparr>dm_tree := kdtree_init\<rparr>) (disk_manager_rebuild_allocation_tree al dm)"
    unfolding disk_manager_rebuild_allocation_tree_def
    by (rule fold_invariant_list) (auto simp: same_file_part_def)
  then show ?thesis by (simp add: same_file_part_def)
qed

lemma create_track_frame:
  assumes "disk_manager_create_track malloc_ok dm = (r, dm')"
  shows "same_file_part dm dm' \<and> pp_next_page_id (dm_pool dm') = pp_next_page_id (dm_pool dm)"
  using assms by (auto simp: disk_manager_create_track_def page_pool_create_track_def same_file_part_def Let_def
      split: prod.splits option.splits if_splits)

lemma pool_track_add_frame:
  assumes "pool_track_add h pool t a = (err, h', pool')"
  shows "pp_next_page_id pool' = pp_next_page_id pool \<and> (\<forall>b. b \<noteq> a \<longrightarrow> hp_page h' b = hp_page h b)"
  using assms by (auto simp: pool_track_add_def track_add_page_def Let_def split: prod.splits if_splits)

lemma page_pool_alloc_frame:
  assumes "page_pool_alloc malloc_ok h pool tid = (Some a, h', pool')"
  shows "pp_next_page_id pool' = pp_next_page_id pool + 1 \<and> (\<forall>b. b \<noteq> a \<longrightarrow> hp_page h' b = hp_page h b)"
proof -
  define p1 where "p1 = (if length (pp_pages pool) \<ge> pp_page_capacity pool
    then pool\<lparr>pp_page_capacity := pp_page_capacity pool * GROWTH_FACTOR\<rparr> else pool)"
  have p1: "pp_next_page_id p1 = pp_next_page_id pool" by (simp add: p1_def)
  show ?thesis
    using assms unfolding page_pool_alloc_def page_create_def p1_def [symmetric] Let_def
    by (auto simp: malloc_ok_simp p1 dest: pool_track_add_frame split: if_splits option.splits prod.splits)
qed

lemma alloc_page_steps:
  assumes "disk_manager_alloc_page malloc_ok dm c = (Some a, dm')"
  shows "\<exists>t dm1 h pool err h2 pool2. (dm1 = dm \<or> (\<exists>r. disk_manager_create_track malloc_ok dm = (r, dm1))) \<and>
    page_pool_alloc malloc_ok (dm_heap dm1) (dm_pool dm1) (dt_track_id (pp_tracks (dm_pool dm1) ! t)) = (Some a, h, pool) \<and>
    pool_track_add (h\<lparr>hp_page := (hp_page h)(a := set_header (\<lambda>hd. hd\<lparr>ph_centroid := c\<rparr>) (hp_page h a))\<rparr>) pool t a =
      (err, h2, pool2) \<and>
    dm_heap dm' = h2 \<and> dm_pool dm' = pool2 \<and> same_file_part dm1 dm'"
proof -
  define td where "td = (case disk_manager_find_best_track dm c of
        Some t \<Rightarrow> if track_has_space (pp_tracks (dm_pool dm) ! t) then (Some t, dm) else disk_manager_create_track malloc_ok dm
      | None \<Rightarrow> disk_manager_create_track malloc_ok dm)"
  obtain track dm1 where td: "td = (track, dm1)" by (cases td)
  have dm1: "dm1 = dm \<or> (\<exists>r. disk_manager_create_track malloc_ok dm = (r, dm1))"
    using td by (auto simp: td_def split: option.splits if_splits)
  have run: "(case track of None \<Rightarrow> (None, dm1) | Some t \<Rightarrow>
      (case page_pool_alloc malloc_ok (dm_heap dm1) (dm_pool dm1) (dt_track_id (pp_tracks (dm_pool dm1) ! t)) of
         (None, h, pool) \<Rightarrow> (None, dm1\<lparr>dm_heap := h, dm_pool := pool\<rparr>)
       | (Some a, h, pool) \<Rightarrow>
           (let h1 = h\<lparr>hp_page := (hp_page h)(a := set_header (\<lambda>hd. hd\<lparr>ph_centroid := c\<rparr>) (hp_page h a))\<rparr>;
                (err, h2, pool2) = pool_track_add h1 pool t a;
                dm2 = update_allocation_tree malloc_ok (dm1\<lparr>dm_heap := h2, dm_pool := pool2\<rparr>) a
            in (Some a, dm2\<lparr>dm_is_dirty := True,
                  dm_header := (dm_header dm2)\<lparr>fh_bounds := mbr_expand_point (fh_bounds (dm_header dm2)) c,
                    fh_page_count := fh_page_count (dm_header dm2) + 1\<rparr>\<rparr>)))) = (Some a, dm')"
    using assms td unfolding disk_manager_alloc_page_def td_def [symmetric] by simp
  then obtain t where t: "track = Some t" by (cases track) auto
  obtain r h pool where al: "page_pool_alloc malloc_ok (dm_heap dm1) (dm_pool dm1) (dt_track_id (pp_tracks (dm_pool dm1) ! t)) = (r, h, pool)"
    by (cases "page_pool_alloc malloc_ok (dm_heap dm1) (dm_pool dm1) (dt_track_id (pp_tracks (dm_pool dm1) ! t))")
  obtain a' where r: "r = Some a'" using run by (cases r) (simp_all add: t al)
  obtain err h2 pool2 where add: "pool_track_add (h\<lparr>hp_page := (hp_page h)(a' := set_header (\<lambda>hd. hd\<lparr>ph_centroid := c\<rparr>) (hp_page h a'))\<rparr>)
      pool t a' = (err, h2, pool2)"
    by (cases "pool_track_add (h\<lparr>hp_page := (hp_page h)(a' := set_header (\<lambda>hd. hd\<lparr>ph_centroid := c\<rparr>) (hp_page h a'))\<rparr>) pool t a'")
  have "a' = a" "dm_heap dm' = h2" "dm_pool dm' = pool2" "same_file_part dm1 dm'"
    using run by (auto simp: t al r add Let_def same_file_part_def)
  with dm1 al r add show ?thesis by blast
qed

lemma alloc_page_frame:
  assumes inv: "dm_inv dm" and run: "disk_manager_alloc_page malloc_ok dm c = (Some a, dm')"
  shows "same_file_part dm dm' \<and> pp_next_page_id (dm_pool dm') = pp_next_page_id (dm_pool dm) + 1 \<and>
    page_id (dm_page dm' a) = pp_next_page_id (dm_pool dm) \<and> (\<forall>b. b \<noteq> a \<longrightarrow> dm_page dm' b = dm_page dm b)"
proof -
  obtain t dm1 h pool err h2 pool2 where s: "dm1 = dm \<or> (\<exists>r. disk_manager_create_track malloc_ok dm = (r, dm1))"
    "page_pool_alloc malloc_ok (dm_heap dm1) (dm_pool dm1) (dt_track_id (pp_tracks (dm_pool dm1) ! t)) = (Some a, h, pool)"
    "pool_track_add (h\<lparr>hp_page := (hp_page h)(a := set_header (\<lambda>hd. hd\<lparr>ph_centroid := c\<rparr>) (hp_page h a))\<rparr>) pool t a = (err, h2, pool2)"
    "dm_heap dm' = h2" "dm_pool dm' = pool2" "same_file_part dm1 dm'"
    using alloc_page_steps [OF run] by blast
  have d1: "dm_inv dm1 \<and> dm_heap dm1 = dm_heap dm \<and> same_file_part dm dm1 \<and> pp_next_page_id (dm_pool dm1) = pp_next_page_id (dm_pool dm)"
    using s(1) inv create_track_ok [OF inv] create_track_frame by auto
  then have pinv: "pool_inv (dm_heap dm1) (dm_pool dm1)" unfolding dm_inv_def by blast
  note f1 = page_pool_alloc_frame [OF s(2)] and f2 = pool_track_add_frame [OF s(3)]
  note p1 = page_pool_alloc_ok [OF pinv s(2)]
  then have "pool_inv h pool" "a \<in> set (pp_pages pool)" "page_id (hp_page h a) = pp_next_page_id (dm_pool dm1)" by auto
  moreover have "pool_inv (h\<lparr>hp_page := (hp_page h)(a := set_header (\<lambda>hd. hd\<lparr>ph_centroid := c\<rparr>) (hp_page h a))\<rparr>) pool"
    using calculation by (intro pool_inv_set_page page_inv_header) (simp_all add: pool_inv_def)
  ultimately have "page_id (hp_page h2 a) = pp_next_page_id (dm_pool dm1)"
    using pool_track_add_inv [OF _ _ s(3)] by simp
  then show ?thesis
    using d1 f1 f2 s(4,5,6) by (simp add: dm_page_def same_file_part_def)
qed

lemma unsaved_alloc:
  assumes u: "unsaved dm" and inv: "dm_inv dm" and run: "disk_manager_alloc_page malloc_ok dm c = (Some a, dm')"
  shows "unsaved dm'"
proof -
  note f = alloc_page_frame [OF inv run]
  have a: "pp_pages (dm_pool dm') = pp_pages (dm_pool dm) @ [a]" "a \<notin> set (pp_pages (dm_pool dm))" "pg_objects (dm_page dm' a) = []"
    using disk_manager_alloc_page_ok [OF inv run] by (auto simp: dm_page_def)
  have old: "dm_page dm' b = dm_page dm b" if "b \<in> set (pp_pages (dm_pool dm))" for b
    using that a(2) f by auto
  have "page_ids_from_1 dm'"
    unfolding page_ids_from_1_def a(1)
  proof (intro allI impI)
    fix k
    assume k: "k < length (pp_pages (dm_pool dm) @ [a])"
    show "page_id (dm_page dm' ((pp_pages (dm_pool dm) @ [a]) ! k)) = word_of_nat (Suc k)"
    proof (cases "k < length (pp_pages (dm_pool dm))")
      case True
      then show ?thesis using u old by (simp add: nth_append unsaved_def page_ids_from_1_def)
    next
      case False
      with k have "k = length (pp_pages (dm_pool dm))" by simp
      then show ?thesis using u f by (simp add: unsaved_def)
    qed
  qed
  then show ?thesis
    using u f a old by (auto simp: unsaved_def same_file_part_def)
qed

lemma unsaved_same:
  assumes "unsaved dm" "same_file_part dm dm'" "dm_page dm' = dm_page dm" "pp_pages (dm_pool dm') = pp_pages (dm_pool dm)"
    "pp_next_page_id (dm_pool dm') = pp_next_page_id (dm_pool dm)"
  shows "unsaved dm'"
  using assms by (simp add: unsaved_def same_file_part_def page_ids_from_1_def)

lemma unsaved_rebuild: "unsaved dm \<Longrightarrow> unsaved (disk_manager_rebuild_allocation_tree malloc_ok dm)"
  by (erule unsaved_same) (simp_all add: rebuild_inv dm_page_def fun_eq_iff)

lemma unsaved_set_page:
  assumes "unsaved dm" "page_id p = page_id (dm_page dm a)" "dirty p"
  shows "unsaved (dm_set_page dm a p)"
proof -
  have "page_ids_from_1 (dm_set_page dm a p)"
    using assms(1,2) by (auto simp: unsaved_def page_ids_from_1_def)
  then show ?thesis using assms by (simp add: unsaved_def)
qed

subsection \<open>The operations keep an index unsaved\<close>

lemma dirty_bits:
  "((f OR PAGE_STATUS_DIRTY) AND PAGE_STATUS_DIRTY) \<noteq> 0"
  "((f OR PAGE_STATUS_DIRTY OR g) AND PAGE_STATUS_DIRTY) \<noteq> 0"
  "(((f OR PAGE_STATUS_DIRTY) AND NOT PAGE_STATUS_FULL) AND PAGE_STATUS_DIRTY) \<noteq> 0" for f g :: "32 word"
proof -
  have two: "bit PAGE_STATUS_DIRTY 2" "\<not> bit PAGE_STATUS_FULL 2"
    by (simp_all add: PAGE_STATUS_DIRTY_def PAGE_STATUS_FULL_def)
  have ne: "x \<noteq> 0" if "bit x 2" for x :: "32 word" using that by auto
  show "((f OR PAGE_STATUS_DIRTY) AND PAGE_STATUS_DIRTY) \<noteq> 0"
    "((f OR PAGE_STATUS_DIRTY OR g) AND PAGE_STATUS_DIRTY) \<noteq> 0"
    "(((f OR PAGE_STATUS_DIRTY) AND NOT PAGE_STATUS_FULL) AND PAGE_STATUS_DIRTY) \<noteq> 0"
    by (rule ne, use two in \<open>simp add: bit_simps\<close>)+
qed

lemma page_add_object_dirty: "page_add_object al p obj = (PAGE_OK, p') \<Longrightarrow> dirty p' \<and> page_id p' = page_id p"
  using dirty_bits(1) [of "ph_flags (pg_header p)"] dirty_bits(2) [of "ph_flags (pg_header p)" PAGE_STATUS_FULL]
  by (auto simp: page_add_object_def dirty_def Let_def or.assoc split: prod.splits if_splits)

lemma dirty_update_derived [simp]: "dirty (page_update_derived p) = dirty p"
  by (simp add: dirty_def)

lemma page_remove_object_dirty: "page_remove_object p oid = (PAGE_OK, p') \<Longrightarrow> dirty p' \<and> page_id p' = page_id p"
  using dirty_bits(3) [of "ph_flags (pg_header p)"]
  by (auto simp: page_remove_object_def dirty_def split: option.splits)

lemma si_disk_set_page [simp]: "si_disk (si_set_page idx a p) = dm_set_page (si_disk idx) a p"
  by (simp add: si_set_page_def dm_set_page_def)

lemma si_page_dm: "si_page idx a = dm_page (si_disk idx) a"
  by (simp add: si_page_def dm_page_def)

lemma get_page_cases:
  assumes "get_page_for_insert malloc_ok idx obj = (Some a, idx')"
  shows "idx' = idx \<or> (\<exists>dm. disk_manager_alloc_page malloc_ok (si_disk idx) (so_centroid obj) = (Some a, dm) \<and> idx' = idx\<lparr>si_disk := dm\<rparr>)"
  using assms unfolding get_page_for_insert_def Let_def
  by (auto split: option.splits prod.splits if_splits sum.splits)

text \<open>The steps of an insertion on the disk manager: at most one new page, then one page changes.\<close>

lemma insert_steps:
  assumes inv: "si_inv idx"
  shows "\<exists>a dm2 p. (dm2 = si_disk idx \<or> disk_manager_alloc_page malloc_ok (si_disk idx) (so_centroid (insert_object idx obj)) = (Some a, dm2)) \<and>
    dirty p \<and> page_id p = page_id (dm_page dm2 a) \<and>
    si_disk (fst (snd (spatial_index_insert malloc_ok idx obj))) =
      disk_manager_rebuild_allocation_tree malloc_ok (dm_set_page (dm_set_page dm2 a p) a (page_update_derived p))"
proof -
  let ?obj = "insert_object idx obj"
  define idx1 where "idx1 = (if so_id obj = 0 then idx\<lparr>si_next_object_id := si_next_object_id idx + 1\<rparr> else idx)"
  have d1: "si_disk idx1 = si_disk idx" by (simp add: idx1_def)
  then have inv1: "si_inv idx1" using inv by (simp add: si_inv_def)
  obtain r idx2 where g: "get_page_for_insert malloc_ok idx1 ?obj = (r, idx2)" by (cases "get_page_for_insert malloc_ok idx1 ?obj")
  obtain a where a: "r = Some a" "\<not> page_is_full (si_page idx2 a)" using get_page_for_insert_ok [OF inv1 g] by blast
  have alloc: "si_disk idx2 = si_disk idx \<or> disk_manager_alloc_page malloc_ok (si_disk idx) (so_centroid ?obj) = (Some a, si_disk idx2)"
    using get_page_cases [OF g [unfolded a(1)]] d1 by auto
  have room: "length (pg_objects (si_page idx2 a)) < pg_capacity (si_page idx2 a)" using a(2) by (simp add: page_is_full_def)
  obtain p where p: "page_add_object malloc_ok (si_page idx2 a) ?obj = (PAGE_OK, p)" using page_add_object_ok [OF room] by blast
  have "si_disk (fst (snd (spatial_index_insert malloc_ok idx obj))) =
      disk_manager_rebuild_allocation_tree malloc_ok (dm_set_page (dm_set_page (si_disk idx2) a p) a (page_update_derived p))"
    using g a(1) p by (simp add: spatial_index_insert_def insert_object_def idx1_def Let_def split: if_splits)
  with alloc page_add_object_dirty [OF p] show ?thesis by (metis si_page_dm)
qed

lemma unsaved_insert:
  assumes inv: "si_inv idx" and u: "unsaved (si_disk idx)"
  shows "unsaved (si_disk (fst (snd (spatial_index_insert malloc_ok idx obj))))"
proof -
  obtain a dm2 p where s: "dm2 = si_disk idx \<or> disk_manager_alloc_page malloc_ok (si_disk idx) (so_centroid (insert_object idx obj)) = (Some a, dm2)"
    "dirty p" "page_id p = page_id (dm_page dm2 a)" "si_disk (fst (snd (spatial_index_insert malloc_ok idx obj))) =
      disk_manager_rebuild_allocation_tree malloc_ok (dm_set_page (dm_set_page dm2 a p) a (page_update_derived p))"
    using insert_steps [OF inv, of obj] by blast
  have "unsaved dm2" using s(1) u inv unsaved_alloc [OF u] by (auto simp: si_inv_def)
  then have "unsaved (dm_set_page (dm_set_page dm2 a p) a (page_update_derived p))"
    using s(2,3) by (intro unsaved_set_page) simp_all
  then show ?thesis unfolding s(4) by (rule unsaved_rebuild)
qed

lemma insert_page_count:
  assumes inv: "si_inv idx"
  shows "length (pp_pages (si_pool (fst (snd (spatial_index_insert malloc_ok idx obj))))) \<le> length (pp_pages (si_pool idx)) + 1"
proof -
  have dm: "dm_inv (si_disk idx)" using inv by (simp add: si_inv_def)
  have "length (pp_pages (dm_pool dm2)) = length (pp_pages (si_pool idx)) + 1"
    if "disk_manager_alloc_page malloc_ok (si_disk idx) c = (Some a, dm2)" for c a dm2
    using disk_manager_alloc_page_ok [OF dm that] by auto
  then show ?thesis
    using insert_steps [OF inv, of obj] by (auto simp: rebuild_inv)
qed

lemma unsaved_remove: "unsaved (si_disk idx) \<Longrightarrow> unsaved (si_disk (snd (spatial_index_remove malloc_ok idx oid)))"
proof (cases "find_page_for_object idx oid")
  case None
  then show "unsaved (si_disk idx) \<Longrightarrow> ?thesis" by (simp add: spatial_index_remove_def)
next
  case (Some a)
  assume u: "unsaved (si_disk idx)"
  obtain err p where r: "page_remove_object (si_page idx a) oid = (err, p)" by (cases "page_remove_object (si_page idx a) oid")
  show ?thesis
  proof (cases "err = PAGE_OK")
    case True
    then have "unsaved (dm_set_page (si_disk idx) a (page_update_derived p))"
      using page_remove_object_dirty [of "si_page idx a" oid p] r u by (intro unsaved_set_page) (simp_all add: si_page_dm)
    then show ?thesis using Some r True by (simp add: spatial_index_remove_def Let_def unsaved_rebuild)
  next
    case False
    then show ?thesis using Some r u by (simp add: spatial_index_remove_def)
  qed
qed

lemma unsaved_create_block:
  assumes "unsaved (si_disk idx)" "si_inv idx"
  shows "unsaved (si_disk (snd (create_block malloc_ok idx b)))"
proof -
  obtain r dm where t: "disk_manager_create_track malloc_ok (si_disk idx) = (r, dm)" by (cases "disk_manager_create_track malloc_ok (si_disk idx)")
  have "unsaved dm"
    using assms create_track_frame [OF t] create_track_same [OF t]
    by (intro unsaved_same [OF assms(1)]) (auto simp: si_inv_def dm_page_def fun_eq_iff)
  then show ?thesis using t by (simp add: create_block_def malloc_ok_simp Let_def)
qed

lemma unsaved_build:
  assumes inv: "si_inv idx" and u: "unsaved (si_disk idx)"
  shows "unsaved (si_disk (snd (spatial_index_build qs malloc_ok idx)))"
proof (cases "pool_object_count (si_heap idx) (si_pool idx) = 0")
  case True
  then show ?thesis using u by (simp add: spatial_index_build_def Let_def)
next
  case False
  obtain err bt where bt: "kdtree_bulk_load qs malloc_ok kdtree_init (map (object_point idx) (all_ptrs idx)) = (err, bt)"
    by (cases "kdtree_bulk_load qs malloc_ok kdtree_init (map (object_point idx) (all_ptrs idx))")
  obtain perr bounds where part: "kdtree_partition malloc_ok bt (sc_block_size (si_config idx)) = (perr, bounds)"
    by (cases "kdtree_partition malloc_ok bt (sc_block_size (si_config idx))")
  define idx2 where "idx2 = idx\<lparr>si_block_tree := bt, si_blocks := [], si_block_capacity := (if length bounds > 0 then length bounds else 16)\<rparr>"
  define idx3 where "idx3 = fold (\<lambda>b i. snd (create_block malloc_ok i b)) bounds idx2"
  have "si_inv idx2" "unsaved (si_disk idx2)" using inv u by (simp_all add: idx2_def si_inv_def)
  then have "si_inv idx3 \<and> unsaved (si_disk idx3)"
    unfolding idx3_def
    by (intro fold_invariant_list [where I = "\<lambda>i. si_inv i \<and> unsaved (si_disk i)"]) (auto simp: create_block_same unsaved_create_block)
  moreover obtain idx4 where q: "build_page_quadtree malloc_ok idx3 = (SI_OK, idx4)" "si_disk idx4 = si_disk idx3"
    using build_page_quadtree_same by blast
  moreover have "si_disk (snd (spatial_index_build qs malloc_ok idx)) = (if err \<noteq> KD_OK \<or> perr \<noteq> KD_OK then si_disk idx else si_disk idx4)"
    using False bt part q(1) unfolding idx3_def idx2_def by (simp add: spatial_index_build_def malloc_ok_simp Let_def)
  ultimately show ?thesis using u by simp
qed

lemma unsaved_step:
  assumes inv: "si_inv idx" and num: "op_num op" and u: "unsaved (si_disk idx)"
  shows "unsaved (si_disk (si_apply qs op idx))"
proof (cases op)
  case (Op_update oid obj)
  obtain err idx1 where r: "spatial_index_remove malloc_ok idx oid = (err, idx1)" by (cases "spatial_index_remove malloc_ok idx oid")
  have u1: "unsaved (si_disk idx1)" using unsaved_remove [OF u, of oid] r by simp
  have inv1: "si_inv idx1"
    using si_step_sim [OF inv, of "Op_remove oid"] r by (simp add: si_apply_def)
  let ?copy = "(snd (spatial_object_copy malloc_ok obj))\<lparr>so_id := oid\<rparr>"
  obtain err2 idx2 obj2 where i: "spatial_index_insert malloc_ok idx1 ?copy = (err2, idx2, obj2)"
    by (cases "spatial_index_insert malloc_ok idx1 ?copy")
  have "unsaved (si_disk idx2)" using unsaved_insert [OF inv1 u1, of ?copy] by (simp add: i)
  then show ?thesis using u1 by (simp add: Op_update si_apply_def spatial_index_update_def r i Let_def)
qed (use assms in \<open>simp_all add: si_apply_def unsaved_insert unsaved_remove unsaved_build\<close>)

lemma unsaved_init:
  assumes "spatial_index_init malloc_ok h config = (SI_OK, idx)"
  shows "unsaved (si_disk idx)"
  using assms
  by (auto simp: spatial_index_init_def disk_manager_init_def page_pool_init_def page_cache_init_def Let_def malloc_ok_simp
      zero_pool_def unsaved_def page_ids_from_1_def disk_manager_default_config_def split: if_splits)

lemma si_reach_unsaved: "si_reach qs idx \<Longrightarrow> unsaved (si_disk idx)"
  by (induction rule: si_reach.induct) (auto intro: unsaved_init unsaved_step si_reach_inv)

subsection \<open>Saving\<close>

definition savable :: "DiskManager \<Rightarrow> bool" where
  "savable dm = (\<not> dm_is_open dm \<and> dc_page_size (dm_config dm) = PAGE_SIZE \<and> numbered dm \<and>
     distinct (pp_pages (dm_pool dm)) \<and>
     (\<forall>a \<in> set (pp_pages (dm_pool dm)). length (pg_objects (dm_page dm a)) \<le> MAX_OBJECTS_PER_PAGE))"

text \<open>What a save leaves in the file.\<close>

definition saved_file :: "8 word list \<Rightarrow> nat \<Rightarrow> (nat \<Rightarrow> Page) \<Rightarrow> bool" where
  "saved_file file n P = (sizeof_DiskFileHeader \<le> length file \<and>
     (let fh = get_file_header file in fh_magic fh = DM_MAGIC \<and> fh_version fh = DM_VERSION \<and>
        fh_page_count fh = word_of_nat n \<and> fh_data_offset fh = word_of_nat data_start \<and> fh_bounds fh = mbr_empty) \<and>
     (\<forall>k < n. slot_holds file k (P k)))"

lemma file_header_front:
  "length (fh_reserved fh) = 64 \<Longrightarrow> sizeof_DiskFileHeader \<le> length file \<Longrightarrow>
    get_file_header (put_file file 0 (file_header_bytes fh)) = fh"
  by (simp add: put_file_front length_file_header_bytes file_header_roundtrip)

lemma slot_front:
  "length bytes = sizeof_DiskFileHeader \<Longrightarrow> sizeof_DiskFileHeader \<le> length file \<Longrightarrow> slot (put_file file 0 bytes) k = slot file k"
  unfolding slot_def by (rule bytes_at_front) (simp_all add: slot_offset_def data_start_def)

lemma create_ok:
  assumes "\<not> dm_is_open dm"
  shows "disk_manager_create malloc_ok working_device now fs dm path =
    (DM_OK, (set_file path (file_header_bytes (new_file_header now (dm_config dm))) fs)\<lparr>fs_data_file := Some path, fs_file_path := Some path\<rparr>,
     dm\<lparr>dm_header := new_file_header now (dm_config dm), dm_is_open := True, dm_is_dirty := False\<rparr>)"
proof -
  have "put_file [] 0 bytes = bytes" for bytes by (simp add: put_file_def)
  moreover have "(new_file_header now cfg)\<lparr>fh_modified_time := now\<rparr> = new_file_header now cfg" for cfg
    by (simp add: new_file_header_def)
  ultimately show ?thesis
    using assms by (simp add: disk_manager_create_def disk_manager_close_def write_header_def malloc_ok_simp Let_def
        set_file_def file_of_def)
qed

lemma save_closed:
  assumes "savable dm"
  shows "\<exists>fs1 dm1. disk_manager_create malloc_ok working_device now fs dm path = (DM_OK, fs1, dm1) \<and>
    (\<exists>fs2 dm2 img. disk_manager_sync working_device now fs1 dm1 = (DM_OK, fs2, dm2) \<and> fs_data_file fs2 = Some path \<and>
      fs_files fs2 path = Some img \<and>
      saved_file img (length (pp_pages (dm_pool dm))) (\<lambda>k. dm_page dm (pp_pages (dm_pool dm) ! k)) \<and>
      dm_pool dm2 = dm_pool dm \<and> dm_config dm2 = dm_config dm \<and> dm_is_open dm2 \<and>
      (\<forall>a \<in> set (pp_pages (dm_pool dm)). dm_page dm2 a = clean (dm_page dm a)) \<and>
      length (fh_reserved (dm_header dm2)) = 64 \<and> get_file_header img = dm_header dm2)"
proof -
  let ?n = "length (pp_pages (dm_pool dm))"
  define hd0 where "hd0 = new_file_header now (dm_config dm)"
  define fs1 where "fs1 = (set_file path (file_header_bytes hd0) fs)\<lparr>fs_data_file := Some path, fs_file_path := Some path\<rparr>"
  define dm1 where "dm1 = dm\<lparr>dm_header := hd0, dm_is_open := True, dm_is_dirty := False\<rparr>"
  have create: "disk_manager_create malloc_ok working_device now fs dm path = (DM_OK, fs1, dm1)"
    using assms by (simp add: create_ok savable_def fs1_def dm1_def hd0_def)
  have hd0: "length (fh_reserved hd0) = 64" "fh_data_offset hd0 = word_of_nat data_start" "fh_bounds hd0 = mbr_empty"
    "fh_magic hd0 = DM_MAGIC" "fh_version hd0 = DM_VERSION"
    by (simp_all add: hd0_def new_file_header_def zero_header_def data_start_def)
  have f1: "file_of fs1 path = file_header_bytes hd0" by (simp add: fs1_def file_of_def)
  have len1: "length (file_of fs1 path) = sizeof_DiskFileHeader" by (simp add: f1 length_file_header_bytes hd0)
  have page1: "dm_page dm1 = dm_page dm" "dm_pool dm1 = dm_pool dm" by (simp_all add: dm1_def dm_page_def fun_eq_iff)
  have ff: "file_format dm1" using assms hd0 by (simp add: dm1_def file_format_def savable_def)
  have num: "numbered dm1" using assms by (simp add: savable_def numbered_def page_ids_from_1_def page1)
  have dist: "distinct (pp_pages (dm_pool dm1))" and small: "\<forall>a \<in> set (pp_pages (dm_pool dm1)). length (pg_objects (dm_page dm1 a)) \<le> MAX_OBJECTS_PER_PAGE"
    using assms by (simp_all add: savable_def page1)
  have data1: "fs_data_file fs1 = Some path" by (simp add: fs1_def)
  have start: "length (file_of fs1 path) \<le> data_start" by (simp add: len1 data_start_def)
  obtain fs' dm' where s: "fold (sync_page working_device) (pp_pages (dm_pool dm)) (fs1, dm1) = (fs', dm')"
    "fs_data_file fs' = Some path" "length (file_of fs1 path) \<le> length (file_of fs' path)"
    "\<forall>j < ?n. slot_holds (file_of fs' path) j (dm_page dm (pp_pages (dm_pool dm) ! j))" "same_manager dm1 dm'"
    "\<forall>a. dm_page dm' a = (if a \<in> set (pp_pages (dm_pool dm)) then clean (dm_page dm a) else dm_page dm a)"
    using sync_pages_ok [OF ff num dist small data1 start, of ?n] unfolding page1 take_all [OF order_refl] by blast
  have same: "dm_pool dm' = dm_pool dm" "dm_header dm' = hd0" "dm_config dm' = dm_config dm" "dm_is_open dm'"
    using s(5) by (simp_all add: same_manager_def dm1_def)
  define hd2 where "hd2 = hd0\<lparr>fh_page_count := word_of_nat ?n, fh_track_count := word_of_nat (length (pp_tracks (dm_pool dm))),
    fh_object_count := word_of_nat (pool_object_count (dm_heap dm') (dm_pool dm)), fh_modified_time := now\<rparr>"
  define img where "img = put_file (file_of fs' path) 0 (file_header_bytes hd2)"
  define dm2 where "dm2 = dm'\<lparr>dm_header := hd2, dm_is_dirty := False\<rparr>"
  have r2: "length (fh_reserved hd2) = 64" by (simp add: hd2_def hd0)
  have sync: "disk_manager_sync working_device now fs1 dm1 = (DM_OK, set_file path img fs', dm2)"
    using s(1,2) same unfolding img_def dm2_def hd2_def
    by (simp add: disk_manager_sync_def dm1_def write_header_def Let_def)
  have long: "sizeof_DiskFileHeader \<le> length (file_of fs' path)" using s(3) len1 by simp
  have "length img = length (file_of fs' path)"
    using long by (simp add: img_def put_file_front length_file_header_bytes r2)
  moreover have hdr: "get_file_header img = hd2" unfolding img_def by (rule file_header_front [OF r2 long])
  moreover have "slot img k = slot (file_of fs' path) k" for k
    unfolding img_def by (rule slot_front [OF length_file_header_bytes [OF r2] long])
  ultimately have saved: "saved_file img ?n (\<lambda>k. dm_page dm (pp_pages (dm_pool dm) ! k))"
    using long s(4) hd0 by (simp add: saved_file_def slot_holds_def hd2_def Let_def)
  have "dm_page dm2 = dm_page dm'" by (simp add: dm2_def dm_page_def fun_eq_iff)
  then show ?thesis
    using create sync saved same s(2,6) r2 hdr
    by (intro exI [of _ fs1] exI [of _ dm1] conjI exI [of _ "set_file path img fs'"] exI [of _ dm2] exI [of _ img])
      (simp_all add: dm2_def)
qed

lemma unsaved_savable:
  assumes "unsaved dm" "dm_inv dm" "length (pp_pages (dm_pool dm)) < 2 ^ 32"
  shows "savable dm"
  using assms by (auto simp: savable_def unsaved_def numbered_def dm_inv_def pool_inv_def page_inv_def dm_page_def)

lemma unsaved_empty_if_clean:
  assumes "unsaved dm" "dm_inv dm" "a \<in> set (pp_pages (dm_pool dm))"
  shows "empty_if_clean (dm_page dm a)"
  using assms by (auto simp: empty_if_clean_def unsaved_def dm_inv_def pool_inv_def dm_page_def)

subsection \<open>Loading\<close>

text \<open>A stream that is not open on any file.\<close>

definition closed_stream :: "FileState \<Rightarrow> FileState" where
  "closed_stream fs = fs\<lparr>fs_data_file := None, fs_file_path := None\<rparr>"

lemma open_ok:
  assumes f: "fs_files fs path = Some bytes" "saved_file bytes n P" and n: "n < 2 ^ 32" and P: "\<forall>k < n. empty_if_clean (P k)"
    and dm: "\<not> dm_is_open dm" "dc_page_size (dm_config dm) = PAGE_SIZE" "dm_inv dm"
  shows "\<exists>fs' dm'. disk_manager_open malloc_ok working_device now fs dm path = Some (DM_OK, fs', dm') \<and> dm_inv dm' \<and>
    fs_files fs' = fs_files fs \<and> fh_bounds (dm_header dm') = mbr_empty \<and>
    dm_objects dm' = dm_objects dm @ map stored_object (concat (map (\<lambda>k. pg_objects (P k)) [0..<n]))"
proof -
  define fs' where "fs' = fs\<lparr>fs_data_file := Some path, fs_file_path := Some path\<rparr>"
  define fh where "fh = get_file_header bytes"
  define dm1 where "dm1 = dm\<lparr>dm_header := fh\<rparr>"
  have bytes: "file_of fs' path = bytes" using f(1) by (simp add: fs'_def file_of_def)
  have fh: "fh_magic fh = DM_MAGIC" "fh_version fh = DM_VERSION" "unat (fh_page_count fh) = n" "fh_bounds fh = mbr_empty"
    "fh_data_offset fh = word_of_nat data_start" and slots: "\<forall>k < n. slot_holds bytes k (P k)" and len: "sizeof_DiskFileHeader \<le> length bytes"
    using f(2) n by (simp_all add: saved_file_def fh_def Let_def unat_of_nat)
  have header: "read_header working_device fs' dm = (DM_OK, dm1)"
    using bytes len fh by (simp add: read_header_def fs'_def dm1_def fh_def [symmetric] Let_def)
  have src: "loads_from fs' path dm1"
    using dm fh by (simp add: loads_from_def fs'_def dm1_def file_format_def dm_inv_def)
  have "\<forall>k \<in> set [0..<n]. k < 2 ^ 32 \<and> slot_holds (file_of fs' path) k (P k) \<and> empty_if_clean (P k)"
    using n P slots bytes by simp
  from load_pages_ok [OF src this] obtain dm2 where d: "load_pages malloc_ok working_device fs' (map Suc [0..<n]) dm1 = Some dm2"
    "loads_from fs' path dm2" "dm_header dm2 = fh"
    "dm_objects dm2 = dm_objects dm1 @ map stored_object (concat (map (\<lambda>k. pg_objects (P k)) [0..<n]))"
    by (auto simp: dm1_def)
  have upt: "[Suc 0..<Suc n] = map Suc [0..<n]" by (simp add: map_Suc_upt del: upt_Suc)
  have "disk_manager_open malloc_ok working_device now fs dm path = Some (DM_OK, fs', dm2\<lparr>dm_is_open := True, dm_is_dirty := False\<rparr>)"
    using dm(1) f(1) header d(1) fh(3) unfolding disk_manager_open_def disk_manager_close_def
    by (simp add: malloc_ok_simp Let_def dm1_def fs'_def [symmetric] upt del: upt_Suc)
  moreover have "dm_objects (dm2\<lparr>dm_is_open := True, dm_is_dirty := False\<rparr>) = dm_objects dm2" "dm_objects dm1 = dm_objects dm"
    by (simp_all add: dm_objects_def dm_page_def dm1_def)
  moreover have "dm_inv (dm2\<lparr>dm_is_open := True, dm_is_dirty := False\<rparr>)" using d(2) by (simp add: loads_from_def dm_inv_def)
  ultimately show ?thesis using d(3,4) fh(4) by (intro exI conjI) (assumption | simp add: fs'_def)+
qed

lemma build_bounds: "si_bounds (snd (spatial_index_build qs malloc_ok idx)) = si_bounds idx"
proof -
  have block: "si_bounds (snd (create_block malloc_ok i b)) = si_bounds i" for i b
    by (simp add: create_block_def Let_def split: prod.splits)
  have blocks: "si_bounds (fold (\<lambda>b i. snd (create_block malloc_ok i b)) bs i) = si_bounds i" for bs i
    by (induction bs arbitrary: i) (simp_all add: block)
  have quad: "build_page_quadtree malloc_ok i = (err, i') \<Longrightarrow> si_bounds i' = si_bounds i" for err i i'
    by (auto simp: build_page_quadtree_def Let_def split: option.splits if_splits)
  show ?thesis
    by (simp add: spatial_index_build_def Let_def split: prod.split) (auto simp: blocks dest: quad)
qed

lemma si_objects_dm: "si_objects idx = dm_objects (si_disk idx)"
  by (simp add: si_objects_def dm_objects_def si_page_dm)

lemma build_returns:
  assumes inv: "si_inv idx" and qs: "qsort_contract qs" and num: "\<forall>obj \<in> set (si_objects idx). pt_num (so_centroid obj)"
  shows "\<exists>idx'. spatial_index_build qs malloc_ok idx = (SI_OK, idx') \<and> si_inv idx' \<and> si_is_built idx' \<and>
    si_heap idx' = si_heap idx \<and> pp_pages (si_pool idx') = pp_pages (si_pool idx)"
proof (cases "si_objects idx = []")
  case True
  then have "pool_object_count (si_heap idx) (si_pool idx) = 0" by (simp add: pool_object_count_length)
  then show ?thesis using inv by (simp add: spatial_index_build_def si_inv_def)
next
  case False
  from spatial_index_build_ok [OF inv qs False num] show ?thesis by blast
qed

lemma load_ok:
  assumes f: "fs_files fs path = Some bytes" "saved_file bytes n P" and n: "n < 2 ^ 32" and P: "\<forall>k < n. empty_if_clean (P k)"
    and idx: "si_inv idx" "unsaved (si_disk idx)" "si_objects idx = []" and qs: "qsort_contract qs"
    and num: "\<forall>k < n. \<forall>obj \<in> set (pg_objects (P k)). pt_num (so_centroid obj)"
  shows "\<exists>fs' idx1 idx'. spatial_index_load qs malloc_ok working_device now fs idx path = Some (SI_OK, fs', idx') \<and>
    spatial_index_build qs malloc_ok idx1 = (SI_OK, idx') \<and> si_inv idx1 \<and> si_bounds idx1 = mbr_empty \<and>
    si_config idx1 = si_config idx \<and> si_objects idx1 = si_objects idx' \<and> si_inv idx' \<and> si_is_built idx' \<and> si_bounds idx' = mbr_empty \<and>
    si_objects idx' = map stored_object (concat (map (\<lambda>k. pg_objects (P k)) [0..<n]))"
proof -
  have dm: "\<not> dm_is_open (si_disk idx)" "dc_page_size (dm_config (si_disk idx)) = PAGE_SIZE" "dm_inv (si_disk idx)"
    using idx by (simp_all add: unsaved_def si_inv_def)
  obtain fs' dm' where o: "disk_manager_open malloc_ok working_device now fs (si_disk idx) path = Some (DM_OK, fs', dm')" "dm_inv dm'"
    "fh_bounds (dm_header dm') = mbr_empty"
    "dm_objects dm' = dm_objects (si_disk idx) @ map stored_object (concat (map (\<lambda>k. pg_objects (P k)) [0..<n]))"
    using open_ok [OF f n P dm] by blast
  define idx1 where "idx1 = idx\<lparr>si_disk := dm', si_bounds := mbr_empty\<rparr>"
  have objs: "si_objects idx1 = map stored_object (concat (map (\<lambda>k. pg_objects (P k)) [0..<n]))"
    using o(4) idx(3) by (simp add: si_objects_dm idx1_def)
  have inv1: "si_inv idx1" using o(2) by (simp add: idx1_def si_inv_def)
  have run: "spatial_index_load qs malloc_ok working_device now fs idx path =
      (case spatial_index_build qs malloc_ok idx1 of (err, idx2) \<Rightarrow> Some (err, fs', idx2))"
    using o(1,3) by (simp add: spatial_index_load_def idx1_def)
  have "\<forall>obj \<in> set (si_objects idx1). pt_num (so_centroid obj)" using num by (auto simp: objs)
  from build_returns [OF inv1 qs this] obtain idx' where b: "spatial_index_build qs malloc_ok idx1 = (SI_OK, idx')" "si_inv idx'" "si_is_built idx'"
    "si_heap idx' = si_heap idx1" "pp_pages (si_pool idx') = pp_pages (si_pool idx1)" by blast
  have "si_objects idx' = si_objects idx1" by (rule si_same_pages(1) [OF b(4,5)])
  moreover have "si_bounds idx' = mbr_empty" using build_bounds [of qs idx1] by (simp add: b(1)) (simp add: idx1_def)
  moreover have "si_bounds idx1 = mbr_empty" "si_config idx1 = si_config idx" by (simp_all add: idx1_def)
  ultimately show ?thesis using run b(1,2,3) objs inv1 by (intro exI [of _ fs'] exI [of _ idx1] exI [of _ idx']) simp
qed

end
