(* ===== verification/Persistence_Props.thy ===== *)
theory Persistence_Props
  imports Persistence_Inv SpatialIndex_Props
begin

text \<open>
  The properties of saving and loading, with their witnesses.
\<close>

lemma saved_index:
  assumes reach: "si_reach qs idx" and n: "length (pp_pages (si_pool idx)) < 2 ^ 32"
  shows "\<exists>fs1 dm1 file. spatial_index_save malloc_ok working_device now fs idx path = (SI_OK, fs1, idx\<lparr>si_disk := dm1\<rparr>) \<and>
    fs_data_file fs1 = Some path \<and> fs_files fs1 path = Some file \<and>
    saved_file file (length (pp_pages (si_pool idx))) (\<lambda>k. si_page idx (pp_pages (si_pool idx) ! k)) \<and>
    dm_pool dm1 = si_pool idx \<and> dm_config dm1 = dm_config (si_disk idx) \<and> dm_is_open dm1 \<and>
    (\<forall>a \<in> set (pp_pages (si_pool idx)). dm_page dm1 a = clean (si_page idx a)) \<and> length (fh_reserved (dm_header dm1)) = 64 \<and>
    get_file_header file = dm_header dm1"
proof -
  have "dm_inv (si_disk idx)" using si_reach_inv [OF reach] by (simp add: si_inv_def)
  from save_closed [OF unsaved_savable [OF si_reach_unsaved [OF reach] this n], of now fs path]
  show ?thesis by (auto simp: spatial_index_save_def si_page_dm)
qed

lemma concat_pages: "concat (map (\<lambda>k. pg_objects (si_page idx (pp_pages (si_pool idx) ! k))) [0..<length (pp_pages (si_pool idx))]) = si_objects idx"
proof -
  have m: "map (\<lambda>k. f (xs ! k)) [0..<length xs] = map f xs" for f :: "nat \<Rightarrow> SpatialObject list" and xs
    by (rule nth_equalityI) simp_all
  show ?thesis unfolding si_objects_def by (simp only: m [of "\<lambda>a. pg_objects (si_page idx a)"])
qed

text \<open>
  C10: Saving and loading keeps every object.  An index that insertions, removals, updates and builds
  made is saved on a working device, and a new index loads the file: both return \<open>SI_OK\<close>, the loaded
  index satisfies the invariant, is built, and has the same objects in the same order with their ids,
  types, centroids and rectangles.  Their geometry is empty after the load, as the format leaves it
  out, and so are the bounds of the index, as the save resets the bounds in the file header.
\<close>

theorem save_load_roundtrip:
  assumes "si_reach qs0 idx" "length (pp_pages (si_pool idx)) < 2 ^ 32"
    "\<forall>obj \<in> set (si_objects idx). pt_num (so_centroid obj)" "qsort_contract qs"
    "spatial_index_init malloc_ok \<lparr>hp_page = pages, hp_live = [], hp_next = m\<rparr> config = (SI_OK, idx0)"
  shows "\<exists>fs1 idx1 fs2 idx2. spatial_index_save malloc_ok working_device now fs idx path = (SI_OK, fs1, idx1) \<and>
    spatial_index_load qs malloc_ok working_device now' (closed_stream fs1) idx0 path = Some (SI_OK, fs2, idx2) \<and>
    si_inv idx2 \<and> si_is_built idx2 \<and> si_objects idx2 = map stored_object (si_objects idx) \<and> si_bounds idx2 = mbr_empty"
proof -
  let ?n = "length (pp_pages (si_pool idx))" and ?P = "\<lambda>k. si_page idx (pp_pages (si_pool idx) ! k)"
  obtain fs1 dm1 bytes where s: "spatial_index_save malloc_ok working_device now fs idx path = (SI_OK, fs1, idx\<lparr>si_disk := dm1\<rparr>)"
    "fs_files fs1 path = Some bytes" "saved_file bytes ?n ?P"
    using saved_index [OF assms(1,2)] by blast
  have f: "fs_files (closed_stream fs1) path = Some bytes" using s(2) by (simp add: closed_stream_def)
  have "dm_inv (si_disk idx)" using si_reach_inv [OF assms(1)] by (simp add: si_inv_def)
  then have P: "\<forall>k < ?n. empty_if_clean (?P k)"
    using unsaved_empty_if_clean [OF si_reach_unsaved [OF assms(1)]] by (simp add: si_page_dm)
  have idx0: "si_inv idx0" "si_objects idx0 = []" "unsaved (si_disk idx0)"
    using spatial_index_init_inv [OF assms(5)] unsaved_init [OF assms(5)] by (auto simp: si_views_def)
  have num: "\<forall>k < ?n. \<forall>obj \<in> set (pg_objects (?P k)). pt_num (so_centroid obj)"
    using assms(3) by (auto simp: si_objects_set)
  from load_ok [OF f s(3) assms(2) P idx0(1,3,2) assms(4) num] s(1) show ?thesis
    unfolding concat_pages by blast
qed

lemma sample_page_count: "length (pp_pages (si_pool sample_index_point)) < 2 ^ 32"
proof -
  have "pp_pages (si_pool sample_index) = []"
    by (simp add: sample_index_def spatial_index_init_def Let_def malloc_ok_simp disk_manager_init_def page_pool_init_def
        page_cache_init_def zero_pool_def)
  then show ?thesis
    using insert_page_count [OF si_reach_inv [OF sample_index_reach], of sample_point_object]
    by (simp add: sample_index_point_def si_apply_def)
qed

lemma sample_index_init: "spatial_index_init malloc_ok \<lparr>hp_page = (\<lambda>a. new_page 0 0), hp_live = [], hp_next = 1\<rparr> None = (SI_OK, sample_index)"
  by (simp add: sample_index_def sample_heap_def spatial_index_init_def Let_def malloc_ok_simp disk_manager_init_inv split: prod.splits)
    (metis disk_manager_init_inv(2) fst_conv)

lemma sample_centroids: "\<forall>obj \<in> set (si_objects sample_index_point). pt_num (so_centroid obj)"
  using sample_index_point_facts(3) pt_finite_num by blast

definition no_files :: FileState where
  "no_files = \<lparr>fs_files = (\<lambda>path. None), fs_data_file = None, fs_file_path = None\<rparr>"

theorem save_load_roundtrip_witness:
  "\<exists>fs1 idx1 fs2 idx2. spatial_index_save malloc_ok working_device 0 no_files sample_index_point ''city.urbis'' = (SI_OK, fs1, idx1) \<and>
    spatial_index_load isort_by malloc_ok working_device 1 (closed_stream fs1) sample_index ''city.urbis'' = Some (SI_OK, fs2, idx2) \<and>
    si_objects idx2 = map stored_object (si_objects sample_index_point)"
  using save_load_roundtrip [OF sample_index_point_facts(1) sample_page_count sample_centroids isort_by_contract sample_index_init,
      of 0 no_files "''city.urbis''" 1] by blast

lemma sync_clean:
  assumes "\<forall>a \<in> set as. \<not> dirty (dm_page dm a)"
  shows "fold (sync_page dv) as (fs, dm) = (fs, dm)"
  using assms by (induction as) (simp_all add: sync_page_def dirty_def)

text \<open>
  C11: A second save loses every object.  The first save marks all pages clean; the second one truncates
  the file and writes only dirty pages, of which there are none, but it returns \<open>SI_OK\<close>, and so does a
  load of the file, which then yields an index without objects.
\<close>

theorem save_twice_loses_objects:
  assumes "si_reach qs0 idx" "length (pp_pages (si_pool idx)) < 2 ^ 32" "qsort_contract qs"
    "spatial_index_init malloc_ok \<lparr>hp_page = pages, hp_live = [], hp_next = m\<rparr> config = (SI_OK, idx0)"
  shows "\<exists>fs1 idx1 fs2 idx2 fs3 idx3. spatial_index_save malloc_ok working_device now fs idx path = (SI_OK, fs1, idx1) \<and>
    spatial_index_save malloc_ok working_device now' fs1 idx1 path = (SI_OK, fs2, idx2) \<and>
    spatial_index_load qs malloc_ok working_device now'' (closed_stream fs2) idx0 path = Some (SI_OK, fs3, idx3) \<and>
    si_objects idx3 = []"
proof -
  let ?n = "length (pp_pages (si_pool idx))" and ?ps = "pp_pages (si_pool idx)"
  obtain fs1 dm1 bytes where s: "spatial_index_save malloc_ok working_device now fs idx path = (SI_OK, fs1, idx\<lparr>si_disk := dm1\<rparr>)"
    "fs_data_file fs1 = Some path" "dm_pool dm1 = si_pool idx" "dm_config dm1 = dm_config (si_disk idx)" "dm_is_open dm1"
    "\<forall>a \<in> set ?ps. dm_page dm1 a = clean (si_page idx a)"
    using saved_index [OF assms(1,2)] by blast
  have dm: "dm_inv (si_disk idx)" using si_reach_inv [OF assms(1)] by (simp add: si_inv_def)
  have sav: "savable (si_disk idx)" by (rule unsaved_savable [OF si_reach_unsaved [OF assms(1)] dm assms(2)])
  obtain fs1' dm1' where close: "disk_manager_close working_device now' fs1 dm1 = (fs1', dm1')" by (cases "disk_manager_close working_device now' fs1 dm1")
  have fold1: "fold (sync_page working_device) ?ps (fs1, dm1) = (fs1, dm1)" using s(6) by (intro sync_clean) simp
  have d1': "dm_pool dm1' = si_pool idx" "dm_config dm1' = dm_config (si_disk idx)" "\<not> dm_is_open dm1'" "dm_page dm1' = dm_page dm1"
    using close s(2,3,4,5) fold1
    by (auto simp: disk_manager_close_def disk_manager_sync_def write_header_def Let_def dm_page_def fun_eq_iff)
  have sav': "savable dm1'"
    using sav s(6) by (simp add: savable_def numbered_def page_ids_from_1_def d1' si_page_dm)
  have create: "disk_manager_create malloc_ok working_device now' fs1 dm1 path = disk_manager_create malloc_ok working_device now' fs1' dm1' path"
    using close d1'(3) by (simp add: disk_manager_create_def disk_manager_close_def [of _ _ fs1' dm1'])
  obtain fs2 dm2 bytes2 where s2: "spatial_index_save malloc_ok working_device now' fs1 (idx\<lparr>si_disk := dm1\<rparr>) path = (SI_OK, fs2, idx\<lparr>si_disk := dm2\<rparr>)"
    "fs_files fs2 path = Some bytes2" "saved_file bytes2 ?n (\<lambda>k. dm_page dm1' (?ps ! k))"
    using save_closed [OF sav', of now' fs1' path] d1'(1) by (auto simp: spatial_index_save_def create)
  let ?P = "\<lambda>k. (dm_page dm1' (?ps ! k))\<lparr>pg_objects := []\<rparr>"
  have clean: "\<not> dirty (dm_page dm1' (?ps ! k))" if "k < ?n" for k using that s(6) by (simp add: d1')
  have "saved_file bytes2 ?n ?P"
    using s2(3) clean by (simp add: saved_file_def slot_holds_def dirty_def Let_def)
  moreover have "fs_files (closed_stream fs2) path = Some bytes2" using s2(2) by (simp add: closed_stream_def)
  moreover have "empty_if_clean (?P k)" if k: "k < ?n" for k
  proof -
    have "page_inv (si_page idx (?ps ! k))" using si_inv_page [OF si_reach_inv [OF assms(1)]] k by simp
    then show ?thesis using s(6) k by (simp add: empty_if_clean_def page_inv_def d1')
  qed
  moreover have "si_inv idx0" "unsaved (si_disk idx0)" "si_objects idx0 = []"
    using spatial_index_init_inv [OF assms(4)] unsaved_init [OF assms(4)] by (auto simp: si_views_def)
  ultimately obtain fs3 idx3 where
    "spatial_index_load qs malloc_ok working_device now'' (closed_stream fs2) idx0 path = Some (SI_OK, fs3, idx3)"
    "si_objects idx3 = map stored_object (concat (map (\<lambda>k. pg_objects (?P k)) [0..<?n]))"
    using load_ok [of "closed_stream fs2" path bytes2 ?n ?P idx0 qs now''] assms(2,3) by auto
  with s(1) s2(1) show ?thesis by auto
qed

theorem save_twice_loses_objects_witness:
  "\<exists>fs1 idx1 fs2 idx2 fs3 idx3. spatial_index_save malloc_ok working_device 0 no_files sample_index_point ''city.urbis'' = (SI_OK, fs1, idx1) \<and>
    spatial_index_save malloc_ok working_device 1 fs1 idx1 ''city.urbis'' = (SI_OK, fs2, idx2) \<and>
    spatial_index_load isort_by malloc_ok working_device 2 (closed_stream fs2) sample_index ''city.urbis'' = Some (SI_OK, fs3, idx3) \<and>
    si_objects idx3 = []"
  by (rule save_twice_loses_objects [OF sample_index_point_facts(1) sample_page_count isort_by_contract sample_index_init])

text \<open>
  C20: A sync ignores failed writes.  On a device on which every write fails, \<open>disk_manager_sync\<close> returns
  \<open>DM_OK\<close>, leaves the file as it was, and marks every page clean.
\<close>

theorem sync_ignores_failed_writes:
  assumes "dm_is_open dm" "dv_write dv = (\<lambda>off. False)"
  shows "\<exists>dm'. disk_manager_sync dv now fs dm = (DM_OK, fs, dm') \<and> dm_pool dm' = dm_pool dm \<and> \<not> dm_is_dirty dm' \<and>
    (\<forall>a \<in> set (pp_pages (dm_pool dm)). dm_page dm' a = clean (dm_page dm a))"
proof -
  have page: "sync_page dv a (fs, d) = (fs, dm_set_page d a (clean (dm_page d a)))" for a d
    using assms(2) by (auto simp: sync_page_def write_page_to_disk_def clean_def dirty_def dm_set_page_def dm_page_def
        set_page_flags_def Let_def split: option.splits prod.splits)
  have idem: "clean (clean p) = clean p" for p by (simp add: clean_def [of "clean p"])
  have "\<exists>d'. fold (sync_page dv) as (fs, d) = (fs, d') \<and> dm_pool d' = dm_pool d \<and>
      (\<forall>a. dm_page d' a = (if a \<in> set as then clean (dm_page d a) else dm_page d a))" for as d
    by (induction as arbitrary: d) (force simp: page idem)+
  then obtain d' where d': "fold (sync_page dv) (pp_pages (dm_pool dm)) (fs, dm) = (fs, d')" "dm_pool d' = dm_pool dm"
    "\<forall>a. dm_page d' a = (if a \<in> set (pp_pages (dm_pool dm)) then clean (dm_page dm a) else dm_page dm a)" by blast
  obtain err fs3 dm3 where w: "write_header dv now fs (d'\<lparr>dm_header := (dm_header d')\<lparr>fh_page_count := word_of_nat (length (pp_pages (dm_pool d'))),
      fh_track_count := word_of_nat (length (pp_tracks (dm_pool d'))),
      fh_object_count := word_of_nat (pool_object_count (dm_heap d') (dm_pool d'))\<rparr>\<rparr>) = (err, fs3, dm3)" by (metis prod_cases3)
  have "fs3 = fs" "dm_pool dm3 = dm_pool dm" "dm_page dm3 = dm_page d'"
    using w assms(2) d'(2) by (auto simp: write_header_def dm_page_def fun_eq_iff split: option.splits)
  then show ?thesis
    using assms(1) d' w by (simp add: disk_manager_sync_def Let_def) (simp add: dm_page_def fun_eq_iff)
qed

definition broken_disk :: Device where
  "broken_disk = \<lparr>dv_open = (\<lambda>path. True), dv_read = (\<lambda>off. True), dv_write = (\<lambda>off. False)\<rparr>"

definition opened_manager :: DiskManager where
  "opened_manager = (si_disk sample_index_point)\<lparr>dm_is_open := True\<rparr>"

theorem sync_ignores_failed_writes_witness:
  "\<exists>dm'. disk_manager_sync broken_disk 7 no_files opened_manager = (DM_OK, no_files, dm') \<and>
    dm_pool dm' = dm_pool opened_manager \<and> \<not> dm_is_dirty dm' \<and>
    (\<forall>a \<in> set (pp_pages (dm_pool opened_manager)). dm_page dm' a = clean (dm_page opened_manager a))"
  by (rule sync_ignores_failed_writes) (simp_all add: broken_disk_def opened_manager_def)

end
