(* ===== verification/CText.thy ===== *)
theory CText
  imports Float64_Order
begin

text \<open>
  What src/src/parser.c uses of the C library to read and print numbers, in the C locale: the character
  classes, \<open>strtod\<close>, the conversion \<open>%lf\<close> of \<open>sscanf\<close>, and the conversions \<open>%.6f\<close> and \<open>%d\<close> of \<open>snprintf\<close>.

  Text is a list of characters.  \<open>strtod\<close> rounds the decimal or hexadecimal number it reads to the
  nearest double and \<open>%.6f\<close> rounds the exact value of the double to six decimals, both ties to even, as
  IEEE 754 and the recommended practice of the C standard have it.
\<close>

subsection \<open>Characters\<close>

text \<open>The text of a C string: up to its terminating zero.\<close>

definition c_str :: "string \<Rightarrow> string" where
  "c_str s = takeWhile (\<lambda>c. c \<noteq> CHR 0x00) s"

definition code :: "char \<Rightarrow> nat" where
  "code c = of_char c"

definition isspace :: "char \<Rightarrow> bool" where
  "isspace c = (c = CHR '' '' \<or> 9 \<le> code c \<and> code c \<le> 13)"

definition isdigit :: "char \<Rightarrow> bool" where
  "isdigit c = (48 \<le> code c \<and> code c \<le> 57)"

definition tolower :: "char \<Rightarrow> char" where
  "tolower c = (if 65 \<le> code c \<and> code c \<le> 90 then char_of (code c + 32) else c)"

definition isxdigit :: "char \<Rightarrow> bool" where
  "isxdigit c = (isdigit c \<or> 97 \<le> code (tolower c) \<and> code (tolower c) \<le> 102)"

definition isalnum :: "char \<Rightarrow> bool" where
  "isalnum c = (isdigit c \<or> 97 \<le> code (tolower c) \<and> code (tolower c) \<le> 122)"

definition digit_value :: "char \<Rightarrow> nat" where
  "digit_value c = (if isdigit c then code c - 48 else code (tolower c) - 87)"

text \<open>\<open>strncasecmp (s, p, length p) == 0\<close> for a \<open>p\<close> in lower case.\<close>

definition starts_nocase :: "string \<Rightarrow> string \<Rightarrow> bool" where
  "starts_nocase p s = (map tolower (take (length p) s) = p)"

definition digits_value :: "nat \<Rightarrow> string \<Rightarrow> nat" where
  "digits_value base ds = fold (\<lambda>c v. base * v + digit_value c) ds 0"

subsection \<open>Reading a number\<close>

text \<open>The double nearest to \<open>n / d\<close>, with the sign \<open>s\<close>; 54 bits of the quotient are enough.\<close>

definition ratio_double :: "bool \<Rightarrow> int \<Rightarrow> int \<Rightarrow> double" where
  "ratio_double s n d =
     (let k = 54 + nat (bitlen d) in
      mk_double s (rnd_mag (n * 2 ^ k div d) (1074 - int k) (n * 2 ^ k mod d \<noteq> 0)))"

text \<open>\<open>n * base ^ e\<close>\<close>

definition scaled_double :: "bool \<Rightarrow> nat \<Rightarrow> nat \<Rightarrow> int \<Rightarrow> double" where
  "scaled_double s n base e =
     (if 0 \<le> e then ratio_double s (int (n * base ^ nat e)) 1 else ratio_double s (int n) (int (base ^ nat (- e))))"

text \<open>
  A scan of a text gives three things: how long the number at its start is, how long the longest
  prefix is that some number starts with, and the number.  \<open>strtod\<close> takes the first; \<open>sscanf\<close> reads the
  second and fails if it is not a number.  The length is 0 if there is no number.

  First the exponent, after the letter \<open>e\<close> or \<open>p\<close>, as the two lengths and its value.
\<close>

definition sign_len :: "string \<Rightarrow> nat" where
  "sign_len s = (case s of c # r \<Rightarrow> if c = CHR ''+'' \<or> c = CHR ''-'' then 1 else 0 | [] \<Rightarrow> 0)"

definition starts_minus :: "string \<Rightarrow> bool" where
  "starts_minus s = (take 1 s = ''-'')"

definition scan_exponent :: "char \<Rightarrow> string \<Rightarrow> nat \<times> nat \<times> int" where
  "scan_exponent marker s =
     (if starts_nocase [marker] s then
        (let r = drop 1 s; n = sign_len r; ds = takeWhile isdigit (drop n r);
             e = int (digits_value 10 ds); m = 1 + n + length ds
         in (if ds = [] then 0 else m, m, if starts_minus r then - e else e))
      else (0, 0, 0))"

text \<open>The digits before and after the point: the length with the point and the two parts.\<close>

definition scan_mantissa :: "(char \<Rightarrow> bool) \<Rightarrow> string \<Rightarrow> nat \<times> string \<times> string" where
  "scan_mantissa isdig s =
     (let ip = takeWhile isdig s; r = drop (length ip) s in
      if take 1 r = ''.'' then let fp = takeWhile isdig (drop 1 r) in (length ip + 1 + length fp, ip, fp)
      else (length ip, ip, []))"

definition scan_decimal :: "bool \<Rightarrow> string \<Rightarrow> nat \<times> nat \<times> double" where
  "scan_decimal neg s =
     (case scan_mantissa isdigit s of (m, ip, fp) \<Rightarrow>
        if ip = [] \<and> fp = [] then (0, m, d_zero)
        else case scan_exponent (CHR ''e'') (drop m s) of (k, k', e) \<Rightarrow>
          (m + k, m + k', scaled_double neg (digits_value 10 (ip @ fp)) 10
             ((if k = 0 then 0 else e) - int (length fp))))"

definition scan_hex :: "bool \<Rightarrow> string \<Rightarrow> nat \<times> nat \<times> double" where
  "scan_hex neg s =
     (case scan_mantissa isxdigit (drop 2 s) of (m, ip, fp) \<Rightarrow>
        if ip = [] \<and> fp = [] then (1, 2 + m, mk_double neg 0)
        else case scan_exponent (CHR ''p'') (drop (2 + m) s) of (k, k', e) \<Rightarrow>
          (2 + m + k, 2 + m + k', scaled_double neg (digits_value 16 (ip @ fp)) 2
             ((if k = 0 then 0 else e) - 4 * int (length fp))))"

fun common_len :: "string \<Rightarrow> string \<Rightarrow> nat" where
  "common_len (p # ps) (c # cs) = (if p = tolower c then Suc (common_len ps cs) else 0)"
| "common_len ps cs = 0"

definition scan_special :: "bool \<Rightarrow> string \<Rightarrow> nat \<times> nat \<times> double" where
  "scan_special neg s =
     (if starts_nocase ''n'' s then
        (let nan = (if neg then fneg nan_double else nan_double); n = common_len ''nan'' s in
         if n < 3 then (0, n, d_zero)
         else if take 1 (drop 3 s) = ''('' then
           (let k = length (takeWhile (\<lambda>c. isalnum c \<or> c = CHR ''_'') (drop 4 s)) in
            if take 1 (drop (4 + k) s) = '')'' then (5 + k, 5 + k, nan) else (3, 4 + k, nan))
         else (3, 3, nan))
      else
        (let n = common_len ''infinity'' s in
         if n < 3 then (0, n, d_zero) else (if n = 8 then 8 else 3, n, mk_double neg inf_mag)))"

definition scan_number :: "string \<Rightarrow> nat \<times> nat \<times> double" where
  "scan_number s =
     (let k = length (takeWhile isspace s) + sign_len (dropWhile isspace s);
          r = drop k s; neg = starts_minus (dropWhile isspace s)
      in case (if starts_nocase ''0x'' r then scan_hex neg r
               else if starts_nocase ''i'' r \<or> starts_nocase ''n'' r then scan_special neg r
               else scan_decimal neg r) of
           (m, m', d) \<Rightarrow> (if m = 0 then 0 else k + m, k + m', d))"

text \<open>\<open>strtod\<close>: the number and how many characters it takes, 0 if there is none.\<close>

definition strtod :: "string \<Rightarrow> double \<times> nat" where
  "strtod s = (case scan_number s of (m, m', d) \<Rightarrow> if m = 0 then (d_zero, 0) else (d, m))"

definition scan_lf :: "string \<Rightarrow> (double \<times> string) option" where
  "scan_lf s = (case scan_number s of (m, m', d) \<Rightarrow> if m = 0 \<or> m \<noteq> m' then None else Some (d, drop m s))"

text \<open>\<open>sscanf (s, "%lf %lf", &x, &y) == 2\<close>, with the numbers.\<close>

definition sscanf_lf_lf :: "string \<Rightarrow> (double \<times> double) option" where
  "sscanf_lf_lf s =
     (case scan_lf s of None \<Rightarrow> None
      | Some (x, r) \<Rightarrow> map_option (\<lambda>(y, r'). (x, y)) (scan_lf (dropWhile isspace r)))"

subsection \<open>Printing a number\<close>

definition digit :: "nat \<Rightarrow> char" where
  "digit n = char_of (48 + n)"

fun show_nat :: "nat \<Rightarrow> string" where
  "show_nat n = (if n < 10 then [digit n] else show_nat (n div 10) @ [digit (n mod 10)])"

declare show_nat.simps [simp del]

text \<open>The last \<open>w\<close> digits.\<close>

fun show_fixed :: "nat \<Rightarrow> nat \<Rightarrow> string" where
  "show_fixed 0 n = []"
| "show_fixed (Suc w) n = show_fixed w (n div 10) @ [digit (n mod 10)]"

text \<open>The magnitude of a double in millionths, rounded to an integer, ties to even.\<close>

definition micro :: "double \<Rightarrow> nat" where
  "micro d =
     (let n = mval (dmag d) * 10 ^ 6; q = n div 2 ^ 1074; r = n mod 2 ^ 1074; h = 2 ^ 1073 in
      nat (if r < h \<or> (r = h \<and> even q) then q else q + 1))"

definition format_f6 :: "double \<Rightarrow> string" where
  "format_f6 d =
     (if dneg d then ''-'' else []) @
     (if isnan d then ''nan'' else if isinf d then ''inf''
      else show_nat (micro d div 10 ^ 6) @ ''.'' @ show_fixed 6 (micro d mod 10 ^ 6))"

end
