(* ===== verification/Json.thy ===== *)
theory Json
  imports CText Geometry
begin

text \<open>
  The JSON part of src/include/parser.h and src/src/parser.c: the parser state, the recursive descent
  parser and the accessors of JSON values.

  The input is a C string; past its end a character reads as the terminating zero.  An output that is
  used only on success is the right side of a sum type; what was allocated before an error is not freed
  in C and has no counterpart here.  The recursion is bounded by fuel, and None means that it ran out:
  \<open>parse_value_returns\<close> (in \<open>Json_Inv\<close>) shows that the fuel of \<open>json_fuel\<close> never does.
\<close>

datatype ParseError = PARSE_OK | PARSE_ERR_NULL_PTR | PARSE_ERR_ALLOC | PARSE_ERR_IO | PARSE_ERR_SYNTAX
  | PARSE_ERR_INVALID_GEOM | PARSE_ERR_UNSUPPORTED | PARSE_ERR_OVERFLOW

text \<open>The array of keys and the array of values of an object are one list of pairs.\<close>

datatype JsonValue = JSON_NULL | JSON_BOOL bool | JSON_NUMBER double | JSON_STRING string
  | JSON_ARRAY "JsonValue list" | JSON_OBJECT "(string \<times> JsonValue) list"

record ParserState =
  ps_input :: string
  ps_pos :: nat
  ps_len :: nat
  ps_line :: nat
  ps_column :: nat
  ps_error_msg :: string

definition sizeof_JsonValue :: nat where "sizeof_JsonValue = 32"

type_synonym 'a parsed = "(ParseError + 'a) \<times> ParserState"

definition char_at :: "ParserState \<Rightarrow> nat \<Rightarrow> char" where
  "char_at st i = (if i < length (ps_input st) then ps_input st ! i else CHR 0x00)"

definition rest :: "ParserState \<Rightarrow> string" where
  "rest st = drop (ps_pos st) (ps_input st)"

subsection \<open>Characters of the input\<close>

definition next_column :: "ParserState \<Rightarrow> ParserState" where
  "next_column st = st\<lparr>ps_pos := ps_pos st + 1, ps_column := ps_column st + 1\<rparr>"

definition next_line :: "ParserState \<Rightarrow> ParserState" where
  "next_line st = st\<lparr>ps_pos := ps_pos st + 1, ps_line := ps_line st + 1, ps_column := 1\<rparr>"

function skip_whitespace :: "ParserState \<Rightarrow> ParserState" where
  "skip_whitespace st =
     (if ps_pos st < ps_len st then
        (let c = char_at st (ps_pos st) in
         if c = CHR '' '' \<or> c = CHR 0x09 \<or> c = CHR 0x0D then skip_whitespace (next_column st)
         else if c = CHR 0x0A then skip_whitespace (next_line st)
         else st)
      else st)"
  by pat_completeness auto
termination
  by (relation "measure (\<lambda>st. ps_len st - ps_pos st)") (auto simp: next_column_def next_line_def)

declare skip_whitespace.simps [simp del]

definition peek :: "ParserState \<Rightarrow> char" where
  "peek st = (if ps_pos st \<ge> ps_len st then CHR 0x00 else char_at st (ps_pos st))"

definition consume :: "ParserState \<Rightarrow> char \<times> ParserState" where
  "consume st =
     (if ps_pos st \<ge> ps_len st then (CHR 0x00, st)
      else let c = char_at st (ps_pos st) in (c, if c = CHR 0x0A then next_line st else next_column st))"

text \<open>\<open>snprintf\<close> into \<open>error_msg\<close>, which holds 255 characters.\<close>

definition position_text :: "ParserState \<Rightarrow> string" where
  "position_text st = '' at line '' @ show_nat (ps_line st) @ '', column '' @ show_nat (ps_column st)"

definition set_error :: "string \<Rightarrow> ParserState \<Rightarrow> ParserState" where
  "set_error msg st = st\<lparr>ps_error_msg := take 255 msg\<rparr>"

definition expect :: "ParserState \<Rightarrow> char \<Rightarrow> ParseError \<times> ParserState" where
  "expect st expected =
     (let st1 = skip_whitespace st in
      if peek st1 \<noteq> expected
      then (PARSE_ERR_SYNTAX, set_error (''Expected '' @ [CHR 0x27, expected, CHR 0x27] @ position_text st1) st1)
      else (PARSE_OK, snd (consume st1)))"

definition parser_get_error :: "ParserState \<Rightarrow> string" where
  "parser_get_error st = c_str (ps_error_msg st)"

subsection \<open>Strings and numbers\<close>

text \<open>
  The first loop of \<open>parse_string\<close>: it looks for the closing quote and counts an escape as one
  character.  The result is the position and the count.
\<close>

function scan_string :: "ParserState \<Rightarrow> nat \<Rightarrow> nat \<Rightarrow> nat \<times> nat" where
  "scan_string st pos n =
     (if pos < ps_len st then
        (let c = char_at st pos in
         if c = CHR ''\"'' then (pos, n)
         else if c = CHR 0x5C then
           (if pos + 1 \<ge> ps_len st then (pos + 1, n) else scan_string st (pos + 2) (n + 1))
         else scan_string st (pos + 1) (n + 1))
      else (pos, n))"
  by pat_completeness auto
termination
  by (relation "measure (\<lambda>(st, pos, n). ps_len st - pos)") auto

declare scan_string.simps [simp del]

definition unescape :: "char \<Rightarrow> char" where
  "unescape c = (if c = CHR ''n'' then CHR 0x0A else if c = CHR ''t'' then CHR 0x09
     else if c = CHR ''r'' then CHR 0x0D else c)"

text \<open>The second loop: it copies while fewer than \<open>len\<close> characters of the input are used.\<close>

function copy_string :: "ParserState \<Rightarrow> nat \<Rightarrow> nat \<Rightarrow> nat \<Rightarrow> string" where
  "copy_string st i stop left =
     (if i < stop \<and> 0 < left then
        (if char_at st i = CHR 0x5C \<and> i + 1 < stop
         then unescape (char_at st (i + 1)) # copy_string st (i + 2) stop (left - 1)
         else char_at st i # copy_string st (i + 1) stop (left - 1))
      else [])"
  by pat_completeness auto
termination
  by (relation "measure (\<lambda>(st, i, stop, left). left)") auto

declare copy_string.simps [simp del]

definition parse_string :: "allocator \<Rightarrow> ParserState \<Rightarrow> string parsed" where
  "parse_string al st =
     (let st1 = skip_whitespace st in
      if peek st1 \<noteq> CHR ''\"'' then (Inl PARSE_ERR_SYNTAX, st1)
      else
        let st2 = snd (consume st1);
            start = ps_pos st2;
            (pos, n) = scan_string st2 start 0;
            st3 = st2\<lparr>ps_pos := pos\<rparr>
        in if \<not> al (n + 1) then (Inl PARSE_ERR_ALLOC, st3)
           else (Inr (copy_string st3 start (start + n) n), snd (consume st3)))"

definition parse_number :: "ParserState \<Rightarrow> double parsed" where
  "parse_number st =
     (let st1 = skip_whitespace st in
      case strtod (rest st1) of (d, n) \<Rightarrow>
        if n = 0 then (Inl PARSE_ERR_SYNTAX, st1) else (Inr d, st1\<lparr>ps_pos := ps_pos st1 + n\<rparr>))"

subsection \<open>Values\<close>

text \<open>\<open>strncmp (&input[pos], word, n) == 0\<close>, and the words of \<open>parse_value\<close>.\<close>

definition at_word :: "ParserState \<Rightarrow> string \<Rightarrow> bool" where
  "at_word st w = (take (length w) (rest st) = w)"

definition skip_word :: "ParserState \<Rightarrow> string \<Rightarrow> ParserState" where
  "skip_word st w = st\<lparr>ps_pos := ps_pos st + length w\<rparr>"

text \<open>What \<open>parse_value\<close> does with an input that starts with none of \<open>"\<close>, \<open>[\<close> and \<open>{\<close>.\<close>

definition parse_scalar :: "ParserState \<Rightarrow> JsonValue parsed" where
  "parse_scalar st =
     (let c = peek st in
      if c = CHR ''t'' \<and> at_word st ''true'' then (Inr (JSON_BOOL True), skip_word st ''true'')
      else if c = CHR ''f'' \<and> at_word st ''false'' then (Inr (JSON_BOOL False), skip_word st ''false'')
      else if c = CHR ''n'' \<and> at_word st ''null'' then (Inr JSON_NULL, skip_word st ''null'')
      else if c = CHR ''-'' \<or> isdigit c then
        (case parse_number st of (Inl err, st1) \<Rightarrow> (Inl err, st1) | (Inr d, st1) \<Rightarrow> (Inr (JSON_NUMBER d), st1))
      else (Inl PARSE_ERR_SYNTAX, set_error (''Unexpected character '' @ [CHR 0x27, c, CHR 0x27] @ position_text st) st))"

text \<open>The growth of the arrays at the head of the loops: the new capacity, or None.\<close>

definition grow_to :: "(nat \<Rightarrow> bool) \<Rightarrow> nat \<Rightarrow> nat \<Rightarrow> nat option" where
  "grow_to can_alloc n cap =
     (if n \<ge> cap then (if can_alloc (cap * 2) then Some (cap * 2) else None) else Some cap)"

text \<open>
  \<open>parse_items\<close> and \<open>parse_members\<close> are the loops of \<open>parse_array\<close> and \<open>parse_object\<close>, with the capacity
  and what has been parsed so far.
\<close>

fun parse_value :: "allocator \<Rightarrow> nat \<Rightarrow> ParserState \<Rightarrow> JsonValue parsed option"
  and parse_array :: "allocator \<Rightarrow> nat \<Rightarrow> ParserState \<Rightarrow> JsonValue parsed option"
  and parse_items :: "allocator \<Rightarrow> nat \<Rightarrow> nat \<Rightarrow> JsonValue list \<Rightarrow> ParserState \<Rightarrow> JsonValue parsed option"
  and parse_object :: "allocator \<Rightarrow> nat \<Rightarrow> ParserState \<Rightarrow> JsonValue parsed option"
  and parse_members :: "allocator \<Rightarrow> nat \<Rightarrow> nat \<Rightarrow> (string \<times> JsonValue) list \<Rightarrow> ParserState \<Rightarrow> JsonValue parsed option"
where
  "parse_value al 0 st = None"
| "parse_value al (Suc n) st =
     (let st1 = skip_whitespace st; c = peek st1 in
      if c = CHR ''\"'' then
        (case parse_string al st1 of (Inl err, st2) \<Rightarrow> Some (Inl err, st2) | (Inr s, st2) \<Rightarrow> Some (Inr (JSON_STRING s), st2))
      else if c = CHR ''['' then parse_array al n st1
      else if c = CHR ''{'' then parse_object al n st1
      else Some (parse_scalar st1))"
| "parse_array al 0 st = None"
| "parse_array al (Suc n) st =
     (case expect st (CHR ''['') of (err, st1) \<Rightarrow>
        if err \<noteq> PARSE_OK then Some (Inl PARSE_ERR_SYNTAX, st1)
        else if \<not> al (8 * sizeof_JsonValue) then Some (Inl PARSE_ERR_ALLOC, st1)
        else
          let st2 = skip_whitespace st1 in
          if peek st2 = CHR '']'' then Some (Inr (JSON_ARRAY []), snd (consume st2))
          else parse_items al n 8 [] st2)"
| "parse_items al 0 cap items st = None"
| "parse_items al (Suc n) cap items st =
     (case grow_to (\<lambda>c. al (c * sizeof_JsonValue)) (length items) cap of
        None \<Rightarrow> Some (Inl PARSE_ERR_ALLOC, st)
      | Some cap1 \<Rightarrow>
          (case parse_value al n st of
             None \<Rightarrow> None
           | Some (Inl err, st1) \<Rightarrow> Some (Inl err, st1)
           | Some (Inr v, st1) \<Rightarrow>
               (let items1 = items @ [v]; st2 = skip_whitespace st1 in
                if peek st2 = CHR '']'' then Some (Inr (JSON_ARRAY items1), snd (consume st2))
                else (case expect st2 (CHR '','') of (err, st3) \<Rightarrow>
                  if err \<noteq> PARSE_OK then Some (Inl PARSE_ERR_SYNTAX, st3)
                  else parse_items al n cap1 items1 st3))))"
| "parse_object al 0 st = None"
| "parse_object al (Suc n) st =
     (case expect st (CHR ''{'') of (err, st1) \<Rightarrow>
        if err \<noteq> PARSE_OK then Some (Inl PARSE_ERR_SYNTAX, st1)
        else if \<not> al (8 * sizeof_ptr) \<or> \<not> al (8 * sizeof_JsonValue) then Some (Inl PARSE_ERR_ALLOC, st1)
        else
          let st2 = skip_whitespace st1 in
          if peek st2 = CHR ''}'' then Some (Inr (JSON_OBJECT []), snd (consume st2))
          else parse_members al n 8 [] st2)"
| "parse_members al 0 cap members st = None"
| "parse_members al (Suc n) cap members st =
     (case grow_to (\<lambda>c. al (c * sizeof_ptr) \<and> al (c * sizeof_JsonValue)) (length members) cap of
        None \<Rightarrow> Some (Inl PARSE_ERR_ALLOC, st)
      | Some cap1 \<Rightarrow>
          (case parse_string al st of
             (Inl err, st1) \<Rightarrow> Some (Inl err, st1)
           | (Inr key, st1) \<Rightarrow>
               (case expect st1 (CHR '':'') of (err, st2) \<Rightarrow>
                  if err \<noteq> PARSE_OK then Some (Inl PARSE_ERR_SYNTAX, st2)
                  else (case parse_value al n st2 of
                     None \<Rightarrow> None
                   | Some (Inl err, st3) \<Rightarrow> Some (Inl err, st3)
                   | Some (Inr v, st3) \<Rightarrow>
                       (let members1 = members @ [(key, v)]; st4 = skip_whitespace st3 in
                        if peek st4 = CHR ''}'' then Some (Inr (JSON_OBJECT members1), snd (consume st4))
                        else (case expect st4 (CHR '','') of (err, st5) \<Rightarrow>
                          if err \<noteq> PARSE_OK then Some (Inl PARSE_ERR_SYNTAX, st5)
                          else parse_members al n cap1 members1 st5))))))"

text \<open>The initial state for an input, and enough fuel for it.\<close>

definition init_state :: "string \<Rightarrow> ParserState" where
  "init_state json = \<lparr>ps_input = c_str json, ps_pos = 0, ps_len = length (c_str json), ps_line = 1, ps_column = 1, ps_error_msg = []\<rparr>"

definition json_fuel :: "ParserState \<Rightarrow> nat" where
  "json_fuel st = 3 * (ps_len st - ps_pos st) + 3"

definition parse_root :: "allocator \<Rightarrow> string \<Rightarrow> JsonValue parsed option" where
  "parse_root al json = (let st = init_state json in parse_value al (json_fuel st) st)"

subsection \<open>Accessors\<close>

text \<open>\<open>json_value_free\<close> gives the memory back and clears the value, whose tag is then \<open>JSON_NULL\<close>.\<close>

definition json_value_free :: "JsonValue \<Rightarrow> JsonValue" where
  "json_value_free v = JSON_NULL"

text \<open>A NULL value is None; a pointer to a member or an item is its value.\<close>

definition json_object_get :: "JsonValue option \<Rightarrow> string \<Rightarrow> JsonValue option" where
  "json_object_get obj key =
     (case obj of Some (JSON_OBJECT members) \<Rightarrow> map_option snd (List.find (\<lambda>m. fst m = key) members) | _ \<Rightarrow> None)"

definition json_array_get :: "JsonValue option \<Rightarrow> nat \<Rightarrow> JsonValue option" where
  "json_array_get arr index =
     (case arr of Some (JSON_ARRAY items) \<Rightarrow> if index \<ge> length items then None else Some (items ! index) | _ \<Rightarrow> None)"

definition json_is_null :: "JsonValue option \<Rightarrow> bool" where
  "json_is_null v = (v = None \<or> v = Some JSON_NULL)"

definition json_get_bool :: "JsonValue option \<Rightarrow> bool \<Rightarrow> bool" where
  "json_get_bool v default_val = (case v of Some (JSON_BOOL b) \<Rightarrow> b | _ \<Rightarrow> default_val)"

definition json_get_number :: "JsonValue option \<Rightarrow> double \<Rightarrow> double" where
  "json_get_number v default_val = (case v of Some (JSON_NUMBER d) \<Rightarrow> d | _ \<Rightarrow> default_val)"

definition json_get_string :: "JsonValue option \<Rightarrow> string \<Rightarrow> string" where
  "json_get_string v default_val = (case v of Some (JSON_STRING s) \<Rightarrow> s | _ \<Rightarrow> default_val)"

end
