(* ===== verification/TextOut.thy ===== *)
theory TextOut
  imports CText Geometry
begin

text \<open>
  Text written into a buffer piece by piece, as the export functions of src/src/parser.c do it:
  \<open>written += snprintf (buffer + written, buffer_size - written, ...)\<close>.

  The buffer is the list of its characters, \<open>buffer_size\<close> its length.  \<open>snprintf\<close> returns the length of
  the whole text and writes what fits, so \<open>written\<close> can pass the size; then \<open>buffer_size - written\<close> wraps
  around and the next call writes behind the buffer.  None means that this happens.
\<close>

type_synonym outbuf = "string \<times> nat"

definition snprintf :: "string \<Rightarrow> nat \<Rightarrow> nat \<Rightarrow> string \<Rightarrow> string option" where
  "snprintf buf off n txt =
     (if n = 0 then Some buf
      else let bytes = take (n - 1) txt @ [CHR 0x00] in
        if off + length bytes \<le> length buf then Some (take off buf @ bytes @ drop (off + length bytes) buf) else None)"

text \<open>\<open>buffer_size - written\<close> in \<open>size_t\<close>.\<close>

definition room :: "nat \<Rightarrow> nat \<Rightarrow> nat" where
  "room buffer_size written = unat (word_of_nat buffer_size - word_of_nat written :: 64 word)"

definition print_to :: "string \<Rightarrow> outbuf \<Rightarrow> outbuf option" where
  "print_to txt = (\<lambda>(buf, written).
     map_option (\<lambda>buf'. (buf', written + length txt)) (snprintf buf written (room (length buf) written) txt))"

text \<open>The condition \<open>written < (int)buffer_size\<close> of the loops.\<close>

definition fits :: "outbuf \<Rightarrow> bool" where
  "fits = (\<lambda>(buf, written). int written < sint (word_of_nat (length buf) :: 32 word))"

text \<open>The loop over the points, with the separator before all but the first.\<close>

fun print_points :: "string \<Rightarrow> (Point \<Rightarrow> string) \<Rightarrow> bool \<Rightarrow> Point list \<Rightarrow> outbuf \<Rightarrow> outbuf option" where
  "print_points sep fmt is_first [] out = Some out"
| "print_points sep fmt is_first (p # ps) out =
     (if \<not> fits out then Some out
      else case (if is_first then Some out else print_to sep out) of
        None \<Rightarrow> None
      | Some out1 \<Rightarrow> (case print_to (fmt p) out1 of
          None \<Rightarrow> None
        | Some out2 \<Rightarrow> print_points sep fmt False ps out2))"

definition print_list :: "string \<Rightarrow> string \<Rightarrow> string \<Rightarrow> (Point \<Rightarrow> string) \<Rightarrow> Point list \<Rightarrow> string \<Rightarrow> outbuf option" where
  "print_list opening sep closing fmt ps buf =
     (case print_to opening (buf, 0) of
        None \<Rightarrow> None
      | Some out1 \<Rightarrow> (case print_points sep fmt True ps out1 of
          None \<Rightarrow> None
        | Some out2 \<Rightarrow> print_to closing out2))"

end
