(* ===== verification/GeoJson.thy ===== *)
theory GeoJson
  imports Json TextOut DiskFile
begin

text \<open>
  GeoJSON, src/include/parser.h and src/src/parser.c: geometries, features and collections from JSON
  values, and their export.

  None as the result of a parse means that the C code has undefined behaviour: it converts the number
  of an \<open>id\<close> to \<open>uint64_t\<close> without looking at its range.  (The fuel of the parser never runs out.)

  The properties of a feature are a shallow copy of a part of the JSON value that \<open>geojson_parse_string\<close>
  frees before it returns.  The model keeps the value; in C the pointers in it dangle.
\<close>

record ParsedFeature =
  pf_object :: SpatialObject
  pf_properties :: JsonValue
  pf_id_str :: "string option"

record FeatureCollection =
  fc_features :: "ParsedFeature list"
  fc_capacity :: nat
  fc_bounds :: MBR

definition sizeof_ParsedFeature :: nat where "sizeof_ParsedFeature = 184"

definition zero_feature :: ParsedFeature where
  "zero_feature = \<lparr>pf_object = zero_object, pf_properties = JSON_NULL, pf_id_str = None\<rparr>"

subsection \<open>Geometries\<close>

definition parse_coordinates_point :: "JsonValue \<Rightarrow> ParseError + Point" where
  "parse_coordinates_point coords =
     (case coords of
        JSON_ARRAY (JSON_NUMBER x # JSON_NUMBER y # others) \<Rightarrow> Inr \<lparr>px = x, py = y\<rparr>
      | _ \<Rightarrow> Inl PARSE_ERR_INVALID_GEOM)"

text \<open>The loops over the coordinates; the result of adding a point is not looked at.\<close>

fun add_line_points :: "allocator \<Rightarrow> JsonValue list \<Rightarrow> LineString \<Rightarrow> ParseError \<times> LineString" where
  "add_line_points al [] line = (PARSE_OK, line)"
| "add_line_points al (c # cs) line =
     (case parse_coordinates_point c of
        Inl err \<Rightarrow> (err, line)
      | Inr p \<Rightarrow> add_line_points al cs (snd (linestring_add_point al line p)))"

fun add_ring_points :: "allocator \<Rightarrow> JsonValue list \<Rightarrow> Polygon \<Rightarrow> ParseError \<times> Polygon" where
  "add_ring_points al [] poly = (PARSE_OK, poly)"
| "add_ring_points al (c # cs) poly =
     (case parse_coordinates_point c of
        Inl err \<Rightarrow> (err, poly)
      | Inr p \<Rightarrow> add_ring_points al cs (snd (polygon_add_exterior_point al poly p)))"

definition add_hole_point :: "allocator \<Rightarrow> nat \<Rightarrow> JsonValue \<Rightarrow> Polygon \<Rightarrow> Polygon" where
  "add_hole_point al i c poly =
     (case parse_coordinates_point c of Inl err \<Rightarrow> poly | Inr p \<Rightarrow> snd (polygon_add_hole_point al poly i p))"

text \<open>Ring \<open>h\<close> of the coordinates is meant to be hole \<open>h - 1\<close>, also if a ring before it was skipped.\<close>

definition add_hole_ring :: "allocator \<Rightarrow> JsonValue list \<Rightarrow> nat \<Rightarrow> Polygon \<Rightarrow> Polygon" where
  "add_hole_ring al rings h poly =
     (case rings ! h of
        JSON_ARRAY items \<Rightarrow>
          (case polygon_add_hole al poly (length items) of (err, poly1) \<Rightarrow>
             if err \<noteq> GEOM_OK then poly1 else fold (add_hole_point al (h - 1)) items poly1)
      | _ \<Rightarrow> poly)"

definition parse_geojson_line :: "allocator \<Rightarrow> JsonValue list \<Rightarrow> SpatialObject \<Rightarrow> ParseError \<times> SpatialObject" where
  "parse_geojson_line al items obj =
     (case spatial_object_init_linestring al 0 (length items) of (gerr, obj1) \<Rightarrow>
        if gerr \<noteq> GEOM_OK then (PARSE_ERR_ALLOC, obj1)
        else case so_geom obj1 of
          G_line line \<Rightarrow>
            (case add_line_points al items line of (err, line1) \<Rightarrow>
               if err \<noteq> PARSE_OK then (err, spatial_object_free (obj1\<lparr>so_geom := G_line line1\<rparr>))
               else (PARSE_OK, snd (spatial_object_update_derived (obj1\<lparr>so_geom := G_line line1\<rparr>))))
        | _ \<Rightarrow> (PARSE_OK, obj1))"

definition parse_geojson_polygon :: "allocator \<Rightarrow> JsonValue list \<Rightarrow> SpatialObject \<Rightarrow> ParseError \<times> SpatialObject" where
  "parse_geojson_polygon al rings obj =
     (if length rings < 1 then (PARSE_ERR_INVALID_GEOM, obj)
      else case rings ! 0 of
        JSON_ARRAY items \<Rightarrow>
          (case spatial_object_init_polygon al 0 (length items) of (gerr, obj1) \<Rightarrow>
             if gerr \<noteq> GEOM_OK then (PARSE_ERR_ALLOC, obj1)
             else case so_geom obj1 of
               G_polygon poly \<Rightarrow>
                 (case add_ring_points al items poly of (err, poly1) \<Rightarrow>
                    if err \<noteq> PARSE_OK then (err, spatial_object_free (obj1\<lparr>so_geom := G_polygon poly1\<rparr>))
                    else let poly2 = fold (add_hole_ring al rings) [1..<length rings] poly1 in
                      (PARSE_OK, snd (spatial_object_update_derived (obj1\<lparr>so_geom := G_polygon poly2\<rparr>))))
             | _ \<Rightarrow> (PARSE_OK, obj1))
      | _ \<Rightarrow> (PARSE_ERR_INVALID_GEOM, obj))"

definition parse_geojson_geometry :: "allocator \<Rightarrow> JsonValue \<Rightarrow> SpatialObject \<Rightarrow> ParseError \<times> SpatialObject" where
  "parse_geojson_geometry al geom obj =
     (case (json_object_get (Some geom) ''type'', json_object_get (Some geom) ''coordinates'') of
        (Some (JSON_STRING type_str), Some coords) \<Rightarrow>
          (if type_str = ''Point'' then
             (case parse_coordinates_point coords of
                Inl err \<Rightarrow> (err, obj)
              | Inr p \<Rightarrow> (PARSE_OK, snd (spatial_object_init_point 0 p)))
           else if type_str = ''LineString'' then
             (case coords of JSON_ARRAY items \<Rightarrow> parse_geojson_line al items obj | _ \<Rightarrow> (PARSE_ERR_INVALID_GEOM, obj))
           else if type_str = ''Polygon'' then
             (case coords of JSON_ARRAY rings \<Rightarrow> parse_geojson_polygon al rings obj | _ \<Rightarrow> (PARSE_ERR_INVALID_GEOM, obj))
           else (PARSE_ERR_UNSUPPORTED, obj))
      | _ \<Rightarrow> (PARSE_ERR_INVALID_GEOM, obj))"

subsection \<open>Features\<close>

text \<open>The conversion of a \<open>double\<close> to \<open>uint64_t\<close>: undefined unless the integer part is in range.\<close>

definition double_to_u64 :: "double \<Rightarrow> 64 word option" where
  "double_to_u64 d =
     (let n = mval (dmag d) div 2 ^ 1074 in
      if \<not> finite_d d \<or> (dneg d \<and> n \<noteq> 0) \<or> n \<ge> 2 ^ 64 then None else Some (word_of_int n))"

definition strdup :: "allocator \<Rightarrow> string \<Rightarrow> string option" where
  "strdup al s = (if al (length s + 1) then Some s else None)"

definition parse_feature_id :: "allocator \<Rightarrow> JsonValue \<Rightarrow> ParsedFeature \<Rightarrow> ParsedFeature option" where
  "parse_feature_id al feature parsed =
     (case json_object_get (Some feature) ''id'' of
        Some (JSON_NUMBER d) \<Rightarrow>
          map_option (\<lambda>oid. parsed\<lparr>pf_object := (pf_object parsed)\<lparr>so_id := oid\<rparr>\<rparr>) (double_to_u64 d)
      | Some (JSON_STRING s) \<Rightarrow> Some (parsed\<lparr>pf_id_str := strdup al s\<rparr>)
      | _ \<Rightarrow> Some parsed)"

definition parse_geojson_feature :: "allocator \<Rightarrow> JsonValue \<Rightarrow> (ParseError \<times> ParsedFeature) option" where
  "parse_geojson_feature al feature =
     (case json_object_get (Some feature) ''geometry'' of
        None \<Rightarrow> Some (PARSE_ERR_INVALID_GEOM, zero_feature)
      | Some geometry \<Rightarrow>
          (case parse_geojson_geometry al geometry (pf_object zero_feature) of (err, obj) \<Rightarrow>
             if err \<noteq> PARSE_OK then Some (err, zero_feature\<lparr>pf_object := obj\<rparr>)
             else case parse_feature_id al feature (zero_feature\<lparr>pf_object := obj\<rparr>) of
               None \<Rightarrow> None
             | Some parsed \<Rightarrow>
                 (case json_object_get (Some feature) ''properties'' of
                    Some (JSON_OBJECT members) \<Rightarrow> Some (PARSE_OK, parsed\<lparr>pf_properties := JSON_OBJECT members\<rparr>)
                  | _ \<Rightarrow> Some (PARSE_OK, parsed))))"

subsection \<open>Collections\<close>

definition feature_collection_init :: "allocator \<Rightarrow> nat \<Rightarrow> ParseError \<times> FeatureCollection" where
  "feature_collection_init al capacity =
     (let cap = (if capacity > 0 then capacity else 64) in
      if al (cap * sizeof_ParsedFeature) then (PARSE_OK, \<lparr>fc_features = [], fc_capacity = cap, fc_bounds = mbr_empty\<rparr>)
      else (PARSE_ERR_ALLOC, \<lparr>fc_features = [], fc_capacity = cap, fc_bounds = zero_mbr\<rparr>))"

definition feature_collection_free :: "FeatureCollection \<Rightarrow> FeatureCollection" where
  "feature_collection_free fc = \<lparr>fc_features = [], fc_capacity = 0, fc_bounds = zero_mbr\<rparr>"

definition feature_collection_add :: "allocator \<Rightarrow> FeatureCollection \<Rightarrow> ParsedFeature \<Rightarrow> ParseError \<times> FeatureCollection" where
  "feature_collection_add al fc feature =
     (let full = length (fc_features fc) \<ge> fc_capacity fc; new_cap = fc_capacity fc * GROWTH_FACTOR in
      if full \<and> \<not> al (new_cap * sizeof_ParsedFeature) then (PARSE_ERR_ALLOC, fc)
      else (PARSE_OK, \<lparr>fc_features = fc_features fc @ [feature], fc_capacity = (if full then new_cap else fc_capacity fc),
              fc_bounds = mbr_expand_mbr (fc_bounds fc) (so_mbr (pf_object feature))\<rparr>))"

definition feature_collection_get :: "FeatureCollection \<Rightarrow> nat \<Rightarrow> ParsedFeature option" where
  "feature_collection_get fc index = (if index \<ge> length (fc_features fc) then None else Some (fc_features fc ! index))"

definition feature_collection_clear :: "FeatureCollection \<Rightarrow> FeatureCollection" where
  "feature_collection_clear fc = fc\<lparr>fc_features := [], fc_bounds := mbr_empty\<rparr>"

subsection \<open>Parsing\<close>

text \<open>A feature that does not parse is dropped.\<close>

definition add_feature :: "allocator \<Rightarrow> JsonValue \<Rightarrow> FeatureCollection \<Rightarrow> FeatureCollection option" where
  "add_feature al feature fc =
     (case parse_geojson_feature al feature of
        None \<Rightarrow> None
      | Some (err, parsed) \<Rightarrow> Some (if err = PARSE_OK then snd (feature_collection_add al fc parsed) else fc))"

fun add_features :: "allocator \<Rightarrow> JsonValue list \<Rightarrow> FeatureCollection \<Rightarrow> FeatureCollection option" where
  "add_features al [] fc = Some fc"
| "add_features al (f # fs) fc = (case add_feature al f fc of None \<Rightarrow> None | Some fc' \<Rightarrow> add_features al fs fc')"

definition collect_bounds :: "FeatureCollection \<Rightarrow> FeatureCollection" where
  "collect_bounds fc = fc\<lparr>fc_bounds := fold (\<lambda>f b. mbr_expand_mbr b (so_mbr (pf_object f))) (fc_features fc) mbr_empty\<rparr>"

text \<open>\<open>geojson_parse_string\<close> after the JSON value has been parsed.\<close>

definition collect_root :: "allocator \<Rightarrow> JsonValue \<Rightarrow> FeatureCollection \<Rightarrow> (ParseError \<times> FeatureCollection) option" where
  "collect_root al value fc =
     (case json_object_get (Some value) ''type'' of
        Some (JSON_STRING type_str) \<Rightarrow>
          (if type_str = ''FeatureCollection'' then
             (case json_object_get (Some value) ''features'' of
                Some (JSON_ARRAY features) \<Rightarrow> map_option (\<lambda>fc'. (PARSE_OK, collect_bounds fc')) (add_features al features fc)
              | _ \<Rightarrow> Some (PARSE_ERR_SYNTAX, feature_collection_free fc))
           else if type_str = ''Feature'' then
             map_option (\<lambda>fc'. (PARSE_OK, collect_bounds fc')) (add_feature al value fc)
           else
             (case parse_geojson_geometry al value (pf_object zero_feature) of (err, obj) \<Rightarrow>
                Some (PARSE_OK, collect_bounds
                  (if err = PARSE_OK then snd (feature_collection_add al fc (zero_feature\<lparr>pf_object := obj\<rparr>)) else fc))))
      | _ \<Rightarrow> Some (PARSE_ERR_SYNTAX, feature_collection_free fc))"

definition geojson_parse_string :: "allocator \<Rightarrow> string \<Rightarrow> (ParseError \<times> FeatureCollection) option" where
  "geojson_parse_string al json =
     (case feature_collection_init al 64 of (err, fc) \<Rightarrow>
        if err \<noteq> PARSE_OK then Some (err, fc)
        else case parse_root al json of
          None \<Rightarrow> None
        | Some (Inl perr, st) \<Rightarrow> Some (perr, feature_collection_free fc)
        | Some (Inr value, st) \<Rightarrow> collect_root al value fc)"

definition geojson_parse_geometry :: "allocator \<Rightarrow> string \<Rightarrow> SpatialObject \<Rightarrow> (ParseError \<times> SpatialObject) option" where
  "geojson_parse_geometry al json obj =
     (case parse_root al json of
        None \<Rightarrow> None
      | Some (Inl err, st) \<Rightarrow> Some (err, obj)
      | Some (Inr value, st) \<Rightarrow> Some (parse_geojson_geometry al value obj))"

definition geojson_validate :: "allocator \<Rightarrow> string \<Rightarrow> bool option" where
  "geojson_validate al json = map_option (\<lambda>(err, fc). err = PARSE_OK) (geojson_parse_string al json)"

text \<open>
  A file is read as a whole, and its text ends at the first zero byte.  A read that fails gives no
  characters.  On an error before the parse the collection is not touched.
\<close>

definition text_of_bytes :: "8 word list \<Rightarrow> string" where
  "text_of_bytes bytes = map (\<lambda>b. char_of (unat b)) bytes"

definition geojson_parse_file ::
  "allocator \<Rightarrow> Device \<Rightarrow> FileState \<Rightarrow> string \<Rightarrow> FeatureCollection \<Rightarrow> (ParseError \<times> FeatureCollection) option" where
  "geojson_parse_file al dv fs path fc =
     (case (if dv_open dv path then fs_files fs path else None) of
        None \<Rightarrow> Some (PARSE_ERR_IO, fc)
      | Some bytes \<Rightarrow>
          (let size = length bytes in
           if size = 0 then Some (PARSE_ERR_IO, fc)
           else if \<not> al (size + 1) then Some (PARSE_ERR_ALLOC, fc)
           else geojson_parse_string al (if dv_read dv 0 then text_of_bytes bytes else [])))"

text \<open>
  The callbacks take the user's data and give it back changed; NULL is None.  \<open>on_progress\<close> is never
  called.  The loop stops at the first feature that the callback does not accept, and the result is
  \<open>PARSE_OK\<close> all the same.
\<close>

record 'u ParserCallbacks =
  cb_on_feature :: "('u \<Rightarrow> ParsedFeature \<Rightarrow> int \<times> 'u) option"
  cb_on_error :: "('u \<Rightarrow> string \<Rightarrow> int \<Rightarrow> int \<Rightarrow> 'u) option"

fun call_on_feature :: "('u \<Rightarrow> ParsedFeature \<Rightarrow> int \<times> 'u) option \<Rightarrow> ParsedFeature list \<Rightarrow> 'u \<Rightarrow> 'u" where
  "call_on_feature None fs u = u"
| "call_on_feature (Some cb) [] u = u"
| "call_on_feature (Some cb) (f # fs) u =
     (case cb u f of (err, u') \<Rightarrow> if err \<noteq> 0 then u' else call_on_feature (Some cb) fs u')"

definition geojson_parse_stream :: "allocator \<Rightarrow> string \<Rightarrow> 'u ParserCallbacks \<Rightarrow> 'u \<Rightarrow> (ParseError \<times> 'u) option" where
  "geojson_parse_stream al txt callbacks u =
     (if \<not> al (length txt + 1) then Some (PARSE_ERR_ALLOC, u)
      else case geojson_parse_string al txt of
        None \<Rightarrow> None
      | Some (err, fc) \<Rightarrow>
          (if err \<noteq> PARSE_OK
           then Some (err, case cb_on_error callbacks of Some cb \<Rightarrow> cb u ''Parse error'' 0 0 | None \<Rightarrow> u)
           else Some (PARSE_OK, call_on_feature (cb_on_feature callbacks) (fc_features fc) u)))"

subsection \<open>Export\<close>

text \<open>
  The result is the number of characters of the whole text and the buffer; None if the code writes
  behind the buffer.  A buffer of size 0 is refused with \<open>PARSE_ERR_NULL_PTR\<close>, which is -1.
\<close>

definition json_point :: "Point \<Rightarrow> string" where
  "json_point p = ''['' @ format_f6 (px p) @ '','' @ format_f6 (py p) @ '']''"

definition quote_mark :: string where "quote_mark = [CHR 0x22]"

definition json_type :: "string \<Rightarrow> string" where
  "json_type t = ''{'' @ quote_mark @ ''type'' @ quote_mark @ '':'' @ quote_mark @ t @ quote_mark"

definition json_geometry :: "string \<Rightarrow> string" where
  "json_geometry t = json_type t @ '','' @ quote_mark @ ''coordinates'' @ quote_mark @ '':''"

definition export_result :: "outbuf option \<Rightarrow> (int \<times> string) option" where
  "export_result out = map_option (\<lambda>(buf, written). (int written, buf)) out"

definition geojson_export :: "SpatialObject \<Rightarrow> string \<Rightarrow> (int \<times> string) option" where
  "geojson_export obj buf =
     (if buf = [] then Some (- 1, buf)
      else export_result (case so_geom obj of
        G_point p \<Rightarrow> print_to (json_geometry ''Point'' @ json_point p @ ''}'') (buf, 0)
      | G_line l \<Rightarrow> print_list (json_geometry ''LineString'' @ ''['') '','' '']}'' json_point (ls_points l) buf
      | G_polygon p \<Rightarrow> print_list (json_geometry ''Polygon'' @ ''[['') '','' '']]}'' json_point (exterior p) buf))"

text \<open>One turn of the loop: the geometry goes through a buffer of 4096 characters.\<close>

definition print_feature :: "bool \<Rightarrow> ParsedFeature \<Rightarrow> outbuf \<Rightarrow> outbuf option" where
  "print_feature is_first feature out =
     (case (if is_first then Some out else print_to '','' out) of
        None \<Rightarrow> None
      | Some out1 \<Rightarrow>
          (case print_to (json_type ''Feature'' @ '','' @ quote_mark @ ''geometry'' @ quote_mark @ '':'') out1 of
             None \<Rightarrow> None
           | Some out2 \<Rightarrow>
               (case geojson_export (pf_object feature) (replicate 4096 (CHR 0x00)) of
                  None \<Rightarrow> None
                | Some (n, geom_buf) \<Rightarrow>
                    print_to (c_str geom_buf @ '','' @ quote_mark @ ''properties'' @ quote_mark @ '':{}}'') out2)))"

fun print_features :: "bool \<Rightarrow> ParsedFeature list \<Rightarrow> outbuf \<Rightarrow> outbuf option" where
  "print_features is_first [] out = Some out"
| "print_features is_first (f # fs) out =
     (if \<not> fits out then Some out
      else case print_feature is_first f out of None \<Rightarrow> None | Some out1 \<Rightarrow> print_features False fs out1)"

definition geojson_export_collection :: "FeatureCollection \<Rightarrow> string \<Rightarrow> (int \<times> string) option" where
  "geojson_export_collection fc buf =
     (if buf = [] then Some (- 1, buf)
      else export_result (case print_to (json_type ''FeatureCollection'' @ '','' @ quote_mark @ ''features'' @ quote_mark @ '':['') (buf, 0) of
        None \<Rightarrow> None
      | Some out1 \<Rightarrow> (case print_features True (fc_features fc) out1 of
          None \<Rightarrow> None
        | Some out2 \<Rightarrow> print_to '']}'' out2)))"

end
