(* ===== verification/Wkt.thy ===== *)
theory Wkt
  imports GeoJson
begin

text \<open>
  Well-known text, src/src/parser.c: \<open>wkt_parse\<close>, \<open>wkt_export\<close> and the detection of the type of a text.

  The pointer \<open>wkt\<close> that moves over the input is the text from there on.
\<close>

subsection \<open>Parsing\<close>

definition skip_spaces :: "string \<Rightarrow> string" where
  "skip_spaces s = dropWhile isspace s"

definition skip_opening :: "string \<Rightarrow> string" where
  "skip_opening s = dropWhile (\<lambda>c. isspace c \<or> c = CHR ''('') s"

text \<open>To the next coordinate: after the next comma, or to the closing parenthesis.\<close>

definition next_coordinate :: "string \<Rightarrow> string" where
  "next_coordinate s =
     (let s1 = dropWhile (\<lambda>c. c \<noteq> CHR '','' \<and> c \<noteq> CHR '')'') s in
      skip_spaces (if take 1 s1 = '','' then drop 1 s1 else s1))"

text \<open>The loops over the coordinates; one that does not parse is left out.\<close>

function wkt_points :: "(Point \<Rightarrow> 'a \<Rightarrow> 'a) \<Rightarrow> string \<Rightarrow> 'a \<Rightarrow> 'a" where
  "wkt_points add s a =
     (if s = [] \<or> take 1 s = '')'' then a
      else wkt_points add (next_coordinate s)
        (case sscanf_lf_lf s of Some (x, y) \<Rightarrow> add (point_create x y) a | None \<Rightarrow> a))"
  by pat_completeness auto
termination
proof (relation "measure (\<lambda>(add, s, a). length s)", simp)
  fix s :: string
  assume "\<not> (s = [] \<or> take 1 s = '')'')"
  then obtain c r where s: "s = c # r" "c \<noteq> CHR '')''" by (cases s) auto
  have l: "length (dropWhile P u) \<le> length u" for P and u :: string by (rule length_dropWhile_le)
  have "length (next_coordinate s) \<le> length r"
  proof (cases "c = CHR '',''")
    case True
    then show ?thesis using l [of isspace r] by (simp add: next_coordinate_def skip_spaces_def s)
  next
    case False
    let ?s1 = "dropWhile (\<lambda>c. c \<noteq> CHR '','' \<and> c \<noteq> CHR '')'') r"
    have "length (dropWhile isspace (if take 1 ?s1 = '','' then drop 1 ?s1 else ?s1)) \<le> length ?s1"
      using l [of isspace "drop 1 ?s1"] l [of isspace ?s1] by (auto split: if_splits)
    then show ?thesis using False s l [of "\<lambda>c. c \<noteq> CHR '','' \<and> c \<noteq> CHR '')''" r] by (simp add: next_coordinate_def skip_spaces_def Let_def)
  qed
  then show "((add, next_coordinate s, b), add, s, a) \<in> measure (\<lambda>(add, s, a). length s)" for add :: "Point \<Rightarrow> 'a \<Rightarrow> 'a" and a b
    by (simp add: s(1))
qed

declare wkt_points.simps [simp del]

definition wkt_line :: "allocator \<Rightarrow> string \<Rightarrow> ParseError \<times> SpatialObject" where
  "wkt_line al s =
     (case spatial_object_init_linestring al 0 16 of (gerr, obj1) \<Rightarrow>
        if gerr \<noteq> GEOM_OK then (PARSE_ERR_ALLOC, obj1)
        else case so_geom obj1 of
          G_line line \<Rightarrow>
            (let line1 = wkt_points (\<lambda>p l. snd (linestring_add_point al l p)) (skip_opening s) line in
             (PARSE_OK, snd (spatial_object_update_derived (obj1\<lparr>so_geom := G_line line1\<rparr>))))
        | _ \<Rightarrow> (PARSE_OK, obj1))"

text \<open>\<open>skip_opening\<close> goes over all parentheses; the code then looks for the one of the first ring.\<close>

definition skip_to_ring :: "string \<Rightarrow> string" where
  "skip_to_ring s = drop 1 (dropWhile (\<lambda>c. c \<noteq> CHR ''('') (skip_opening s))"

definition wkt_polygon :: "allocator \<Rightarrow> string \<Rightarrow> ParseError \<times> SpatialObject" where
  "wkt_polygon al s =
     (case spatial_object_init_polygon al 0 16 of (gerr, obj1) \<Rightarrow>
        if gerr \<noteq> GEOM_OK then (PARSE_ERR_ALLOC, obj1)
        else case so_geom obj1 of
          G_polygon poly \<Rightarrow>
            (let poly1 = wkt_points (\<lambda>p q. snd (polygon_add_exterior_point al q p)) (skip_to_ring s) poly in
             (PARSE_OK, snd (spatial_object_update_derived (obj1\<lparr>so_geom := G_polygon poly1\<rparr>))))
        | _ \<Rightarrow> (PARSE_OK, obj1))"

definition wkt_parse :: "allocator \<Rightarrow> string \<Rightarrow> SpatialObject \<Rightarrow> ParseError \<times> SpatialObject" where
  "wkt_parse al wkt obj =
     (let s = skip_spaces (c_str wkt) in
      if starts_nocase ''point'' s then
        (case sscanf_lf_lf (skip_opening (drop 5 s)) of
           None \<Rightarrow> (PARSE_ERR_SYNTAX, obj)
         | Some (x, y) \<Rightarrow> (PARSE_OK, snd (spatial_object_init_point 0 (point_create x y))))
      else if starts_nocase ''linestring'' s then wkt_line al (drop 10 s)
      else if starts_nocase ''polygon'' s then wkt_polygon al (drop 7 s)
      else (PARSE_ERR_UNSUPPORTED, obj))"

definition wkt_validate :: "allocator \<Rightarrow> string \<Rightarrow> bool" where
  "wkt_validate al wkt = (fst (wkt_parse al wkt zero_object) = PARSE_OK)"

subsection \<open>Export\<close>

definition wkt_point :: "Point \<Rightarrow> string" where
  "wkt_point p = format_f6 (px p) @ '' '' @ format_f6 (py p)"

definition wkt_export :: "SpatialObject \<Rightarrow> string \<Rightarrow> (int \<times> string) option" where
  "wkt_export obj buf =
     (if buf = [] then Some (- 1, buf)
      else export_result (case so_geom obj of
        G_point p \<Rightarrow> print_to (''POINT ('' @ wkt_point p @ '')'') (buf, 0)
      | G_line l \<Rightarrow> print_list ''LINESTRING ('' '', '' '')'' wkt_point (ls_points l) buf
      | G_polygon p \<Rightarrow> print_list ''POLYGON (('' '', '' ''))'' wkt_point (exterior p) buf))"

subsection \<open>The type of a text\<close>

text \<open>\<open>strstr (s, p) != NULL\<close>\<close>

fun strstr :: "string \<Rightarrow> string \<Rightarrow> bool" where
  "strstr [] p = (p = [])"
| "strstr (c # s) p = (take (length p) (c # s) = p \<or> strstr s p)"

definition parser_detect_type :: "string \<Rightarrow> GeomType" where
  "parser_detect_type input =
     (let s = skip_spaces (c_str input) in
      if starts_nocase ''point'' s \<or> strstr s (quote_mark @ ''Point'' @ quote_mark) then GEOM_POINT
      else if starts_nocase ''linestring'' s \<or> strstr s (quote_mark @ ''LineString'' @ quote_mark) then GEOM_LINESTRING
      else if starts_nocase ''polygon'' s \<or> strstr s (quote_mark @ ''Polygon'' @ quote_mark) then GEOM_POLYGON
      else GEOM_POINT)"

end
