(* ===== verification/Urbis.thy ===== *)
theory Urbis
  imports Persistence Wkt
begin

text \<open>
  The public interface: src/include/urbis.h and src/src/urbis.c.

  A handle of the library is a \<open>SpatialIndex\<close>.  A function that fills an output only on success returns
  a sum: the status on the left, the output on the right with \<open>URBIS_OK\<close>.  An optional output (\<open>out_id\<close>,
  \<open>out_loaded\<close>) is an option: None is not written.  Where the file system or the parser is involved the
  result as a whole is an option, for what the model has no value for, as in \<open>Persistence\<close> and \<open>GeoJson\<close>.
\<close>

datatype UrbisStatus = URBIS_OK | URBIS_ERR_NULL | URBIS_ERR_ALLOC | URBIS_ERR_IO | URBIS_ERR_PARSE
  | URBIS_ERR_NOT_FOUND | URBIS_ERR_FULL | URBIS_ERR_INVALID | URBIS_ERR_NOT_BUILT

record UrbisConfig =
  uc_block_size :: nat
  uc_page_capacity :: nat
  uc_cache_size :: nat
  uc_enable_quadtree :: bool
  uc_persist :: bool
  uc_data_path :: "string option"

record UrbisObjectList =
  ol_objects :: "SpatialObject list"

record UrbisPageList =
  pl_page_ids :: "32 word list"
  pl_track_ids :: "32 word list"
  pl_estimated_seeks :: nat

record UrbisStats =
  us_total_objects :: nat
  us_total_blocks :: nat
  us_total_pages :: nat
  us_total_tracks :: nat
  us_avg_objects_per_page :: double
  us_page_utilization :: double
  us_kdtree_depth :: nat
  us_quadtree_depth :: int
  us_bounds :: MBR

definition sizeof_UrbisObjectList :: nat where "sizeof_UrbisObjectList = 16"
definition sizeof_UrbisPageList :: nat where "sizeof_UrbisPageList = 32"

subsection \<open>Helpers\<close>

fun urbis_from_si :: "SpatialIndexError \<Rightarrow> UrbisStatus" where
  "urbis_from_si SI_OK = URBIS_OK"
| "urbis_from_si SI_ERR_NULL_PTR = URBIS_ERR_NULL"
| "urbis_from_si SI_ERR_ALLOC = URBIS_ERR_ALLOC"
| "urbis_from_si SI_ERR_NOT_BUILT = URBIS_ERR_NOT_BUILT"
| "urbis_from_si SI_ERR_NOT_FOUND = URBIS_ERR_NOT_FOUND"
| "urbis_from_si SI_ERR_FULL = URBIS_ERR_FULL"
| "urbis_from_si SI_ERR_IO = URBIS_ERR_IO"
| "urbis_from_si SI_ERR_INVALID = URBIS_ERR_INVALID"

fun urbis_from_geom :: "GeomError \<Rightarrow> UrbisStatus" where
  "urbis_from_geom GEOM_OK = URBIS_OK"
| "urbis_from_geom GEOM_ERR_NULL_PTR = URBIS_ERR_NULL"
| "urbis_from_geom GEOM_ERR_ALLOC = URBIS_ERR_ALLOC"
| "urbis_from_geom GEOM_ERR_INVALID_GEOM = URBIS_ERR_INVALID"
| "urbis_from_geom GEOM_ERR_EMPTY_GEOM = URBIS_ERR_INVALID"
| "urbis_from_geom GEOM_ERR_INDEX_OUT_OF_BOUNDS = URBIS_ERR_INVALID"

text \<open>The loop of copies; on an error the copies made so far are freed.\<close>

fun copy_objects :: "allocator \<Rightarrow> SpatialObject list \<Rightarrow> UrbisStatus + SpatialObject list" where
  "copy_objects al [] = Inr []"
| "copy_objects al (obj # objs) =
     (case spatial_object_copy al obj of (err, copy) \<Rightarrow>
        if err \<noteq> GEOM_OK then Inl (urbis_from_geom err)
        else (case copy_objects al objs of Inl e \<Rightarrow> Inl e | Inr copies \<Rightarrow> Inr (copy # copies)))"

text \<open>The objects are those the query result points to.\<close>

definition urbis_copy_query_result :: "allocator \<Rightarrow> SpatialObject list \<Rightarrow> UrbisStatus + UrbisObjectList" where
  "urbis_copy_query_result al objs =
     (if \<not> al sizeof_UrbisObjectList then Inl URBIS_ERR_ALLOC
      else if objs = [] then Inr \<lparr>ol_objects = []\<rparr>
      else if \<not> al (length objs * sizeof_SpatialObject) then Inl URBIS_ERR_ALLOC
      else (case copy_objects al objs of Inl e \<Rightarrow> Inl e | Inr copies \<Rightarrow> Inr \<lparr>ol_objects = copies\<rparr>))"

subsection \<open>Configuration and lifecycle\<close>

definition urbis_config_default :: UrbisConfig where
  "urbis_config_default = \<lparr>uc_block_size = SI_DEFAULT_BLOCK_SIZE, uc_page_capacity = SI_DEFAULT_PAGE_CAPACITY,
     uc_cache_size = DM_DEFAULT_CACHE_SIZE, uc_enable_quadtree = True, uc_persist = False, uc_data_path = None\<rparr>"

definition urbis_index_create :: "allocator \<Rightarrow> Heap \<Rightarrow> UrbisConfig option \<Rightarrow> UrbisStatus + SpatialIndex" where
  "urbis_index_create al h config =
     (let create = (\<lambda>cfg. case spatial_index_create al h (Some cfg) of None \<Rightarrow> Inl URBIS_ERR_ALLOC | Some idx \<Rightarrow> Inr idx) in
      case config of
        None \<Rightarrow> create spatial_index_default_config
      | Some c \<Rightarrow>
          (let cfg = spatial_index_default_config\<lparr>sc_block_size := uc_block_size c, sc_page_capacity := uc_page_capacity c,
                 sc_cache_size := uc_cache_size c, sc_build_quadtree := uc_enable_quadtree c, sc_persist := uc_persist c\<rparr>
           in case uc_data_path c of
                None \<Rightarrow> create cfg
              | Some path \<Rightarrow> (case strdup al path of
                  None \<Rightarrow> Inl URBIS_ERR_ALLOC
                | Some path' \<Rightarrow> create (cfg\<lparr>sc_data_path := Some path'\<rparr>))))"

text \<open>\<open>spatial_index_destroy\<close>\<close>

definition urbis_index_destroy :: "Device \<Rightarrow> 64 word \<Rightarrow> FileState \<Rightarrow> SpatialIndex \<Rightarrow> FileState \<times> Heap" where
  "urbis_index_destroy dv now fs idx = spatial_index_free dv now fs idx"

definition urbis_version :: string where
  "urbis_version = ''1.0.0''"

fun urbis_status_str :: "UrbisStatus \<Rightarrow> string" where
  "urbis_status_str URBIS_OK = ''OK''"
| "urbis_status_str URBIS_ERR_NULL = ''Null pointer''"
| "urbis_status_str URBIS_ERR_ALLOC = ''Allocation failed''"
| "urbis_status_str URBIS_ERR_IO = ''I/O error''"
| "urbis_status_str URBIS_ERR_PARSE = ''Parse error''"
| "urbis_status_str URBIS_ERR_NOT_FOUND = ''Not found''"
| "urbis_status_str URBIS_ERR_FULL = ''Index full''"
| "urbis_status_str URBIS_ERR_INVALID = ''Invalid argument''"
| "urbis_status_str URBIS_ERR_NOT_BUILT = ''Index not built''"

subsection \<open>Inserting and removing\<close>

text \<open>What all insertions do with the object they have made: the status, the index and the id.\<close>

definition insert_made :: "allocator \<Rightarrow> SpatialIndex \<Rightarrow> SpatialObject \<Rightarrow> UrbisStatus \<times> SpatialIndex \<times> 64 word option" where
  "insert_made al idx obj =
     (case spatial_index_insert al idx obj of (err, idx1, obj1) \<Rightarrow>
        if err \<noteq> SI_OK then (urbis_from_si err, idx1, None) else (URBIS_OK, idx1, Some (so_id obj1)))"

definition urbis_index_insert_object ::
  "allocator \<Rightarrow> SpatialIndex \<Rightarrow> SpatialObject \<Rightarrow> UrbisStatus \<times> SpatialIndex \<times> 64 word option" where
  "urbis_index_insert_object al idx obj =
     (case spatial_object_copy al obj of (err, copy) \<Rightarrow>
        if err \<noteq> GEOM_OK then (urbis_from_geom err, idx, None) else insert_made al idx copy)"

definition urbis_index_insert_point ::
  "allocator \<Rightarrow> SpatialIndex \<Rightarrow> double \<Rightarrow> double \<Rightarrow> UrbisStatus \<times> SpatialIndex \<times> 64 word option" where
  "urbis_index_insert_point al idx x y =
     (case spatial_object_init_point 0 (point_create x y) of (err, obj) \<Rightarrow>
        if err \<noteq> GEOM_OK then (urbis_from_geom err, idx, None) else insert_made al idx obj)"

text \<open>The results of adding the points and of computing the derived data are not looked at.\<close>

definition urbis_index_insert_linestring ::
  "allocator \<Rightarrow> SpatialIndex \<Rightarrow> Point list \<Rightarrow> UrbisStatus \<times> SpatialIndex \<times> 64 word option" where
  "urbis_index_insert_linestring al idx points =
     (if points = [] then (URBIS_ERR_NULL, idx, None)
      else case spatial_object_init_linestring al 0 (length points) of (err, obj) \<Rightarrow>
        if err \<noteq> GEOM_OK then (urbis_from_geom err, idx, None)
        else case so_geom obj of
          G_line line \<Rightarrow>
            (let line1 = fold (\<lambda>p l. snd (linestring_add_point al l p)) points line in
             insert_made al idx (snd (spatial_object_update_derived (obj\<lparr>so_geom := G_line line1\<rparr>))))
        | _ \<Rightarrow> (URBIS_OK, idx, None))"

definition urbis_index_insert_polygon ::
  "allocator \<Rightarrow> SpatialIndex \<Rightarrow> Point list \<Rightarrow> UrbisStatus \<times> SpatialIndex \<times> 64 word option" where
  "urbis_index_insert_polygon al idx points =
     (if length points < 3 then (URBIS_ERR_NULL, idx, None)
      else case spatial_object_init_polygon al 0 (length points) of (err, obj) \<Rightarrow>
        if err \<noteq> GEOM_OK then (urbis_from_geom err, idx, None)
        else case so_geom obj of
          G_polygon poly \<Rightarrow>
            (let poly1 = fold (\<lambda>p q. snd (polygon_add_exterior_point al q p)) points poly in
             insert_made al idx (snd (spatial_object_update_derived (obj\<lparr>so_geom := G_polygon poly1\<rparr>))))
        | _ \<Rightarrow> (URBIS_OK, idx, None))"

definition urbis_index_remove :: "allocator \<Rightarrow> SpatialIndex \<Rightarrow> 64 word \<Rightarrow> UrbisStatus \<times> SpatialIndex" where
  "urbis_index_remove al idx oid = (case spatial_index_remove al idx oid of (err, idx1) \<Rightarrow> (urbis_from_si err, idx1))"

text \<open>On an error of the copy the caller's object is what the copy has left.\<close>

definition urbis_index_get :: "allocator \<Rightarrow> SpatialIndex \<Rightarrow> 64 word \<Rightarrow> SpatialObject \<Rightarrow> UrbisStatus \<times> SpatialObject" where
  "urbis_index_get al idx oid out_object =
     (case spatial_index_get idx oid of
        None \<Rightarrow> (URBIS_ERR_NOT_FOUND, out_object)
      | Some p \<Rightarrow> (case spatial_object_copy al (si_deref idx p) of (err, copy) \<Rightarrow> (urbis_from_geom err, copy)))"

subsection \<open>Loading data\<close>

fun insert_features :: "allocator \<Rightarrow> SpatialIndex \<Rightarrow> ParsedFeature list \<Rightarrow> SpatialIndexError \<times> SpatialIndex" where
  "insert_features al idx [] = (SI_OK, idx)"
| "insert_features al idx (f # fs) =
     (case spatial_index_insert al idx (pf_object f) of (err, idx1, obj1) \<Rightarrow>
        if err \<noteq> SI_OK then (err, idx1) else insert_features al idx1 fs)"

definition load_parsed ::
  "allocator \<Rightarrow> SpatialIndex \<Rightarrow> ParseError \<times> FeatureCollection \<Rightarrow> UrbisStatus \<times> SpatialIndex \<times> nat option" where
  "load_parsed al idx = (\<lambda>(perr, fc).
     if perr \<noteq> PARSE_OK then (URBIS_ERR_PARSE, idx, None)
     else case insert_features al idx (fc_features fc) of (err, idx1) \<Rightarrow>
       if err \<noteq> SI_OK then (urbis_from_si err, idx1, None) else (URBIS_OK, idx1, Some (length (fc_features fc))))"

definition urbis_index_load_geojson ::
  "allocator \<Rightarrow> Device \<Rightarrow> FileState \<Rightarrow> SpatialIndex \<Rightarrow> string \<Rightarrow> (UrbisStatus \<times> SpatialIndex \<times> nat option) option" where
  "urbis_index_load_geojson al dv fs idx path =
     map_option (load_parsed al idx) (geojson_parse_file al dv fs path \<lparr>fc_features = [], fc_capacity = 0, fc_bounds = zero_mbr\<rparr>)"

definition urbis_index_load_geojson_string ::
  "allocator \<Rightarrow> SpatialIndex \<Rightarrow> string \<Rightarrow> (UrbisStatus \<times> SpatialIndex \<times> nat option) option" where
  "urbis_index_load_geojson_string al idx json = map_option (load_parsed al idx) (geojson_parse_string al json)"

definition urbis_index_load_wkt ::
  "allocator \<Rightarrow> SpatialIndex \<Rightarrow> string \<Rightarrow> UrbisStatus \<times> SpatialIndex \<times> 64 word option" where
  "urbis_index_load_wkt al idx wkt =
     (case wkt_parse al wkt zero_object of (perr, obj) \<Rightarrow>
        if perr \<noteq> PARSE_OK then (URBIS_ERR_PARSE, idx, None) else insert_made al idx obj)"

subsection \<open>Building\<close>

definition urbis_index_build :: "obj_ptr qsort \<Rightarrow> allocator \<Rightarrow> SpatialIndex \<Rightarrow> UrbisStatus \<times> SpatialIndex" where
  "urbis_index_build qs al idx = (case spatial_index_build qs al idx of (err, idx1) \<Rightarrow> (urbis_from_si err, idx1))"

definition urbis_index_optimize :: "obj_ptr qsort \<Rightarrow> allocator \<Rightarrow> SpatialIndex \<Rightarrow> UrbisStatus \<times> SpatialIndex" where
  "urbis_index_optimize qs al idx = (case spatial_index_optimize qs al idx of (err, idx1) \<Rightarrow> (urbis_from_si err, idx1))"

subsection \<open>Queries\<close>

definition result_objects :: "SpatialIndex \<Rightarrow> SpatialQueryResult \<Rightarrow> SpatialObject list" where
  "result_objects idx result = map (si_deref idx) (sr_objects result)"

definition urbis_index_query_range :: "allocator \<Rightarrow> SpatialIndex \<Rightarrow> MBR \<Rightarrow> UrbisStatus + UrbisObjectList" where
  "urbis_index_query_range al idx rng =
     (case spatial_result_init al 64 of (ierr, result) \<Rightarrow>
        if ierr \<noteq> SI_OK then Inl URBIS_ERR_ALLOC
        else case spatial_index_query_range al idx rng result of (err, result1) \<Rightarrow>
          if err \<noteq> SI_OK then Inl (urbis_from_si err) else urbis_copy_query_result al (result_objects idx result1))"

definition urbis_index_query_point :: "allocator \<Rightarrow> SpatialIndex \<Rightarrow> double \<Rightarrow> double \<Rightarrow> UrbisStatus + UrbisObjectList" where
  "urbis_index_query_point al idx x y =
     (case spatial_result_init al 16 of (ierr, result) \<Rightarrow>
        if ierr \<noteq> SI_OK then Inl URBIS_ERR_ALLOC
        else case spatial_index_query_point al idx (point_create x y) result of (err, result1) \<Rightarrow>
          if err \<noteq> SI_OK then Inl (urbis_from_si err) else urbis_copy_query_result al (result_objects idx result1))"

definition urbis_index_query_knn :: "allocator \<Rightarrow> SpatialIndex \<Rightarrow> double \<Rightarrow> double \<Rightarrow> nat \<Rightarrow> UrbisStatus + UrbisObjectList" where
  "urbis_index_query_knn al idx x y k =
     (if k = 0 then Inl URBIS_ERR_INVALID
      else case spatial_result_init al k of (ierr, result) \<Rightarrow>
        if ierr \<noteq> SI_OK then Inl URBIS_ERR_ALLOC
        else case spatial_index_query_knn al idx (point_create x y) k result of (err, result1) \<Rightarrow>
          if err \<noteq> SI_OK then Inl (urbis_from_si err) else urbis_copy_query_result al (result_objects idx result1))"

text \<open>\<open>adjacent_result_init\<close> only clears the result, and cannot fail.\<close>

definition adjacent_result_init :: "nat \<Rightarrow> SpatialIndexError \<times> AdjacentPagesResult" where
  "adjacent_result_init capacity = (SI_OK, \<lparr>ar_pages = [], ar_track_ids = []\<rparr>)"

definition adjacent_result_free :: "AdjacentPagesResult \<Rightarrow> AdjacentPagesResult" where
  "adjacent_result_free result = \<lparr>ar_pages = [], ar_track_ids = []\<rparr>"

text \<open>The loop that counts the changes of the track; a track id 0 starts anew.\<close>

definition count_seeks :: "32 word list \<Rightarrow> nat" where
  "count_seeks track_ids =
     fst (fold (\<lambda>t (seeks, last_track). (if t \<noteq> last_track \<and> last_track \<noteq> 0 then seeks + 1 else seeks, t)) track_ids (0, 0))"

text \<open>The quadtree of the pages may be built by the call, so the index is a result, too.\<close>

definition urbis_index_find_adjacent_pages ::
  "allocator \<Rightarrow> SpatialIndex \<Rightarrow> MBR \<Rightarrow> (UrbisStatus + UrbisPageList) \<times> SpatialIndex" where
  "urbis_index_find_adjacent_pages al idx region =
     (case spatial_index_find_adjacent_pages al idx region of (err, result, idx1) \<Rightarrow>
        if err \<noteq> SI_OK then (Inl (urbis_from_si err), idx1)
        else if \<not> al sizeof_UrbisPageList then (Inl URBIS_ERR_ALLOC, idx1)
        else let n = length (ar_pages result) in
          if n > 0 \<and> \<not> al (n * 4) then (Inl URBIS_ERR_ALLOC, idx1)
          else (Inr \<lparr>pl_page_ids = map (\<lambda>a. page_id (si_page idx1 a)) (ar_pages result), pl_track_ids = ar_track_ids result,
                  pl_estimated_seeks = count_seeks (ar_track_ids result)\<rparr>, idx1))"

definition urbis_index_query_adjacent ::
  "allocator \<Rightarrow> SpatialIndex \<Rightarrow> MBR \<Rightarrow> (UrbisStatus + UrbisObjectList) \<times> SpatialIndex" where
  "urbis_index_query_adjacent al idx region =
     (case spatial_index_find_adjacent_pages al idx region of (err, pages, idx1) \<Rightarrow>
        if err \<noteq> SI_OK then (Inl (urbis_from_si err), idx1)
        else if \<not> al sizeof_UrbisObjectList then (Inl URBIS_ERR_ALLOC, idx1)
        else
          let objs = concat (map (\<lambda>a. pg_objects (si_page idx1 a)) (ar_pages pages)) in
          if objs = [] then (Inr \<lparr>ol_objects = []\<rparr>, idx1)
          else if \<not> al (length objs * sizeof_SpatialObject) then (Inl URBIS_ERR_ALLOC, idx1)
          else (case copy_objects al (filter (\<lambda>obj. mbr_intersects (so_mbr obj) region) objs) of
              Inl e \<Rightarrow> Inl e | Inr copies \<Rightarrow> Inr \<lparr>ol_objects = copies\<rparr>, idx1))"

text \<open>A region that cannot be queried counts no seeks.\<close>

definition urbis_index_estimate_seeks ::
  "allocator \<Rightarrow> SpatialIndex \<Rightarrow> MBR list \<Rightarrow> (UrbisStatus + nat) \<times> SpatialIndex" where
  "urbis_index_estimate_seeks al idx regions =
     (if regions = [] then (Inl URBIS_ERR_NULL, idx)
      else case fold (\<lambda>region (seeks, i). case urbis_index_find_adjacent_pages al i region of
               (Inr pages, i1) \<Rightarrow> (seeks + pl_estimated_seeks pages, i1)
             | (Inl status, i1) \<Rightarrow> (seeks, i1)) regions (0, idx) of (seeks, idx1) \<Rightarrow> (Inr seeks, idx1))"

subsection \<open>Persistence and statistics\<close>

definition urbis_index_save ::
  "allocator \<Rightarrow> Device \<Rightarrow> 64 word \<Rightarrow> FileState \<Rightarrow> SpatialIndex \<Rightarrow> string \<Rightarrow> UrbisStatus \<times> FileState \<times> SpatialIndex" where
  "urbis_index_save al dv now fs idx path =
     (case spatial_index_save al dv now fs idx path of (err, fs1, idx1) \<Rightarrow> (urbis_from_si err, fs1, idx1))"

definition urbis_index_load ::
  "obj_ptr qsort \<Rightarrow> allocator \<Rightarrow> Device \<Rightarrow> 64 word \<Rightarrow> FileState \<Rightarrow> Heap \<Rightarrow> string \<Rightarrow> ((UrbisStatus + SpatialIndex) \<times> FileState) option" where
  "urbis_index_load qs al dv now fs h path =
     (case urbis_index_create al h None of
        Inl status \<Rightarrow> Some (Inl status, fs)
      | Inr idx \<Rightarrow>
          (case spatial_index_load qs al dv now fs idx path of
             None \<Rightarrow> None
           | Some (err, fs1, idx1) \<Rightarrow>
               if err \<noteq> SI_OK then Some (Inl (urbis_from_si err), fst (urbis_index_destroy dv now fs1 idx1))
               else Some (Inr idx1, fs1)))"

definition urbis_index_sync :: "Device \<Rightarrow> 64 word \<Rightarrow> FileState \<Rightarrow> SpatialIndex \<Rightarrow> UrbisStatus \<times> FileState \<times> SpatialIndex" where
  "urbis_index_sync dv now fs idx =
     (case disk_manager_sync dv now fs (si_disk idx) of (err, fs1, dm) \<Rightarrow>
        (if err = DM_OK then URBIS_OK else URBIS_ERR_IO, fs1, idx\<lparr>si_disk := dm\<rparr>))"

definition urbis_index_get_stats :: "SpatialIndex \<Rightarrow> UrbisStats" where
  "urbis_index_get_stats idx =
     (let s = spatial_index_stats idx in
      \<lparr>us_total_objects = ss_total_objects s, us_total_blocks = ss_total_blocks s, us_total_pages = ss_total_pages s,
       us_total_tracks = ss_total_tracks s, us_avg_objects_per_page = ss_avg_objects_per_page s,
       us_page_utilization = ss_page_utilization s, us_kdtree_depth = ss_kdtree_depth s,
       us_quadtree_depth = ss_quadtree_depth s, us_bounds = ss_bounds s\<rparr>)"

definition urbis_index_count :: "SpatialIndex \<Rightarrow> nat" where
  "urbis_index_count idx = us_total_objects (urbis_index_get_stats idx)"

definition urbis_index_bounds :: "SpatialIndex \<Rightarrow> MBR" where
  "urbis_index_bounds idx = si_bounds idx"

subsection \<open>Results\<close>

definition urbis_object_free :: "SpatialObject \<Rightarrow> SpatialObject" where
  "urbis_object_free obj = spatial_object_free obj"

definition urbis_mbr :: "double \<Rightarrow> double \<Rightarrow> double \<Rightarrow> double \<Rightarrow> MBR" where
  "urbis_mbr x0 y0 x1 y1 = mbr_create x0 y0 x1 y1"

definition urbis_point :: "double \<Rightarrow> double \<Rightarrow> Point" where
  "urbis_point x y = point_create x y"

end
