(* ===== verification/CText_Inv.thy ===== *)
theory CText_Inv
  imports CText
begin

text \<open>
  Printing and reading numbers: \<open>ratio_double\<close> rounds to nearest, \<open>show_nat\<close> and \<open>show_fixed\<close> are read
  back by \<open>digits_value\<close>, and \<open>strtod\<close> takes exactly what \<open>%.6f\<close> has printed.
\<close>

subsection \<open>Rounding\<close>

lemma ratio_double_rounds:
  assumes "0 \<le> n" "0 < d"
  shows "rounds_to ((if s then - 1 else 1) * (real_of_int n / d * 2 powi 1074)) (dkey (ratio_double s n d))"
    and "\<not> isnan (ratio_double s n d)"
    and "dneg (ratio_double s n d) = s"
proof -
  let ?k = "54 + nat (bitlen d)" and ?p = "n * 2 ^ (54 + nat (bitlen d))"
  have q: "0 \<le> ?p div d" using assms by (simp add: pos_imp_zdiv_nonneg_iff)
  have nd: "real_of_int ?p = real_of_int (?p div d) * d + real_of_int (?p mod d)"
    by (metis div_mult_mod_eq of_int_add of_int_mult)
  define V where "V = real_of_int ?p / d"
  have V: "real_of_int (?p div d) \<le> V" "V < ?p div d + 1" "?p mod d \<noteq> 0 \<longleftrightarrow> V \<noteq> ?p div d"
  proof -
    have "0 \<le> real_of_int (?p mod d)" "real_of_int (?p mod d) < d" using assms(2) by simp_all
    then show "real_of_int (?p div d) \<le> V" "V < ?p div d + 1" "?p mod d \<noteq> 0 \<longleftrightarrow> V \<noteq> ?p div d"
      using assms(2) nd unfolding V_def
      by (simp_all add: pos_le_divide_eq pos_divide_less_eq divide_eq_eq algebra_simps)
  qed
  have big: "2 ^ 53 \<le> ?p div d" if "?p mod d \<noteq> 0"
  proof -
    have "n \<noteq> 0" using that by auto
    then have n: "1 \<le> n" using assms(1) by simp
    have "d < 2 ^ nat (bitlen d)" using bitlen_bounds [OF assms(2)] by simp
    then have "2 ^ 53 * d \<le> 2 ^ 53 * 2 ^ nat (bitlen d)" by simp
    also have "\<dots> \<le> 2 ^ ?k" by (simp add: power_add)
    also have "\<dots> \<le> ?p" using n by simp
    finally show ?thesis using assms(2) by (intro zdiv_ge_bound) simp_all
  qed
  let ?e = "1074 - int ?k"
  have pe: "(0::real) < 2 powi ?e" by simp
  have r: "rounds_to (if s then - (V * 2 powi ?e) else V * 2 powi ?e) (dkey (ratio_double s n d))"
    unfolding ratio_double_def Let_def
    by (rule rnd_rounds_to [OF q])
      (use V pe big in \<open>simp_all only: mult_right_mono less_imp_le mult_strict_right_mono, simp_all\<close>)
  have pw: "2 powi ?e = 2 powi 1074 / (2::real) ^ ?k"
    by (subst power_int_diff) (simp_all only: power_int_of_nat, simp)
  have "V * 2 powi ?e = real_of_int n / d * 2 powi 1074"
    unfolding V_def pw by simp
  with r show "rounds_to ((if s then - 1 else 1) * (real_of_int n / d * 2 powi 1074)) (dkey (ratio_double s n d))"
    by (cases s) simp_all
  show "\<not> isnan (ratio_double s n d)" "dneg (ratio_double s n d) = s"
    using q by (simp_all add: ratio_double_def Let_def)
qed

subsection \<open>Digits\<close>

lemma code_digit [simp]: "n < 10 \<Longrightarrow> code (digit n) = 48 + n"
  by (simp add: code_def digit_def)

lemma isdigit_digit [simp]: "n < 10 \<Longrightarrow> isdigit (digit n)"
  by (simp add: isdigit_def)

lemma digit_value_digit [simp]: "n < 10 \<Longrightarrow> digit_value (digit n) = n"
  by (simp add: digit_value_def)

lemma digits_value_append: "digits_value b (xs @ ys) = digits_value b xs * b ^ length ys + digits_value b ys"
proof -
  have "fold (\<lambda>c v. b * v + digit_value c) ys k = k * b ^ length ys + fold (\<lambda>c v. b * v + digit_value c) ys 0" for k
  proof (induction ys arbitrary: k)
    case (Cons y ys)
    show ?case
      using Cons.IH [of "b * k + digit_value y"] Cons.IH [of "digit_value y"] by (simp add: algebra_simps)
  qed simp
  from this [of "digits_value b xs"] show ?thesis unfolding digits_value_def fold_append o_apply .
qed

lemma digits_value_simps [simp]: "digits_value b [] = 0" "digits_value b [c] = digit_value c"
  by (simp_all add: digits_value_def)

lemma show_nat_digits:
  "list_all isdigit (show_nat n) \<and> show_nat n \<noteq> [] \<and> digits_value 10 (show_nat n) = n"
proof (induction n rule: show_nat.induct)
  case (1 n)
  show ?case
  proof (cases "n < 10")
    case True
    then show ?thesis by (subst (1 2 3) show_nat.simps) simp
  next
    case False
    then have "show_nat n = show_nat (n div 10) @ [digit (n mod 10)]" by (subst show_nat.simps) simp
    with 1 [OF False] show ?thesis by (simp add: digits_value_append)
  qed
qed

lemmas show_nat_facts [simp] = show_nat_digits [THEN conjunct1] show_nat_digits [THEN conjunct2, THEN conjunct1]
  show_nat_digits [THEN conjunct2, THEN conjunct2]

lemma show_fixed_facts [simp]:
  "length (show_fixed w n) = w" "list_all isdigit (show_fixed w n)" "digits_value 10 (show_fixed w n) = n mod 10 ^ w"
proof -
  show "length (show_fixed w n) = w" by (induction w arbitrary: n) simp_all
  show "list_all isdigit (show_fixed w n)" by (induction w arbitrary: n) simp_all
  show "digits_value 10 (show_fixed w n) = n mod 10 ^ w"
  proof (induction w arbitrary: n)
    case (Suc w)
    then show ?case by (simp add: digits_value_append) (metis mod_mult2_eq mult.commute add.commute)
  qed simp
qed

subsection \<open>Reading what was printed\<close>

lemma takeWhile_digits:
  "list_all P xs \<Longrightarrow> ys = [] \<or> \<not> P (ys ! 0) \<Longrightarrow> takeWhile P (xs @ ys) = xs"
  by (induction xs) (cases ys; auto)+

text \<open>The characters after which a number has ended.\<close>

definition ends_number :: "string \<Rightarrow> bool" where
  "ends_number t = (t = [] \<or> \<not> isdigit (t ! 0) \<and> tolower (t ! 0) \<noteq> CHR ''e'')"

lemma ends_numberI [intro]:
  "ends_number []" "ends_number (CHR '','' # t)" "ends_number (CHR '']'' # t)" "ends_number (CHR ''}'' # t)"
  "ends_number (CHR '' '' # t)" "ends_number (CHR '')'' # t)"
  by (simp_all add: ends_number_def isdigit_def tolower_def code_def)

lemma scan_decimal_fixed:
  assumes "list_all isdigit ip" "list_all isdigit fp" "ip \<noteq> []" "ends_number t"
  shows "scan_decimal neg (ip @ CHR ''.'' # fp @ t) =
    (length ip + 1 + length fp, length ip + 1 + length fp, scaled_double neg (digits_value 10 (ip @ fp)) 10 (- int (length fp)))"
proof -
  have dot: "\<not> isdigit (CHR ''.'')" by (simp add: isdigit_def code_def)
  have ip: "takeWhile isdigit (ip @ CHR ''.'' # fp @ t) = ip"
    by (rule takeWhile_digits [OF assms(1)]) (simp add: dot)
  have fp: "takeWhile isdigit (fp @ t) = fp"
    by (rule takeWhile_digits [OF assms(2)]) (use assms(4) in \<open>auto simp: ends_number_def\<close>)
  have t: "scan_exponent (CHR ''e'') t = (0, 0, 0)"
    using assms(4) by (cases t) (auto simp: ends_number_def scan_exponent_def starts_nocase_def)
  show ?thesis
    using assms(3) by (simp add: scan_decimal_def scan_mantissa_def ip fp Let_def t)
qed

lemma isdigit_plain:
  assumes "isdigit c"
  shows "\<not> isspace c" "c \<noteq> CHR ''-''" "c \<noteq> CHR ''+''" "tolower c = c" "c \<noteq> CHR ''i''" "c \<noteq> CHR ''n''" "c \<noteq> CHR ''x''" "c \<noteq> CHR ''.''"
  using assms by (auto simp: isspace_def tolower_def isdigit_def code_def)

lemma scan_number_digits:
  assumes "isdigit (r ! 0)" "r \<noteq> []" "length r = 1 \<or> tolower (r ! 1) \<noteq> CHR ''x''"
  shows "scan_number ((if neg then ''-'' else []) @ r) =
    (case scan_decimal neg r of (m, m', d) \<Rightarrow>
      let k = (if neg then 1 else 0) in (if m = 0 then 0 else k + m, k + m', d))"
proof -
  obtain c s where r: "r = c # s" and c: "isdigit c" using assms(1,2) by (cases r) auto
  have minus: "\<not> isspace (CHR ''-'')" by (simp add: isspace_def code_def)
  have x: "\<not> starts_nocase ''0x'' r"
    using assms(3) by (cases s) (auto simp: r starts_nocase_def)
  have i: "\<not> starts_nocase ''i'' r" "\<not> starts_nocase ''n'' r"
    using isdigit_plain [OF c] by (auto simp: r starts_nocase_def)
  show ?thesis
    using isdigit_plain [OF c] minus x i
    by (cases neg) (simp_all add: scan_number_def r sign_len_def starts_minus_def Let_def split: prod.splits)
qed

definition f6_double :: "double \<Rightarrow> double" where
  "f6_double d = scaled_double (dneg d) (micro d) 10 (- 6)"

lemma scan_number_f6:
  assumes "finite_d d" "ends_number t"
  shows "scan_number (format_f6 d @ t) = (length (format_f6 d), length (format_f6 d), f6_double d)"
proof -
  define ip where "ip = show_nat (micro d div 10 ^ 6)"
  define fp where "fp = show_fixed 6 (micro d mod 10 ^ 6)"
  have f: "list_all isdigit ip" "list_all isdigit fp" "ip \<noteq> []" "length fp = 6" by (simp_all add: ip_def fp_def)
  have v: "digits_value 10 (ip @ fp) = micro d"
    by (simp add: ip_def fp_def digits_value_append)
  have txt_eq: "format_f6 d = (if dneg d then ''-'' else []) @ ip @ CHR ''.'' # fp"
    using finite_not_inf [OF assms(1)] by (simp add: format_f6_def ip_def fp_def)
  let ?r = "ip @ CHR ''.'' # fp @ t"
  have nx: "tolower (CHR ''.'') \<noteq> CHR ''x''" by (simp add: tolower_def code_def)
  obtain c s where ip: "ip = c # s" using f(3) by (cases ip) auto
  have "isdigit (?r ! 0)" using f(1) by (simp add: ip)
  moreover have "tolower (?r ! 1) \<noteq> CHR ''x''"
    using f(1) nx isdigit_plain by (cases s) (auto simp: ip)
  ultimately have "scan_number (format_f6 d @ t) = (case scan_decimal (dneg d) ?r of (m, m', d') \<Rightarrow>
      let k = (if dneg d then 1 else 0) in (if m = 0 then 0 else k + m, k + m', d'))"
    using scan_number_digits [of ?r "dneg d"] f(3) by (simp add: txt_eq)
  also have "\<dots> = (length (format_f6 d), length (format_f6 d), f6_double d)"
    unfolding scan_decimal_fixed [OF f(1,2,3) assms(2)] v f(4) by (simp add: txt_eq f(4) f6_double_def Let_def)
  finally show ?thesis .
qed

lemma strtod_f6: "finite_d d \<Longrightarrow> ends_number t \<Longrightarrow> strtod (format_f6 d @ t) = (f6_double d, length (format_f6 d))"
  using scan_number_f6 [of d t] by (auto simp: strtod_def format_f6_def)

lemma scan_lf_f6: "finite_d d \<Longrightarrow> ends_number t \<Longrightarrow> scan_lf (format_f6 d @ t) = Some (f6_double d, t)"
  using scan_number_f6 [of d t] by (auto simp: scan_lf_def format_f6_def)

subsection \<open>A number lies within the text\<close>

lemma length_takeWhile_drop: "length (takeWhile P (drop n s)) \<le> length s - n"
  using length_takeWhile_le [of P "drop n s"] by simp

lemma sign_len_length: "sign_len s \<le> length s"
  by (cases s) (simp_all add: sign_len_def)

lemma scan_exponent_length: "scan_exponent marker s = (k, k', e) \<Longrightarrow> k \<le> length s"
proof -
  have "sign_len (drop 1 s) \<le> length s - 1" using sign_len_length [of "drop 1 s"] by simp
  then have "1 + sign_len (drop 1 s) + length (takeWhile isdigit (drop (sign_len (drop 1 s)) (drop 1 s))) \<le> length s" if "s \<noteq> []"
    using length_takeWhile_drop [of isdigit "sign_len (drop 1 s)" "drop 1 s"] that by (cases s) auto
  moreover have "s \<noteq> []" if "starts_nocase [marker] s" using that by (auto simp: starts_nocase_def)
  ultimately show "scan_exponent marker s = (k, k', e) \<Longrightarrow> k \<le> length s"
    by (auto simp: scan_exponent_def Let_def split: if_splits)
qed

lemma scan_mantissa_length: "scan_mantissa isdig s = (m, ip, fp) \<Longrightarrow> m \<le> length s"
proof -
  let ?n = "length (takeWhile isdig s)"
  have n: "?n \<le> length s" by (rule length_takeWhile_le)
  have "?n + 1 + length (takeWhile isdig (drop 1 (drop ?n s))) \<le> length s" if "take 1 (drop ?n s) = ''.''"
  proof -
    have "length (drop ?n s) \<noteq> 0" using that by (auto simp del: length_drop)
    then show ?thesis using length_takeWhile_drop [of isdig 1 "drop ?n s"] by simp
  qed
  with n show "scan_mantissa isdig s = (m, ip, fp) \<Longrightarrow> m \<le> length s"
    by (auto simp: scan_mantissa_def Let_def split: if_splits)
qed

lemma scan_decimal_length: "scan_decimal neg s = (m, m', d) \<Longrightarrow> m \<le> length s"
  by (auto simp: scan_decimal_def split: prod.splits if_splits dest!: scan_exponent_length scan_mantissa_length)

lemma scan_hex_length: "starts_nocase ''0x'' s \<Longrightarrow> scan_hex neg s = (m, m', d) \<Longrightarrow> m \<le> length s"
proof -
  assume "starts_nocase ''0x'' s"
  then have "2 \<le> length s" by (auto simp: starts_nocase_def dest: arg_cong [where f = length])
  then show "scan_hex neg s = (m, m', d) \<Longrightarrow> m \<le> length s"
    by (auto simp: scan_hex_def split: prod.splits if_splits dest!: scan_exponent_length scan_mantissa_length)
qed

lemma common_len_length: "common_len p s \<le> length s"
  by (induction p s rule: common_len.induct) auto

lemma scan_special_length: "scan_special neg s = (m, m', d) \<Longrightarrow> m \<le> length s"
proof -
  have "5 + length (takeWhile P (drop 4 s)) \<le> length s" if "take 1 (drop (4 + length (takeWhile P (drop 4 s))) s) = '')''" for P
  proof -
    have "length (drop (4 + length (takeWhile P (drop 4 s))) s) \<noteq> 0" using that by (auto simp del: length_drop)
    then show ?thesis by simp
  qed
  then show "scan_special neg s = (m, m', d) \<Longrightarrow> m \<le> length s"
    using common_len_length [of "''nan''" s] common_len_length [of "''infinity''" s]
    by (auto simp: scan_special_def Let_def split: if_splits)
qed

lemma strtod_length: "snd (strtod s) \<le> length s"
proof -
  let ?k = "length (takeWhile isspace s) + sign_len (dropWhile isspace s)"
  have "length (takeWhile isspace s) + length (dropWhile isspace s) = length s"
    by (metis length_append takeWhile_dropWhile_id)
  moreover have "sign_len (dropWhile isspace s) \<le> length (dropWhile isspace s)"
    by (rule sign_len_length)
  ultimately have k: "?k \<le> length s" by linarith
  let ?r = "drop ?k s" and ?neg = "starts_minus (dropWhile isspace s)"
  obtain m m' d where e: "(if starts_nocase ''0x'' ?r then scan_hex ?neg ?r
      else if starts_nocase ''i'' ?r \<or> starts_nocase ''n'' ?r then scan_special ?neg ?r
      else scan_decimal ?neg ?r) = (m, m', d)"
    by (metis prod_cases3)
  then have "m \<le> length ?r"
    by (auto split: if_splits dest: scan_hex_length scan_special_length scan_decimal_length simp del: length_drop)
  moreover have "snd (strtod s) = (if m = 0 then 0 else ?k + m)"
    unfolding strtod_def scan_number_def Let_def e by simp
  ultimately show ?thesis using k by simp linarith
qed

subsection \<open>Six decimals\<close>

text \<open>Rounding an integer quotient to nearest misses it by at most a half.\<close>

lemma round_half:
  fixes n h :: int
  assumes "0 \<le> n" "0 < h"
  defines "q \<equiv> n div (2 * h)" and "r \<equiv> n mod (2 * h)"
  defines "m \<equiv> (if r < h \<or> (r = h \<and> even q) then q else q + 1)"
  shows "0 \<le> m" "\<bar>m * (2 * h) - n\<bar> \<le> h"
proof -
  have n: "n = q * (2 * h) + r" unfolding q_def r_def by (rule div_mult_mod_eq [symmetric])
  have r: "0 \<le> r" "r < 2 * h" using assms(2) by (simp_all add: r_def)
  have q: "0 \<le> q" using assms(1,2) by (simp add: q_def pos_imp_zdiv_nonneg_iff)
  then show "0 \<le> m" by (simp add: m_def)
  show "\<bar>m * (2 * h) - n\<bar> \<le> h"
    unfolding m_def using n r assms(2) by (auto simp: algebra_simps abs_le_iff)
qed

lemma micro_near: "\<bar>real (micro d) / 10 ^ 6 - real_of_int (mval (dmag d)) / 2 ^ 1074\<bar> \<le> 1 / (2 * 10 ^ 6)"
proof -
  let ?n = "mval (dmag d) * 10 ^ 6"
  define h where "h = (2 :: int) ^ 1073"
  have h: "0 < h" "(2 :: int) ^ 1074 = 2 * h" "(2 :: real) ^ 1074 = 2 * real_of_int h" by (simp_all add: h_def)
  define m where "m = (if ?n mod (2 * h) < h \<or> (?n mod (2 * h) = h \<and> even (?n div (2 * h)))
      then ?n div (2 * h) else ?n div (2 * h) + 1)"
  have n: "0 \<le> ?n" by simp
  have m: "0 \<le> m" "\<bar>m * (2 * h) - ?n\<bar> \<le> h"
    unfolding m_def by (rule round_half [OF n h(1)])+
  have "micro d = nat m" unfolding micro_def Let_def h(2) h_def [symmetric] m_def ..
  then have e: "real (micro d) = real_of_int m" using m(1) by simp
  define P where "P = real_of_int h"
  have P: "0 < P" using h(1) by (simp add: P_def)
  have "real_of_int \<bar>m * (2 * h) - ?n\<bar> \<le> P" unfolding P_def of_int_le_iff by (rule m(2))
  then have "\<bar>real_of_int m * (2 * P) - real_of_int (mval (dmag d)) * 10 ^ 6\<bar> \<le> P" by (simp add: P_def)
  moreover have "(real_of_int m / 10 ^ 6 - real_of_int (mval (dmag d)) / (2 * P)) * (10 ^ 6 * (2 * P)) =
      real_of_int m * (2 * P) - real_of_int (mval (dmag d)) * 10 ^ 6"
    using P by (simp add: field_simps)
  ultimately have le: "\<bar>(real_of_int m / 10 ^ 6 - real_of_int (mval (dmag d)) / (2 * P)) * (10 ^ 6 * (2 * P))\<bar> \<le> P"
    by simp
  have pos: "0 < 10 ^ 6 * (2 * P)" using P by simp
  have "\<bar>real_of_int m / 10 ^ 6 - real_of_int (mval (dmag d)) / (2 * P)\<bar> \<le> P / (10 ^ 6 * (2 * P))"
    unfolding pos_le_divide_eq [OF pos] using le P by (simp only: abs_mult abs_of_pos abs_numeral power_abs)
  also have "\<dots> = 1 / (2 * 10 ^ 6)" using P by simp
  finally show ?thesis unfolding e h(3) P_def .
qed

lemma f6_double_rounds:
  "rounds_to ((if dneg d then - 1 else 1) * (real (micro d) / 10 ^ 6 * 2 powi 1074)) (dkey (f6_double d))"
  "\<not> isnan (f6_double d)" "dneg (f6_double d) = dneg d"
  using ratio_double_rounds [of "int (micro d)" "10 ^ 6" "dneg d"]
  by (simp_all add: f6_double_def scaled_double_def)

end
