(* ===== verification/Json_Inv.thy ===== *)
theory Json_Inv
  imports Json CText_Inv
begin

text \<open>
  The JSON parser always returns, and it reads what a printer of JSON values has written.
\<close>

subsection \<open>The parser moves forward\<close>

text \<open>
  The characters left, and one state later than another on the same input; the position does not pass
  the end of the input.
\<close>

definition left :: "ParserState \<Rightarrow> nat" where
  "left st = ps_len st - ps_pos st"

definition later :: "ParserState \<Rightarrow> ParserState \<Rightarrow> bool" where
  "later st st' = (ps_input st' = ps_input st \<and> ps_len st' = ps_len st \<and> ps_pos st \<le> ps_pos st' \<and>
     (ps_len st = length (ps_input st) \<longrightarrow> ps_pos st \<le> ps_len st \<longrightarrow> ps_pos st' \<le> ps_len st))"

lemma later_refl [simp]: "later st st"
  by (simp add: later_def)

lemma later_trans [trans]: "later st st1 \<Longrightarrow> later st1 st2 \<Longrightarrow> later st st2"
  by (auto simp: later_def)

lemma later_left: "later st st' \<Longrightarrow> left st' \<le> left st"
  by (auto simp: later_def left_def)

lemma later_next: "ps_pos st < ps_len st \<Longrightarrow> later st (next_column st)" "ps_pos st < ps_len st \<Longrightarrow> later st (next_line st)"
  by (simp_all add: later_def next_column_def next_line_def)

lemma later_set_error [simp]: "later st (set_error msg st)"
  by (simp add: later_def set_error_def)

lemma later_skip_word: "at_word st w \<Longrightarrow> later st (skip_word st w)"
proof -
  assume "at_word st w"
  then have "length w \<le> length (rest st)" unfolding at_word_def by (metis length_take min.cobounded1)
  then show ?thesis by (auto simp: later_def skip_word_def rest_def)
qed

lemma later_skip_whitespace [simp]: "later st (skip_whitespace st)"
proof (induction st rule: skip_whitespace.induct)
  case (1 st)
  then show ?case
    by (subst skip_whitespace.simps) (auto simp: Let_def intro: later_trans [OF later_next(1)] later_trans [OF later_next(2)])
qed

lemma later_consume [simp]: "later st (snd (consume st))"
  by (auto simp: consume_def Let_def intro: later_next)

text \<open>A character other than the terminating zero lies before the end.\<close>

lemma peek_left: "peek st \<noteq> CHR 0x00 \<Longrightarrow> 0 < left st"
  by (auto simp: peek_def left_def split: if_splits)

lemma consume_left: "0 < left st \<Longrightarrow> left (snd (consume st)) < left st"
  by (auto simp: consume_def left_def Let_def next_column_def next_line_def)

lemma left_skip_whitespace: "left (skip_whitespace st) \<le> left st"
  by (rule later_left) simp

lemma expect_left:
  assumes "expect st c = (err, st')"
  shows "later st st'" "err = PARSE_OK \<Longrightarrow> c \<noteq> CHR 0x00 \<Longrightarrow> left st' < left st"
proof -
  let ?s = "skip_whitespace st"
  show "later st st'"
    using assms later_trans [OF later_skip_whitespace [of st] later_consume]
      later_trans [OF later_skip_whitespace [of st] later_set_error]
    by (auto simp: expect_def Let_def split: if_splits)
  assume "err = PARSE_OK" "c \<noteq> CHR 0x00"
  with assms have "peek ?s \<noteq> CHR 0x00" "st' = snd (consume ?s)"
    by (auto simp: expect_def Let_def split: if_splits)
  then show "left st' < left st"
    using consume_left [OF peek_left, of ?s] left_skip_whitespace [of st] by simp
qed

lemma scan_string_later: "scan_string st pos n = (pos', n') \<Longrightarrow> pos \<le> pos' \<and> (pos \<le> ps_len st \<longrightarrow> pos' \<le> ps_len st)"
proof (induction st pos n rule: scan_string.induct)
  case (1 st pos n)
  from 1(3) show ?case
    using 1(1) [OF _ refl] 1(2) [OF _ refl] by (subst (asm) scan_string.simps) (fastforce simp: Let_def split: if_splits)
qed

lemma parse_string_left:
  assumes "parse_string al st = (res, st')"
  shows "later st st'" "\<not> isl res \<Longrightarrow> left st' < left st"
proof -
  let ?s = "skip_whitespace st"
  let ?t = "snd (consume ?s)"
  obtain pos n where scan: "scan_string ?t (ps_pos ?t) 0 = (pos, n)" by (cases "scan_string ?t (ps_pos ?t) 0")
  let ?u = "?t\<lparr>ps_pos := pos\<rparr>"
  have u: "later ?t ?u" using scan_string_later [OF scan] by (auto simp: later_def)
  have l: "later st ?t" by (rule later_trans [OF later_skip_whitespace later_consume])
  have lu: "later st ?u" by (rule later_trans [OF l u])
  have e: "parse_string al st = (if peek ?s \<noteq> CHR ''\"'' then (Inl PARSE_ERR_SYNTAX, ?s)
      else if \<not> al (n + 1) then (Inl PARSE_ERR_ALLOC, ?u)
      else (Inr (copy_string ?u (ps_pos ?t) (ps_pos ?t + n) n), snd (consume ?u)))"
    using scan by (simp add: parse_string_def Let_def)
  show "later st st'"
    using assms lu later_trans [OF lu later_consume] unfolding e by (auto split: if_splits)
  assume "\<not> isl res"
  with assms have "peek ?s = CHR ''\"''" and st': "st' = snd (consume ?u)"
    unfolding e by (auto split: if_splits)
  then have "left ?t < left ?s" by (intro consume_left peek_left) simp
  moreover have "left st' \<le> left ?t"
    unfolding st' by (rule later_left [OF later_trans [OF u later_consume]])
  ultimately show "left st' < left st" using left_skip_whitespace [of st] by simp
qed

lemma parse_scalar_left:
  assumes "parse_scalar st = (res, st')"
  shows "later st st'" "\<not> isl res \<Longrightarrow> left st' < left st"
proof -
  have digit: "\<not> isdigit (CHR 0x00)" by (simp add: isdigit_def code_def)
  have num: "later st1 st2 \<and> (\<not> isl res' \<longrightarrow> 0 < left st1 \<longrightarrow> left st2 < left st1)"
    if "parse_number st1 = (res', st2)" for st1 st2 res'
  proof -
    obtain x n where x: "strtod (rest (skip_whitespace st1)) = (x, n)" by (cases "strtod (rest (skip_whitespace st1))")
    show ?thesis
    proof (cases "n = 0")
      case True
      with that x show ?thesis by (auto simp: parse_number_def)
    next
      case False
      with that x have st2: "st2 = (skip_whitespace st1)\<lparr>ps_pos := ps_pos (skip_whitespace st1) + n\<rparr>"
        by (auto simp: parse_number_def Let_def)
      have "later (skip_whitespace st1) st2"
        using strtod_length [of "rest (skip_whitespace st1)"] unfolding st2 x by (auto simp: later_def rest_def)
      moreover have "left st2 < left (skip_whitespace st1)" if "0 < left (skip_whitespace st1)"
        using that False unfolding st2 by (simp add: left_def)
      ultimately show ?thesis
        using later_trans [OF later_skip_whitespace] left_skip_whitespace [of st1] later_left by fastforce
    qed
  qed
  show "later st st'"
    using assms num by (auto simp: parse_scalar_def Let_def later_skip_word split: if_splits prod.splits sum.splits)
  assume res: "\<not> isl res"
  show "left st' < left st"
  proof (cases "peek st = CHR ''-'' \<or> isdigit (peek st)")
    case True
    then have "0 < left st" using digit by (intro peek_left) auto
    then show ?thesis
      using assms res num True
      by (auto simp: parse_scalar_def Let_def isdigit_def code_def split: if_splits prod.splits sum.splits)
  next
    case False
    then show ?thesis
      using assms res by (auto simp: parse_scalar_def Let_def left_def skip_word_def peek_def split: if_splits)
  qed
qed

text \<open>What a call must do that has enough fuel.\<close>

definition returns_later :: "ParserState \<Rightarrow> JsonValue parsed option \<Rightarrow> bool" where
  "returns_later st r = (\<exists>res st'. r = Some (res, st') \<and> later st st' \<and> (\<not> isl res \<longrightarrow> left st' < left st))"

lemma returns_laterI:
  "later st st' \<Longrightarrow> (\<not> isl res \<Longrightarrow> left st' < left st) \<Longrightarrow> returns_later st (Some (res, st'))"
  by (simp add: returns_later_def)

lemma returns_later_mono:
  assumes "later st st1" "returns_later st1 r"
  shows "returns_later st r"
proof -
  from assms(2) obtain res st' where r: "r = Some (res, st')" "later st1 st'" "\<not> isl res \<Longrightarrow> left st' < left st1"
    unfolding returns_later_def by blast
  have "\<not> isl res \<Longrightarrow> left st' < left st" using r(3) later_left [OF assms(1)] by simp
  then show ?thesis unfolding r(1) by (rule returns_laterI [OF later_trans [OF assms(1) r(2)]])
qed

text \<open>Three units of fuel for each character left: one each for the value, its array and the loop.\<close>

lemma parse_returns:
  "3 * left st + 3 \<le> n \<Longrightarrow> returns_later st (parse_value al n st)"
  "3 * left st + 2 \<le> n \<Longrightarrow> returns_later st (parse_array al n st)"
  "3 * left st + 4 \<le> n \<Longrightarrow> returns_later st (parse_items al n cap items st)"
  "3 * left st + 2 \<le> n \<Longrightarrow> returns_later st (parse_object al n st)"
  "3 * left st + 4 \<le> n \<Longrightarrow> returns_later st (parse_members al n cap members st)"
proof (induction al n st and al n st and al n cap items st and al n st and al n cap members st
    rule: parse_value_parse_array_parse_items_parse_object_parse_members.induct)
  case (2 al n st)
  let ?s = "skip_whitespace st"
  have s: "later st ?s" "left ?s \<le> left st" by (simp_all add: left_skip_whitespace)
  have str: "parse_string al ?s = (res, st') \<Longrightarrow> \<not> isl res \<Longrightarrow> left st' < left ?s"
    "parse_string al ?s = (res, st') \<Longrightarrow> later ?s st'" for res st'
    by (auto dest: parse_string_left)
  have sc: "returns_later ?s (Some (parse_scalar ?s))"
    by (cases "parse_scalar ?s") (auto intro!: returns_laterI dest: parse_scalar_left)
  have "returns_later ?s (parse_value al (Suc n) st)"
    using 2(1) [OF refl refl] 2(2) [OF refl refl] 2(3) s(2) str sc
    by (auto simp: Let_def intro!: returns_laterI split: prod.splits sum.splits)
  then show ?case by (rule returns_later_mono [OF s(1)])
next
  case (4 al n st)
  obtain err st1 where e: "expect st (CHR ''['') = (err, st1)" by (cases "expect st (CHR ''['')")
  have l: "later st st1" "err = PARSE_OK \<Longrightarrow> left st1 < left st" using expect_left [OF e] by simp_all
  let ?s = "skip_whitespace st1"
  have s: "later st ?s" "left ?s \<le> left st1" by (rule later_trans [OF l(1)]) (simp_all add: left_skip_whitespace)
  have c: "later st (snd (consume ?s))" by (rule later_trans [OF s(1) later_consume])
  have c': "left (snd (consume ?s)) \<le> left ?s" by (rule later_left) simp
  show ?case
  proof (cases "err = PARSE_OK \<and> al (8 * sizeof_JsonValue) \<and> peek ?s \<noteq> CHR '']''")
    case True
    then have "returns_later ?s (parse_items al n 8 [] ?s)"
      using 4(1) [OF e [symmetric]] 4(2) l(2) s(2) by simp
    with True show ?thesis using returns_later_mono [OF s(1)] by (simp add: e Let_def)
  next
    case False
    then show ?thesis using l s c c' by (auto simp: e Let_def intro!: returns_laterI)
  qed
next
  case (8 al n st)
  obtain err st1 where e: "expect st (CHR ''{'') = (err, st1)" by (cases "expect st (CHR ''{'')")
  have l: "later st st1" "err = PARSE_OK \<Longrightarrow> left st1 < left st" using expect_left [OF e] by simp_all
  let ?s = "skip_whitespace st1"
  have s: "later st ?s" "left ?s \<le> left st1" by (rule later_trans [OF l(1)]) (simp_all add: left_skip_whitespace)
  have c: "later st (snd (consume ?s))" by (rule later_trans [OF s(1) later_consume])
  have c': "left (snd (consume ?s)) \<le> left ?s" by (rule later_left) simp
  show ?case
  proof (cases "err = PARSE_OK \<and> al (8 * sizeof_ptr) \<and> al (8 * sizeof_JsonValue) \<and> peek ?s \<noteq> CHR ''}''")
    case True
    then have "returns_later ?s (parse_members al n 8 [] ?s)"
      using 8(1) [OF e [symmetric]] 8(2) l(2) s(2) by simp
    with True show ?thesis using returns_later_mono [OF s(1)] by (simp add: e Let_def)
  next
    case False
    then show ?thesis using l s c c' by (auto simp: e Let_def intro!: returns_laterI)
  qed
next
  case (6 al n cap items st)
  show ?case
  proof (cases "grow_to (\<lambda>c. al (c * sizeof_JsonValue)) (length items) cap")
    case None
    then show ?thesis by (auto intro!: returns_laterI)
  next
    case (Some cap1)
    have "returns_later st (parse_value al n st)" using 6(1) [OF Some] 6(3) by simp
    then obtain res st1 where v: "parse_value al n st = Some (res, st1)" "later st st1" "\<not> isl res \<Longrightarrow> left st1 < left st"
      by (auto simp: returns_later_def)
    show ?thesis
    proof (cases res)
      case (Inl err)
      with Some v show ?thesis by (auto intro!: returns_laterI)
    next
      case (Inr w)
      let ?s = "skip_whitespace st1"
      obtain err st3 where e: "expect ?s (CHR '','') = (err, st3)" by (cases "expect ?s (CHR '','')")
      have s: "later st ?s" "left ?s < left st"
        using later_trans [OF v(2) later_skip_whitespace] left_skip_whitespace [of st1] v(3) Inr by auto
      have c: "later st (snd (consume ?s))" "left (snd (consume ?s)) < left st"
        using later_trans [OF s(1) later_consume] later_left [OF later_consume, of ?s] s(2) by auto
      have l: "later st st3" "err = PARSE_OK \<Longrightarrow> left st3 < left ?s"
        using later_trans [OF s(1) expect_left(1) [OF e]] expect_left(2) [OF e] by auto
      show ?thesis
      proof (cases "peek ?s \<noteq> CHR '']'' \<and> err = PARSE_OK")
        case True
        then have "returns_later st3 (parse_items al n cap1 (items @ [w]) st3)"
          using 6(2) [OF Some v(1) _ Inr refl refl _ e [symmetric]] 6(3) l(2) s(2) by simp
        with True show ?thesis using returns_later_mono [OF l(1)] by (simp add: Some v(1) Inr e Let_def)
      next
        case False
        then show ?thesis using l s c by (auto simp: Some v(1) Inr e Let_def intro!: returns_laterI)
      qed
    qed
  qed
next
  case (10 al n cap members st)
  let ?g = "\<lambda>c. al (c * sizeof_ptr) \<and> al (c * sizeof_JsonValue)"
  show ?case
  proof (cases "grow_to ?g (length members) cap")
    case None
    then show ?thesis by (auto intro!: returns_laterI)
  next
    case (Some cap1)
    obtain kres st1 where k: "parse_string al st = (kres, st1)" by (cases "parse_string al st")
    have k1: "later st st1" "\<not> isl kres \<Longrightarrow> left st1 < left st" using parse_string_left [OF k] by simp_all
    show ?thesis
    proof (cases kres)
      case (Inl err)
      with Some k k1 show ?thesis by (auto intro!: returns_laterI)
    next
      case (Inr key)
      obtain err st2 where e: "expect st1 (CHR '':'') = (err, st2)" by (cases "expect st1 (CHR '':'')")
      have e1: "later st st2" "err = PARSE_OK \<Longrightarrow> left st2 < left st1"
        using later_trans [OF k1(1) expect_left(1) [OF e]] expect_left(2) [OF e] by auto
      show ?thesis
      proof (cases "err = PARSE_OK")
        case False
        with e1 show ?thesis by (auto simp: Some k Inr e intro!: returns_laterI)
      next
        case ok: True
        have "returns_later st2 (parse_value al n st2)"
          using 10(1) [OF Some k [symmetric] Inr e [symmetric]] 10(3) ok e1(2) k1(2) Inr by simp
        then obtain res st3 where v: "parse_value al n st2 = Some (res, st3)" "later st2 st3" "\<not> isl res \<Longrightarrow> left st3 < left st2"
          by (auto simp: returns_later_def)
        have v1: "later st st3" by (rule later_trans [OF e1(1) v(2)])
        show ?thesis
        proof (cases res)
          case (Inl err')
          with v1 show ?thesis by (auto simp: Some k \<open>kres = Inr key\<close> e ok v(1) intro!: returns_laterI)
        next
          case inr: (Inr w)
          let ?s = "skip_whitespace st3"
          obtain err' st5 where e': "expect ?s (CHR '','') = (err', st5)" by (cases "expect ?s (CHR '','')")
          have s: "later st ?s" "left ?s < left st"
            using later_trans [OF v1 later_skip_whitespace] left_skip_whitespace [of st3] v(3) inr e1(2) k1(2) ok Inr by auto
          have c: "later st (snd (consume ?s))" "left (snd (consume ?s)) < left st"
            using later_trans [OF s(1) later_consume] later_left [OF later_consume, of ?s] s(2) by auto
          have l: "later st st5" "err' = PARSE_OK \<Longrightarrow> left st5 < left ?s"
            using later_trans [OF s(1) expect_left(1) [OF e']] expect_left(2) [OF e'] by auto
          show ?thesis
          proof (cases "peek ?s \<noteq> CHR ''}'' \<and> err' = PARSE_OK")
            case True
            then have "returns_later st5 (parse_members al n cap1 (members @ [(key, w)]) st5)"
              using 10(2) [OF Some k [symmetric] Inr e [symmetric] _ v(1) _ inr refl refl _ e' [symmetric]] 10(3) ok l(2) s(2) by simp
            with True show ?thesis using returns_later_mono [OF l(1)] by (simp add: Some k Inr e ok v(1) inr e' Let_def)
          next
            case False
            then show ?thesis using l s c by (auto simp: Some k Inr e ok v(1) inr e' Let_def intro!: returns_laterI)
          qed
        qed
      qed
    qed
  qed
qed (simp_all)

end
