(* ===== verification/Json_Print.thy ===== *)
theory Json_Print
  imports Json_Inv
begin

text \<open>
  A printer of JSON values, in the format of \<open>geojson_export\<close>, and the proof that the parser reads every
  printed value back, with its numbers rounded to six decimals.  Such a value may be nested to any depth.
\<close>

subsection \<open>The printer\<close>

fun join :: "string \<Rightarrow> string list \<Rightarrow> string" where
  "join sep [] = []"
| "join sep [x] = x"
| "join sep (x # y # xs) = x @ sep @ join sep (y # xs)"

definition quoted :: "string \<Rightarrow> string" where
  "quoted s = ''\"'' @ s @ ''\"''"

primrec json_print :: "JsonValue \<Rightarrow> string" where
  "json_print JSON_NULL = ''null''"
| "json_print (JSON_BOOL b) = (if b then ''true'' else ''false'')"
| "json_print (JSON_NUMBER d) = format_f6 d"
| "json_print (JSON_STRING s) = quoted s"
| "json_print (JSON_ARRAY vs) = ''['' @ join '','' (map json_print vs) @ '']''"
| "json_print (JSON_OBJECT ms) =
     ''{'' @ join '','' (map (\<lambda>m. quoted (fst m) @ '':'' @ snd m) (map (map_prod (\<lambda>k. k) json_print) ms)) @ ''}''"

text \<open>What is read back.\<close>

primrec json_read :: "JsonValue \<Rightarrow> JsonValue" where
  "json_read JSON_NULL = JSON_NULL"
| "json_read (JSON_BOOL b) = JSON_BOOL b"
| "json_read (JSON_NUMBER d) = JSON_NUMBER (f6_double d)"
| "json_read (JSON_STRING s) = JSON_STRING s"
| "json_read (JSON_ARRAY vs) = JSON_ARRAY (map json_read vs)"
| "json_read (JSON_OBJECT ms) = JSON_OBJECT (map (map_prod (\<lambda>k. k) json_read) ms)"

text \<open>Strings without quotes and backslashes, numbers without infinities and NaNs.\<close>

definition plain :: "string \<Rightarrow> bool" where
  "plain s = list_all (\<lambda>c. c \<noteq> CHR ''\"'' \<and> c \<noteq> CHR 0x5C) s"

primrec printable :: "JsonValue \<Rightarrow> bool" where
  "printable JSON_NULL = True"
| "printable (JSON_BOOL b) = True"
| "printable (JSON_NUMBER d) = finite_d d"
| "printable (JSON_STRING s) = plain s"
| "printable (JSON_ARRAY vs) = list_all (\<lambda>b. b) (map printable vs)"
| "printable (JSON_OBJECT ms) = list_all (\<lambda>m. plain (fst m) \<and> snd m) (map (map_prod (\<lambda>k. k) printable) ms)"

subsection \<open>Reading characters\<close>

definition reads :: "ParserState \<Rightarrow> string \<Rightarrow> bool" where
  "reads st s = (ps_len st = length (ps_input st) \<and> ps_pos st \<le> ps_len st \<and> rest st = s)"

lemma reads_left: "reads st s \<Longrightarrow> left st = length s"
  by (auto simp: reads_def left_def rest_def)

lemma reads_char: "reads st (c # s) \<Longrightarrow> ps_pos st < ps_len st \<and> char_at st (ps_pos st) = c"
  unfolding reads_def rest_def char_at_def
  by (metis (no_types, lifting) drop_eq_Nil2 hd_drop_conv_nth leI list.sel(1) list.simps(3))

lemma reads_next:
  assumes "reads st (c # s)"
  shows "reads (next_column st) s" "reads (next_line st) s"
proof -
  have "drop (ps_pos st + 1) (ps_input st) = s"
    using assms unfolding reads_def rest_def by (metis drop_drop drop_Suc_Cons drop0 One_nat_def add.commute)
  then show "reads (next_column st) s" "reads (next_line st) s"
    using assms reads_char [OF assms] by (simp_all add: reads_def rest_def next_column_def next_line_def)
qed

lemma peek_reads: "reads st (c # s) \<Longrightarrow> peek st = c"
  using reads_char [of st c s] by (simp add: peek_def)

lemma peek_end: "reads st [] \<Longrightarrow> peek st = CHR 0x00"
  by (auto simp: reads_def rest_def peek_def)

lemma consume_reads: "reads st (c # s) \<Longrightarrow> reads (snd (consume st)) s"
  using reads_char [of st c s] reads_next [of st c s] by (simp add: consume_def Let_def)

definition json_space :: "char \<Rightarrow> bool" where
  "json_space c = (c = CHR '' '' \<or> c = CHR 0x09 \<or> c = CHR 0x0D \<or> c = CHR 0x0A)"

lemma skip_whitespace_id: "reads st (c # s) \<Longrightarrow> \<not> json_space c \<Longrightarrow> skip_whitespace st = st"
  using reads_char [of st c s] by (subst skip_whitespace.simps) (auto simp: json_space_def Let_def)

lemma expect_reads:
  assumes "reads st (c # s)" "\<not> json_space c"
  obtains st' where "expect st c = (PARSE_OK, st')" "reads st' s"
  using consume_reads [OF assms(1)] by (simp add: expect_def Let_def skip_whitespace_id [OF assms] peek_reads [OF assms(1)])

lemma take_reads: "reads st s \<Longrightarrow> take n (rest st) = take n s"
  by (simp add: reads_def)

lemma reads_skip: "reads st (w @ t) \<Longrightarrow> reads (st\<lparr>ps_pos := ps_pos st + length w\<rparr>) t"
proof -
  assume r: "reads st (w @ t)"
  have "drop (ps_pos st + length w) (ps_input st) = drop (length w) (rest st)"
    by (simp add: rest_def add.commute)
  also have "\<dots> = t" using r by (simp add: reads_def)
  finally show ?thesis using r reads_left [OF r] by (auto simp: reads_def rest_def left_def)
qed

subsection \<open>Strings and numbers\<close>

lemma char_at_drop: "drop i (ps_input st) = c # s \<Longrightarrow> i < length (ps_input st) \<and> char_at st i = c"
  unfolding char_at_def by (metis drop_eq_Nil2 hd_drop_conv_nth leI list.sel(1) list.simps(3))

lemma drop_Suc_Cons': "drop i xs = c # s \<Longrightarrow> drop (Suc i) xs = s"
  by (metis drop_Suc drop_tl list.sel(3))

lemma scan_string_plain:
  assumes "ps_len st = length (ps_input st)" "plain s" "drop pos (ps_input st) = s @ CHR ''\"'' # t"
  shows "scan_string st pos n = (pos + length s, n + length s)"
  using assms(2,3)
proof (induction s arbitrary: pos n)
  case Nil
  then show ?case using char_at_drop [of pos st] assms(1) by (subst scan_string.simps) simp
next
  case (Cons c s)
  have d: "drop pos (ps_input st) = c # s @ CHR ''\"'' # t" using Cons.prems(2) by simp
  show ?case
    using Cons.IH [OF _ drop_Suc_Cons' [OF d], of "n + 1"] Cons.prems(1) char_at_drop [OF d] assms(1)
    by (subst scan_string.simps) (simp add: plain_def)
qed

lemma copy_string_plain:
  assumes "plain s" "drop i (ps_input st) = s @ t"
  shows "copy_string st i (i + length s) (length s) = s"
  using assms
proof (induction s arbitrary: i)
  case Nil
  then show ?case by (subst copy_string.simps) simp
next
  case (Cons c s)
  have d: "drop i (ps_input st) = c # s @ t" using Cons.prems(2) by simp
  show ?case
    using Cons.IH [OF _ drop_Suc_Cons' [OF d]] Cons.prems(1) char_at_drop [OF d]
    by (subst copy_string.simps) (simp add: plain_def)
qed

lemma parse_string_reads:
  assumes "reads st (quoted s @ t)" "plain s"
  obtains st' where "parse_string malloc_ok st = (Inr s, st')" "reads st' t"
proof -
  have r: "reads st (CHR ''\"'' # s @ CHR ''\"'' # t)" using assms(1) by (simp add: quoted_def)
  let ?st = "snd (consume st)"
  have r2: "reads ?st (s @ CHR ''\"'' # t)" by (rule consume_reads [OF r])
  then have d: "drop (ps_pos ?st) (ps_input ?st) = s @ CHR ''\"'' # t" "ps_len ?st = length (ps_input ?st)"
    by (simp_all add: reads_def rest_def)
  let ?u = "?st\<lparr>ps_pos := ps_pos ?st + length s\<rparr>"
  have "copy_string ?u (ps_pos ?st) (ps_pos ?st + length s) (length s) = s"
    by (rule copy_string_plain [OF assms(2)]) (simp add: d(1))
  moreover have "skip_whitespace st = st" by (rule skip_whitespace_id [OF r]) (simp add: json_space_def)
  ultimately have "parse_string malloc_ok st = (Inr s, snd (consume ?u))"
    by (simp add: parse_string_def Let_def peek_reads [OF r] scan_string_plain [OF d(2) assms(2) d(1)] malloc_ok_simp)
  moreover have "reads (snd (consume ?u)) t" by (rule consume_reads [OF reads_skip [OF r2]])
  ultimately show ?thesis by (rule that)
qed

lemma format_f6_start: "finite_d d \<Longrightarrow> \<exists>c s. format_f6 d = c # s \<and> (c = CHR ''-'' \<or> isdigit c)"
proof -
  assume "finite_d d"
  then have nf: "\<not> isnan d" "\<not> isinf d" using finite_not_inf [of d] by simp_all
  let ?n = "micro d div 10 ^ 6"
  obtain c s where cs: "show_nat ?n = c # s" using show_nat_digits [of ?n] by (meson neq_Nil_conv)
  have "list_all isdigit (c # s)" using show_nat_digits [of ?n] unfolding cs by blast
  then show ?thesis using nf cs by (simp add: format_f6_def)
qed

subsection \<open>Texts of values\<close>

text \<open>What comes after a value: the text ends, or a comma, a bracket or a line end follows.\<close>

definition ends_value :: "string \<Rightarrow> bool" where
  "ends_value t = (t = [] \<or> t ! 0 \<in> {CHR '','', CHR '']'', CHR ''}'', CHR 0x0A})"

lemma ends_valueI [simp]:
  "ends_value []" "ends_value (CHR '','' # t)" "ends_value (CHR '']'' # t)" "ends_value (CHR ''}'' # t)" "ends_value (CHR 0x0A # t)"
  by (simp_all add: ends_value_def)

lemma ends_value_number: "ends_value t \<Longrightarrow> ends_number t"
  by (auto simp: ends_value_def ends_number_def isdigit_def tolower_def code_def)

text \<open>\<open>w\<close> is a text of the number \<open>d\<close>; the parser reads the text \<open>w\<close> as the value \<open>v\<close>.\<close>

definition number_text :: "string \<Rightarrow> double \<Rightarrow> bool" where
  "number_text w d = ((\<exists>c s. w = c # s \<and> (c = CHR ''-'' \<or> isdigit c)) \<and> (\<forall>t. ends_value t \<longrightarrow> strtod (w @ t) = (d, length w)))"

definition reads_text :: "string \<Rightarrow> JsonValue \<Rightarrow> bool" where
  "reads_text w v = ((\<exists>c s. w = c # s \<and> \<not> json_space c \<and> c \<noteq> CHR '']'') \<and>
     (\<forall>st t n. reads st (w @ t) \<longrightarrow> ends_value t \<longrightarrow> 3 * left st + 3 \<le> n \<longrightarrow>
       (\<exists>st'. parse_value malloc_ok n st = Some (Inr v, st') \<and> reads st' t)))"

lemma reads_textE:
  assumes "reads_text w v" "reads st (w @ t)" "ends_value t" "3 * left st + 3 \<le> n"
  obtains st' where "parse_value malloc_ok n st = Some (Inr v, st')" "reads st' t"
  using assms unfolding reads_text_def by blast

lemma reads_text_start:
  assumes "reads_text w v"
  obtains c s where "w = c # s" "\<not> json_space c" "c \<noteq> CHR '']''"
  using assms unfolding reads_text_def by blast

lemma reads_textI:
  assumes "w = c # s" "\<not> json_space c" "c \<noteq> CHR '']''"
    "\<And>st t n. reads st (w @ t) \<Longrightarrow> ends_value t \<Longrightarrow> 3 * left st + 3 \<le> n \<Longrightarrow>
       \<exists>st'. parse_value malloc_ok n st = Some (Inr v, st') \<and> reads st' t"
  shows "reads_text w v"
  unfolding reads_text_def using assms by blast

lemma number_text_f6: "finite_d d \<Longrightarrow> number_text (format_f6 d) (f6_double d)"
  using format_f6_start [of d] strtod_f6 [of d] ends_value_number by (simp add: number_text_def)

lemma parse_number_reads:
  assumes "reads st (w @ t)" "number_text w d" "ends_value t"
  obtains st' where "parse_number st = (Inr d, st')" "reads st' t"
proof -
  obtain c s where c: "w = c # s" "c = CHR ''-'' \<or> isdigit c" using assms(2) unfolding number_text_def by blast
  have "\<not> json_space c" using c(2) by (auto simp: json_space_def isdigit_def code_def)
  then have "skip_whitespace st = st" using assms(1) c(1) by (intro skip_whitespace_id) simp_all
  moreover have "rest st = w @ t" using assms(1) by (simp add: reads_def)
  ultimately have "parse_number st = (Inr d, st\<lparr>ps_pos := ps_pos st + length w\<rparr>)"
    using assms(2,3) c(1) by (simp add: parse_number_def number_text_def Let_def)
  then show ?thesis using that reads_skip [OF assms(1)] by simp
qed

lemma grow_to_ok: "(\<And>c. can c) \<Longrightarrow> \<exists>cap1. grow_to can n cap = Some cap1"
  by (simp add: grow_to_def)

lemma not_space [simp]:
  "\<not> json_space (CHR '','')" "\<not> json_space (CHR '']'')" "\<not> json_space (CHR ''}'')" "\<not> json_space (CHR '':'')"
  "\<not> json_space (CHR ''['')" "\<not> json_space (CHR ''{'')" "\<not> json_space (CHR ''\"'')" "\<not> json_space (CHR ''t'')"
  "\<not> json_space (CHR ''f'')" "\<not> json_space (CHR ''n'')" "\<not> json_space (CHR ''-'')"
  by (simp_all add: json_space_def)

text \<open>The texts of the items or members of a list, with the values beside them.\<close>

definition reads_items :: "(string \<times> JsonValue) list \<Rightarrow> bool" where
  "reads_items ps = (\<forall>(w, v) \<in> set ps. reads_text w v)"

lemma parse_items_reads:
  assumes "reads_items (p # ps)"
    "reads st (join '','' (map fst (p # ps)) @ CHR '']'' # t)" "3 * left st + 4 \<le> n"
  shows "\<exists>st'. parse_items malloc_ok n cap acc st = Some (Inr (JSON_ARRAY (acc @ map snd (p # ps))), st') \<and> reads st' t"
  using assms
proof (induction ps arbitrary: p st n cap acc)
  case Nil
  obtain m where n: "n = Suc m" "3 * left st + 3 \<le> m" using Nil.prems(3) by (cases n) auto
  obtain cap1 where g: "grow_to (\<lambda>c. malloc_ok (c * sizeof_JsonValue)) (length acc) cap = Some cap1"
    using grow_to_ok [of "\<lambda>c. malloc_ok (c * sizeof_JsonValue)"] malloc_ok_simp by blast
  have "reads_text (fst p) (snd p)" using Nil.prems(1) by (simp add: reads_items_def split_beta)
  then obtain st1 where v: "parse_value malloc_ok m st = Some (Inr (snd p), st1)" "reads st1 (CHR '']'' # t)"
    using Nil.prems(2) n(2) by (auto elim!: reads_textE [of "fst p" "snd p" st "CHR '']'' # t" m])
  show ?case
    using consume_reads [OF v(2)] by (simp add: n(1) g v(1) Let_def skip_whitespace_id [OF v(2)] peek_reads [OF v(2)])
next
  case (Cons q ps)
  obtain m where n: "n = Suc m" "3 * left st + 3 \<le> m" using Cons.prems(3) by (cases n) auto
  obtain cap1 where g: "grow_to (\<lambda>c. malloc_ok (c * sizeof_JsonValue)) (length acc) cap = Some cap1"
    using grow_to_ok [of "\<lambda>c. malloc_ok (c * sizeof_JsonValue)"] malloc_ok_simp by blast
  let ?t = "join '','' (map fst (q # ps)) @ CHR '']'' # t"
  have "reads_text (fst p) (snd p)" "reads_items (q # ps)" using Cons.prems(1) by (simp_all add: reads_items_def split_beta)
  then obtain st1 where v: "parse_value malloc_ok m st = Some (Inr (snd p), st1)" "reads st1 (CHR '','' # ?t)"
    using Cons.prems(2) n(2) by (auto elim!: reads_textE [of "fst p" "snd p" st "CHR '','' # ?t" m])
  obtain st2 where e: "expect st1 (CHR '','') = (PARSE_OK, st2)" "reads st2 ?t"
    by (rule expect_reads [OF v(2)]) auto
  have "3 * left st2 + 4 \<le> m"
    using n(2) reads_left [OF Cons.prems(2)] reads_left [OF e(2)] by simp
  then obtain st' where "parse_items malloc_ok m cap1 (acc @ [snd p]) st2 =
      Some (Inr (JSON_ARRAY ((acc @ [snd p]) @ map snd (q # ps))), st')" "reads st' t"
    using Cons.IH [of q st2 m cap1 "acc @ [snd p]"] \<open>reads_items (q # ps)\<close> e(2) by auto
  then show ?case
    by (simp add: n(1) g v(1) Let_def skip_whitespace_id [OF v(2)] peek_reads [OF v(2)] e(1))
qed

text \<open>A member is a key, the text of its value, and the value.\<close>

definition member_text :: "string \<times> string \<times> JsonValue \<Rightarrow> string" where
  "member_text m = quoted (fst m) @ '':'' @ fst (snd m)"

definition member_value :: "string \<times> string \<times> JsonValue \<Rightarrow> string \<times> JsonValue" where
  "member_value m = (fst m, snd (snd m))"

definition reads_members :: "(string \<times> string \<times> JsonValue) list \<Rightarrow> bool" where
  "reads_members ms = (\<forall>(k, w, v) \<in> set ms. plain k \<and> reads_text w v)"

lemma parse_member_reads:
  assumes "plain (fst m)" "reads_text (fst (snd m)) (snd (snd m))" "reads st (member_text m @ t)" "ends_value t" "3 * left st + 3 \<le> n"
  obtains st1 st2 st3 where "parse_string malloc_ok st = (Inr (fst m), st1)" "expect st1 (CHR '':'') = (PARSE_OK, st2)"
    "parse_value malloc_ok n st2 = Some (Inr (snd (snd m)), st3)" "reads st3 t"
proof -
  have "reads st (quoted (fst m) @ CHR '':'' # fst (snd m) @ t)" using assms(3) by (simp add: member_text_def)
  then obtain st1 where s: "parse_string malloc_ok st = (Inr (fst m), st1)" "reads st1 (CHR '':'' # fst (snd m) @ t)"
    using assms(1) by (rule parse_string_reads)
  obtain st2 where e: "expect st1 (CHR '':'') = (PARSE_OK, st2)" "reads st2 (fst (snd m) @ t)"
    by (rule expect_reads [OF s(2)]) auto
  have "3 * left st2 + 3 \<le> n"
    using assms(5) reads_left [OF assms(3)] reads_left [OF e(2)] by (simp add: member_text_def)
  then obtain st3 where v: "parse_value malloc_ok n st2 = Some (Inr (snd (snd m)), st3)" "reads st3 t"
    by (rule reads_textE [OF assms(2) e(2) assms(4)])
  show ?thesis by (rule that [OF s(1) e(1) v])
qed

lemma parse_members_reads:
  assumes "reads_members (m # ms)"
    "reads st (join '','' (map member_text (m # ms)) @ CHR ''}'' # t)" "3 * left st + 4 \<le> n"
  shows "\<exists>st'. parse_members malloc_ok n cap acc st = Some (Inr (JSON_OBJECT (acc @ map member_value (m # ms))), st') \<and> reads st' t"
  using assms
proof (induction ms arbitrary: m st n cap acc)
  case Nil
  let ?g = "\<lambda>c. malloc_ok (c * sizeof_ptr) \<and> malloc_ok (c * sizeof_JsonValue)"
  obtain k where n: "n = Suc k" "3 * left st + 3 \<le> k" using Nil.prems(3) by (cases n) auto
  obtain cap1 where g: "grow_to ?g (length acc) cap = Some cap1" using grow_to_ok [of ?g] malloc_ok_simp by blast
  have mv: "plain (fst m)" "reads_text (fst (snd m)) (snd (snd m))" using Nil.prems(1) by (simp_all add: reads_members_def split_beta)
  have "reads st (member_text m @ CHR ''}'' # t)" using Nil.prems(2) by simp
  then obtain st1 st2 st3 where v: "parse_string malloc_ok st = (Inr (fst m), st1)" "expect st1 (CHR '':'') = (PARSE_OK, st2)"
    "parse_value malloc_ok k st2 = Some (Inr (snd (snd m)), st3)" "reads st3 (CHR ''}'' # t)"
    using mv n(2) by (elim parse_member_reads [of m st "CHR ''}'' # t" k, rotated 2]) auto
  show ?case
    using consume_reads [OF v(4)]
    by (simp add: n(1) g v(1-3) Let_def skip_whitespace_id [OF v(4)] peek_reads [OF v(4)] member_value_def)
next
  case (Cons w ms)
  let ?g = "\<lambda>c. malloc_ok (c * sizeof_ptr) \<and> malloc_ok (c * sizeof_JsonValue)"
  obtain k where n: "n = Suc k" "3 * left st + 3 \<le> k" using Cons.prems(3) by (cases n) auto
  obtain cap1 where g: "grow_to ?g (length acc) cap = Some cap1" using grow_to_ok [of ?g] malloc_ok_simp by blast
  let ?t = "join '','' (map member_text (w # ms)) @ CHR ''}'' # t"
  have mv: "plain (fst m)" "reads_text (fst (snd m)) (snd (snd m))" and ms: "reads_members (w # ms)"
    using Cons.prems(1) by (simp_all add: reads_members_def split_beta)
  have st: "reads st (member_text m @ CHR '','' # ?t)" using Cons.prems(2) by simp
  then obtain st1 st2 st3 where v: "parse_string malloc_ok st = (Inr (fst m), st1)" "expect st1 (CHR '':'') = (PARSE_OK, st2)"
    "parse_value malloc_ok k st2 = Some (Inr (snd (snd m)), st3)" "reads st3 (CHR '','' # ?t)"
    using mv n(2) by (elim parse_member_reads [of m st "CHR '','' # ?t" k, rotated 2]) auto
  obtain st4 where e: "expect st3 (CHR '','') = (PARSE_OK, st4)" "reads st4 ?t"
    by (rule expect_reads [OF v(4)]) auto
  have "3 * left st4 + 4 \<le> k"
    using n(2) reads_left [OF st] reads_left [OF e(2)] by simp
  then obtain st' where "parse_members malloc_ok k cap1 (acc @ [member_value m]) st4 =
      Some (Inr (JSON_OBJECT ((acc @ [member_value m]) @ map member_value (w # ms))), st')" "reads st' t"
    using Cons.IH [of w st4 k cap1 "acc @ [member_value m]"] ms e(2) by auto
  then show ?case
    by (simp add: n(1) g v(1-3) Let_def skip_whitespace_id [OF v(4)] peek_reads [OF v(4)] e(1) member_value_def)
qed

lemma skip_word_reads: "reads st (w @ t) \<Longrightarrow> reads (skip_word st w) t"
  unfolding skip_word_def by (rule reads_skip)

lemma at_word_reads: "reads st (w @ t) \<Longrightarrow> at_word st w"
  by (simp add: at_word_def reads_def)

text \<open>A value that starts with none of the brackets and quotes is left to \<open>parse_scalar\<close>.\<close>

lemma parse_value_scalar:
  assumes "reads st (c # s)" "\<not> json_space c" "c \<notin> {CHR ''\"'', CHR ''['', CHR ''{''}" "0 < n"
  shows "parse_value al n st = Some (parse_scalar st)"
  using assms by (cases n) (simp_all add: Let_def skip_whitespace_id [OF assms(1,2)] peek_reads [OF assms(1)])

lemma parse_word_reads:
  assumes "reads st (w @ t)" "w \<in> {''true'', ''false'', ''null''}" "0 < n"
  shows "\<exists>st'. parse_value al n st =
    Some (Inr (if w = ''true'' then JSON_BOOL True else if w = ''false'' then JSON_BOOL False else JSON_NULL), st') \<and> reads st' t"
proof -
  have step: "parse_value al n st = Some (parse_scalar st) \<and> peek st = c \<and> at_word st (c # u) \<and> reads (skip_word st (c # u)) t"
    if "w = c # u" "\<not> json_space c" "c \<noteq> CHR ''\"''" "c \<noteq> CHR ''[''" "c \<noteq> CHR ''{''" for c u
  proof -
    have r: "reads st (c # u @ t)" using assms(1) that(1) by simp
    show ?thesis
      using parse_value_scalar [OF r that(2) _ assms(3)] that(3-5) peek_reads [OF r] at_word_reads [of st "c # u" t]
        skip_word_reads [of st "c # u" t] r by simp
  qed
  consider "w = ''true''" | "w = ''false''" | "w = ''null''" using assms(2) by blast
  then show ?thesis
  proof cases
    case 1
    with step [of "CHR ''t''" "''rue''"] show ?thesis by (simp add: parse_scalar_def Let_def)
  next
    case 2
    with step [of "CHR ''f''" "''alse''"] show ?thesis by (simp add: parse_scalar_def Let_def)
  next
    case 3
    with step [of "CHR ''n''" "''ull''"] show ?thesis by (simp add: parse_scalar_def Let_def)
  qed
qed

subsection \<open>The texts the parser reads\<close>

lemma reads_text_word:
  assumes "w \<in> {''true'', ''false'', ''null''}"
  shows "reads_text w (if w = ''true'' then JSON_BOOL True else if w = ''false'' then JSON_BOOL False else JSON_NULL)"
proof -
  have "\<exists>c s. w = c # s \<and> \<not> json_space c \<and> c \<noteq> CHR '']''"
    using assms by (elim insertE emptyE) simp_all
  then obtain c s where c: "w = c # s" "\<not> json_space c" "c \<noteq> CHR '']''" by blast
  show ?thesis
  proof (rule reads_textI [OF c])
    fix st t n
    assume r: "reads st (w @ t)" and n: "3 * left st + 3 \<le> n"
    have "0 < n" using n by simp
    from parse_word_reads [OF r assms this] show "\<exists>st'. parse_value malloc_ok n st =
      Some (Inr (if w = ''true'' then JSON_BOOL True else if w = ''false'' then JSON_BOOL False else JSON_NULL), st') \<and> reads st' t" .
  qed
qed

lemma reads_text_number: "number_text w d \<Longrightarrow> reads_text w (JSON_NUMBER d)"
proof -
  assume w: "number_text w d"
  then obtain c s where c: "w = c # s" "c = CHR ''-'' \<or> isdigit c" unfolding number_text_def by blast
  have nc: "\<not> json_space c" "c \<notin> {CHR ''\"'', CHR ''['', CHR ''{''}" "c \<notin> {CHR ''t'', CHR ''f'', CHR ''n''}" "c \<noteq> CHR '']''"
    using c(2) by (auto simp: json_space_def isdigit_def code_def)
  show ?thesis
  proof (rule reads_textI [OF c(1) nc(1,4)])
    fix st t n
    assume r: "reads st (w @ t)" and t: "ends_value t" and n: "3 * left st + 3 \<le> n"
    have rc: "reads st (c # s @ t)" using r c(1) by simp
    obtain st' where p: "parse_number st = (Inr d, st')" "reads st' t" by (rule parse_number_reads [OF r w t])
    have "parse_scalar st = (Inr (JSON_NUMBER d), st')"
      using c(2) nc(3) p(1) by (auto simp: parse_scalar_def Let_def peek_reads [OF rc])
    then show "\<exists>st'. parse_value malloc_ok n st = Some (Inr (JSON_NUMBER d), st') \<and> reads st' t"
      using parse_value_scalar [OF rc nc(1,2), of n malloc_ok] n p(2) by simp
  qed
qed

lemma reads_text_string: "plain s \<Longrightarrow> reads_text (quoted s) (JSON_STRING s)"
proof (rule reads_textI [of _ "CHR ''\"''" "s @ ''\"''"])
  fix st t n
  assume s: "plain s" and r: "reads st (quoted s @ t)" and n: "3 * left st + 3 \<le> n"
  obtain m where m: "n = Suc m" using n by (cases n) auto
  obtain st' where p: "parse_string malloc_ok st = (Inr s, st')" "reads st' t" using r s by (rule parse_string_reads)
  have rc: "reads st (CHR ''\"'' # s @ CHR ''\"'' # t)" using r by (simp add: quoted_def)
  show "\<exists>st'. parse_value malloc_ok n st = Some (Inr (JSON_STRING s), st') \<and> reads st' t"
    using p by (simp add: m Let_def skip_whitespace_id [OF rc] peek_reads [OF rc])
qed (simp_all add: quoted_def)

lemma fuel_steps: "3 * k + 3 \<le> n \<Longrightarrow> \<exists>m. n = Suc (Suc m) \<and> 3 * k + 1 \<le> (m::nat)"
  by (intro exI [of _ "n - 2"]) arith

lemma reads_text_array: "reads_items ps \<Longrightarrow> reads_text (''['' @ join '','' (map fst ps) @ '']'') (JSON_ARRAY (map snd ps))"
proof (rule reads_textI [of _ "CHR ''[''" "join '','' (map fst ps) @ '']''"])
  fix st t n
  assume ps: "reads_items ps" and r: "reads st ((''['' @ join '','' (map fst ps) @ '']'') @ t)" and n: "3 * left st + 3 \<le> n"
  obtain m where m: "n = Suc (Suc m)" "3 * left st + 1 \<le> m" using fuel_steps [OF n] by blast
  have rc: "reads st (CHR ''['' # join '','' (map fst ps) @ CHR '']'' # t)" using r by simp
  obtain st1 where e: "expect st (CHR ''['') = (PARSE_OK, st1)" "reads st1 (join '','' (map fst ps) @ CHR '']'' # t)"
    by (rule expect_reads [OF rc]) auto
  have l: "3 * left st1 + 4 \<le> m" using m(2) reads_left [OF rc] reads_left [OF e(2)] by simp
  show "\<exists>st'. parse_value malloc_ok n st = Some (Inr (JSON_ARRAY (map snd ps)), st') \<and> reads st' t"
  proof (cases ps)
    case Nil
    then have r1: "reads st1 (CHR '']'' # t)" using e(2) by simp
    show ?thesis
      using consume_reads [OF r1] by (simp add: m(1) Let_def skip_whitespace_id [OF rc] peek_reads [OF rc] e(1)
          malloc_ok_simp skip_whitespace_id [OF r1] peek_reads [OF r1] Nil)
  next
    case (Cons p qs)
    then obtain st' where p: "parse_items malloc_ok m 8 [] st1 = Some (Inr (JSON_ARRAY ([] @ map snd (p # qs))), st')" "reads st' t"
      using parse_items_reads [of p qs st1 t m 8 "[]"] ps e(2) l by auto
    have "reads_text (fst p) (snd p)" using ps Cons by (simp add: reads_items_def split_beta)
    then obtain c s where c: "fst p = c # s" "\<not> json_space c" "c \<noteq> CHR '']''" by (rule reads_text_start)
    have "\<exists>u. reads st1 (c # u)" using e(2) c(1) Cons by (cases qs) auto
    then obtain u where r1: "reads st1 (c # u)" ..
    show ?thesis
      using p c(3) by (simp add: m(1) Let_def skip_whitespace_id [OF rc] peek_reads [OF rc] e(1)
          malloc_ok_simp skip_whitespace_id [OF r1 c(2)] peek_reads [OF r1] Cons)
  qed
qed simp_all

lemma reads_text_object:
  "reads_members ms \<Longrightarrow> reads_text (''{'' @ join '','' (map member_text ms) @ ''}'') (JSON_OBJECT (map member_value ms))"
proof (rule reads_textI [of _ "CHR ''{''" "join '','' (map member_text ms) @ ''}''"])
  fix st t n
  assume ms: "reads_members ms" and r: "reads st ((''{'' @ join '','' (map member_text ms) @ ''}'') @ t)" and n: "3 * left st + 3 \<le> n"
  obtain m where m: "n = Suc (Suc m)" "3 * left st + 1 \<le> m" using fuel_steps [OF n] by blast
  have rc: "reads st (CHR ''{'' # join '','' (map member_text ms) @ CHR ''}'' # t)" using r by simp
  obtain st1 where e: "expect st (CHR ''{'') = (PARSE_OK, st1)" "reads st1 (join '','' (map member_text ms) @ CHR ''}'' # t)"
    by (rule expect_reads [OF rc]) auto
  have l: "3 * left st1 + 4 \<le> m" using m(2) reads_left [OF rc] reads_left [OF e(2)] by simp
  show "\<exists>st'. parse_value malloc_ok n st = Some (Inr (JSON_OBJECT (map member_value ms)), st') \<and> reads st' t"
  proof (cases ms)
    case Nil
    then have r1: "reads st1 (CHR ''}'' # t)" using e(2) by simp
    show ?thesis
      using consume_reads [OF r1] by (simp add: m(1) Let_def skip_whitespace_id [OF rc] peek_reads [OF rc] e(1)
          malloc_ok_simp skip_whitespace_id [OF r1] peek_reads [OF r1] Nil)
  next
    case (Cons w ws)
    then obtain st' where p: "parse_members malloc_ok m 8 [] st1 = Some (Inr (JSON_OBJECT ([] @ map member_value (w # ws))), st')" "reads st' t"
      using parse_members_reads [of w ws st1 t m 8 "[]"] ms e(2) l by auto
    have "\<exists>u. reads st1 (CHR ''\"'' # u)" using e(2) Cons by (cases ws) (auto simp: member_text_def quoted_def)
    then obtain u where r1: "reads st1 (CHR ''\"'' # u)" ..
    show ?thesis
      using p by (simp add: m(1) Let_def skip_whitespace_id [OF rc] peek_reads [OF rc] e(1)
          malloc_ok_simp skip_whitespace_id [OF r1] peek_reads [OF r1] Cons)
  qed
qed simp_all

lemma reads_printed: "printable v \<Longrightarrow> reads_text (json_print v) (json_read v)"
proof (induction v)
  case JSON_NULL
  show ?case using reads_text_word [of "''null''"] by simp
next
  case (JSON_BOOL b)
  show ?case using reads_text_word [of "''true''"] reads_text_word [of "''false''"] by simp
next
  case (JSON_NUMBER d)
  then show ?case by (simp add: reads_text_number number_text_f6)
next
  case (JSON_STRING s)
  then show ?case by (simp add: reads_text_string)
next
  case (JSON_ARRAY vs)
  let ?ps = "map (\<lambda>v. (json_print v, json_read v)) vs"
  have "reads_items ?ps" using JSON_ARRAY by (auto simp: reads_items_def list_all_iff)
  from reads_text_array [OF this] show ?case by (simp add: o_def)
next
  case (JSON_OBJECT ms)
  let ?ms = "map (\<lambda>m. (fst m, json_print (snd m), json_read (snd m))) ms"
  have "reads_members ?ms" using JSON_OBJECT by (fastforce simp: reads_members_def list_all_iff)
  from reads_text_object [OF this] show ?case by (simp add: o_def member_text_def member_value_def map_prod_def case_prod_unfold)
qed

text \<open>Hence such a text is read as a whole, and so is a printed value.\<close>

definition no_zero :: "string \<Rightarrow> bool" where
  "no_zero s = list_all (\<lambda>c. c \<noteq> CHR 0x00) s"

lemma c_str_id: "no_zero s \<Longrightarrow> c_str s = s"
  by (simp add: no_zero_def c_str_def list_all_iff takeWhile_eq_all_conv)

lemma parse_root_reads:
  assumes "reads_text w v" "no_zero (w @ t)" "ends_value t"
  shows "\<exists>st. parse_root malloc_ok (w @ t) = Some (Inr v, st)"
proof -
  let ?st = "init_state (w @ t)"
  have "reads ?st (w @ t)" by (simp add: reads_def init_state_def rest_def c_str_id [OF assms(2)])
  from reads_textE [OF assms(1) this assms(3), of "json_fuel ?st"] show ?thesis
    by (auto simp: parse_root_def Let_def json_fuel_def left_def)
qed

lemma parse_root_printed:
  assumes "printable v" "no_zero (json_print v)"
  shows "\<exists>st. parse_root malloc_ok (json_print v) = Some (Inr (json_read v), st)"
  using parse_root_reads [OF reads_printed [OF assms(1)], of "[]"] assms(2) by simp

end
