(* ===== verification/TextOut_Inv.thy ===== *)
theory TextOut_Inv
  imports Wkt Json_Print
begin

text \<open>
  Text written piece by piece: what fits into the buffer is written completely and in order, and a text
  that does not fit is written behind the buffer exactly if a piece before the end passes the size.
\<close>

subsection \<open>One piece\<close>

abbreviation int_limit :: nat where "int_limit \<equiv> 2 ^ 31"

lemma room_sub: "w \<le> n \<Longrightarrow> n < int_limit \<Longrightarrow> room n w = n - w"
proof -
  assume "w \<le> n" "n < int_limit"
  then have "(word_of_nat n - word_of_nat w :: 64 word) = word_of_nat (n - w)" by (simp add: of_nat_diff)
  then show ?thesis using \<open>n < int_limit\<close> by (simp add: room_def unat_of_nat)
qed

lemma room_wraps: "n < w \<Longrightarrow> w < int_limit \<Longrightarrow> room n w \<noteq> 0"
proof
  assume w: "n < w" "w < int_limit" and "room n w = 0"
  then have "word_of_nat n = (word_of_nat w :: 64 word)" by (simp add: room_def unat_eq_zero)
  then have "unat (word_of_nat n :: 64 word) = unat (word_of_nat w :: 64 word)" by simp
  then show False using w by (simp add: unat_of_nat)
qed

lemma fits_iff: "length buf < int_limit \<Longrightarrow> fits (buf, w) \<longleftrightarrow> w < length buf"
proof -
  assume l: "length buf < int_limit"
  then have "sint (word_of_nat (length buf) :: 32 word) = int (length buf)"
    by (simp add: signed_of_nat signed_take_bit_int_eq_self)
  then show ?thesis by (simp add: fits_def)
qed

text \<open>The pieces written so far are the text \<open>s\<close>.\<close>

definition holds :: "nat \<Rightarrow> outbuf \<Rightarrow> string \<Rightarrow> bool" where
  "holds n out s = (snd out = length s \<and> length (fst out) = n \<and> length s < n \<and> take (length s) (fst out) = s)"

lemma print_to_holds:
  assumes "holds n (buf, w) s" "length s + length txt < n" "n < int_limit"
  obtains buf' where "print_to txt (buf, w) = Some (buf', w + length txt)" "holds n (buf', w + length txt) (s @ txt)"
    "buf' ! (w + length txt) = CHR 0x00"
proof -
  have h: "w = length s" "length buf = n" "take w buf = s" using assms(1) by (auto simp: holds_def)
  have r: "room n w = n - w" using assms(2,3) h(1) by (intro room_sub) auto
  have t: "take (n - w - 1) txt = txt" using assms(2) h(1) by simp
  let ?buf = "s @ txt @ [CHR 0x00] @ drop (w + length txt + 1) buf"
  have "snprintf buf w (n - w) txt = Some ?buf"
    using assms(2) h t by (simp add: snprintf_def)
  then have "print_to txt (buf, w) = Some (?buf, w + length txt)" by (simp add: print_to_def h(2) r)
  moreover have "holds n (?buf, w + length txt) (s @ txt)" "?buf ! (w + length txt) = CHR 0x00"
    using assms(2) h by (simp_all add: holds_def nth_append)
  ultimately show ?thesis by (rule that)
qed

lemma print_to_None:
  assumes "length buf = n" "n < int_limit" "w < int_limit"
  shows "print_to txt (buf, w) = None \<longleftrightarrow> n < w"
    and "w \<le> n \<Longrightarrow> \<exists>buf'. print_to txt (buf, w) = Some (buf', w + length txt) \<and> length buf' = n"
proof -
  have some: "\<exists>buf'. print_to txt (buf, w) = Some (buf', w + length txt) \<and> length buf' = n" if "w \<le> n"
    using that assms(1) room_sub [OF that assms(2)] by (auto simp: print_to_def snprintf_def Let_def)
  have none: "print_to txt (buf, w) = None" if "n < w"
    using that assms(1) room_wraps [OF that assms(3)] by (simp add: print_to_def snprintf_def Let_def)
  show "print_to txt (buf, w) = None \<longleftrightarrow> n < w" using some none by fastforce
  show "w \<le> n \<Longrightarrow> \<exists>buf'. print_to txt (buf, w) = Some (buf', w + length txt) \<and> length buf' = n" by (rule some)
qed

subsection \<open>Lists of points\<close>

definition points_text :: "string \<Rightarrow> (Point \<Rightarrow> string) \<Rightarrow> bool \<Rightarrow> Point list \<Rightarrow> string" where
  "points_text sep fmt is_first ps = (if is_first then join sep (map fmt ps) else concat (map (\<lambda>p. sep @ fmt p) ps))"

lemma join_Cons: "join sep (x # xs) = x @ concat (map (\<lambda>y. sep @ y) xs)"
  by (induction xs arbitrary: x) simp_all

lemma points_text_simps:
  "points_text sep fmt b [] = []"
  "points_text sep fmt b (p # ps) = (if b then [] else sep) @ fmt p @ points_text sep fmt False ps"
  by (simp_all add: points_text_def join_Cons o_def)

lemma print_points_holds:
  assumes "holds n (buf, w) s" "length s + length (points_text sep fmt b ps) < n" "n < int_limit"
  shows "\<exists>buf'. print_points sep fmt b ps (buf, w) = Some (buf', w + length (points_text sep fmt b ps)) \<and>
    holds n (buf', w + length (points_text sep fmt b ps)) (s @ points_text sep fmt b ps)"
  using assms
proof (induction ps arbitrary: buf w s b)
  case Nil
  then show ?case by (simp add: points_text_simps)
next
  case (Cons p ps)
  let ?sep = "if b then [] else sep" and ?r = "points_text sep fmt False ps"
  have l: "length s + length ?sep + length (fmt p) + length ?r < n" using Cons.prems(2) by (simp add: points_text_simps)
  have f: "fits (buf, w)" using Cons.prems(1,3) by (simp add: holds_def fits_iff)
  obtain buf1 where 1: "(if b then Some (buf, w) else print_to sep (buf, w)) = Some (buf1, w + length ?sep)"
    "holds n (buf1, w + length ?sep) (s @ ?sep)"
  proof (cases b)
    case True
    then show ?thesis using that Cons.prems(1) by simp
  next
    case False
    then have "length s + length sep < n" using l by simp
    then show ?thesis using that False by (auto intro: print_to_holds [OF Cons.prems(1) _ Cons.prems(3)])
  qed
  obtain buf2 where 2: "print_to (fmt p) (buf1, w + length ?sep) = Some (buf2, w + length ?sep + length (fmt p))"
    "holds n (buf2, w + length ?sep + length (fmt p)) ((s @ ?sep) @ fmt p)"
    by (rule print_to_holds [OF 1(2) _ Cons.prems(3), of "fmt p"]) (use l in simp_all)
  have "length ((s @ ?sep) @ fmt p) + length ?r < n" using l by simp
  from Cons.IH [OF 2(2) this Cons.prems(3)] show ?case
    using 1(1) 2(1) f by (simp add: points_text_simps add.assoc)
qed

lemma c_str_holds:
  assumes "holds n (buf, w) s" "buf ! w = CHR 0x00" "no_zero s"
  shows "c_str buf = s"
proof -
  have "buf = s @ CHR 0x00 # drop (Suc w) buf"
    using assms(1,2) id_take_nth_drop [of w buf] by (auto simp: holds_def)
  then have "c_str buf = takeWhile (\<lambda>c. c \<noteq> CHR 0x00) (s @ CHR 0x00 # drop (Suc w) buf)" by (simp add: c_str_def)
  also have "\<dots> = s" using assms(3) takeWhile_digits [of "\<lambda>c. c \<noteq> CHR 0x00" s] by (simp add: no_zero_def)
  finally show ?thesis .
qed

lemma print_list_fits:
  assumes "length (opening @ join sep (map fmt ps) @ closing) < length buf" "length buf < int_limit"
    "no_zero (opening @ join sep (map fmt ps) @ closing)"
  obtains buf' where "print_list opening sep closing fmt ps buf = Some (buf', length (opening @ join sep (map fmt ps) @ closing))"
    "c_str buf' = opening @ join sep (map fmt ps) @ closing"
proof -
  let ?n = "length buf" and ?t = "join sep (map fmt ps)"
  have pt: "points_text sep fmt True ps = ?t" by (simp add: points_text_def)
  have "holds ?n (buf, 0) []" using assms(1) by (cases buf) (simp_all add: holds_def)
  then obtain buf1 where 1: "print_to opening (buf, 0) = Some (buf1, length opening)" "holds ?n (buf1, length opening) opening"
    by (rule print_to_holds [of ?n buf 0 "[]" "opening"]) (use assms(1,2) in simp_all)
  obtain buf2 where 2: "print_points sep fmt True ps (buf1, length opening) = Some (buf2, length opening + length ?t)"
    "holds ?n (buf2, length opening + length ?t) (opening @ ?t)"
    using print_points_holds [OF 1(2), of sep fmt True ps] assms(1,2) unfolding pt by auto
  obtain buf3 where 3: "print_to closing (buf2, length opening + length ?t) = Some (buf3, length opening + length ?t + length closing)"
    "holds ?n (buf3, length opening + length ?t + length closing) ((opening @ ?t) @ closing)"
    "buf3 ! (length opening + length ?t + length closing) = CHR 0x00"
    by (rule print_to_holds [OF 2(2) _ assms(2), of closing]) (use assms(1) in simp_all)
  have "c_str buf3 = (opening @ ?t) @ closing" by (rule c_str_holds [OF 3(2,3)]) (use assms(3) in simp)
  moreover have "print_list opening sep closing fmt ps buf = Some (buf3, length (opening @ ?t @ closing))"
    by (simp add: print_list_def 1(1) 2(1) 3(1) add.assoc)
  ultimately show ?thesis using that by simp
qed

subsection \<open>Writing behind the buffer\<close>

lemma print_points_None:
  assumes "length buf = n" "n < int_limit" "w + length (points_text sep fmt b ps) < int_limit"
  shows "(case print_points sep fmt b ps (buf, w) of None \<Rightarrow> None | Some out \<Rightarrow> print_to closing out) = None \<longleftrightarrow>
    (\<exists>k \<le> length ps. n < w + length (points_text sep fmt b (take k ps)) \<and>
       (\<forall>j < k. w + length (points_text sep fmt b (take j ps)) < n))"
  using assms
proof (induction ps arbitrary: buf w b)
  case Nil
  then show ?case using print_to_None(1) [OF Nil.prems(1,2)] by (simp add: points_text_simps)
next
  case (Cons p ps)
  let ?W = "\<lambda>k. w + length (points_text sep fmt b (take k (p # ps)))"
  let ?sep = "if b then [] else sep"
  have lim: "w + length ?sep + length (fmt p) + length (points_text sep fmt False ps) < int_limit"
    using Cons.prems(3) by (simp add: points_text_simps)
  have W0: "?W 0 = w" by (simp add: points_text_simps)
  show ?case
  proof (cases "w < n")
    case False
    then have "\<not> fits (buf, w)" using Cons.prems(1,2) by (simp add: fits_iff)
    moreover have "(\<exists>k \<le> length (p # ps). n < ?W k \<and> (\<forall>j < k. ?W j < n)) \<longleftrightarrow> n < w"
      using False W0 by (metis gr_zeroI le0 not_less_zero)
    ultimately show ?thesis
      using print_to_None(1) [OF Cons.prems(1,2), of w closing] lim by simp
  next
    case True
    then have f: "fits (buf, w)" using Cons.prems(1,2) by (simp add: fits_iff)
    have "\<exists>buf1. (if b then Some (buf, w) else print_to sep (buf, w)) = Some (buf1, w + length ?sep) \<and> length buf1 = n"
      using print_to_None(2) [OF Cons.prems(1,2), of w sep] True lim Cons.prems(1) by auto
    then obtain buf1 where 1: "(if b then Some (buf, w) else print_to sep (buf, w)) = Some (buf1, w + length ?sep)" "length buf1 = n"
      by blast
    have W_Suc: "?W (Suc k) = w + length ?sep + length (fmt p) + length (points_text sep fmt False (take k ps))" for k
      by (simp add: points_text_simps)
    have shift: "(\<exists>k \<le> length (p # ps). n < ?W k \<and> (\<forall>j < k. ?W j < n)) \<longleftrightarrow>
        (\<exists>k \<le> length ps. n < ?W (Suc k) \<and> (\<forall>j < k. ?W (Suc j) < n))" (is "?L \<longleftrightarrow> ?R")
    proof
      assume ?L
      then obtain k where k: "k \<le> length (p # ps)" "n < ?W k" "\<forall>j < k. ?W j < n" by blast
      have "k \<noteq> 0" using k(2) W0 True by (metis less_asym)
      then obtain k' where "k = Suc k'" using not0_implies_Suc by blast
      then show ?R using k by (intro exI [of _ k']) auto
    next
      assume ?R
      then obtain k where k: "k \<le> length ps" "n < ?W (Suc k)" "\<forall>j < k. ?W (Suc j) < n" by blast
      have "\<forall>j < Suc k. ?W j < n"
      proof (intro allI impI)
        fix j assume "j < Suc k"
        then show "?W j < n" using k(3) W0 True by (cases j) auto
      qed
      then show ?L using k by (intro exI [of _ "Suc k"]) auto
    qed
    show ?thesis
    proof (cases "n < w + length ?sep")
      case over: True
      then have "print_to (fmt p) (buf1, w + length ?sep) = None" using print_to_None(1) [OF 1(2) Cons.prems(2)] lim by simp
      moreover have "\<exists>k \<le> length ps. n < ?W (Suc k) \<and> (\<forall>j < k. ?W (Suc j) < n)"
        by (intro exI [of _ 0]) (use over W_Suc [of 0] in \<open>simp add: points_text_simps\<close>)
      ultimately show ?thesis using f 1(1) shift by simp
    next
      case False
      then obtain buf2 where 2: "print_to (fmt p) (buf1, w + length ?sep) = Some (buf2, w + length ?sep + length (fmt p))" "length buf2 = n"
        using print_to_None(2) [OF 1(2) Cons.prems(2), of "w + length ?sep" "fmt p"] lim by auto
      have "print_points sep fmt b (p # ps) (buf, w) = print_points sep fmt False ps (buf2, w + length ?sep + length (fmt p))"
        using f 1(1) 2(1) by simp
      then show ?thesis
        unfolding shift W_Suc using Cons.IH [OF 2(2) Cons.prems(2), of "w + length ?sep + length (fmt p)" False] lim by simp
    qed
  qed
qed

lemma print_list_None:
  assumes "length buf < int_limit" "length (opening @ join sep (map fmt ps)) < int_limit" "buf \<noteq> []"
  shows "print_list opening sep closing fmt ps buf = None \<longleftrightarrow>
    (\<exists>k \<le> length ps. length buf < length (opening @ join sep (map fmt (take k ps))) \<and>
       (\<forall>j < k. length (opening @ join sep (map fmt (take j ps))) < length buf))"
proof -
  obtain buf1 where 1: "print_to opening (buf, 0) = Some (buf1, length opening)" "length buf1 = length buf"
    using print_to_None(2) [OF refl assms(1), of 0 "opening"] by auto
  have "length opening + length (points_text sep fmt True ps) < int_limit"
    using assms(2) by (simp add: points_text_def)
  from print_points_None [OF 1(2) assms(1) this, of closing] show ?thesis
    by (simp add: print_list_def 1(1) points_text_def)
qed

end
