(* ===== verification/GeoJson_Inv.thy ===== *)
theory GeoJson_Inv
  imports TextOut_Inv Geometry_Objects
begin

text \<open>
  What the GeoJSON reader makes of a geometry written as JSON, and what the export writes.

  A geometry is seen through \<open>geom_view\<close>: its type, its points (the exterior ring of a polygon) and the
  rings of its holes.
\<close>

type_synonym gview = "GeomType \<times> Point list \<times> Point list list"

definition coord_json :: "Point \<Rightarrow> JsonValue" where
  "coord_json p = JSON_ARRAY [JSON_NUMBER (px p), JSON_NUMBER (py p)]"

definition ring_json :: "Point list \<Rightarrow> JsonValue" where
  "ring_json ps = JSON_ARRAY (map coord_json ps)"

text \<open>The GeoJSON object of a view; the view of a point has one point.\<close>

definition geometry_json :: "gview \<Rightarrow> JsonValue" where
  "geometry_json = (\<lambda>(t, ps, hs).
     let (name, coords) = (case t of
           GEOM_POINT \<Rightarrow> (''Point'', coord_json (ps ! 0))
         | GEOM_LINESTRING \<Rightarrow> (''LineString'', ring_json ps)
         | GEOM_POLYGON \<Rightarrow> (''Polygon'', JSON_ARRAY (map ring_json (ps # hs))))
     in JSON_OBJECT [(''type'', JSON_STRING name), (''coordinates'', coords)])"

definition view_shape :: "gview \<Rightarrow> bool" where
  "view_shape = (\<lambda>(t, ps, hs). (t = GEOM_POINT \<longrightarrow> length ps = 1) \<and> (t \<noteq> GEOM_POLYGON \<longrightarrow> hs = []))"

definition view_finite :: "gview \<Rightarrow> bool" where
  "view_finite = (\<lambda>(t, ps, hs). (\<forall>p \<in> set ps. pt_finite p) \<and> (\<forall>h \<in> set hs. \<forall>p \<in> set h. pt_finite p))"

definition f6_point :: "Point \<Rightarrow> Point" where
  "f6_point p = \<lparr>px = f6_double (px p), py = f6_double (py p)\<rparr>"

definition f6_view :: "gview \<Rightarrow> gview" where
  "f6_view = (\<lambda>(t, ps, hs). (t, map f6_point ps, map (map f6_point) hs))"

subsection \<open>Reading a geometry\<close>

lemma parse_coord [simp]: "parse_coordinates_point (coord_json p) = Inr p"
  by (simp add: parse_coordinates_point_def coord_json_def)

lemma add_line_points_coords:
  "\<exists>l'. add_line_points malloc_ok (map coord_json ps) l = (PARSE_OK, l') \<and> ls_points l' = ls_points l @ ps"
proof (induction ps arbitrary: l)
  case (Cons p ps)
  from Cons.IH [of "snd (linestring_add_point malloc_ok l p)"] show ?case by (auto simp: linestring_add_malloc_ok)
qed simp

lemma add_ring_points_coords:
  "\<exists>q'. add_ring_points malloc_ok (map coord_json ps) q = (PARSE_OK, q') \<and> exterior q' = exterior q @ ps \<and> holes q' = holes q"
proof (induction ps arbitrary: q)
  case (Cons p ps)
  from Cons.IH [of "snd (polygon_add_exterior_point malloc_ok q p)"] show ?case by (auto simp: polygon_add_malloc_ok)
qed simp

lemma add_hole_points_coords:
  assumes "i < length (holes q)"
  shows "exterior (fold (add_hole_point malloc_ok i) (map coord_json ps) q) = exterior q \<and>
    map r_points (holes (fold (add_hole_point malloc_ok i) (map coord_json ps) q)) =
      (map r_points (holes q))[i := r_points (holes q ! i) @ ps]"
  using assms
proof (induction ps arbitrary: q)
  case Nil
  then show ?case by (simp add: list_update_same_conv [THEN iffD2])
next
  case (Cons p ps)
  let ?q = "add_hole_point malloc_ok i (coord_json p) q"
  have "exterior ?q = exterior q" "length (holes ?q) = length (holes q)"
    "map r_points (holes ?q) = (map r_points (holes q))[i := r_points (holes q ! i) @ [p]]"
    "r_points (holes ?q ! i) = r_points (holes q ! i) @ [p]"
    using Cons.prems by (auto simp: add_hole_point_def polygon_add_hole_point_def Let_def malloc_ok_simp map_update)
  with Cons.IH [of ?q] Cons.prems show ?case by simp
qed

lemma add_hole_ring_coords:
  assumes "rings ! h = ring_json ps" "h = Suc (length (holes q))"
  shows "exterior (add_hole_ring malloc_ok rings h q) = exterior q \<and>
    map r_points (holes (add_hole_ring malloc_ok rings h q)) = map r_points (holes q) @ [ps]"
proof -
  obtain q1 c where a: "polygon_add_hole malloc_ok q (length ps) = (GEOM_OK, q1)" "exterior q1 = exterior q"
    "holes q1 = holes q @ [\<lparr>r_points = [], r_capacity = c\<rparr>]"
    using polygon_add_hole_ok by blast
  have "add_hole_ring malloc_ok rings h q = fold (add_hole_point malloc_ok (length (holes q))) (map coord_json ps) q1"
    using assms a(1) by (simp add: add_hole_ring_def ring_json_def)
  then show ?thesis
    using add_hole_points_coords [of "length (holes q)" q1 ps] a(2,3)
      list_update_length [of "map r_points (holes q)" "[]" "[]" ps] by simp
qed

lemma add_hole_rings_coords:
  assumes "holes q = []"
  shows "k \<le> length hs \<Longrightarrow> exterior (fold (add_hole_ring malloc_ok (map ring_json (ps # hs))) [1..<1 + k] q) = exterior q \<and>
    map r_points (holes (fold (add_hole_ring malloc_ok (map ring_json (ps # hs))) [1..<1 + k] q)) = take k hs"
proof (induction k)
  case 0
  then show ?case using assms by simp
next
  case (Suc k)
  let ?q = "fold (add_hole_ring malloc_ok (map ring_json (ps # hs))) [1..<1 + k] q"
  have q: "exterior ?q = exterior q" "map r_points (holes ?q) = take k hs" using Suc by simp_all
  have l: "length (holes ?q) = k" using arg_cong [OF q(2), of length] Suc.prems by simp
  have "map ring_json (ps # hs) ! (1 + k) = ring_json (hs ! k)" using Suc.prems by simp
  then have "exterior (add_hole_ring malloc_ok (map ring_json (ps # hs)) (1 + k) ?q) = exterior ?q \<and>
      map r_points (holes (add_hole_ring malloc_ok (map ring_json (ps # hs)) (1 + k) ?q)) = map r_points (holes ?q) @ [hs ! k]"
    by (rule add_hole_ring_coords) (insert l, simp only: plus_1_eq_Suc)
  moreover have "[1..<1 + Suc k] = [1..<1 + k] @ [1 + k]" by simp
  ultimately show ?case using q Suc.prems by (simp add: take_Suc_conv_app_nth del: upt_Suc)
qed

lemma update_derived_geom: "so_geom (snd (spatial_object_update_derived obj)) = so_geom obj"
  by (cases "so_geom obj") (auto simp: spatial_object_update_derived_def split: sum.splits)

lemma json_get_members:
  "json_object_get (Some (JSON_OBJECT [(''type'', a), (''coordinates'', b)])) ''type'' = Some a"
  "json_object_get (Some (JSON_OBJECT [(''type'', a), (''coordinates'', b)])) ''coordinates'' = Some b"
  by (simp_all add: json_object_get_def)

lemma parse_geometry_json:
  assumes "view_shape v"
  shows "\<exists>obj'. parse_geojson_geometry malloc_ok (geometry_json v) obj = (PARSE_OK, obj') \<and> geom_view (so_geom obj') = v"
proof -
  obtain t ps hs where v: "v = (t, ps, hs)" by (cases v)
  show ?thesis
  proof (cases t)
    case GEOM_POINT
    then obtain p where "ps = [p]" "hs = []" using assms by (auto simp: view_shape_def v length_Suc_conv)
    then show ?thesis
      by (simp add: parse_geojson_geometry_def geometry_json_def v GEOM_POINT json_get_members spatial_object_init_point_def)
  next
    case GEOM_LINESTRING
    then have hs: "hs = []" using assms by (simp add: view_shape_def v)
    obtain l where l: "linestring_init malloc_ok (length ps) = (GEOM_OK, l)" "ls_points l = []"
      by (simp add: linestring_init_def Let_def malloc_ok_simp)
    obtain l' where "add_line_points malloc_ok (map coord_json ps) l = (PARSE_OK, l')" "ls_points l' = ps"
      using add_line_points_coords [of ps l] l(2) by auto
    then show ?thesis
      by (simp add: parse_geojson_geometry_def geometry_json_def v GEOM_LINESTRING hs json_get_members ring_json_def
          parse_geojson_line_def spatial_object_init_linestring_def l(1) update_derived_geom)
  next
    case GEOM_POLYGON
    obtain q where q: "polygon_init malloc_ok (length ps) = (GEOM_OK, q)" "exterior q = []" "holes q = []"
      by (simp add: polygon_init_def zero_polygon_def Let_def malloc_ok_simp)
    obtain q' where q': "add_ring_points malloc_ok (map coord_json ps) q = (PARSE_OK, q')" "exterior q' = ps" "holes q' = []"
      using add_ring_points_coords [of ps q] q(2,3) by auto
    let ?r = "map ring_json (ps # hs)"
    have r: "?r ! 0 = JSON_ARRAY (map coord_json ps)" by (simp add: ring_json_def)
    have "exterior (fold (add_hole_ring malloc_ok ?r) [1..<length ?r] q') = ps"
      "map r_points (holes (fold (add_hole_ring malloc_ok ?r) [1..<length ?r] q')) = hs"
      using add_hole_rings_coords [OF q'(3), of "length hs" hs ps] q'(2) by simp_all
    then show ?thesis
      by (simp add: parse_geojson_geometry_def geometry_json_def v GEOM_POLYGON json_get_members
          parse_geojson_polygon_def r spatial_object_init_polygon_def q(1) q'(1) update_derived_geom Let_def del: list.map upt_Suc)
  qed
qed

subsection \<open>The text of a geometry\<close>

lemma read_coord [simp]: "json_read (coord_json p) = coord_json (f6_point p)"
  by (simp add: coord_json_def f6_point_def)

lemma read_ring [simp]: "json_read (ring_json ps) = ring_json (map f6_point ps)"
  by (simp add: ring_json_def)

lemma read_geometry: "view_shape v \<Longrightarrow> json_read (geometry_json v) = geometry_json (f6_view v)"
  by (cases v; cases "fst v") (auto simp: geometry_json_def f6_view_def view_shape_def length_Suc_conv)

lemma printable_coord: "pt_finite p \<Longrightarrow> printable (coord_json p)"
  by (simp add: coord_json_def pt_finite_def)

lemma printable_ring: "\<forall>p \<in> set ps. pt_finite p \<Longrightarrow> printable (ring_json ps)"
  by (simp add: ring_json_def list_all_iff printable_coord)

lemma printable_geometry: "view_shape v \<Longrightarrow> view_finite v \<Longrightarrow> printable (geometry_json v)"
  by (cases v; cases "fst v")
    (auto simp: geometry_json_def view_shape_def view_finite_def plain_def list_all_iff length_Suc_conv intro: printable_coord printable_ring)

lemma no_zero_append [simp]: "no_zero (xs @ ys) = (no_zero xs \<and> no_zero ys)" "no_zero []"
  "no_zero (c # xs) = (c \<noteq> CHR 0x00 \<and> no_zero xs)"
  by (simp_all add: no_zero_def)

lemma no_zero_digits: "list_all isdigit s \<Longrightarrow> no_zero s"
  by (auto simp: no_zero_def list_all_iff isdigit_def code_def)

lemma no_zero_f6 [simp]: "no_zero (format_f6 d)"
  by (simp add: format_f6_def no_zero_digits)

lemma no_zero_join: "no_zero sep \<Longrightarrow> \<forall>x \<in> set xs. no_zero x \<Longrightarrow> no_zero (join sep xs)"
  by (induction sep xs rule: join.induct) auto

lemma no_zero_coord [simp]: "no_zero (json_print (coord_json p))"
  by (simp add: coord_json_def)

lemma no_zero_ring [simp]: "no_zero (json_print (ring_json ps))"
  by (simp add: ring_json_def no_zero_join)

lemma no_zero_geometry: "no_zero (json_print (geometry_json v))"
  by (cases v; cases "fst v") (simp_all add: geometry_json_def quoted_def no_zero_join)

lemma json_point_print: "json_point = json_print \<circ> coord_json"
  by (rule ext) (simp add: json_point_def coord_json_def)

lemma json_type_print: "json_type t = ''{'' @ quoted ''type'' @ '':'' @ quoted t"
  by (simp add: json_type_def quoted_def quote_mark_def)

lemma json_geometry_print: "json_geometry t = json_type t @ '','' @ quoted ''coordinates'' @ '':''"
  by (simp add: json_geometry_def quoted_def quote_mark_def)

text \<open>What the export writes: the view without the holes.\<close>

definition export_json :: "SpatialObject \<Rightarrow> JsonValue" where
  "export_json obj = geometry_json (so_type obj, outline (so_geom obj), [])"

lemma geojson_export_fits:
  assumes "length (json_print (export_json obj)) < length buf" "length buf < int_limit"
  shows "\<exists>buf'. geojson_export obj buf = Some (int (length (json_print (export_json obj))), buf') \<and>
    c_str buf' = json_print (export_json obj)"
proof -
  have ne: "buf \<noteq> []" using assms(1) by auto
  have nz: "no_zero (json_print (export_json obj))" unfolding export_json_def by (rule no_zero_geometry)
  show ?thesis
  proof (cases "so_geom obj")
    case (G_point p)
    have e: "json_print (export_json obj) = json_geometry ''Point'' @ json_point p @ ''}''"
      by (simp add: export_json_def so_type_def G_point geometry_json_def json_geometry_print json_type_print json_point_print)
    have "holds (length buf) (buf, 0) []" using ne by (simp add: holds_def)
    then obtain buf' where b: "print_to (json_print (export_json obj)) (buf, 0) = Some (buf', 0 + length (json_print (export_json obj)))"
      "holds (length buf) (buf', 0 + length (json_print (export_json obj))) ([] @ json_print (export_json obj))"
      "buf' ! (0 + length (json_print (export_json obj))) = CHR 0x00"
      by (rule print_to_holds) (use assms in simp_all)
    have "c_str buf' = [] @ json_print (export_json obj)" by (rule c_str_holds [OF b(2,3)]) (simp add: nz)
    with b(1) show ?thesis using ne unfolding e by (simp add: geojson_export_def export_result_def G_point)
  next
    case (G_line l)
    let ?o = "json_geometry ''LineString'' @ ''[''"
    have e: "?o @ join '','' (map json_point (ls_points l)) @ '']}'' = json_print (export_json obj)"
      by (simp add: export_json_def so_type_def G_line geometry_json_def json_geometry_print json_type_print json_point_print ring_json_def)
    obtain buf' where "print_list ?o '','' '']}'' json_point (ls_points l) buf = Some (buf', length (json_print (export_json obj)))"
      "c_str buf' = json_print (export_json obj)"
      by (rule print_list_fits [of ?o "'',''" json_point "ls_points l" "'']}''" buf, unfolded e, OF assms nz])
    then show ?thesis using ne by (simp add: geojson_export_def export_result_def G_line)
  next
    case (G_polygon p)
    let ?o = "json_geometry ''Polygon'' @ ''[[''"
    have e: "?o @ join '','' (map json_point (exterior p)) @ '']]}'' = json_print (export_json obj)"
      by (simp add: export_json_def so_type_def G_polygon geometry_json_def json_geometry_print json_type_print json_point_print ring_json_def)
    obtain buf' where "print_list ?o '','' '']]}'' json_point (exterior p) buf = Some (buf', length (json_print (export_json obj)))"
      "c_str buf' = json_print (export_json obj)"
      by (rule print_list_fits [of ?o "'',''" json_point "exterior p" "'']]}''" buf, unfolded e, OF assms nz])
    then show ?thesis using ne by (simp add: geojson_export_def export_result_def G_polygon)
  qed
qed

lemma c_str_idem: "c_str (c_str s) = c_str s"
  by (simp add: c_str_def takeWhile_takeWhile)

lemma parse_root_c_str: "parse_root al (c_str s) = parse_root al s"
  by (simp add: parse_root_def init_state_def c_str_idem)

lemma geojson_parse_geometry_text:
  assumes "view_shape v" "view_finite v" "c_str txt = json_print (geometry_json v)"
  shows "\<exists>obj'. geojson_parse_geometry malloc_ok txt obj = Some (PARSE_OK, obj') \<and> geom_view (so_geom obj') = f6_view v"
proof -
  obtain st where "parse_root malloc_ok txt = Some (Inr (geometry_json (f6_view v)), st)"
    using parse_root_printed [OF printable_geometry [OF assms(1,2)] no_zero_geometry] parse_root_c_str [of malloc_ok "txt"]
    by (auto simp: assms(3) read_geometry [OF assms(1)])
  moreover have "view_shape (f6_view v)"
    using assms(1) by (auto simp: view_shape_def f6_view_def)
  ultimately show ?thesis using parse_geometry_json [of "f6_view v" obj] by (auto simp: geojson_parse_geometry_def)
qed

end
