(* ===== verification/Wkt_Inv.thy ===== *)
theory Wkt_Inv
  imports GeoJson_Inv
begin

text \<open>
  Well-known text: the reader takes the points and line strings the export has written, and loses the
  exterior ring of a polygon.
\<close>

subsection \<open>Coordinates\<close>

definition inside :: "string \<Rightarrow> bool" where
  "inside s = list_all (\<lambda>c. c \<noteq> CHR '','' \<and> c \<noteq> CHR '')'' \<and> c \<noteq> CHR ''('') s"

lemma inside_append [simp]: "inside (xs @ ys) = (inside xs \<and> inside ys)" "inside []"
  "inside (c # xs) = (c \<noteq> CHR '','' \<and> c \<noteq> CHR '')'' \<and> c \<noteq> CHR ''('' \<and> inside xs)"
  by (simp_all add: inside_def)

lemma inside_digits: "list_all isdigit s \<Longrightarrow> inside s"
  by (auto simp: inside_def list_all_iff isdigit_def code_def)

lemma inside_f6 [simp]: "inside (format_f6 d)"
  by (simp add: format_f6_def inside_digits)

lemma inside_wkt_point [simp]: "inside (wkt_point p)"
  by (simp add: wkt_point_def)

lemma dropWhile_app: "list_all P xs \<Longrightarrow> dropWhile P (xs @ ys) = dropWhile P ys"
  by (induction xs) simp_all

lemma next_coordinate_app: "inside xs \<Longrightarrow> next_coordinate (xs @ ys) = next_coordinate ys"
proof -
  assume "inside xs"
  then have "list_all (\<lambda>c. c \<noteq> CHR '','' \<and> c \<noteq> CHR '')'') xs" by (auto simp: inside_def list_all_iff)
  then show ?thesis by (simp add: next_coordinate_def dropWhile_app)
qed

text \<open>The first character of a printed point.\<close>

definition starts_number :: "string \<Rightarrow> bool" where
  "starts_number s = (\<exists>c r. s = c # r \<and> (c = CHR ''-'' \<or> isdigit c))"

lemma starts_f6: "finite_d d \<Longrightarrow> starts_number (format_f6 d @ t)"
  using format_f6_start [of d] by (auto simp: starts_number_def)

lemma starts_wkt_point: "pt_finite p \<Longrightarrow> starts_number (wkt_point p @ t)"
  using starts_f6 [of "px p" "'' '' @ format_f6 (py p) @ t"] by (simp add: wkt_point_def pt_finite_def)

lemma starts_number_skip:
  assumes "starts_number s"
  shows "dropWhile isspace s = s" "skip_opening s = s" "s \<noteq> []" "take 1 s \<noteq> '')''"
proof -
  obtain c r where s: "s = c # r" "c = CHR ''-'' \<or> isdigit c" using assms by (auto simp: starts_number_def)
  have "\<not> isspace c" "c \<noteq> CHR ''(''" "c \<noteq> CHR '')''" using s(2) by (auto simp: isspace_def isdigit_def code_def)
  then show "dropWhile isspace s = s" "skip_opening s = s" "s \<noteq> []" "take 1 s \<noteq> '')''" by (simp_all add: s(1) skip_opening_def)
qed

lemma space [simp]: "isspace (CHR '' '')" "\<not> isspace (CHR '','')" "\<not> isspace (CHR '')'')" "\<not> isspace (CHR ''('')"
  by (simp_all add: isspace_def code_def)

lemma sscanf_wkt_point:
  assumes "pt_finite p" "ends_number t"
  shows "sscanf_lf_lf (wkt_point p @ t) = Some (px (f6_point p), py (f6_point p))"
proof -
  have d: "finite_d (px p)" "finite_d (py p)" using assms(1) by (simp_all add: pt_finite_def)
  have "scan_lf (wkt_point p @ t) = Some (f6_double (px p), CHR '' '' # format_f6 (py p) @ t)"
    using scan_lf_f6 [OF d(1), of "CHR '' '' # format_f6 (py p) @ t"] by (simp add: wkt_point_def ends_numberI)
  moreover have "dropWhile isspace (CHR '' '' # format_f6 (py p) @ t) = format_f6 (py p) @ t"
    using starts_number_skip(1) [OF starts_f6 [OF d(2)]] by simp
  ultimately show ?thesis using scan_lf_f6 [OF d(2) assms(2)] by (simp add: sscanf_lf_lf_def f6_point_def)
qed

lemma pt_eta [simp]: "\<lparr>px = px p, py = py p\<rparr> = p"
  by simp

lemma wkt_points_end: "s = [] \<or> take 1 s = '')'' \<Longrightarrow> wkt_points add s a = a"
  by (subst wkt_points.simps) simp

lemma wkt_points_join:
  assumes "\<forall>p \<in> set ps. pt_finite p"
  shows "wkt_points add (join '', '' (map wkt_point ps) @ CHR '')'' # t) a = fold add (map f6_point ps) a"
  using assms
proof (induction ps arbitrary: a)
  case Nil
  then show ?case by (simp add: wkt_points_end)
next
  case (Cons p ps)
  have p: "pt_finite p" using Cons.prems by simp
  have step: "wkt_points add (wkt_point p @ u) a = wkt_points add (next_coordinate u) (add (f6_point p) a)"
    if "ends_number u" for u a
    using starts_number_skip(3,4) [OF starts_wkt_point [OF p, of u]] sscanf_wkt_point [OF p that]
    by (subst wkt_points.simps) (simp add: next_coordinate_app point_create_def del: append_is_Nil_conv take_append)
  show ?case
  proof (cases ps)
    case Nil
    then show ?thesis using step [of "CHR '')'' # t"] by (simp add: ends_numberI next_coordinate_def skip_spaces_def wkt_points_end)
  next
    case (Cons q qs)
    have q: "pt_finite q" using Cons.prems by (simp add: Cons)
    let ?r = "join '', '' (map wkt_point ps) @ CHR '')'' # t"
    have "\<exists>u. ?r = wkt_point q @ u" by (cases qs) (simp_all add: Cons)
    then have "starts_number ?r" using starts_wkt_point [OF q] by auto
    then have "next_coordinate ('', '' @ ?r) = ?r"
      using starts_number_skip(1) by (simp add: next_coordinate_def skip_spaces_def)
    then show ?thesis
      using step [of "'', '' @ ?r"] Cons.IH [of "add (f6_point p) a"] Cons.prems by (simp add: Cons ends_numberI)
  qed
qed

subsection \<open>Texts\<close>

lemma join_starts:
  assumes "\<forall>p \<in> set ps. pt_finite p"
  shows "skip_opening (join '', '' (map wkt_point ps) @ CHR '')'' # t) = join '', '' (map wkt_point ps) @ CHR '')'' # t"
proof (cases ps)
  case Nil
  then show ?thesis by (simp add: skip_opening_def)
next
  case (Cons p qs)
  have "\<exists>u. join '', '' (map wkt_point ps) @ CHR '')'' # t = wkt_point p @ u" by (cases qs) (simp_all add: Cons)
  then show ?thesis using starts_number_skip(2) [OF starts_wkt_point [of p]] assms Cons by auto
qed

text \<open>The text of the export, as for GeoJSON.\<close>

fun wkt_text :: "Geom \<Rightarrow> string" where
  "wkt_text (G_point p) = ''POINT ('' @ wkt_point p @ '')''"
| "wkt_text (G_line l) = ''LINESTRING ('' @ join '', '' (map wkt_point (ls_points l)) @ '')''"
| "wkt_text (G_polygon p) = ''POLYGON (('' @ join '', '' (map wkt_point (exterior p)) @ ''))''"

lemma no_zero_wkt_point [simp]: "no_zero (wkt_point p)"
  by (simp add: wkt_point_def)

lemma no_zero_wkt: "no_zero (wkt_text g)"
  by (cases g) (simp_all add: no_zero_join)

lemma wkt_export_fits:
  assumes "length (wkt_text (so_geom obj)) < length buf" "length buf < int_limit"
  shows "\<exists>buf'. wkt_export obj buf = Some (int (length (wkt_text (so_geom obj))), buf') \<and> c_str buf' = wkt_text (so_geom obj)"
proof -
  have ne: "buf \<noteq> []" using assms(1) by auto
  show ?thesis
  proof (cases "so_geom obj")
    case (G_point p)
    let ?t = "wkt_text (so_geom obj)"
    have "holds (length buf) (buf, 0) []" using ne by (simp add: holds_def)
    then obtain buf' where b: "print_to ?t (buf, 0) = Some (buf', 0 + length ?t)"
      "holds (length buf) (buf', 0 + length ?t) ([] @ ?t)" "buf' ! (0 + length ?t) = CHR 0x00"
      by (rule print_to_holds) (use assms in simp_all)
    have "c_str buf' = [] @ ?t" by (rule c_str_holds [OF b(2,3)]) (simp add: no_zero_wkt)
    with b(1) show ?thesis using ne by (simp add: wkt_export_def export_result_def G_point)
  next
    case (G_line l)
    obtain buf' where "print_list ''LINESTRING ('' '', '' '')'' wkt_point (ls_points l) buf = Some (buf', length (wkt_text (so_geom obj)))"
      "c_str buf' = wkt_text (so_geom obj)"
      by (rule print_list_fits [of "''LINESTRING (''" "'', ''" wkt_point "ls_points l" "'')''" buf])
        (use assms no_zero_wkt [of "so_geom obj"] G_line in simp_all)
    then show ?thesis using ne by (simp add: wkt_export_def export_result_def G_line)
  next
    case (G_polygon p)
    obtain buf' where "print_list ''POLYGON (('' '', '' ''))'' wkt_point (exterior p) buf = Some (buf', length (wkt_text (so_geom obj)))"
      "c_str buf' = wkt_text (so_geom obj)"
      by (rule print_list_fits [of "''POLYGON ((''" "'', ''" wkt_point "exterior p" "''))''" buf])
        (use assms no_zero_wkt [of "so_geom obj"] G_polygon in simp_all)
    then show ?thesis using ne by (simp add: wkt_export_def export_result_def G_polygon)
  qed
qed

lemma nocase_simps [simp]: "tolower (CHR ''P'') = CHR ''p''" "tolower (CHR ''O'') = CHR ''o''" "tolower (CHR ''I'') = CHR ''i''"
  "tolower (CHR ''N'') = CHR ''n''" "tolower (CHR ''T'') = CHR ''t''" "tolower (CHR ''L'') = CHR ''l''"
  "tolower (CHR ''E'') = CHR ''e''" "tolower (CHR ''S'') = CHR ''s''" "tolower (CHR ''R'') = CHR ''r''"
  "tolower (CHR ''G'') = CHR ''g''" "tolower (CHR ''Y'') = CHR ''y''"
  "\<not> isspace (CHR ''P'')" "\<not> isspace (CHR ''L'')"
  by (simp_all add: tolower_def isspace_def code_def char_of_def bit_simps)

lemma wkt_parse_point_text:
  assumes "pt_finite p" "c_str s = wkt_text (G_point p)"
  shows "wkt_parse malloc_ok s obj = (PARSE_OK, snd (spatial_object_init_point 0 (f6_point p)))"
proof -
  have "skip_opening (CHR '' '' # CHR ''('' # wkt_point p @ '')'') = wkt_point p @ '')''"
    using starts_number_skip(2) [OF starts_wkt_point [OF assms(1), of "'')''"]] by (simp add: skip_opening_def)
  then show ?thesis
    using sscanf_wkt_point [OF assms(1), of "'')''"]
    by (simp add: wkt_parse_def assms(2) skip_spaces_def starts_nocase_def ends_numberI point_create_def f6_point_def)
qed

lemma wkt_parse_line_text:
  assumes "\<forall>p \<in> set (ls_points l). pt_finite p" "c_str s = wkt_text (G_line l)"
  shows "\<exists>obj'. wkt_parse malloc_ok s obj = (PARSE_OK, obj') \<and> geom_view (so_geom obj') = (GEOM_LINESTRING, map f6_point (ls_points l), [])"
proof -
  let ?r = "join '', '' (map wkt_point (ls_points l)) @ '')''"
  obtain l0 where l0: "linestring_init malloc_ok 16 = (GEOM_OK, l0)" "ls_points l0 = []" "ls_wf l0"
    by (simp add: linestring_init_def ls_wf_def Let_def malloc_ok_simp)
  have "skip_opening (CHR '' '' # CHR ''('' # ?r) = ?r"
    using join_starts [OF assms(1), of "[]"] by (simp add: skip_opening_def)
  then have "wkt_points (\<lambda>p l. snd (linestring_add_point malloc_ok l p)) (skip_opening (CHR '' '' # CHR ''('' # ?r)) l0 =
      fold (\<lambda>p l. snd (linestring_add_point malloc_ok l p)) (map f6_point (ls_points l)) l0"
    using wkt_points_join [OF assms(1), where t = "[]"] by simp
  moreover have "ls_points \<dots> = map f6_point (ls_points l)"
    using line_array.fold_add [OF l0(3)] l0(2) by simp
  ultimately show ?thesis
    by (simp add: wkt_parse_def assms(2) skip_spaces_def starts_nocase_def wkt_line_def spatial_object_init_linestring_def
        l0(1) update_derived_geom Let_def)
qed

text \<open>All parentheses at the start are skipped before the code looks for the first ring.\<close>

lemma skip_to_ring_lost: "CHR ''('' \<notin> set r \<Longrightarrow> skip_to_ring ('' (('' @ r) = []"
proof -
  assume r: "CHR ''('' \<notin> set r"
  let ?P = "\<lambda>c. isspace c \<or> c = CHR ''(''"
  have "dropWhile (\<lambda>c. c \<noteq> CHR ''('') (dropWhile ?P r) = []"
    unfolding dropWhile_eq_Nil_conv using r by (metis set_dropWhileD)
  moreover have "skip_opening ('' (('' @ r) = dropWhile ?P r" by (simp add: skip_opening_def)
  ultimately show ?thesis by (simp only: skip_to_ring_def drop_Nil)
qed

lemma wkt_parse_polygon_lost:
  assumes "c_str s = ''POLYGON (('' @ r" "CHR ''('' \<notin> set r"
  shows "\<exists>obj'. wkt_parse malloc_ok s obj = (PARSE_OK, obj') \<and> geom_view (so_geom obj') = (GEOM_POLYGON, [], [])"
proof -
  obtain q where q: "polygon_init malloc_ok 16 = (GEOM_OK, q)" "exterior q = []" "holes q = []"
    by (simp add: polygon_init_def zero_polygon_def Let_def malloc_ok_simp)
  have "skip_to_ring (CHR '' '' # CHR ''('' # CHR ''('' # r) = []" using skip_to_ring_lost [OF assms(2)] by simp
  then show ?thesis
    using q(2,3) by (simp add: wkt_parse_def assms(1) skip_spaces_def starts_nocase_def wkt_polygon_def
        spatial_object_init_polygon_def q(1) wkt_points_end update_derived_geom Let_def)
qed

end
