(* ===== verification/Float64_Exact.thy ===== *)
theory Float64_Exact
  imports Float64_Order
begin

text \<open>
  Where binary64 arithmetic is exact: on the multiples of a power of two, as long as the results are at most
  \<open>2 ^ 53\<close> such units.
\<close>

text \<open>
  The unit \<open>1 / 2 ^ j\<close>, as \<open>dval\<close> counts it.  The powers are kept folded: the simplifier would multiply them out.
\<close>

definition unit_of :: "nat \<Rightarrow> int" where
  "unit_of j = 2 ^ (1074 - j)"

lemma unit_pos [simp]: "0 < unit_of j" "unit_of j \<noteq> 0" "0 < real_of_int (unit_of j)" "real_of_int (unit_of j) \<noteq> 0"
  by (simp_all add: unit_of_def)

lemma unit_split: "j + i \<le> 1074 \<Longrightarrow> unit_of j = 2 ^ i * unit_of (j + i)"
  unfolding unit_of_def power_add [symmetric] by simp

lemma unit_powi: "j \<le> 1074 \<Longrightarrow> real_of_int (unit_of j) = 2 powi (1074 - int j)"
  by (simp add: unit_of_def power_int_def flip: of_nat_diff)

lemma powi_unit: "j \<le> 1074 \<Longrightarrow> 2 powi 1074 = real_of_int (2 ^ j * unit_of j)"
  using unit_split [of 0 j] unit_powi [of 0] by simp

lemma unit_product:
  assumes "i + j \<le> 1074"
  shows "real_of_int (unit_of i) * real_of_int (unit_of j) * 2 powi - 1074 = real_of_int (unit_of (i + j))"
proof -
  have "real_of_int (unit_of i) * real_of_int (unit_of j) * 2 powi - 1074 =
      2 powi (1074 - int i) * 2 powi (1074 - int j) * 2 powi - 1074"
    using assms by (simp add: unit_powi)
  also have "\<dots> = 2 powi (1074 - int i + (1074 - int j) + - 1074)"
    unfolding power_int_add [OF disjI1 [OF zero_neq_numeral [symmetric]], symmetric] ..
  also have "1074 - int i + (1074 - int j) + - 1074 = 1074 - int (i + j)" by simp
  also have "2 powi (1074 - int (i + j)) = real_of_int (unit_of (i + j))" using assms by (simp only: unit_powi)
  finally show ?thesis .
qed

text \<open>The number \<open>d\<close> is exactly \<open>k / 2 ^ j\<close>.\<close>

definition exact :: "nat \<Rightarrow> double \<Rightarrow> int \<Rightarrow> bool" where
  "exact j d k = (j \<le> 1000 \<and> finite_d d \<and> dval d = k * unit_of j)"

definition small :: "int \<Rightarrow> bool" where
  "small k = (\<bar>k\<bar> \<le> 2 ^ 53)"

lemma grid_magnitude:
  assumes "0 \<le> k" "k \<le> 2 ^ 53" "j \<le> 1000"
  shows "\<exists>m. 0 \<le> m \<and> m < inf_mag \<and> mval m = k * unit_of j"
proof -
  have split: "\<exists>m. 0 \<le> m \<and> m < inf_mag \<and> mval m = q * 2 ^ E" if "0 \<le> q" "q \<le> 2 ^ 53" "E = 0 \<or> 2 ^ 52 \<le> q" "E \<le> 1100" for q E
  proof -
    have "int E * 2 ^ 52 + q \<le> 1100 * 2 ^ 52 + 2 ^ 53" using that(2,4) by (intro add_mono mult_right_mono) simp_all
    then have "int E * 2 ^ 52 + q < inf_mag" by (simp add: inf_mag_def)
    then show ?thesis using mval_split [OF that(1-3)] that(1) by (intro exI [of _ "int E * 2 ^ 52 + q"]) simp
  qed
  consider "k = 0" | "k = 2 ^ 53" | "0 < k" "k < 2 ^ 53" using assms(1,2) by linarith
  then show ?thesis
  proof cases
    case 1
    then show ?thesis using split [of 0 0] by simp
  next
    case 2
    have "53 + (1074 - j) = 52 + (1075 - j)" using assms(3) by linarith
    then have e: "k * unit_of j = 2 ^ 52 * 2 ^ (1075 - j)" unfolding 2 unit_of_def power_add [symmetric] by (rule arg_cong)
    show ?thesis unfolding e by (rule split) simp_all
  next
    case 3
    define i where "i = nat (53 - bitlen k)"
    have b: "bitlen k \<le> 53" "1 \<le> bitlen k" using 3 by (simp_all add: bitlen_le_iff_power bitlen_pos)
    have lo: "2 ^ nat (bitlen k - 1) \<le> k" and hi: "k < 2 ^ nat (bitlen k)" using bitlen_bounds [OF 3(1)] by simp_all
    have i: "nat (bitlen k) + i = 53" "nat (bitlen k - 1) + i = 52" using b unfolding i_def by linarith+
    have "(2::int) ^ 52 = 2 ^ nat (bitlen k - 1) * 2 ^ i" unfolding power_add [symmetric] i ..
    also have "\<dots> \<le> k * 2 ^ i" using lo by simp
    finally have q1: "2 ^ 52 \<le> k * 2 ^ i" .
    have "k * 2 ^ i \<le> 2 ^ nat (bitlen k) * 2 ^ i" using hi by simp
    also have "\<dots> = 2 ^ 53" unfolding power_add [symmetric] i ..
    finally have q2: "k * 2 ^ i \<le> 2 ^ 53" .
    have "j + i \<le> 1074" using b assms(3) unfolding i_def by linarith
    then have e: "k * unit_of j = k * 2 ^ i * 2 ^ (1074 - (j + i))" using unit_split [of j i] by (simp add: unit_of_def)
    show ?thesis unfolding e by (rule split) (use q1 q2 3(1) in auto)
  qed
qed

lemma exact_exists:
  assumes "small k" "j \<le> 1000"
  shows "\<exists>d. exact j d k"
proof -
  obtain m where m: "0 \<le> m" "m < inf_mag" "mval m = \<bar>k\<bar> * unit_of j"
    using grid_magnitude [of "\<bar>k\<bar>" j] assms by (auto simp: small_def)
  have b: "m < 2 ^ 63" using m(2) by (simp add: inf_mag_def)
  have "exact j (mk_double (k < 0) m) k"
    using m assms(2) mk_double_mag [OF m(1) b] by (auto simp: exact_def finite_d_def dval_def)
  then show ?thesis ..
qed

text \<open>A correctly rounded result that could be exact is exact.\<close>

lemma rounds_exact:
  assumes "rounds_to (real_of_int k * unit_of j) (dkey d)" "small k" "j \<le> 1000"
  shows "exact j d k"
proof -
  obtain d0 where d0: "finite_d d0" "dval d0 = k * unit_of j" using exact_exists [OF assms(2,3)] by (auto simp: exact_def)
  then have "rounds_to (real_of_int k * unit_of j) (dkey d0)" using rounds_to_exact [OF d0(1)] by simp
  then have key: "dkey d = dkey d0" using assms(1) by (auto dest: rounds_to_unique)
  then have "dval d = dval d0" using dval_le_iff [of d d0] dval_le_iff [of d0 d] by simp
  moreover have "finite_d d" using d0(1) key by (simp only: finite_key)
  ultimately show ?thesis using d0(2) assms(3) by (simp add: exact_def)
qed

subsection \<open>Operations\<close>

lemma exact_zero [simp]: "j \<le> 1000 \<Longrightarrow> exact j d_zero 0"
  by (simp add: exact_def d_zero_def finite_d_def dval_def dmag_def inf_mag_def)

lemma exact_finite: "exact j d k \<Longrightarrow> finite_d d"
  by (simp add: exact_def)

lemma exact_num: "exact j d k \<Longrightarrow> \<not> isnan d"
  by (simp add: exact_def finite_not_nan)

lemma exact_refine: "exact j d k \<Longrightarrow> j + i \<le> 1000 \<Longrightarrow> exact (j + i) d (k * 2 ^ i)"
  using unit_split [of j i] by (simp add: exact_def)

lemma exact_add: "exact j a m \<Longrightarrow> exact j b n \<Longrightarrow> small (m + n) \<Longrightarrow> exact j (fadd a b) (m + n)"
  by (rule rounds_exact) (use fadd_rounds(1) [of a b] in \<open>simp_all add: exact_def algebra_simps\<close>)

lemma exact_neg: "exact j a m \<Longrightarrow> exact j (fneg a) (- m)"
  by (simp add: exact_def)

lemma exact_sub: "exact j a m \<Longrightarrow> exact j b n \<Longrightarrow> small (m - n) \<Longrightarrow> exact j (fsub a b) (m - n)"
  using exact_add [of j a m "fneg b" "- n"] exact_neg [of j b n] by (simp add: fsub_def)

lemma exact_abs: "exact j a m \<Longrightarrow> exact j (fabs a) \<bar>m\<bar>"
proof -
  assume a: "exact j a m"
  have "\<bar>m * unit_of j\<bar> = \<bar>m\<bar> * unit_of j" unfolding abs_mult abs_of_pos [OF unit_pos(1)] ..
  then show ?thesis
    using a abs_dval [of a] by (simp add: exact_def fabs_def finite_d_def dval_def mk_double_mag [OF dmag_bounds])
qed

lemma exact_mul:
  assumes "exact i a m" "exact j b n" "small (m * n)" "i + j \<le> 1000"
  shows "exact (i + j) (fmul a b) (m * n)"
proof (rule rounds_exact [OF _ assms(3,4)])
  have f: "finite_d a" "finite_d b" using assms by (simp_all add: exact_def)
  have "real_of_int (dval a) * dval b * 2 powi - 1074 = real_of_int (m * n) * (real_of_int (unit_of i) * real_of_int (unit_of j) * 2 powi - 1074)"
    using assms(1,2) by (simp add: exact_def algebra_simps)
  also have "\<dots> = real_of_int (m * n) * real_of_int (unit_of (i + j))" using assms(4) by (simp only: unit_product)
  finally show "rounds_to (real_of_int (m * n) * unit_of (i + j)) (dkey (fmul a b))"
    using fmul_rounds(1) [OF f] by (simp only:)
qed

lemma exact_div:
  assumes "exact i a m" "exact i b n" "n \<noteq> 0" "2 ^ j * m = k * n" "small k" "j \<le> 1000"
  shows "exact j (fdiv a b) k"
proof (rule rounds_exact [OF _ assms(5,6)])
  have "real_of_int (2 ^ j * m) = real_of_int (k * n)" using assms(4) by (rule arg_cong)
  then have m: "real_of_int m = real_of_int k * real_of_int n / 2 ^ j" by (simp add: field_simps)
  have "real_of_int (dval a) / dval b = real_of_int m / real_of_int n"
    using assms(1-3) by (simp add: exact_def)
  also have "\<dots> = real_of_int k / 2 ^ j" unfolding m using assms(3) by simp
  finally have q: "real_of_int (dval a) / dval b = real_of_int k / 2 ^ j" .
  have "j \<le> 1074" using assms(6) by simp
  have "real_of_int (dval a) / dval b * 2 powi 1074 = real_of_int k * unit_of j"
    unfolding q powi_unit [OF \<open>j \<le> 1074\<close>] by simp
  moreover have "rounds_to (real_of_int (dval a) / dval b * 2 powi 1074) (dkey (fdiv a b))"
    by (rule fdiv_rounds(1)) (use assms(1-3) in \<open>simp_all add: exact_def\<close>)
  ultimately show "rounds_to (real_of_int k * unit_of j) (dkey (fdiv a b))" by simp
qed

lemma exact_two: "j < 53 \<Longrightarrow> exact j d_two (2 ^ (j + 1))"
proof -
  assume j: "j < 53"
  have d: "finite_d d_two" "dval d_two = 2 ^ 52 * 2 ^ 1023"
    by (simp_all add: d_two_def finite_d_def inf_mag_def dval_def dneg_def dmag_def mval_def dman_def dexp_def)
  have "52 + 1023 = (j + 1) + (1074 - j)" using j by simp
  then have "(2::int) ^ 52 * 2 ^ 1023 = 2 ^ (j + 1) * 2 ^ (1074 - j)" unfolding power_add [symmetric] by (rule arg_cong)
  then show ?thesis using d j unfolding exact_def unit_of_def by simp
qed

lemma exact_half:
  assumes "exact j a k" "small k" "j < 53"
  shows "exact (j + 1) (fdiv a d_two) k"
  by (rule exact_div [OF assms(1) exact_two]) (use assms in simp_all)

subsection \<open>Comparisons\<close>

lemma exact_key_less: "exact j a m \<Longrightarrow> exact j b n \<Longrightarrow> dkey a < dkey b \<longleftrightarrow> m < n"
  using dval_less_iff [of a b] by (simp add: exact_def)

lemma exact_key_le: "exact j a m \<Longrightarrow> exact j b n \<Longrightarrow> dkey a \<le> dkey b \<longleftrightarrow> m \<le> n"
  using dval_le_iff [of a b] by (simp add: exact_def)

lemma exact_order:
  assumes "exact j a m" "exact j b n"
  shows "flt a b \<longleftrightarrow> m < n" "fle a b \<longleftrightarrow> m \<le> n" "fgt a b \<longleftrightarrow> n < m" "fge a b \<longleftrightarrow> n \<le> m"
  using exact_num [OF assms(1)] exact_num [OF assms(2)] exact_key_less [OF assms] exact_key_less [OF assms(2,1)]
    exact_key_le [OF assms] exact_key_le [OF assms(2,1)]
  by (simp_all add: order_rules)

lemma exact_same: "exact j a k \<Longrightarrow> exact j b k \<Longrightarrow> dneg a = dneg b \<Longrightarrow> a = b"
  using exact_key_le [of j a k b k] exact_key_le [of j b k a k]
  by (simp add: double_eq_iff dkey_def split: if_splits)

lemma exact_unique: "exact j a k \<Longrightarrow> exact j a k' \<Longrightarrow> k = k'"
  by (simp add: exact_def)

lemma exact_nat: "small (int n) \<Longrightarrow> exact 0 (double_of_nat n) (int n)"
proof (rule rounds_exact)
  have "rounds_to (real n * 2 powi 1074) (dkey (double_of_nat n))"
    using rnd_exact_rounds_to [of "int n" False 1074] by (simp add: double_of_nat_def)
  then show "rounds_to (real_of_int (int n) * unit_of 0) (dkey (double_of_nat n))"
    using powi_unit [of 0] by simp
qed simp_all

end
