(* ===== verification/CText_Exact.thy ===== *)
theory CText_Exact
  imports GeoJson_Inv Float64_Exact
begin

text \<open>
  Six decimals are enough for multiples of 1/64: what \<open>%.6f\<close> prints of them is read back unchanged.
\<close>

definition six_decimals :: "double \<Rightarrow> bool" where
  "six_decimals d = (\<exists>j k. j \<le> 6 \<and> exact j d k \<and> small k)"

lemma six_decimalsI: "exact j d k \<Longrightarrow> j \<le> 6 \<Longrightarrow> small k \<Longrightarrow> six_decimals d"
  unfolding six_decimals_def by blast

definition six_point :: "Point \<Rightarrow> bool" where
  "six_point p = (six_decimals (px p) \<and> six_decimals (py p))"

lemma micro_exact:
  assumes "exact j d k" "j \<le> 6"
  shows "real (micro d) / 10 ^ 6 = \<bar>real_of_int k\<bar> / 2 ^ j"
proof -
  define c :: int where "c = \<bar>k\<bar> * (15625 * 2 ^ (6 - j))"
  have "(2::real) ^ 6 = 2 ^ j * 2 ^ (6 - j)" using assms(2) unfolding power_add [symmetric] by simp
  then have e: "\<bar>real_of_int k\<bar> / 2 ^ j = real_of_int c / 10 ^ 6" unfolding c_def by (simp add: field_simps)
  have "real_of_int (mval (dmag d)) = \<bar>real_of_int k\<bar> * unit_of j"
    using assms(1) abs_dval [of d] abs_mult [of k "unit_of j"] abs_of_pos [OF unit_pos(1)] by (simp add: exact_def flip: of_int_mult of_int_abs)
  moreover have "j \<le> 1074" using assms(2) by simp
  then have "(2::real) ^ 1074 = real_of_int (2 ^ j * unit_of j)"
    unfolding powi_unit [OF \<open>j \<le> 1074\<close>, symmetric] power_int_def by simp
  ultimately have "real_of_int (mval (dmag d)) / 2 ^ 1074 = \<bar>real_of_int k\<bar> * unit_of j / real_of_int (2 ^ j * unit_of j)"
    by (simp only:)
  also have "\<dots> = \<bar>real_of_int k\<bar> / 2 ^ j" by simp
  finally have v: "real_of_int (mval (dmag d)) / 2 ^ 1074 = real_of_int c / 10 ^ 6" unfolding e .
  have "\<bar>real (micro d) / 10 ^ 6 - real_of_int c / 10 ^ 6\<bar> \<le> 1 / (2 * 10 ^ 6)"
    using micro_near [of d] unfolding v .
  then have "\<bar>real (micro d) - real_of_int c\<bar> \<le> 1 / 2" by (simp add: field_simps abs_le_iff)
  then have "\<bar>real_of_int (int (micro d) - c)\<bar> \<le> 1 / 2" by simp
  then have "\<bar>int (micro d) - c\<bar> < 1" by linarith
  then have "int (micro d) = c" by simp
  then have "real_of_int (int (micro d)) = real_of_int c" by (rule arg_cong)
  then have "real (micro d) = real_of_int c" unfolding of_int_of_nat_eq .
  then show ?thesis unfolding e by (simp only:)
qed

lemma f6_double_exact:
  assumes "six_decimals d"
  shows "f6_double d = d"
proof -
  obtain j k where d: "j \<le> 6" "exact j d k" "small k" using assms unfolding six_decimals_def by blast
  have v: "0 \<le> mval (dmag d)" "k * unit_of j = (if dneg d then - mval (dmag d) else mval (dmag d))"
    using d(2) by (simp_all only: exact_def dval_def mval_nonneg dmag_bounds)
  have "k \<le> 0" if "dneg d"
  proof -
    have "k * unit_of j \<le> 0" using v that by simp
    then show ?thesis using unit_pos(1) [of j] by (simp only: mult_le_0_iff) simp
  qed
  moreover have "0 \<le> k" if "\<not> dneg d"
  proof -
    have "0 \<le> k * unit_of j" using v that by simp
    then show ?thesis using unit_pos(1) [of j] by (simp only: zero_le_mult_iff) simp
  qed
  ultimately have sign: "(if dneg d then - 1 else 1) * \<bar>real_of_int k\<bar> = real_of_int k" by auto
  have j: "j \<le> 1074" "j \<le> 1000" using d(1) by simp_all
  have "(if dneg d then - 1 else 1) * (real (micro d) / 10 ^ 6 * 2 powi 1074) =
      ((if dneg d then - 1 else 1) * \<bar>real_of_int k\<bar>) * unit_of j"
    unfolding micro_exact [OF d(2,1)] powi_unit [OF j(1)] by simp
  then have "rounds_to (real_of_int k * unit_of j) (dkey (f6_double d))"
    using f6_double_rounds(1) [of d] unfolding sign by simp
  then show ?thesis
    by (intro exact_same [OF rounds_exact [OF _ d(3) j(2)] d(2)] f6_double_rounds(3))
qed

end
