(* ===== verification/Geometry_Exact.thy ===== *)
theory Geometry_Exact
  imports Float64_Exact KDTree_Query Geometry_Props
begin

text \<open>
  The geometry on a grid: for coordinates that are multiples of \<open>1 / 2 ^ j\<close> of moderate size the rounded formulas of
  geometry.c have exactly the values of the formulas on integers.
\<close>

text \<open>The point \<open>p\<close> lies at \<open>(x, y)\<close> in units of \<open>1 / 2 ^ j\<close>, at most \<open>B\<close> units away from the axes.\<close>

definition grid_point :: "nat \<Rightarrow> int \<Rightarrow> Point \<Rightarrow> int \<times> int \<Rightarrow> bool" where
  "grid_point j B p z = (exact j (px p) (fst z) \<and> exact j (py p) (snd z) \<and> \<bar>fst z\<bar> \<le> B \<and> \<bar>snd z\<bar> \<le> B)"

definition grid_ring :: "nat \<Rightarrow> int \<Rightarrow> Point list \<Rightarrow> (int \<times> int) list \<Rightarrow> bool" where
  "grid_ring j B ps zs = list_all2 (grid_point j B) ps zs"

text \<open>Twice the signed area of a ring of integers.\<close>

definition cross :: "(int \<times> int) list \<Rightarrow> nat \<Rightarrow> int" where
  "cross zs i = (let j = (i + 1) mod length zs in fst (zs ! i) * snd (zs ! j) - fst (zs ! j) * snd (zs ! i))"

definition shoelace :: "(int \<times> int) list \<Rightarrow> int" where
  "shoelace zs = (\<Sum>i<length zs. cross zs i)"

lemma shoelace_short: "length zs < 3 \<Longrightarrow> shoelace zs = 0"
proof -
  assume "length zs < 3"
  then consider "length zs = 0" | "length zs = 1" | "length zs = 2" by linarith
  then show ?thesis
    by cases (simp_all add: shoelace_def cross_def Let_def numeral_2_eq_2)
qed

lemma product_bound: "\<bar>a\<bar> \<le> B \<Longrightarrow> \<bar>b\<bar> \<le> (B::int) \<Longrightarrow> \<bar>a * b\<bar> \<le> B * B"
  unfolding abs_mult by (rule mult_mono) simp_all

lemma area_step:
  assumes "exact (2 * j) area s" "\<bar>s\<bar> \<le> c" "grid_point j B p z" "grid_point j B q w" "c + 2 * (B * B) \<le> 2 ^ 53"
  shows "exact (2 * j) (fsub (fadd area (fmul (px p) (py q))) (fmul (px q) (py p))) (s + (fst z * snd w - fst w * snd z))"
    and "\<bar>s + (fst z * snd w - fst w * snd z)\<bar> \<le> c + 2 * (B * B)"
proof -
  have b: "\<bar>fst z * snd w\<bar> \<le> B * B" "\<bar>fst w * snd z\<bar> \<le> B * B"
    using assms(3,4) by (auto simp: grid_point_def intro: product_bound)
  have c: "0 \<le> c" "0 \<le> B * B" using assms(2) by simp_all
  have j: "j + j \<le> 1000" using assms(1) by (simp add: exact_def)
  have sm: "small (fst z * snd w)" "small (fst w * snd z)" using b c assms(5) by (simp_all add: small_def)
  have m: "exact (2 * j) (fmul (px p) (py q)) (fst z * snd w)" "exact (2 * j) (fmul (px q) (py p)) (fst w * snd z)"
    using assms(3,4) exact_mul [OF _ _ sm(1) j] exact_mul [OF _ _ sm(2) j] by (simp_all add: grid_point_def mult_2)
  have "exact (2 * j) (fadd area (fmul (px p) (py q))) (s + fst z * snd w)"
    by (rule exact_add [OF assms(1) m(1)]) (use assms(2,5) b in \<open>simp add: small_def\<close>)
  then have "exact (2 * j) (fsub (fadd area (fmul (px p) (py q))) (fmul (px q) (py p))) (s + fst z * snd w - fst w * snd z)"
    by (rule exact_sub [OF _ m(2)]) (use assms(2,5) b in \<open>simp add: small_def\<close>)
  then show "exact (2 * j) (fsub (fadd area (fmul (px p) (py q))) (fmul (px q) (py p))) (s + (fst z * snd w - fst w * snd z))"
    by (simp add: algebra_simps)
  show "\<bar>s + (fst z * snd w - fst w * snd z)\<bar> \<le> c + 2 * (B * B)" using assms(2) b by linarith
qed

lemma ring_area_exact:
  assumes "grid_ring j B ring zs" "int (length zs) * (B * B) \<le> 2 ^ 52" "j \<le> 26"
  shows "exact (2 * j + 1) (ring_signed_area ring) (shoelace zs)" and "\<bar>shoelace zs\<bar> \<le> 2 * (int (length zs) * (B * B))"
proof -
  define n where "n = length zs"
  have len: "length ring = n" using assms(1) by (auto simp: grid_ring_def n_def dest: list_all2_lengthD)
  have pt: "grid_point j B (ring ! i) (zs ! i)" if "i < n" for i
    using assms(1) that by (simp add: grid_ring_def n_def list_all2_conv_all_nth)
  let ?f = "\<lambda>i area. fsub (fadd area (fmul (px (ring ! i)) (py (ring ! ((i + 1) mod n))))) (fmul (px (ring ! ((i + 1) mod n))) (py (ring ! i)))"
  have go: "exact (2 * j) (fold ?f [0..<k] d_zero) (\<Sum>i<k. cross zs i) \<and> \<bar>\<Sum>i<k. cross zs i\<bar> \<le> 2 * (int k * (B * B))"
    if "k \<le> n" for k
    using that
  proof (induction k)
    case 0
    then show ?case using assms(3) by simp
  next
    case (Suc k)
    let ?s = "\<Sum>i<k. cross zs i" and ?j = "(k + 1) mod n"
    have kn: "k < n" "?j < n" using Suc.prems by simp_all
    have "int (Suc k) * (B * B) \<le> int n * (B * B)" using Suc.prems by (intro mult_right_mono) simp_all
    then have c: "2 * (int k * (B * B)) + 2 * (B * B) \<le> 2 ^ 53" using assms(2) by (simp add: n_def algebra_simps)
    have step: "exact (2 * j) (?f k (fold ?f [0..<k] d_zero)) (?s + cross zs k)" "\<bar>?s + cross zs k\<bar> \<le> 2 * (int k * (B * B)) + 2 * (B * B)"
      using area_step [of j "fold ?f [0..<k] d_zero" ?s "2 * (int k * (B * B))", OF _ _ pt [OF kn(1)] pt [OF kn(2)] c] Suc.IH Suc.prems
      unfolding cross_def Let_def n_def [symmetric] by simp_all
    then show ?case by (simp add: algebra_simps)
  qed
  show bound: "\<bar>shoelace zs\<bar> \<le> 2 * (int (length zs) * (B * B))"
    using go [of n] unfolding shoelace_def n_def by simp
  show "exact (2 * j + 1) (ring_signed_area ring) (shoelace zs)"
  proof (cases "n < 3")
    case True
    then show ?thesis using shoelace_short [of zs] assms(3) by (simp add: ring_signed_area_def Let_def len n_def)
  next
    case False
    have "exact (2 * j) (fold ?f [0..<n] d_zero) (shoelace zs)" using go [of n] by (simp add: shoelace_def n_def)
    then have "exact (2 * j + 1) (fdiv (fold ?f [0..<n] d_zero) d_two) (shoelace zs)"
      by (rule exact_half) (use bound assms(2,3) in \<open>simp_all add: small_def\<close>)
    then show ?thesis using False by (simp add: ring_signed_area_def Let_def len)
  qed
qed

text \<open>The areas of the holes are taken from that of the exterior.\<close>

definition hole_areas :: "(int \<times> int) list list \<Rightarrow> int" where
  "hole_areas hs = sum_list (map (\<lambda>zs. \<bar>shoelace zs\<bar>) hs)"

lemma holes_exact:
  assumes "list_all2 (\<lambda>h zs. grid_ring j B (r_points h) zs) rings hs" "exact (2 * j + 1) area a"
    "\<bar>a\<bar> \<le> 2 * (int n * (B * B))" "(int n + int (sum_list (map length hs))) * (B * B) \<le> 2 ^ 51" "j \<le> 26"
  shows "exact (2 * j + 1) (fold (\<lambda>h area. if length (r_points h) \<ge> 3 then fsub area (fabs (ring_signed_area (r_points h))) else area) rings area)
    (a - hole_areas hs)"
  using assms
proof (induction rings hs arbitrary: area a n rule: list_all2_induct)
  case (Cons h rings zs hs)
  have split: "(int n + int (sum_list (map length (zs # hs)))) * (B * B) =
      int n * (B * B) + int (length zs) * (B * B) + int (sum_list (map length hs)) * (B * B)"
    by (simp add: distrib_right)
  have nonneg: "0 \<le> int n * (B * B)" "0 \<le> int (length zs) * (B * B)" "0 \<le> int (sum_list (map length hs)) * (B * B)"
    by simp_all
  have len: "int (length zs) * (B * B) \<le> 2 ^ 51" using Cons.prems(3) nonneg unfolding split by linarith
  from len have "int (length zs) * (B * B) \<le> 2 ^ 52" by simp
  note ring = ring_area_exact [OF Cons.hyps(1) this Cons.prems(4)]
  have eq: "length (r_points h) = length zs" using Cons.hyps(1) by (auto simp: grid_ring_def dest: list_all2_lengthD)
  let ?area = "if length (r_points h) \<ge> 3 then fsub area (fabs (ring_signed_area (r_points h))) else area"
  have "int n * (B * B) \<le> 2 ^ 51" using Cons.prems(3) nonneg unfolding split by linarith
  then have "\<bar>a\<bar> \<le> 2 ^ 52" "\<bar>shoelace zs\<bar> \<le> 2 ^ 52" using Cons.prems(2) ring(2) len by simp_all
  then have "small (a - \<bar>shoelace zs\<bar>)" by (simp add: small_def)
  then have "exact (2 * j + 1) (fsub area (fabs (ring_signed_area (r_points h)))) (a - \<bar>shoelace zs\<bar>)"
    by (rule exact_sub [OF Cons.prems(1) exact_abs [OF ring(1)]])
  then have step: "exact (2 * j + 1) ?area (a - \<bar>shoelace zs\<bar>)"
    using Cons.prems(1) shoelace_short [of zs] eq by auto
  have bound: "\<bar>a - \<bar>shoelace zs\<bar>\<bar> \<le> 2 * (int (n + length zs) * (B * B))"
    using Cons.prems(2) ring(2) by (simp add: distrib_right)
  have fits: "(int (n + length zs) + int (sum_list (map length hs))) * (B * B) \<le> 2 ^ 51"
    using Cons.prems(3) by (simp add: algebra_simps)
  show ?case using Cons.IH [OF step bound fits Cons.prems(4)] by (simp add: hole_areas_def algebra_simps)
qed (simp add: hole_areas_def)

subsection \<open>Distances\<close>

definition dist2 :: "int \<times> int \<Rightarrow> int \<times> int \<Rightarrow> int" where
  "dist2 z w = (fst w - fst z)\<^sup>2 + (snd w - snd z)\<^sup>2"

text \<open>With coordinates of at most \<open>2 ^ 25\<close> units.\<close>

lemma square_exact:
  assumes "exact j a x" "exact j b y" "\<bar>x\<bar> \<le> 2 ^ 25" "\<bar>y\<bar> \<le> 2 ^ 25" "j \<le> 500"
  shows "exact (2 * j) (fmul (fsub b a) (fsub b a)) ((y - x)\<^sup>2)" "0 \<le> (y - x)\<^sup>2" "(y - x)\<^sup>2 \<le> 2 ^ 52"
proof -
  have "\<bar>y - x\<bar> \<le> 2 ^ 26" using assms(3,4) by simp
  then have "\<bar>(y - x) * (y - x)\<bar> \<le> 2 ^ 26 * 2 ^ 26" by (intro product_bound)
  then show b: "0 \<le> (y - x)\<^sup>2" "(y - x)\<^sup>2 \<le> 2 ^ 52" by (simp_all add: power2_eq_square)
  have d: "exact j (fsub b a) (y - x)"
    by (rule exact_sub [OF assms(2,1)]) (use assms(3,4) in \<open>simp add: small_def\<close>)
  have "exact (j + j) (fmul (fsub b a) (fsub b a)) ((y - x) * (y - x))"
    by (rule exact_mul [OF d d]) (use b assms(5) in \<open>simp_all add: power2_eq_square small_def\<close>)
  then show "exact (2 * j) (fmul (fsub b a) (fsub b a)) ((y - x)\<^sup>2)" by (simp add: power2_eq_square mult_2)
qed

lemma distance_exact:
  assumes "grid_point j (2 ^ 25) p z" "grid_point j (2 ^ 25) q w" "j \<le> 500"
  shows "exact (2 * j) (point_distance_sq p q) (dist2 z w)"
proof -
  have g: "exact j (px p) (fst z)" "exact j (py p) (snd z)" "\<bar>fst z\<bar> \<le> 2 ^ 25" "\<bar>snd z\<bar> \<le> 2 ^ 25"
    "exact j (px q) (fst w)" "exact j (py q) (snd w)" "\<bar>fst w\<bar> \<le> 2 ^ 25" "\<bar>snd w\<bar> \<le> 2 ^ 25"
    using assms by (simp_all add: grid_point_def)
  note x = square_exact [OF g(1,5,3,7) assms(3)] and y = square_exact [OF g(2,6,4,8) assms(3)]
  show ?thesis
    unfolding point_distance_sq_def Let_def dist2_def
    by (rule exact_add [OF x(1) y(1)]) (use x(2,3) y(2,3) in \<open>simp add: small_def\<close>)
qed

lemma dist_key_grid:
  assumes "grid_point j (2 ^ 25) q z" "grid_point j (2 ^ 25) p w" "grid_point j (2 ^ 25) p' w'" "j \<le> 500"
  shows "dist_key q p \<le> dist_key q p' \<longleftrightarrow> dist2 z w \<le> dist2 z w'"
  using exact_key_le [OF distance_exact [OF assms(1,2,4)] distance_exact [OF assms(1,3,4)]] by (simp add: dist_key_def)

lemma grid_finite: "grid_point j B p z \<Longrightarrow> pt_finite p"
  by (auto simp: grid_point_def pt_finite_def intro: exact_finite)

subsection \<open>The numbers of the examples\<close>

lemma exact_samples: "exact 0 d_one 1" "exact 0 d_two 2" "exact 0 d_three 3"
proof -
  have one: "finite_d d_one" "dval d_one = 2 ^ 52 * 2 ^ 1022" and three: "finite_d d_three" "dval d_three = 3 * 2 ^ 51 * 2 ^ 1023"
    by (simp_all add: d_one_def d_three_def finite_d_def inf_mag_def dval_def dneg_def dmag_def mval_def dman_def dexp_def)
  have "(2::int) ^ 52 * 2 ^ 1022 = 2 ^ 1074" unfolding power_add [symmetric] by (rule arg_cong [where f = "(^) 2"]) simp
  then show "exact 0 d_one 1" using one(1) unfolding exact_def one(2) unit_of_def by simp
  have "(2::int) ^ 51 * 2 ^ 1023 = 2 ^ 1074" unfolding power_add [symmetric] by (rule arg_cong [where f = "(^) 2"]) simp
  then have "3 * 2 ^ 51 * 2 ^ 1023 = (3::int) * 2 ^ (1074 - 0)" by simp
  then show "exact 0 d_three 3" using three(1) unfolding exact_def three(2) unit_of_def by blast
  show "exact 0 d_two 2" using exact_two [of 0] by simp
qed

end
