(* ===== verification/Parser_Props.thy ===== *)
theory Parser_Props
  imports Wkt_Inv CText_Exact Geometry_Exact
begin

text \<open>
  The properties of the parser and the exporters of src/src/parser.c, with their witnesses.
\<close>

subsection \<open>JSON\<close>

text \<open>
  C12: The JSON parser always returns, with a value or an error, for every input and every allocator, and
  its position never passes the end of the input.  (\<open>parse_root\<close> runs \<open>parse_value\<close> with three units of
  fuel for each character and three more.)
\<close>

theorem parse_root_returns:
  "\<exists>res st. parse_root al json = Some (res, st) \<and> ps_input st = c_str json \<and> ps_pos st \<le> length (c_str json)"
proof -
  let ?st = "init_state json"
  have "returns_later ?st (parse_value al (json_fuel ?st) ?st)"
    by (rule parse_returns(1)) (simp add: json_fuel_def left_def)
  then obtain res st where "parse_root al json = Some (res, st)" "later ?st st"
    by (auto simp: returns_later_def parse_root_def Let_def)
  then show ?thesis by (auto simp: later_def init_state_def)
qed


definition sample_json :: JsonValue where
  "sample_json = JSON_OBJECT [(''name'', JSON_STRING ''road''), (''lanes'', JSON_ARRAY [JSON_NUMBER d_one, JSON_NUMBER d_three, JSON_NULL])]"


text \<open>\<open>PARSER_MAX_DEPTH\<close> of parser.h is 64, but the parser follows arrays to any depth.\<close>

fun nested :: "nat \<Rightarrow> JsonValue" where
  "nested 0 = JSON_ARRAY []"
| "nested (Suc n) = JSON_ARRAY [nested n]"

lemma parse_any_depth: "\<exists>st. parse_root malloc_ok (replicate (Suc n) (CHR ''['') @ replicate (Suc n) (CHR '']'')) = Some (Inr (nested n), st)"
proof -
  have e: "json_print (nested n) = replicate (Suc n) (CHR ''['') @ replicate (Suc n) (CHR '']'')"
    by (induction n) (simp_all add: replicate_append_same [symmetric])
  have p: "printable (nested n)" and r: "json_read (nested n) = nested n" by (induction n) simp_all
  have "no_zero (replicate k c)" if "c \<noteq> CHR 0x00" for k c using that by (induction k) simp_all
  then have "no_zero (json_print (nested n))" unfolding e by simp
  from parse_root_printed [OF p this] show ?thesis unfolding e r .
qed

text \<open>The decoding that the escapes stand for, and texts whose escapes are complete.\<close>

fun decode :: "string \<Rightarrow> string" where
  "decode [] = []"
| "decode [c] = [c]"
| "decode (c # d # s) = (if c = CHR 0x5C then unescape d # decode s else c # decode (d # s))"

fun well_escaped :: "string \<Rightarrow> bool" where
  "well_escaped [] = True"
| "well_escaped [c] = (c \<noteq> CHR 0x5C \<and> c \<noteq> CHR ''\"'')"
| "well_escaped (c # d # s) = (if c = CHR 0x5C then well_escaped s else c \<noteq> CHR ''\"'' \<and> well_escaped (d # s))"

lemma scan_string_escaped:
  assumes "ps_len st = length (ps_input st)"
  shows "well_escaped s \<Longrightarrow> drop pos (ps_input st) = s @ CHR ''\"'' # t \<Longrightarrow>
    scan_string st pos n = (pos + length s, n + length (decode s))"
proof (induction s arbitrary: pos n rule: decode.induct)
  case 1
  then show ?case using char_at_drop [of pos st] assms by (subst scan_string.simps) simp
next
  case (2 c)
  have d: "drop pos (ps_input st) = c # CHR ''\"'' # t" using 2(2) by simp
  have "scan_string st (pos + 1) (n + 1) = (pos + 1, n + 1)"
    using char_at_drop [OF drop_Suc_Cons' [OF d]] assms by (subst scan_string.simps) simp
  then show ?case using 2(1) char_at_drop [OF d] assms by (subst scan_string.simps) (simp add: Let_def)
next
  case (3 c d s)
  have e: "drop pos (ps_input st) = c # d # s @ CHR ''\"'' # t" using 3(4) by simp
  note e1 = drop_Suc_Cons' [OF e]
  note e2 = drop_Suc_Cons' [OF e1]
  have l: "pos + 1 < ps_len st" using char_at_drop [OF e1] assms by simp
  show ?case
  proof (cases "c = CHR 0x5C")
    case True
    then have "scan_string st (pos + 2) (n + 1) = (pos + 2 + length s, n + 1 + length (decode s))"
      using 3(1) [OF True, of "pos + 2" "n + 1"] 3(3) e2 by simp
    then show ?thesis using True char_at_drop [OF e] l by (subst scan_string.simps) (simp add: Let_def)
  next
    case False
    then have "scan_string st (pos + 1) (n + 1) = (pos + 1 + length (d # s), n + 1 + length (decode (d # s)))"
      using 3(2) [OF False, of "pos + 1" "n + 1"] 3(3) e1 by simp
    then show ?thesis using False 3(3) char_at_drop [OF e] l by (subst scan_string.simps) (simp add: Let_def)
  qed
qed

lemma copy_string_decodes:
  "drop i (ps_input st) = s @ t \<Longrightarrow> length s \<le> k \<Longrightarrow> copy_string st i (i + length s) k = decode s"
proof (induction s arbitrary: i k rule: decode.induct)
  case 1
  then show ?case by (subst copy_string.simps) simp
next
  case (2 c)
  have "copy_string st (Suc i) (Suc i) (k - 1) = []" by (subst copy_string.simps) simp
  then show ?case using 2 char_at_drop [of i st c t] by (subst copy_string.simps) simp
next
  case (3 c d s)
  have e: "drop i (ps_input st) = c # d # s @ t" using 3(3) by simp
  note e1 = drop_Suc_Cons' [OF e]
  note e2 = drop_Suc_Cons' [OF e1]
  show ?case
  proof (cases "c = CHR 0x5C")
    case True
    then have "copy_string st (i + 2) (i + 2 + length s) (k - 1) = decode s"
      using 3(1) [OF True, of "i + 2" "k - 1"] e2 3(4) by simp
    then show ?thesis using True char_at_drop [OF e] char_at_drop [OF e1] 3(4) by (subst copy_string.simps) simp
  next
    case False
    then have "copy_string st (i + 1) (i + 1 + length (d # s)) (k - 1) = decode (d # s)"
      using 3(2) [OF False, of "i + 1" "k - 1"] e1 3(4) by simp
    then show ?thesis using False char_at_drop [OF e] 3(4) by (subst copy_string.simps) simp
  qed
qed

lemma length_decode: "length (decode s) \<le> length s"
  by (induction s rule: decode.induct) auto

text \<open>
  C17: Strings with escapes lose their end.  The parser counts an escape as one character and then copies
  that many characters of the source: of a string with source \<open>s\<close> it decodes only as many characters as
  the whole of \<open>s\<close> has when decoded.  Without escapes this is the string itself; with \<open>k\<close> escapes the
  last \<open>k\<close> characters of the source are missing.
\<close>

theorem parse_string_decodes_prefix:
  assumes "reads st (quoted s @ t)" "well_escaped s"
  shows "\<exists>st'. parse_string malloc_ok st = (Inr (decode (take (length (decode s)) s)), st') \<and> reads st' t"
proof -
  have r: "reads st (CHR ''\"'' # s @ CHR ''\"'' # t)" using assms(1) by (simp add: quoted_def)
  let ?st = "snd (consume st)" and ?n = "length (decode s)"
  have r2: "reads ?st (s @ CHR ''\"'' # t)" by (rule consume_reads [OF r])
  then have d: "drop (ps_pos ?st) (ps_input ?st) = s @ CHR ''\"'' # t" "ps_len ?st = length (ps_input ?st)"
    by (simp_all add: reads_def rest_def)
  have scan: "scan_string ?st (ps_pos ?st) 0 = (ps_pos ?st + length s, ?n)"
    using scan_string_escaped [OF d(2) assms(2) d(1), of 0] by simp
  let ?u = "?st\<lparr>ps_pos := ps_pos ?st + length s\<rparr>"
  have "drop (ps_pos ?st) (ps_input ?u) = take ?n s @ drop ?n s @ CHR ''\"'' # t" by (simp add: d(1))
  from copy_string_decodes [OF this, of ?n]
  have "copy_string ?u (ps_pos ?st) (ps_pos ?st + ?n) ?n = decode (take ?n s)"
    using length_decode [of s] by (simp add: min_absorb2)
  moreover have "skip_whitespace st = st" by (rule skip_whitespace_id [OF r]) simp
  ultimately have "parse_string malloc_ok st = (Inr (decode (take ?n s)), snd (consume ?u))"
    by (simp add: parse_string_def Let_def peek_reads [OF r] scan malloc_ok_simp)
  then show ?thesis using consume_reads [OF reads_skip [OF r2]] by auto
qed

definition escaped_text :: string where
  "escaped_text = [CHR ''a'', CHR 0x5C, CHR ''n'', CHR ''b'']"

theorem parse_string_decodes_prefix_witness:
  "\<exists>st'. parse_string malloc_ok (init_state (quoted escaped_text)) = (Inr [CHR ''a'', CHR 0x0A], st') \<and> reads st' []"
proof -
  have "reads (init_state (quoted escaped_text)) (quoted escaped_text @ [])"
    by (simp add: reads_def init_state_def rest_def c_str_id quoted_def escaped_text_def)
  from parse_string_decodes_prefix [OF this] show ?thesis
    by (simp add: escaped_text_def unescape_def)
qed

subsection \<open>Numbers\<close>

text \<open>
  A number printed with \<open>%.6f\<close> and read by \<open>strtod\<close> keeps its sign and is the double nearest to a
  decimal \<open>n / 10 ^ 6\<close> that is at most half a millionth away from it.  \<open>strtod\<close> takes the whole printed
  text and stops at the character after it.
\<close>

theorem printed_number_accuracy:
  assumes "finite_d d" "ends_number t"
  shows "\<exists>e n. strtod (format_f6 d @ t) = (e, length (format_f6 d)) \<and> \<not> isnan e \<and> dneg e = dneg d \<and>
    \<bar>real n / 10 ^ 6 - real_of_int (mval (dmag d)) / 2 ^ 1074\<bar> \<le> 1 / (2 * 10 ^ 6) \<and>
    rounds_to ((if dneg d then - 1 else 1) * (real n / 10 ^ 6 * 2 powi 1074)) (dkey e)"
  using strtod_f6 [OF assms] micro_near [of d] f6_double_rounds [of d] by blast

theorem printed_number_accuracy_witness:
  "\<exists>e n. strtod (format_f6 d_three @ '',1'') = (e, length (format_f6 d_three)) \<and> \<not> isnan e \<and> dneg e = dneg d_three \<and>
    \<bar>real n / 10 ^ 6 - real_of_int (mval (dmag d_three)) / 2 ^ 1074\<bar> \<le> 1 / (2 * 10 ^ 6) \<and>
    rounds_to ((if dneg d_three then - 1 else 1) * (real n / 10 ^ 6 * 2 powi 1074)) (dkey e)"
  by (rule printed_number_accuracy) (auto simp: ends_numberI)

subsection \<open>GeoJSON\<close>

text \<open>
  C14: The GeoJSON reader takes every geometry: from the text of a point, a line string or a polygon with
  any number of holes, with finite coordinates, \<open>geojson_parse_geometry\<close> makes an object of that type with
  all points of all rings in order, each coordinate read from its six decimals.
\<close>

theorem geojson_parse_geometry_reads:
  assumes "view_shape v" "view_finite v" "c_str txt = json_print (geometry_json v)"
  shows "\<exists>obj'. geojson_parse_geometry malloc_ok txt obj = Some (PARSE_OK, obj') \<and> geom_view (so_geom obj') = f6_view v"
  by (rule geojson_parse_geometry_text [OF assms])

definition sample_ring :: "Point list" where
  "sample_ring = exterior sample_triangle"

lemma sample_ring_finite: "\<forall>p \<in> set sample_ring. pt_finite p"
  using sample_object_finite by (simp add: sample_object_def sample_ring_def)

theorem geojson_parse_geometry_reads_witness:
  "\<exists>obj'. geojson_parse_geometry malloc_ok (json_print (geometry_json (GEOM_POLYGON, sample_ring, [sample_ring]))) zero_object =
      Some (PARSE_OK, obj') \<and> geom_view (so_geom obj') = (GEOM_POLYGON, map f6_point sample_ring, [map f6_point sample_ring])"
proof -
  have "view_shape (GEOM_POLYGON, sample_ring, [sample_ring])" "view_finite (GEOM_POLYGON, sample_ring, [sample_ring])"
    using sample_ring_finite by (simp_all add: view_shape_def view_finite_def)
  from geojson_parse_geometry_reads [OF this c_str_id [OF no_zero_geometry]] show ?thesis by (simp add: f6_view_def)
qed

lemma f6_points_exact: "\<forall>p \<in> set ps. six_point p \<Longrightarrow> map f6_point ps = ps"
  by (induction ps) (auto simp: six_point_def f6_point_def f6_double_exact)

text \<open>
  C15: Export and import.  If the text of an object with finite coordinates fits into the buffer,
  \<open>geojson_export\<close> writes it and returns its length, and \<open>geojson_parse_geometry\<close> reads an object of the same
  type with the same points to six decimals, but without holes: the export leaves them out.  Coordinates
  that are multiples of 1/64 (of \<open>1 / 2 ^ j\<close> for some \<open>j \<le> 6\<close>, and at most \<open>2 ^ 53\<close> of them) are read back unchanged.
\<close>

theorem geojson_export_parse:
  assumes "\<forall>p \<in> set (outline (so_geom obj)). pt_finite p"
    "length (json_print (export_json obj)) < length buf" "length buf < 2 ^ 31"
  shows "\<exists>n buf' obj'. geojson_export obj buf = Some (n, buf') \<and> n = int (length (c_str buf')) \<and>
    geojson_parse_geometry malloc_ok buf' obj0 = Some (PARSE_OK, obj') \<and>
    geom_view (so_geom obj') = (so_type obj, map f6_point (outline (so_geom obj)), []) \<and>
    ((\<forall>p \<in> set (outline (so_geom obj)). six_point p) \<longrightarrow> geom_view (so_geom obj') = (so_type obj, outline (so_geom obj), []))"
proof -
  obtain buf' where b: "geojson_export obj buf = Some (int (length (json_print (export_json obj))), buf')"
    "c_str buf' = json_print (export_json obj)"
    using geojson_export_fits [OF assms(2,3)] by blast
  have "view_shape (so_type obj, outline (so_geom obj), [])" "view_finite (so_type obj, outline (so_geom obj), [])"
    using assms(1) by (cases "so_geom obj"; simp add: view_shape_def view_finite_def so_type_def)+
  from geojson_parse_geometry_text [OF this, of buf' obj0] show ?thesis
    using b f6_points_exact by (auto simp: export_json_def f6_view_def)
qed

lemma format_f6_short: "finite_d d \<Longrightarrow> \<not> dneg d \<Longrightarrow> micro d < 10 ^ 7 \<Longrightarrow> length (format_f6 d) = 8"
  using finite_not_inf [of d] by (simp add: format_f6_def show_nat.simps)

lemma sample_lengths: "length (format_f6 d_one) = 8" "length (format_f6 d_two) = 8" "length (format_f6 d_three) = 8"
proof -
  have "micro d_one = 1000000" "micro d_two = 2000000" "micro d_three = 3000000"
    by (simp_all add: micro_def mval_def dman_def dexp_def dmag_def d_one_def d_two_def d_three_def Let_def)
  moreover have "\<not> dneg d_one" "\<not> dneg d_two" "\<not> dneg d_three" by (simp_all add: dneg_def d_one_def d_two_def d_three_def)
  ultimately show "length (format_f6 d_one) = 8" "length (format_f6 d_two) = 8" "length (format_f6 d_three) = 8"
    by (simp_all add: format_f6_short)
qed

lemma sample_json_length: "length (json_print (export_json sample_object)) < 200"
  by (simp add: export_json_def so_type_def sample_object_def sample_triangle_def geometry_json_def ring_json_def coord_json_def
      quoted_def sample_lengths)

lemma sample_six_points:
  "six_point \<lparr>px = d_one, py = d_one\<rparr>" "six_point \<lparr>px = d_three, py = d_one\<rparr>" "six_point \<lparr>px = d_two, py = d_three\<rparr>"
  "six_point \<lparr>px = d_one, py = d_two\<rparr>"
proof -
  have "six_decimals d_one" "six_decimals d_two" "six_decimals d_three"
    by (rule six_decimalsI [OF exact_samples(1)] six_decimalsI [OF exact_samples(2)] six_decimalsI [OF exact_samples(3)];
        simp add: small_def)+
  then show "six_point \<lparr>px = d_one, py = d_one\<rparr>" "six_point \<lparr>px = d_three, py = d_one\<rparr>"
    "six_point \<lparr>px = d_two, py = d_three\<rparr>" "six_point \<lparr>px = d_one, py = d_two\<rparr>"
    by (simp_all add: six_point_def)
qed

theorem geojson_export_parse_witness:
  "\<exists>n buf' obj'. geojson_export sample_object (replicate 200 (CHR 0x00)) = Some (n, buf') \<and> n = int (length (c_str buf')) \<and>
    geojson_parse_geometry malloc_ok buf' zero_object = Some (PARSE_OK, obj') \<and>
    geom_view (so_geom obj') = (GEOM_POLYGON, exterior sample_triangle, [])"
proof -
  have g: "so_type sample_object = GEOM_POLYGON" "outline (so_geom sample_object) = exterior sample_triangle"
    by (simp_all add: sample_object_def so_type_def)
  have fin: "\<forall>p \<in> set (outline (so_geom sample_object)). pt_finite p" using sample_object_finite by blast
  have "\<forall>p \<in> set (exterior sample_triangle). six_point p" using sample_six_points by (simp add: sample_triangle_def)
  with geojson_export_parse [OF fin, of "replicate 200 (CHR 0x00)" zero_object] sample_json_length show ?thesis
    unfolding g by auto
qed

text \<open>
  C16: When the export writes behind the buffer.  For a line string \<open>geojson_export\<close> is in bounds exactly if
  the written count does not jump over the buffer size: it leaves the buffer if some point is the first
  after which the count is not below the size, and the count is then above it.  (None is a write behind
  the buffer, since \<open>buffer_size - written\<close> wraps around.)
\<close>

theorem geojson_export_line_bounds:
  assumes "so_geom obj = G_line l" "buf \<noteq> []" "length buf < 2 ^ 31"
    "length (json_geometry ''LineString'' @ ''['' @ join '','' (map json_point (ls_points l))) < 2 ^ 31"
  shows "geojson_export obj buf = None \<longleftrightarrow>
    (\<exists>k \<le> length (ls_points l).
      length buf < length (json_geometry ''LineString'' @ ''['' @ join '','' (map json_point (take k (ls_points l)))) \<and>
      (\<forall>j < k. length (json_geometry ''LineString'' @ ''['' @ join '','' (map json_point (take j (ls_points l)))) < length buf))"
  using print_list_None [OF assms(3) _ assms(2), of "json_geometry ''LineString'' @ ''[''" "'',''" json_point "ls_points l" "'']}''"]
    assms(1,2,4) by (simp add: geojson_export_def export_result_def)

definition sample_line :: SpatialObject where
  "sample_line = zero_object\<lparr>so_geom := G_line \<lparr>ls_points = [\<lparr>px = d_one, py = d_two\<rparr>, \<lparr>px = d_three, py = d_one\<rparr>], ls_capacity = 16\<rparr>\<rparr>"

theorem geojson_export_line_bounds_witness: "geojson_export sample_line (replicate 70 (CHR 0x00)) = None"
proof -
  let ?l = "\<lparr>ls_points = [\<lparr>px = d_one, py = d_two\<rparr>, \<lparr>px = d_three, py = d_one\<rparr>], ls_capacity = 16\<rparr>"
  let ?W = "\<lambda>k. length (json_geometry ''LineString'' @ ''['' @ join '','' (map json_point (take k (ls_points ?l))))"
  have len: "length (json_geometry ''LineString'') = 35" by (simp add: json_geometry_def json_type_def quote_mark_def)
  have W: "?W 0 = 36" "?W 1 = 55" "?W 2 = 75" by (simp_all add: len json_point_def sample_lengths)
  have "geojson_export sample_line (replicate 70 (CHR 0x00)) = None \<longleftrightarrow>
    (\<exists>k \<le> length (ls_points ?l). length (replicate 70 (CHR 0x00)) < ?W k \<and> (\<forall>j < k. ?W j < length (replicate 70 (CHR 0x00))))"
    by (rule geojson_export_line_bounds) (simp_all add: sample_line_def len json_point_def sample_lengths)
  moreover have "?W j < 70" if "j < 2" for j
  proof -
    from that have "j = 0 \<or> j = 1" by auto
    then show ?thesis
    proof
      assume j: "j = 0"
      show ?thesis unfolding j W(1) by simp
    next
      assume j: "j = 1"
      show ?thesis unfolding j W(2) by simp
    qed
  qed
  then have "\<exists>k \<le> length (ls_points ?l). length (replicate 70 (CHR 0x00)) < ?W k \<and> (\<forall>j < k. ?W j < length (replicate 70 (CHR 0x00)))"
    using W(3) by (intro exI [of _ 2]) (simp del: length_append)
  ultimately show ?thesis by blast
qed

subsection \<open>Well-known text\<close>

text \<open>
  C18: Export and import of points and line strings as well-known text: if the text fits into the buffer,
  the exported object is read back with the same type and the same points to six decimals, unchanged if
  the coordinates are multiples of 1/64 of moderate size, as above.
\<close>

theorem wkt_export_parse:
  assumes "\<forall>p \<in> set (outline (so_geom obj)). pt_finite p" "so_type obj \<noteq> GEOM_POLYGON"
    "length (wkt_text (so_geom obj)) < length buf" "length buf < 2 ^ 31"
  shows "\<exists>n buf' obj'. wkt_export obj buf = Some (n, buf') \<and> n = int (length (c_str buf')) \<and>
    wkt_parse malloc_ok buf' obj0 = (PARSE_OK, obj') \<and>
    geom_view (so_geom obj') = (so_type obj, map f6_point (outline (so_geom obj)), []) \<and>
    ((\<forall>p \<in> set (outline (so_geom obj)). six_point p) \<longrightarrow> geom_view (so_geom obj') = (so_type obj, outline (so_geom obj), []))"
proof -
  obtain buf' where b: "wkt_export obj buf = Some (int (length (wkt_text (so_geom obj))), buf')" "c_str buf' = wkt_text (so_geom obj)"
    using wkt_export_fits [OF assms(3,4)] by blast
  show ?thesis
  proof (cases "so_geom obj")
    case (G_point p)
    then show ?thesis
      using b wkt_parse_point_text [of p buf' obj0] assms(1) f6_points_exact [of "[p]"] by (auto simp: so_type_def spatial_object_init_point_def)
  next
    case (G_line l)
    then show ?thesis
      using b wkt_parse_line_text [of l buf' obj0] assms(1) f6_points_exact by (auto simp: so_type_def)
  next
    case (G_polygon p)
    then show ?thesis using assms(2) by (simp add: so_type_def)
  qed
qed

theorem wkt_export_parse_witness:
  "\<exists>n buf' obj'. wkt_export sample_line (replicate 70 (CHR 0x00)) = Some (n, buf') \<and> n = int (length (c_str buf')) \<and>
    wkt_parse malloc_ok buf' zero_object = (PARSE_OK, obj') \<and>
    geom_view (so_geom obj') = (GEOM_LINESTRING, outline (so_geom sample_line), [])"
proof -
  have t: "so_type sample_line = GEOM_LINESTRING" by (simp add: sample_line_def so_type_def)
  have fin: "\<forall>p \<in> set (outline (so_geom sample_line)). pt_finite p" by (simp add: sample_line_def pt_finite_def)
  have half: "\<forall>p \<in> set (outline (so_geom sample_line)). six_point p" using sample_six_points by (simp add: sample_line_def)
  have "length (wkt_text (so_geom sample_line)) < length (replicate 70 (CHR 0x00))"
    by (simp add: sample_line_def wkt_point_def sample_lengths)
  with wkt_export_parse [OF fin, of "replicate 70 (CHR 0x00)" zero_object] half show ?thesis
    unfolding t by auto
qed

text \<open>
  C19: The exterior ring of a polygon is lost.  From \<open>POLYGON ((\<close> and any text without a further opening
  parenthesis, as every polygon without holes is written, \<open>wkt_parse\<close> makes a polygon without points and
  returns \<open>PARSE_OK\<close>: it skips both parentheses and then looks for the next one.
\<close>

theorem wkt_polygon_ring_lost:
  assumes "c_str s = ''POLYGON (('' @ r" "CHR ''('' \<notin> set r"
  shows "\<exists>obj'. wkt_parse malloc_ok s obj = (PARSE_OK, obj') \<and> geom_view (so_geom obj') = (GEOM_POLYGON, [], [])"
  by (rule wkt_parse_polygon_lost [OF assms])

theorem wkt_polygon_ring_lost_witness:
  "\<exists>obj'. wkt_parse malloc_ok ''POLYGON ((0 0, 10 0, 10 10, 0 10, 0 0))'' zero_object = (PARSE_OK, obj') \<and>
    geom_view (so_geom obj') = (GEOM_POLYGON, [], [])"
  by (rule wkt_polygon_ring_lost [of _ "''0 0, 10 0, 10 10, 0 10, 0 0))''"]) (simp_all add: c_str_id)

end
