(* ===== verification/Urbis_Props.thy ===== *)
theory Urbis_Props
  imports Urbis SpatialIndex_Props Parser_Props
begin

text \<open>
  The properties of the public interface, with their witnesses: what goes into an index through it comes
  out of its queries, as copies.
\<close>

subsection \<open>Copies\<close>

lemma copy_objects_ok: "\<exists>copies. copy_objects malloc_ok objs = Inr copies \<and> map object_view copies = map object_view objs"
proof (induction objs)
  case (Cons obj objs)
  obtain d where "spatial_object_copy malloc_ok obj = (GEOM_OK, d)" "object_view d = object_view obj"
    using spatial_object_copy_ok by blast
  with Cons show ?case by auto
qed simp

lemma copy_query_result_ok:
  "\<exists>list. urbis_copy_query_result malloc_ok objs = Inr list \<and> map object_view (ol_objects list) = map object_view objs"
  using copy_objects_ok [of objs] by (auto simp: urbis_copy_query_result_def malloc_ok_simp)

lemma spatial_result_init_ok: "\<exists>r. spatial_result_init malloc_ok n = (SI_OK, r)"
  by (simp add: spatial_result_init_def Let_def malloc_ok_simp)

lemma query_range_views:
  assumes "si_inv idx" "mbr_num rng"
  shows "\<exists>res list. spatial_index_query_range malloc_ok idx rng r = (SI_OK, res) \<and>
    urbis_copy_query_result malloc_ok (result_objects idx res) = Inr list \<and>
    mset (map object_view (ol_objects list)) = filter_mset (\<lambda>v. mbr_intersects (view_mbr v) rng) (si_views idx)"
proof -
  obtain res where r: "spatial_index_query_range malloc_ok idx rng r = (SI_OK, res)"
    "sr_objects res = filter (\<lambda>p. mbr_intersects (so_mbr (si_deref idx p)) rng) (all_ptrs idx)"
    using query_range_scan_all [OF assms] by blast
  obtain list where l: "urbis_copy_query_result malloc_ok (result_objects idx res) = Inr list"
    "map object_view (ol_objects list) = map object_view (result_objects idx res)"
    using copy_query_result_ok by blast
  have "mset (map object_view (ol_objects list)) = filter_mset (\<lambda>v. mbr_intersects (view_mbr v) rng) (si_views idx)"
    unfolding l(2) by (simp add: result_objects_def r(2) views_of_ptrs filter_mset_image_mset o_def image_mset.compositionality)
  with r(1) l(1) show ?thesis by blast
qed

text \<open>
  C27: A range query through the interface returns copies of exactly the stored objects whose rectangle
  meets the range: the list has their ids, geometries, centroids, rectangles and properties.
\<close>

theorem urbis_query_range_copies:
  assumes "si_reach qs idx" "mbr_num rng"
  shows "\<exists>list. urbis_index_query_range malloc_ok idx rng = Inr list \<and>
    mset (map object_view (ol_objects list)) = filter_mset (\<lambda>v. mbr_intersects (view_mbr v) rng) (si_views idx)"
proof -
  obtain r where "spatial_result_init malloc_ok 64 = (SI_OK, r)" using spatial_result_init_ok by blast
  then show ?thesis
    using query_range_views [OF si_reach_inv [OF assms(1)] assms(2), of r] by (auto simp: urbis_index_query_range_def)
qed

theorem urbis_query_range_copies_witness:
  "\<exists>list. urbis_index_query_range malloc_ok sample_index_one (sample_box d_one d_two) = Inr list \<and>
    mset (map object_view (ol_objects list)) =
      filter_mset (\<lambda>v. mbr_intersects (view_mbr v) (sample_box d_one d_two)) {#object_view (derived sample_object)#}"
  using urbis_query_range_copies [OF sample_index_one_reach sample_range_num] unfolding sample_index_one_views .

subsection \<open>Insertion\<close>

lemma urbis_count: "urbis_index_count idx = size (si_views idx)"
  by (simp add: urbis_index_count_def urbis_index_get_stats_def spatial_index_stats_def page_pool_stats_def
      pool_object_count_length si_views_def Let_def)

lemma insert_made_ok:
  assumes "si_inv idx" "mbr_num (so_mbr (derived obj))"
  shows "\<exists>idx' oid. insert_made malloc_ok idx obj = (URBIS_OK, idx', Some oid) \<and> si_inv idx' \<and>
    si_views idx' = add_mset (with_id oid (object_view (derived obj))) (si_views idx)"
  using insert_sim [OF assms] by (auto simp: insert_made_def)

lemma point_box_num: "\<not> isnan x \<Longrightarrow> \<not> isnan y \<Longrightarrow> mbr_num (mbr_create x y x y)"
  by (simp add: mbr_num_def mbr_create_def)

lemma point_box_meets: "\<not> isnan x \<Longrightarrow> \<not> isnan y \<Longrightarrow> mbr_intersects (mbr_create x y x y) (mbr_create x y x y)"
  by (simp add: mbr_intersects_def mbr_is_empty_def mbr_create_def order_rules)

text \<open>
  An inserted point is found where it was put.  For coordinates that are no NaN, the insertion
  returns \<open>URBIS_OK\<close> and an id, the count grows by one, and a following point query at the same place
  returns a list with a point object of that id and these coordinates.
\<close>

theorem urbis_insert_point_query:
  assumes "si_reach qs idx" "\<not> isnan x" "\<not> isnan y"
  shows "\<exists>idx' oid list obj. urbis_index_insert_point malloc_ok idx x y = (URBIS_OK, idx', Some oid) \<and>
    urbis_index_count idx' = urbis_index_count idx + 1 \<and>
    urbis_index_query_point malloc_ok idx' x y = Inr list \<and> obj \<in> set (ol_objects list) \<and>
    so_id obj = oid \<and> geom_view (so_geom obj) = (GEOM_POINT, [point_create x y], [])"
proof -
  let ?o = "snd (spatial_object_init_point 0 (point_create x y))"
  have d: "so_mbr (derived ?o) = mbr_create x y x y" "geom_view (so_geom (derived ?o)) = (GEOM_POINT, [point_create x y], [])"
    by (simp_all add: spatial_object_init_point_def derived_def spatial_object_update_derived_def point_create_def)
  obtain idx' oid where i: "insert_made malloc_ok idx ?o = (URBIS_OK, idx', Some oid)" "si_inv idx'"
    "si_views idx' = add_mset (with_id oid (object_view (derived ?o))) (si_views idx)"
    using insert_made_ok [OF si_reach_inv [OF assms(1)], of ?o] point_box_num [OF assms(2,3)] by (auto simp: d(1))
  obtain r where r: "spatial_result_init malloc_ok 16 = (SI_OK, r)" using spatial_result_init_ok by blast
  obtain res list where q: "spatial_index_query_range malloc_ok idx' (mbr_create x y x y) r = (SI_OK, res)"
    "urbis_copy_query_result malloc_ok (result_objects idx' res) = Inr list"
    "mset (map object_view (ol_objects list)) = filter_mset (\<lambda>v. mbr_intersects (view_mbr v) (mbr_create x y x y)) (si_views idx')"
    using query_range_views [OF i(2) point_box_num [OF assms(2,3)]] by blast
  let ?v = "with_id oid (object_view (derived ?o))"
  have "view_mbr ?v = mbr_create x y x y" by (simp add: view_mbr_def with_id_def object_view_def d(1))
  then have "?v \<in># mset (map object_view (ol_objects list))"
    unfolding q(3) i(3) using point_box_meets [OF assms(2,3)] by simp
  then obtain obj where o: "obj \<in> set (ol_objects list)" "object_view obj = ?v" by auto
  have "so_id obj = oid" "geom_view (so_geom obj) = (GEOM_POINT, [point_create x y], [])"
    using o(2) d(2) by (simp_all add: object_view_def with_id_def)
  moreover have "urbis_index_insert_point malloc_ok idx x y = (URBIS_OK, idx', Some oid)"
    using i(1) by (simp add: urbis_index_insert_point_def spatial_object_init_point_def)
  moreover have "urbis_index_query_point malloc_ok idx' x y = Inr list"
    using r q(1,2) by (simp add: urbis_index_query_point_def spatial_index_query_point_def point_create_def)
  moreover have "urbis_index_count idx' = urbis_index_count idx + 1" by (simp add: urbis_count i(3))
  ultimately show ?thesis using o(1) by blast
qed

theorem urbis_insert_point_query_witness:
  "\<exists>idx' oid list obj. urbis_index_insert_point malloc_ok sample_index_one d_three d_one = (URBIS_OK, idx', Some oid) \<and>
    urbis_index_count idx' = urbis_index_count sample_index_one + 1 \<and>
    urbis_index_query_point malloc_ok idx' d_three d_one = Inr list \<and> obj \<in> set (ol_objects list) \<and>
    so_id obj = oid \<and> geom_view (so_geom obj) = (GEOM_POINT, [point_create d_three d_one], [])"
  by (rule urbis_insert_point_query [OF sample_index_one_reach]) simp_all

subsection \<open>Loading GeoJSON\<close>

lemma insert_features_ok:
  assumes "si_inv idx" "\<forall>f \<in> set fs. mbr_num (so_mbr (derived (pf_object f)))"
  shows "\<exists>idx' oids. insert_features malloc_ok idx fs = (SI_OK, idx') \<and> si_inv idx' \<and> length oids = length fs \<and>
    si_views idx' = si_views idx + mset (map2 (\<lambda>oid f. with_id oid (object_view (derived (pf_object f)))) oids fs)"
  using assms
proof (induction fs arbitrary: idx)
  case (Cons f fs)
  obtain idx1 oid where i: "spatial_index_insert malloc_ok idx (pf_object f) = (SI_OK, idx1, insert_object idx (pf_object f))" "si_inv idx1"
    "si_views idx1 = add_mset (with_id oid (object_view (derived (pf_object f)))) (si_views idx)"
    using insert_sim [OF Cons.prems(1), of "pf_object f"] Cons.prems(2) by auto
  obtain idx2 oids where "insert_features malloc_ok idx1 fs = (SI_OK, idx2)" "si_inv idx2" "length oids = length fs"
    "si_views idx2 = si_views idx1 + mset (map2 (\<lambda>oid f. with_id oid (object_view (derived (pf_object f)))) oids fs)"
    using Cons.IH [OF i(2)] Cons.prems(2) by auto
  then show ?case using i by (intro exI [of _ idx2] exI [of _ "oid # oids"]) simp
qed simp

text \<open>
  Loading GeoJSON.  If a text parses to features whose rectangles are no NaN, the load stores all of
  them: it returns \<open>URBIS_OK\<close> and their number, and to the stored objects it adds exactly one for each
  feature, with the geometry of the feature, its derived centroid and rectangle, and some id.
\<close>

theorem urbis_load_geojson_stores:
  assumes "si_reach qs idx" "geojson_parse_string malloc_ok json = Some (PARSE_OK, fc)"
    "\<forall>f \<in> set (fc_features fc). mbr_num (so_mbr (derived (pf_object f)))"
  shows "\<exists>idx' oids. urbis_index_load_geojson_string malloc_ok idx json = Some (URBIS_OK, idx', Some (length (fc_features fc))) \<and>
    length oids = length (fc_features fc) \<and>
    si_views idx' = si_views idx +
      mset (map2 (\<lambda>oid f. with_id oid (object_view (derived (pf_object f)))) oids (fc_features fc))"
proof -
  obtain idx' oids where "insert_features malloc_ok idx (fc_features fc) = (SI_OK, idx')" "length oids = length (fc_features fc)"
    "si_views idx' = si_views idx + mset (map2 (\<lambda>oid f. with_id oid (object_view (derived (pf_object f)))) oids (fc_features fc))"
    using insert_features_ok [OF si_reach_inv [OF assms(1)] assms(3)] by blast
  then show ?thesis
    using assms(2) by (intro exI [of _ idx'] exI [of _ oids]) (simp add: urbis_index_load_geojson_string_def load_parsed_def)
qed

lemma geojson_parse_string_geometry:
  assumes "view_shape v" "view_finite v" "c_str txt = json_print (geometry_json v)"
  shows "\<exists>fc obj. geojson_parse_string malloc_ok txt = Some (PARSE_OK, fc) \<and>
    fc_features fc = [zero_feature\<lparr>pf_object := obj\<rparr>] \<and> geom_view (so_geom obj) = f6_view v"
proof -
  obtain st where r: "parse_root malloc_ok txt = Some (Inr (geometry_json (f6_view v)), st)"
    using parse_root_printed [OF printable_geometry [OF assms(1,2)] no_zero_geometry] parse_root_c_str [of malloc_ok "txt"]
    by (auto simp: assms(3) read_geometry [OF assms(1)])
  have "view_shape (f6_view v)" using assms(1) by (auto simp: view_shape_def f6_view_def)
  then obtain obj where g: "parse_geojson_geometry malloc_ok (geometry_json (f6_view v)) zero_object = (PARSE_OK, obj)"
    "geom_view (so_geom obj) = f6_view v"
    using parse_geometry_json by blast
  have "\<exists>name. json_object_get (Some (geometry_json (f6_view v))) ''type'' = Some (JSON_STRING name) \<and>
      name \<noteq> ''FeatureCollection'' \<and> name \<noteq> ''Feature''"
    by (cases "f6_view v"; cases "fst (f6_view v)") (simp_all add: geometry_json_def json_get_members)
  then obtain name where n: "json_object_get (Some (geometry_json (f6_view v))) ''type'' = Some (JSON_STRING name)"
    "name \<noteq> ''FeatureCollection''" "name \<noteq> ''Feature''" by blast
  have z: "pf_object zero_feature = zero_object" by (simp add: zero_feature_def)
  obtain fc0 where fc0: "feature_collection_init malloc_ok 64 = (PARSE_OK, fc0)" "fc_features fc0 = []"
    by (simp add: feature_collection_init_def Let_def malloc_ok_simp)
  have "\<exists>fc. geojson_parse_string malloc_ok txt = Some (PARSE_OK, fc) \<and> fc_features fc = [zero_feature\<lparr>pf_object := obj\<rparr>]"
    using fc0(2) by (simp add: geojson_parse_string_def fc0(1) r collect_root_def n z g(1) feature_collection_add_def
        Let_def malloc_ok_simp collect_bounds_def)
  with g(2) show ?thesis by blast
qed

definition point_text :: string where
  "point_text = json_print (geometry_json (GEOM_POINT, [point_create d_three d_one], []))"

theorem urbis_load_geojson_stores_witness:
  "\<exists>idx' v. urbis_index_load_geojson_string malloc_ok sample_index point_text = Some (URBIS_OK, idx', Some 1) \<and>
    si_views idx' = {#v#} \<and> fst (snd v) = (GEOM_POINT, [f6_point (point_create d_three d_one)], [])"
proof -
  let ?v = "(GEOM_POINT, [point_create d_three d_one], [])"
  have "view_shape ?v" "view_finite ?v" by (simp_all add: view_shape_def view_finite_def point_create_def pt_finite_def)
  from geojson_parse_string_geometry [OF this, of point_text] obtain fc obj where
    fc: "geojson_parse_string malloc_ok point_text = Some (PARSE_OK, fc)" "fc_features fc = [zero_feature\<lparr>pf_object := obj\<rparr>]"
    "geom_view (so_geom obj) = f6_view ?v"
    unfolding point_text_def c_str_id [OF no_zero_geometry] by blast
  have g: "so_geom obj = G_point (f6_point (point_create d_three d_one))"
    using fc(3) by (cases "so_geom obj") (simp_all add: f6_view_def)
  have d: "geom_view (so_geom (derived obj)) = (GEOM_POINT, [f6_point (point_create d_three d_one)], [])" "mbr_num (so_mbr (derived obj))"
    using f6_double_rounds(2) by (simp_all add: derived_def spatial_object_update_derived_def g mbr_num_def mbr_create_def f6_point_def)
  have "\<forall>f \<in> set (fc_features fc). mbr_num (so_mbr (derived (pf_object f)))" by (simp add: fc(2) d(2))
  from urbis_load_geojson_stores [OF sample_index_reach fc(1) this] obtain idx' oids where
    "urbis_index_load_geojson_string malloc_ok sample_index point_text = Some (URBIS_OK, idx', Some 1)" "length oids = 1"
    "si_views idx' = mset (map2 (\<lambda>oid f. with_id oid (object_view (derived (pf_object f)))) oids (fc_features fc))"
    by (auto simp: fc(2) sample_index_views)
  then show ?thesis using d(1) by (auto simp: fc(2) length_Suc_conv with_id_def object_view_def)
qed

subsection \<open>Stale pointers\<close>

lemma distinct_blocks: "distinct as \<Longrightarrow> distinct (concat (map (\<lambda>a. map (Pair a) [0..<f a]) as))"
  by (induction as) (auto simp: distinct_map inj_on_def)

lemma distinct_all_ptrs: "si_inv idx \<Longrightarrow> distinct (all_ptrs idx)"
  unfolding all_ptrs_def using distinct_blocks [OF si_inv_distinct] .

lemma remove_block_tree: "si_block_tree (snd (spatial_index_remove al idx oid)) = si_block_tree idx"
  by (simp add: spatial_index_remove_def si_set_page_def Let_def split: option.splits prod.splits)

lemma knn_block_tree:
  assumes same: "si_block_tree i = si_block_tree j"
  shows "spatial_index_query_knn al i = spatial_index_query_knn al j"
  unfolding spatial_index_query_knn_def same ..

lemma all_ptrs_length: "length (all_ptrs idx) = size (si_views idx)"
  unfolding si_views_def using arg_cong [OF deref_ptrs [of idx], of length] by simp

lemma not_all_kept:
  assumes "distinct xs" "length ys < length xs"
  shows "\<exists>x \<in> set xs. x \<notin> set ys"
proof (rule ccontr)
  assume "\<not> ?thesis"
  then have "card (set xs) \<le> card (set ys)" by (intro card_mono) auto
  with assms card_length [of ys] show False by (simp add: distinct_card)
qed

text \<open>
  C28: A nearest-object query after a removal returns a stale pointer.  The removal marks the index as not
  built, but the query does not look at the mark and searches the old block tree: if it asks for at
  least as many objects as the index held, it returns \<open>SI_OK\<close> and a result with a pointer that points
  to no stored object any more.
\<close>

theorem spatial_index_knn_stale_after_remove:
  assumes "si_reach qs idx" "qsort_contract qs" "\<forall>obj \<in> set (si_objects idx). pt_finite (so_centroid obj)"
    "spatial_index_get idx oid = Some p" "pt_finite q" "length (si_objects idx) \<le> k"
  shows "\<exists>idx1 idx2 res' stale. spatial_index_build qs malloc_ok idx = (SI_OK, idx1) \<and>
    spatial_index_remove malloc_ok idx1 oid = (SI_OK, idx2) \<and> \<not> si_is_built idx2 \<and>
    spatial_index_query_knn malloc_ok idx2 q k res = (SI_OK, res') \<and>
    stale \<in> set (sr_objects res') \<and> stale \<notin> set (all_ptrs idx2)"
proof -
  have inv: "si_inv idx" by (rule si_reach_inv [OF assms(1)])
  have found: "p \<in> set (all_ptrs idx)" "so_id (si_deref idx p) = oid" "object_view (si_deref idx p) \<in># si_views idx"
    using get_deref [OF assms(4)] by simp_all
  have objs: "map (si_deref idx) (all_ptrs idx) = si_objects idx" by (rule deref_ptrs)
  then have len: "length (all_ptrs idx) = length (si_objects idx)" using length_map by metis
  have ne: "si_objects idx \<noteq> []" "all_ptrs idx \<noteq> []" using found(1) len by auto
  have num: "\<forall>obj \<in> set (si_objects idx). pt_num (so_centroid obj)" using assms(3) pt_finite_num by blast
  obtain idx1 where b: "spatial_index_build qs malloc_ok idx = (SI_OK, idx1)" "si_inv idx1"
    "si_heap idx1 = si_heap idx" "pp_pages (si_pool idx1) = pp_pages (si_pool idx)" "kdtree_inv (si_block_tree idx1)"
    "mset (kd_entries (kt_root (si_block_tree idx1))) = mset (map (object_point idx) (all_ptrs idx))"
    using spatial_index_build_ok [OF inv assms(2) ne(1) num] by blast
  have deref: "si_deref idx1 p = si_deref idx p" for p by (rule si_same_pages(5)) (simp_all add: b)
  have same: "all_ptrs idx1 = all_ptrs idx" "si_views idx1 = si_views idx" using si_same_pages b(3,4) by blast+
  have point: "object_point idx1 = object_point idx" by (rule ext) (simp add: object_point_def deref)
  have fin: "\<forall>p \<in> set (all_ptrs idx). pt_finite (so_centroid (si_deref idx1 p))"
    using assms(3) unfolding objs [symmetric] by (simp add: deref)
  have "0 < k" using ne(1) assms(6) by (cases "si_objects idx") auto
  from query_knn_on_tree [OF b(5) _ fin assms(5) this ne(2), of res] obtain res' rest where
    k: "spatial_index_query_knn malloc_ok idx1 q k res = (SI_OK, res')" "mset (sr_objects res' @ rest) = mset (all_ptrs idx)"
    "length (sr_objects res') = min k (length (all_ptrs idx))" unfolding point b(6) by blast
  have "rest = []" using arg_cong [OF k(2), of size] k(3) assms(6) len by simp
  then have all: "set (sr_objects res') = set (all_ptrs idx)" using mset_eq_setD [OF k(2)] by simp
  have "\<not> (\<forall>v \<in># si_views idx1. fst v \<noteq> oid)" using found(2,3) unfolding same(2) by (force simp: object_view_def)
  then obtain idx2 v where r: "spatial_index_remove malloc_ok idx1 oid = (SI_OK, idx2)" "si_views idx1 = add_mset v (si_views idx2)"
    using remove_sim [OF b(2), of oid] unfolding if_not_P [OF \<open>\<not> (\<forall>v \<in># si_views idx1. fst v \<noteq> oid)\<close>] by blast
  have "spatial_index_get idx1 oid \<noteq> None" using get_None_iff [of idx1 oid] \<open>\<not> (\<forall>v \<in># si_views idx1. fst v \<noteq> oid)\<close> by simp
  then have nb: "\<not> si_is_built idx2"
    using spatial_index_remove_ok [OF b(2), of oid] r(1) by (auto split: option.splits)
  have "si_block_tree idx2 = si_block_tree idx1" using remove_block_tree [of malloc_ok idx1 oid] by (simp add: r(1))
  from knn_block_tree [OF this] k(1) have q: "spatial_index_query_knn malloc_ok idx2 q k res = (SI_OK, res')" by simp
  have "length (all_ptrs idx2) < length (all_ptrs idx)" using r(2) same(2) by (simp add: all_ptrs_length)
  from not_all_kept [OF distinct_all_ptrs [OF inv] this] obtain stale where
    "stale \<in> set (sr_objects res')" "stale \<notin> set (all_ptrs idx2)" unfolding all by blast
  with b(1) r(1) nb q show ?thesis by blast
qed

theorem spatial_index_knn_stale_after_remove_witness:
  "\<exists>oid idx1 idx2 res' stale. spatial_index_build isort_by malloc_ok sample_index_point = (SI_OK, idx1) \<and>
    spatial_index_remove malloc_ok idx1 oid = (SI_OK, idx2) \<and>
    spatial_index_query_knn malloc_ok idx2 \<lparr>px = d_two, py = d_one\<rparr> (length (si_objects sample_index_point))
      \<lparr>sr_objects = [], sr_capacity = 4, sr_pages_accessed = 0\<rparr> = (SI_OK, res') \<and>
    stale \<in> set (sr_objects res') \<and> stale \<notin> set (all_ptrs idx2)"
proof -
  obtain obj where o: "obj \<in> set (si_objects sample_index_point)" using sample_index_point_facts(2) by (meson last_in_set)
  have "spatial_index_get sample_index_point (so_id obj) \<noteq> None"
  proof
    assume "spatial_index_get sample_index_point (so_id obj) = None"
    then have "\<forall>obj' \<in> set (si_objects sample_index_point). so_id obj' \<noteq> so_id obj"
      using spatial_index_get_cases [of sample_index_point "so_id obj"] by simp
    with o show False by blast
  qed
  then obtain p where "spatial_index_get sample_index_point (so_id obj) = Some p" by blast
  from spatial_index_knn_stale_after_remove [OF sample_index_point_facts(1) isort_by_contract sample_index_point_facts(3) this
      sample_query_finite order_refl]
  show ?thesis by blast
qed

end
