(* ===== verification/SpatialIndex_Pages.thy ===== *)
theory SpatialIndex_Pages
  imports Persistence_Inv
begin

text \<open>
  The pages near a region: the quadtree over the extents of the pages that a build leaves behind, and
  the search in it.  The invariant says that the bounds of the index cover every stored object and that
  the extent of a page is computed from its objects alone.
\<close>

subsection \<open>Widening a coordinate\<close>

lemma widen:
  assumes "\<not> isnan a" "\<not> isnan d" "0 \<le> dkey d" "\<not> (isinf a \<and> isinf d)"
  shows "\<not> isnan (fadd a d)" "dkey a \<le> dkey (fadd a d)" "\<not> isnan (fsub a d)" "dkey (fsub a d) \<le> dkey a"
proof -
  have add: "\<not> isnan (fadd a e) \<and> (0 \<le> dkey e \<longrightarrow> dkey a \<le> dkey (fadd a e)) \<and> (dkey e \<le> 0 \<longrightarrow> dkey (fadd a e) \<le> dkey a)"
    if e: "\<not> isnan e" "\<not> (isinf a \<and> isinf e)" for e
  proof (cases "finite_d a \<and> finite_d e")
    case True
    then have f: "finite_d a" "finite_d e" by simp_all
    have z: "dval (mk_double False 0) = 0" "dkey (mk_double False 0) = 0" by (simp_all add: dval_def dkey_def mk_double_mag)
    have s: "0 \<le> dval e \<longleftrightarrow> 0 \<le> dkey e" "dval e \<le> 0 \<longleftrightarrow> dkey e \<le> 0"
      using dval_le_iff [of "mk_double False 0" e] dval_le_iff [of e "mk_double False 0"] by (simp_all add: z)
    have "0 \<le> dkey e \<longrightarrow> real_of_int (dval a) \<le> real_of_int (dval a) + dval e"
      "dkey e \<le> 0 \<longrightarrow> real_of_int (dval a) + dval e \<le> real_of_int (dval a)" by (simp_all add: s [symmetric])
    then show ?thesis using fadd_rounds [OF f] rounds_to_lower [OF f(1)] rounds_to_upper [OF f(1)] by blast
  next
    case False
    then have i: "isinf a \<or> isinf e" using finite_cases assms(1) e(1) by blast
    have "dkey x = inf_mag \<or> dkey x = - inf_mag" if "isinf x" for x using that by (auto simp: isinf_def dkey_def)
    then have inf: "dkey e = inf_mag \<or> dkey e = - inf_mag" if "isinf e" using that .
    have "0 < inf_mag" by (simp add: inf_mag_def)
    then show ?thesis using i e assms(1) dkey_bounds [OF assms(1)] inf by (cases "isinf a") (auto simp: fadd_def)
  qed
  show "\<not> isnan (fadd a d)" "dkey a \<le> dkey (fadd a d)" using add [of d] assms by simp_all
  show "\<not> isnan (fsub a d)" "dkey (fsub a d) \<le> dkey a" using add [of "fneg d"] assms by (simp_all add: fsub_def)
qed

lemma small_constants:
  "finite_d d_1e_9" "0 < dkey d_1e_9" "finite_d d_1e_6" "0 < dkey d_1e_6" "finite_d d_0_01" "dmag d_0_01 \<noteq> 0"
  by code_simp+

definition finite_region :: "MBR \<Rightarrow> bool" where
  "finite_region m = (finite_d (min_x m) \<and> finite_d (min_y m) \<and> finite_d (max_x m) \<and> finite_d (max_y m))"

lemma finite_region_num: "finite_region m \<Longrightarrow> mbr_num m"
  by (simp add: finite_region_def mbr_num_def finite_not_nan)

definition margin :: "double \<Rightarrow> double \<Rightarrow> double" where
  "margin lo hi = (let d = fmul (fsub hi lo) d_0_01 in if flt d d_1e_6 then d_1e_6 else d)"

lemma margin_ok:
  assumes "finite_d lo" "finite_d hi"
  shows "\<not> isnan (margin lo hi)" "0 \<le> dkey (margin lo hi)"
proof -
  let ?w = "fsub hi lo"
  have w: "\<not> isnan ?w" by (rule fsub_rounds(2) [OF assms(2,1)])
  have c: "\<not> isnan d_0_01" "dmag d_0_01 \<noteq> 0" "\<not> isnan d_1e_6"
    using small_constants finite_not_nan by auto
  have d: "\<not> isnan (fmul ?w d_0_01)"
  proof (cases "finite_d ?w")
    case True
    then show ?thesis using fmul_rounds(2) small_constants by blast
  next
    case False
    then have "isinf ?w" using finite_cases w by blast
    moreover have "dmag ?w \<noteq> 0" using calculation by (auto simp: isinf_def inf_mag_def)
    ultimately show ?thesis using w c by (simp add: fmul_def isnan_def mk_double_mag inf_mag_def)
  qed
  show "\<not> isnan (margin lo hi)" using d c by (simp add: margin_def Let_def)
  show "0 \<le> dkey (margin lo hi)"
    using d c small_constants(4) by (auto simp: margin_def Let_def order_rules)
qed

lemma expand_region_margin:
  "expand_region m = mbr_create (fsub (min_x m) (margin (min_x m) (max_x m))) (fsub (min_y m) (margin (min_y m) (max_y m)))
     (fadd (max_x m) (margin (min_x m) (max_x m))) (fadd (max_y m) (margin (min_y m) (max_y m)))"
  by (simp add: expand_region_def margin_def Let_def)

lemma expand_region_wider:
  assumes "finite_region m"
  shows "mbr_num (expand_region m)" "dkey (min_x (expand_region m)) \<le> dkey (min_x m)" "dkey (min_y (expand_region m)) \<le> dkey (min_y m)"
    "dkey (max_x m) \<le> dkey (max_x (expand_region m))" "dkey (max_y m) \<le> dkey (max_y (expand_region m))"
proof -
  have f: "finite_d (min_x m)" "finite_d (min_y m)" "finite_d (max_x m)" "finite_d (max_y m)" using assms by (simp_all add: finite_region_def)
  have no_inf: "finite_d a \<Longrightarrow> \<not> isinf a" for a by (simp add: finite_d_def isinf_def)
  note x = margin_ok [OF f(1,3)] and y = margin_ok [OF f(2,4)]
  have w: "\<not> isnan (fadd a e) \<and> dkey a \<le> dkey (fadd a e) \<and> \<not> isnan (fsub a e) \<and> dkey (fsub a e) \<le> dkey a"
    if "finite_d a" "\<not> isnan e" "0 \<le> dkey e" for a e
    using widen [of a e] that no_inf finite_not_nan by blast
  show "mbr_num (expand_region m)" "dkey (min_x (expand_region m)) \<le> dkey (min_x m)" "dkey (min_y (expand_region m)) \<le> dkey (min_y m)"
    "dkey (max_x m) \<le> dkey (max_x (expand_region m))" "dkey (max_y m) \<le> dkey (max_y (expand_region m))"
    using w [OF f(1) x] w [OF f(2) y] w [OF f(3) x] w [OF f(4) y]
    by (simp_all add: expand_region_margin mbr_create_def mbr_num_def)
qed

text \<open>A rectangle that meets the region meets the expanded region and is adjacent to the region.\<close>

lemma meets_is_near:
  assumes "mbr_num e" "finite_region m" "mbr_intersects e m"
  shows "mbr_intersects e (expand_region m) \<and> mbr_adjacent_or_intersects e m"
proof -
  note x = expand_region_wider [OF assms(2)] and m = finite_region_num [OF assms(2)]
  have k: "dkey (min_x e) \<le> dkey (max_x e)" "dkey (min_y e) \<le> dkey (max_y e)" "dkey (min_x m) \<le> dkey (max_x m)"
    "dkey (min_y m) \<le> dkey (max_y m)" "dkey (min_x m) \<le> dkey (max_x e)" "dkey (min_x e) \<le> dkey (max_x m)"
    "dkey (min_y m) \<le> dkey (max_y e)" "dkey (min_y e) \<le> dkey (max_y m)"
    using assms(3) mbr_intersects_key [OF assms(1) m] by simp_all
  have "mbr_intersects e (expand_region m)" using k x by (simp add: mbr_intersects_key [OF assms(1) x(1)])
  moreover have t: "\<not> isnan (fadd a d_1e_9) \<and> dkey a \<le> dkey (fadd a d_1e_9) \<and> \<not> isnan (fsub a d_1e_9) \<and> dkey (fsub a d_1e_9) \<le> dkey a"
    if "\<not> isnan a" for a
  proof -
    have "\<not> isinf d_1e_9" "\<not> isnan d_1e_9" using small_constants(1) by (simp_all add: finite_d_def isinf_def isnan_def)
    then show ?thesis using widen [of a d_1e_9] that small_constants(2) by simp
  qed
  have "mbr_adjacent_or_intersects e m"
    using t [of "max_x e"] t [of "min_x e"] t [of "max_y e"] t [of "min_y e"] assms(1) m k
    by (simp add: mbr_adjacent_or_intersects_def mbr_num_def order_rules)
  ultimately show ?thesis ..
qed

subsection \<open>The tree over the pages\<close>

definition page_item :: "(nat \<Rightarrow> Page) \<Rightarrow> nat \<Rightarrow> nat QTItem" where
  "page_item pages a = \<lparr>qi_id = ucast (page_id (pages a)), qi_bounds = page_extent (pages a),
     qi_centroid = ph_centroid (pg_header (pages a)), qi_data = a\<rparr>"

text \<open>What the tree holds after some pages have been inserted: nonempty pages that meet its bounds, each once.\<close>

definition page_tree :: "(nat \<Rightarrow> Page) \<Rightarrow> MBR \<Rightarrow> nat list \<Rightarrow> nat QuadTree \<Rightarrow> bool" where
  "page_tree pages b as qt = (qt_inv (qt_root qt) \<and> qt_root qt \<noteq> QTNull \<and> qn_bounds (qt_root qt) = b \<and>
     qt_node_capacity qt = 8 \<and> mset (qt_items (qt_root qt)) \<subseteq># mset (map (page_item pages) as) \<and>
     (length as \<le> 8 \<longrightarrow> qn_leaf (qt_root qt) \<and> qt_items (qt_root qt) = map (page_item pages) as))"

definition in_tree :: "(nat \<Rightarrow> Page) \<Rightarrow> MBR \<Rightarrow> nat \<Rightarrow> bool" where
  "in_tree pages b a = (pg_objects (pages a) \<noteq> [] \<and> mbr_intersects b (page_extent (pages a)))"

lemma leaf_insert:
  assumes "mbr_intersects b (qi_bounds item)" "length items < k"
  shows "qtnode_insert malloc_ok (QTNode b items cap nw ne sw se d True) item k md =
    qtnode_append malloc_ok (QTNode b items cap nw ne sw se d True) item"
  using assms by (simp add: qtnode_insert.simps Let_def)

lemma leaf_append: "\<exists>cap'. qtnode_append malloc_ok (QTNode b items cap nw ne sw se d True) item =
    (QT_OK, QTNode b (items @ [item]) cap' nw ne sw se d True)"
  by (simp add: qtnode_append_def Let_def malloc_ok_simp)

lemma insert_page_item_tree:
  assumes t: "page_tree pages b as qt"
  shows "page_tree pages b (if in_tree pages b a then as @ [a] else as) (insert_page_item malloc_ok pages a qt)"
proof (cases "pg_objects (pages a) = []")
  case True
  then show ?thesis using t by (simp add: insert_page_item_def in_tree_def)
next
  case ne: False
  obtain rt n k md where qt: "qt = \<lparr>qt_root = rt, qt_total_items = n, qt_node_capacity = k, qt_max_depth = md\<rparr>" by (cases qt)
  let ?item = "page_item pages a"
  obtain err rt' where r: "qtnode_insert malloc_ok rt ?item 8 md = (err, rt')" by (cases "qtnode_insert malloc_ok rt ?item 8 md")
  have rt: "qt_inv rt" "rt \<noteq> QTNull" "qn_bounds rt = b" "k = 8" "mset (qt_items rt) \<subseteq># mset (map (page_item pages) as)"
    "length as \<le> 8 \<longrightarrow> qn_leaf rt \<and> qt_items rt = map (page_item pages) as"
    using t by (simp_all add: page_tree_def qt)
  have root: "qt_root (insert_page_item malloc_ok pages a qt) = rt'" "qt_node_capacity (insert_page_item malloc_ok pages a qt) = 8"
    using ne r rt(2,4) by (simp_all add: insert_page_item_def quadtree_insert_with_centroid_def qt page_item_def)
  show ?thesis
  proof (cases "mbr_intersects b (page_extent (pages a))")
    case False
    then have "rt' = rt" using insert_outside [OF rt(2), of ?item] r rt(3) by (simp add: page_item_def)
    with rt False show ?thesis by (simp add: page_tree_def root in_tree_def)
  next
    case True
    have ins: "inserted rt ?item (err, rt')" using insert_correct [OF rt(1,2), where item = ?item and k = 8 and md = md] r by metis
    have ok: "err = QT_OK" using insert_malloc_ok [OF rt(2), of ?item 8 md] r rt(3) True by (simp add: page_item_def)
    have i: "qt_inv rt'" "qn_bounds rt' = b" "rt' \<noteq> QTNull" "mset (qt_items rt') \<subseteq># add_mset ?item (mset (qt_items rt))"
      using ins rt(3) by (auto simp: inserted_def ins_mset_def ok)
    have sub: "mset (qt_items rt') \<subseteq># mset (map (page_item pages) (as @ [a]))"
      using subset_mset.order_trans [OF i(4)] rt(5) by simp
    have "qn_leaf rt' \<and> qt_items rt' = map (page_item pages) (as @ [a])" if "length (as @ [a]) \<le> 8"
    proof -
      have leaf: "qn_leaf rt" "qt_items rt = map (page_item pages) as" using rt(6) that by simp_all
      obtain items cap nw ne sw se d where n: "rt = QTNode b items cap nw ne sw se d True" "items = map (page_item pages) as"
        using leaf rt(2,3) by (cases rt) auto
      have "length items < 8" using that by (simp add: n(2))
      then have "qtnode_insert malloc_ok rt ?item 8 md = qtnode_append malloc_ok rt ?item"
        using True unfolding n(1) by (intro leaf_insert) (simp_all add: page_item_def)
      moreover obtain cap' where "qtnode_append malloc_ok rt ?item = (QT_OK, QTNode b (items @ [?item]) cap' nw ne sw se d True)"
        using leaf_append n(1) by blast
      ultimately have "rt' = QTNode b (items @ [?item]) cap' nw ne sw se d True" using r by simp
      then show ?thesis by (simp add: n(2))
    qed
    then show ?thesis using i sub ne True by (simp add: page_tree_def root in_tree_def)
  qed
qed

lemma insert_page_items_tree:
  "page_tree pages b as qt \<Longrightarrow> page_tree pages b (as @ filter (in_tree pages b) new) (fold (insert_page_item malloc_ok pages) new qt)"
proof (induction new arbitrary: as qt)
  case (Cons a new)
  from Cons.IH [OF insert_page_item_tree [OF Cons.prems, of a]] show ?case by (simp split: if_splits)
qed simp

lemma build_page_tree:
  assumes "sc_build_quadtree (si_config idx)" "pp_pages (si_pool idx) \<noteq> []"
  shows "\<exists>qt. build_page_quadtree malloc_ok idx = (SI_OK, idx\<lparr>si_page_tree := Some qt\<rparr>) \<and>
    page_tree (hp_page (si_heap idx)) (si_bounds idx) (filter (in_tree (hp_page (si_heap idx)) (si_bounds idx)) (pp_pages (si_pool idx))) qt"
proof -
  obtain qt0 :: "nat QuadTree" where q: "quadtree_create malloc_ok (si_bounds idx) 8 QT_MAX_DEPTH = Some qt0"
    "page_tree (hp_page (si_heap idx)) (si_bounds idx) [] qt0"
    by (auto simp: quadtree_create_def quadtree_init_def qtnode_create_def malloc_ok_simp Let_def page_tree_def)
  have "build_page_quadtree malloc_ok idx =
      (SI_OK, idx\<lparr>si_page_tree := Some (fold (insert_page_item malloc_ok (hp_page (si_heap idx))) (pp_pages (si_pool idx)) qt0)\<rparr>)"
    using assms q(1) by (simp add: build_page_quadtree_def Let_def)
  with insert_page_items_tree [OF q(2), of "pp_pages (si_pool idx)"] show ?thesis
    unfolding append_Nil by blast
qed

lemma create_blocks_fields:
  "si_bounds (fold (\<lambda>b i. snd (create_block malloc_ok i b)) bs i) = si_bounds i"
  "si_config (fold (\<lambda>b i. snd (create_block malloc_ok i b)) bs i) = si_config i"
proof -
  have "si_bounds (snd (create_block malloc_ok i b)) = si_bounds i" "si_config (snd (create_block malloc_ok i b)) = si_config i" for i b
    by (simp_all add: create_block_def Let_def split: prod.splits)
  then show "si_bounds (fold (\<lambda>b i. snd (create_block malloc_ok i b)) bs i) = si_bounds i"
    "si_config (fold (\<lambda>b i. snd (create_block malloc_ok i b)) bs i) = si_config i"
    by (induction bs arbitrary: i) simp_all
qed

lemma build_leaves_tree:
  assumes run: "spatial_index_build qs malloc_ok idx = (SI_OK, idx')" and inv: "si_inv idx" and ne: "si_objects idx \<noteq> []"
    and cfg: "sc_build_quadtree (si_config idx)"
  shows "\<exists>qt. si_page_tree idx' = Some qt \<and>
    page_tree (hp_page (si_heap idx)) (si_bounds idx) (filter (in_tree (hp_page (si_heap idx)) (si_bounds idx)) (pp_pages (si_pool idx))) qt"
proof -
  obtain err bt where bt: "kdtree_bulk_load qs malloc_ok kdtree_init (map (object_point idx) (all_ptrs idx)) = (err, bt)"
    by (cases "kdtree_bulk_load qs malloc_ok kdtree_init (map (object_point idx) (all_ptrs idx))")
  obtain perr bounds where part: "kdtree_partition malloc_ok bt (sc_block_size (si_config idx)) = (perr, bounds)"
    by (cases "kdtree_partition malloc_ok bt (sc_block_size (si_config idx))")
  define idx2 where "idx2 = idx\<lparr>si_block_tree := bt, si_blocks := [], si_block_capacity := (if length bounds > 0 then length bounds else 16)\<rparr>"
  define idx3 where "idx3 = fold (\<lambda>b i. snd (create_block malloc_ok i b)) bounds idx2"
  have inv2: "si_inv idx2" using inv by (simp add: idx2_def si_inv_def)
  have i3: "si_heap idx3 = si_heap idx" "pp_pages (si_pool idx3) = pp_pages (si_pool idx)" "si_bounds idx3 = si_bounds idx"
    "si_config idx3 = si_config idx"
    using create_blocks_same [OF inv2, of bounds] create_blocks_fields [of bounds idx2] by (simp_all add: idx3_def idx2_def Let_def)
  have "pp_pages (si_pool idx) \<noteq> []" using ne by (auto simp: si_objects_def)
  then obtain qt where q: "build_page_quadtree malloc_ok idx3 = (SI_OK, idx3\<lparr>si_page_tree := Some qt\<rparr>)"
    "page_tree (hp_page (si_heap idx)) (si_bounds idx) (filter (in_tree (hp_page (si_heap idx)) (si_bounds idx)) (pp_pages (si_pool idx))) qt"
    using build_page_tree [of idx3] cfg unfolding i3 by blast
  have total: "pool_object_count (si_heap idx) (si_pool idx) \<noteq> 0" using ne by (simp add: pool_object_count_length)
  have "(if err \<noteq> KD_OK \<or> perr \<noteq> KD_OK then (SI_ERR_ALLOC, idx\<lparr>si_block_tree := bt\<rparr>)
      else (SI_OK, idx3\<lparr>si_page_tree := Some qt, si_is_built := True\<rparr>)) = (SI_OK, idx')"
    using run total bt part q(1) unfolding idx3_def idx2_def by (simp add: spatial_index_build_def malloc_ok_simp Let_def split: if_splits)
  then have "si_page_tree idx' = Some qt" by (auto split: if_splits)
  with q(2) show ?thesis by blast
qed

subsection \<open>The bounds of the index cover the pages\<close>

definition tight_page :: "Page \<Rightarrow> bool" where
  "tight_page p = (pg_objects p \<noteq> [] \<longrightarrow> page_extent p = fold (\<lambda>b m. mbr_expand_mbr m b) (map so_mbr (pg_objects p)) mbr_empty)"

lemma tight_update [simp]: "tight_page (page_update_derived p)"
  by (simp add: tight_page_def)

definition tight :: "DiskManager \<Rightarrow> bool" where
  "tight dm = (\<forall>a \<in> set (pp_pages (dm_pool dm)). tight_page (dm_page dm a))"

lemma tight_rebuild [simp]: "tight (disk_manager_rebuild_allocation_tree malloc_ok dm) = tight dm"
  by (simp add: tight_def dm_page_def rebuild_inv)

lemma tight_set_page: "tight dm \<Longrightarrow> tight_page p \<Longrightarrow> tight (dm_set_page dm a p)"
  by (auto simp: tight_def)

lemma tight_insert:
  assumes inv: "si_inv idx" and t: "tight (si_disk idx)"
  shows "tight (si_disk (fst (snd (spatial_index_insert malloc_ok idx obj))))"
proof -
  have dm: "dm_inv (si_disk idx)" using inv by (simp add: si_inv_def)
  obtain a dm2 p where s: "dm2 = si_disk idx \<or> disk_manager_alloc_page malloc_ok (si_disk idx) (so_centroid (insert_object idx obj)) = (Some a, dm2)"
    "si_disk (fst (snd (spatial_index_insert malloc_ok idx obj))) =
      disk_manager_rebuild_allocation_tree malloc_ok (dm_set_page (dm_set_page dm2 a p) a (page_update_derived p))"
    using insert_steps [OF inv, of obj] by blast
  have "tight dm2" using s(1)
  proof
    assume al: "disk_manager_alloc_page malloc_ok (si_disk idx) (so_centroid (insert_object idx obj)) = (Some a, dm2)"
    note f = alloc_page_frame [OF dm al] and o = disk_manager_alloc_page_ok [OF dm al]
    have "tight_page (dm_page dm2 a)" using o by (auto simp: tight_page_def dm_page_def)
    moreover have "dm_page dm2 b = dm_page (si_disk idx) b" if "b \<noteq> a" for b using f that by blast
    ultimately show ?thesis using o t unfolding tight_def by (metis Un_iff empty_iff insert_iff list.set set_append option.inject)
  qed (use t in simp)
  then show ?thesis unfolding s(2) tight_rebuild by (auto simp: tight_def)
qed

lemma tight_remove: "tight (si_disk idx) \<Longrightarrow> tight (si_disk (snd (spatial_index_remove malloc_ok idx oid)))"
  by (auto simp: spatial_index_remove_def Let_def tight_set_page split: option.split prod.split)

lemma build_same_pages:
  assumes "si_inv idx"
  shows "si_heap (snd (spatial_index_build qs malloc_ok idx)) = si_heap idx"
    "pp_pages (si_pool (snd (spatial_index_build qs malloc_ok idx))) = pp_pages (si_pool idx)"
    "si_config (snd (spatial_index_build qs malloc_ok idx)) = si_config idx"
proof -
  have blocks: "si_heap (fold (\<lambda>b i. snd (create_block malloc_ok i b)) bs i) = si_heap i \<and>
      pp_pages (si_pool (fold (\<lambda>b i. snd (create_block malloc_ok i b)) bs i)) = pp_pages (si_pool i)" if "si_inv i" for bs i
    using create_blocks_same [OF that, of bs] by (simp add: Let_def)
  have inv: "si_inv (idx\<lparr>si_block_tree := bt, si_blocks := bl, si_block_capacity := c\<rparr>)" for bt bl c
    using assms by (simp add: si_inv_def)
  have quad: "build_page_quadtree malloc_ok i = (err, i') \<Longrightarrow> si_disk i' = si_disk i \<and> si_config i' = si_config i" for err i i'
    by (auto simp: build_page_quadtree_def Let_def split: option.splits if_splits)
  have all: "let idx' = snd (spatial_index_build qs malloc_ok idx) in
      si_heap idx' = si_heap idx \<and> pp_pages (si_pool idx') = pp_pages (si_pool idx) \<and> si_config idx' = si_config idx"
    unfolding spatial_index_build_def Let_def
    by (auto simp: blocks [OF inv] create_blocks_fields malloc_ok_simp split: prod.split dest!: quad)
  show "si_heap (snd (spatial_index_build qs malloc_ok idx)) = si_heap idx"
    "pp_pages (si_pool (snd (spatial_index_build qs malloc_ok idx))) = pp_pages (si_pool idx)"
    "si_config (snd (spatial_index_build qs malloc_ok idx)) = si_config idx"
    using all by (simp_all add: Let_def)
qed

lemma tight_build:
  assumes "si_inv idx" "tight (si_disk idx)"
  shows "tight (si_disk (snd (spatial_index_build qs malloc_ok idx)))"
  using assms(2) by (simp add: tight_def dm_page_def build_same_pages [OF assms(1)])

text \<open>A rectangle inside another one, where an empty rectangle, too, has its four sides in order.\<close>

definition inside :: "MBR \<Rightarrow> MBR \<Rightarrow> bool" where
  "inside B e = (mbr_num B \<and> mbr_num e \<and> dkey (min_x B) \<le> dkey (min_x e) \<and> dkey (min_y B) \<le> dkey (min_y e) \<and>
     dkey (max_x e) \<le> dkey (max_x B) \<and> dkey (max_y e) \<le> dkey (max_y B))"

lemma expand_by_empty: "mbr_is_empty m \<Longrightarrow> mbr_expand_mbr e m = e"
  by (simp add: mbr_expand_mbr_def)

lemma inside_expand:
  assumes "inside B e" "bounds_mbr B m"
  shows "inside B (mbr_expand_mbr e m)"
proof (cases "mbr_is_empty m")
  case False
  have "mbr_num e" "mbr_num B" "mbr_num m" "mbr_contains_mbr B m" using assms False by (simp_all add: inside_def bounds_mbr_def)
  then show ?thesis using assms(1) mbr_expand_mbr_keys [OF _ _ False]
    by (simp add: inside_def mbr_expand_mbr_num mbr_contains_mbr_key)
qed (use assms in \<open>simp add: expand_by_empty\<close>)

lemma inside_wider:
  assumes "inside B e" "mbr_num m"
  shows "inside (mbr_expand_mbr B m) e"
proof (cases "mbr_is_empty m")
  case False
  have "mbr_num B" using assms by (simp add: inside_def)
  then show ?thesis using assms mbr_expand_mbr_keys [OF _ assms(2) False]
    by (simp add: inside_def mbr_expand_mbr_num min.coboundedI1 max.coboundedI1)
qed (use assms in \<open>simp add: expand_by_empty\<close>)

lemma inside_fold: "inside B e \<Longrightarrow> \<forall>m \<in> set ms. bounds_mbr B m \<Longrightarrow> inside B (fold (\<lambda>b m. mbr_expand_mbr m b) ms e)"
  by (induction ms arbitrary: e) (simp_all add: inside_expand)

lemma inside_intersects: "inside B e \<Longrightarrow> mbr_num q \<Longrightarrow> mbr_intersects e q \<Longrightarrow> mbr_intersects B q \<and> mbr_intersects B e"
  by (auto simp: inside_def mbr_intersects_key)

definition covers :: "SpatialIndex \<Rightarrow> bool" where
  "covers idx = (inside (si_bounds idx) mbr_empty \<and> (\<forall>v \<in># si_views idx. bounds_mbr (si_bounds idx) (view_mbr v)))"

lemma covers_insert:
  assumes inv: "si_inv idx" and num: "mbr_num (so_mbr (derived obj))" and c: "covers idx"
  shows "covers (fst (snd (spatial_index_insert malloc_ok idx obj)))"
proof -
  obtain idx' where i: "spatial_index_insert malloc_ok idx obj = (SI_OK, idx', insert_object idx obj)"
    "si_views idx' = add_mset (object_view (insert_object idx obj)) (si_views idx)"
    "si_bounds idx' = mbr_expand_mbr (si_bounds idx) (so_mbr (insert_object idx obj))"
    using spatial_index_insert_ok [OF inv, of obj] num by (auto simp: insert_object_mbr)
  have b: "mbr_num (si_bounds idx)" using c by (simp add: covers_def inside_def)
  note e = ext_mbr.expand_covers [OF b num] ext_mbr.expand_keeps [OF b num] ext_mbr.expand_rok [OF b num]
  show ?thesis using c e inside_wider num by (auto simp: covers_def i insert_object_mbr)
qed

lemma remove_fields:
  "si_bounds (snd (spatial_index_remove malloc_ok idx oid)) = si_bounds idx"
  by (auto simp: spatial_index_remove_def Let_def si_set_page_def split: option.split prod.split)

lemma covers_remove:
  assumes inv: "si_inv idx" and c: "covers idx"
  shows "covers (snd (spatial_index_remove malloc_ok idx oid))"
proof (cases "\<forall>v \<in># si_views idx. fst v \<noteq> oid")
  case True
  then have "spatial_index_remove malloc_ok idx oid = (SI_ERR_NOT_FOUND, idx)" using remove_sim [OF inv, of oid] by (simp only: if_True simp_thms)
  then show ?thesis using c by simp
next
  case False
  obtain idx' v where r: "spatial_index_remove malloc_ok idx oid = (SI_OK, idx')" "si_views idx = add_mset v (si_views idx')"
    using remove_sim [OF inv, of oid, unfolded if_not_P [OF False]] by blast
  have "si_bounds idx' = si_bounds idx" using remove_fields [of idx oid] by (simp add: r(1))
  then show ?thesis using c r(2) by (simp add: covers_def r(1))
qed

definition pages_ok :: "SpatialIndex \<Rightarrow> bool" where
  "pages_ok idx = (covers idx \<and> tight (si_disk idx))"

lemma pages_ok_step:
  assumes inv: "si_inv idx" and num: "op_num op" and p: "pages_ok idx"
  shows "pages_ok (si_apply qs op idx)"
proof (cases op)
  case (Op_insert obj)
  then show ?thesis using assms by (simp add: si_apply_def pages_ok_def covers_insert tight_insert)
next
  case (Op_remove oid)
  then show ?thesis using assms by (simp add: si_apply_def pages_ok_def covers_remove tight_remove)
next
  case (Op_update oid obj)
  obtain err idx1 where r: "spatial_index_remove malloc_ok idx oid = (err, idx1)" by (cases "spatial_index_remove malloc_ok idx oid")
  have p1: "pages_ok idx1" using covers_remove [OF inv, of oid] tight_remove [of idx oid] p r by (simp add: pages_ok_def)
  have inv1: "si_inv idx1" using si_step_sim [OF inv, of "Op_remove oid"] r by (simp add: si_apply_def)
  let ?copy = "(snd (spatial_object_copy malloc_ok obj))\<lparr>so_id := oid\<rparr>"
  have "mbr_num (so_mbr (derived ?copy))"
    using num view_mbr_with_id [OF update_object, of oid obj] by (simp add: Op_update)
  then have "pages_ok (fst (snd (spatial_index_insert malloc_ok idx1 ?copy)))"
    using p1 inv1 by (simp add: pages_ok_def covers_insert tight_insert)
  then show ?thesis
    using p1 by (cases "spatial_index_insert malloc_ok idx1 ?copy") (simp add: Op_update si_apply_def spatial_index_update_def r Let_def)
next
  case Op_build
  then show ?thesis using p inv build_same [OF inv, of qs]
    by (simp add: si_apply_def pages_ok_def covers_def tight_build build_bounds Let_def)
qed

lemma si_reach_pages_ok: "si_reach qs idx \<Longrightarrow> pages_ok idx"
proof (induction rule: si_reach.induct)
  case (start pages n config idx)
  have "si_bounds idx = mbr_empty" "pp_pages (si_pool idx) = []"
    using start by (auto simp: spatial_index_init_def disk_manager_init_def page_pool_init_def page_cache_init_def Let_def malloc_ok_simp
        zero_pool_def split: if_splits)
  moreover have "si_views idx = {#}" using spatial_index_init_inv [OF start] by blast
  ultimately show ?case by (simp add: pages_ok_def covers_def tight_def inside_def)
next
  case (step idx op)
  then show ?case using pages_ok_step si_reach_inv by blast
qed

lemma page_extent_inside:
  assumes p: "pages_ok idx" and a: "a \<in> set (pp_pages (si_pool idx))" "pg_objects (si_page idx a) \<noteq> []"
  shows "inside (si_bounds idx) (page_extent (si_page idx a))"
proof -
  have e: "page_extent (si_page idx a) = fold (\<lambda>b m. mbr_expand_mbr m b) (map so_mbr (pg_objects (si_page idx a))) mbr_empty"
    using p a by (simp add: pages_ok_def tight_def tight_page_def si_page_dm)
  have v: "bounds_mbr (si_bounds idx) (so_mbr obj)" if "obj \<in> set (pg_objects (si_page idx a))" for obj
  proof -
    have "obj \<in> set (si_objects idx)" using that a(1) by (auto simp: si_objects_def)
    then have "object_view obj \<in># si_views idx" by (simp add: si_views_def)
    then show ?thesis using p by (force simp: pages_ok_def covers_def)
  qed
  have "inside (si_bounds idx) mbr_empty" using p by (simp add: pages_ok_def covers_def)
  from inside_fold [OF this, of "map so_mbr (pg_objects (si_page idx a))"] show ?thesis using v by (simp add: e)
qed

subsection \<open>The search\<close>

text \<open>The pages near a region, as a scan of the pool: those whose extent meets the expanded region and is adjacent to the region.\<close>

definition near_page :: "SpatialIndex \<Rightarrow> MBR \<Rightarrow> nat \<Rightarrow> bool" where
  "near_page idx region a = (pg_objects (si_page idx a) \<noteq> [] \<and>
     mbr_intersects (page_extent (si_page idx a)) (expand_region region) \<and>
     mbr_adjacent_or_intersects (page_extent (si_page idx a)) region)"

definition near_item :: "MBR \<Rightarrow> nat QTItem \<Rightarrow> bool" where
  "near_item region i = (mbr_intersects (qi_bounds i) (expand_region region) \<and> mbr_adjacent_or_intersects (qi_bounds i) region)"

lemma find_adjacent_on_tree:
  assumes i: "qt_inv (qt_root qt)" and num: "mbr_num (expand_region region)"
    and vis: "\<forall>i \<in> set (qt_items (qt_root qt)). mbr_num (qi_bounds i) \<and> inside (qn_bounds (qt_root qt)) (qi_bounds i)"
  shows "\<exists>r. quadtree_find_adjacent_to_region malloc_ok qt region r0 = (QT_OK, r) \<and>
    qr_items r = filter (near_item region) (qt_items (qt_root qt))"
proof -
  obtain all0 :: "nat QTQueryResult" where z: "qtresult_init malloc_ok 64 = (QT_OK, all0)" "qr_items all0 = []" using qtresult_init_ok by blast
  have scan: "qr_items (qtnode_query_range malloc_ok (qt_root qt) (expand_region region) all0) =
      filter (\<lambda>i. mbr_intersects (qi_bounds i) (expand_region region)) (qt_items (qt_root qt))"
  proof (cases "mbr_intersects (qn_bounds (qt_root qt)) (expand_region region)")
    case True
    then show ?thesis using query_range_scan [OF num i, of all0] z(2) by simp
  next
    case False
    then have "\<not> mbr_intersects (qi_bounds i) (expand_region region)" if "i \<in> set (qt_items (qt_root qt))" for i
      using vis that num inside_intersects by blast
    then show ?thesis using query_range_outside [OF False] z(2) by (simp add: filter_empty_conv)
  qed
  show ?thesis
    using z(1) by (simp add: quadtree_find_adjacent_to_region_def scan near_item_def [abs_def])
qed

lemma near_items:
  assumes p: "pages_ok idx" and num: "mbr_num (expand_region region)"
  shows "filter (near_item region) (map (page_item (hp_page (si_heap idx)))
      (filter (in_tree (hp_page (si_heap idx)) (si_bounds idx)) (pp_pages (si_pool idx)))) =
    map (page_item (hp_page (si_heap idx))) (filter (near_page idx region) (pp_pages (si_pool idx)))"
proof -
  have "(near_item region (page_item (hp_page (si_heap idx)) a) \<and> in_tree (hp_page (si_heap idx)) (si_bounds idx) a) = near_page idx region a"
    if "a \<in> set (pp_pages (si_pool idx))" for a
    using page_extent_inside [OF p that] inside_intersects [OF _ num]
    by (auto simp: near_item_def near_page_def in_tree_def page_item_def si_page_def)
  then show ?thesis by (auto simp: filter_map o_def conj_commute intro!: arg_cong [of _ _ "map _"] filter_cong)
qed

lemma find_adjacent_after_build:
  assumes reach: "si_reach qs idx" and run: "spatial_index_build qs malloc_ok idx = (SI_OK, idx')" and ne: "si_objects idx \<noteq> []"
    and cfg: "sc_build_quadtree (si_config idx)" and num: "mbr_num (expand_region region)"
  shows "\<exists>found. spatial_index_find_adjacent_pages malloc_ok idx' region =
      (SI_OK, \<lparr>ar_pages = found, ar_track_ids = map (\<lambda>a. ph_track_id (pg_header (si_page idx a))) found\<rparr>, idx') \<and>
    mset found \<subseteq># mset (filter (near_page idx region) (pp_pages (si_pool idx))) \<and>
    (length (filter (\<lambda>a. pg_objects (si_page idx a) \<noteq> []) (pp_pages (si_pool idx))) \<le> 8 \<longrightarrow>
      found = filter (near_page idx region) (pp_pages (si_pool idx)))"
proof -
  note inv = si_reach_inv [OF reach] and p = si_reach_pages_ok [OF reach]
  let ?pages = "hp_page (si_heap idx)" and ?B = "si_bounds idx"
  let ?in = "filter (in_tree ?pages ?B) (pp_pages (si_pool idx))" and ?near = "filter (near_page idx region) (pp_pages (si_pool idx))"
  obtain qt where qt: "si_page_tree idx' = Some qt" "page_tree ?pages ?B ?in qt"
    using build_leaves_tree [OF run inv ne cfg] by blast
  have t: "qt_inv (qt_root qt)" "qn_bounds (qt_root qt) = ?B" "mset (qt_items (qt_root qt)) \<subseteq># mset (map (page_item ?pages) ?in)"
    "length ?in \<le> 8 \<longrightarrow> qt_items (qt_root qt) = map (page_item ?pages) ?in"
    using qt(2) by (simp_all add: page_tree_def)
  have "\<exists>a \<in> set ?in. i = page_item ?pages a" if "i \<in> set (qt_items (qt_root qt))" for i
    using mset_subset_eqD [OF t(3), of i] that by auto
  then have vis: "\<forall>i \<in> set (qt_items (qt_root qt)). mbr_num (qi_bounds i) \<and> inside (qn_bounds (qt_root qt)) (qi_bounds i)"
    using page_extent_inside [OF p] by (fastforce simp: t(2) in_tree_def page_item_def si_page_def inside_def)
  obtain r0 :: "nat QTQueryResult" where z: "qtresult_init malloc_ok 64 = (QT_OK, r0)" using qtresult_init_ok by blast
  obtain r where r: "quadtree_find_adjacent_to_region malloc_ok qt region r0 = (QT_OK, r)"
    "qr_items r = filter (near_item region) (qt_items (qt_root qt))"
    using find_adjacent_on_tree [OF t(1) num vis] by blast
  have page: "si_page idx' a = si_page idx a" for a
    using build_same_pages(1) [OF inv, of qs] by (simp add: run si_page_def)
  define found where "found = map qi_data (qr_items r)"
  have run': "spatial_index_find_adjacent_pages malloc_ok idx' region =
      (SI_OK, \<lparr>ar_pages = found, ar_track_ids = map (\<lambda>a. ph_track_id (pg_header (si_page idx a))) found\<rparr>, idx')"
    using z r(1) qt(1) by (simp add: spatial_index_find_adjacent_pages_def malloc_ok_simp Let_def found_def page o_def)
  have datas: "map qi_data (map (page_item ?pages) xs) = xs" for xs by (simp add: o_def page_item_def)
  have "mset (qr_items r) \<subseteq># mset (filter (near_item region) (map (page_item ?pages) ?in))"
    unfolding r(2) mset_filter by (rule multiset_filter_mono [OF t(3)])
  then have "mset found \<subseteq># mset (map qi_data (map (page_item ?pages) ?near))"
    unfolding near_items [OF p num] found_def mset_map by (rule image_mset_subseteq_mono)
  then have "mset found \<subseteq># mset ?near" unfolding datas .
  moreover have "found = ?near" if "length (filter (\<lambda>a. pg_objects (si_page idx a) \<noteq> []) (pp_pages (si_pool idx))) \<le> 8"
  proof -
    have "length ?in \<le> length (filter (\<lambda>a. pg_objects (si_page idx a) \<noteq> []) (pp_pages (si_pool idx)))"
      by (induction "pp_pages (si_pool idx)") (auto simp: in_tree_def si_page_def length_filter_conv_card intro!: card_mono)
    then have "qr_items r = map (page_item ?pages) ?near" using t(4) that near_items [OF p num] by (simp add: r(2))
    then show ?thesis by (simp only: found_def datas)
  qed
  ultimately show ?thesis using run' by blast
qed

end
