(* ===== verification/SpatialIndex_Fail.thy ===== *)
theory SpatialIndex_Fail
  imports SpatialIndex_Sim
begin

text \<open>
  The index when allocations fail.  For every allocator, an operation that fails leaves the stored
  objects as they were.
\<close>

subsection \<open>The steps of an insertion\<close>

definition with_next_id :: "SpatialIndex \<Rightarrow> SpatialObject \<Rightarrow> SpatialIndex" where
  "with_next_id idx obj = (if so_id obj = 0 then idx\<lparr>si_next_object_id := si_next_object_id idx + 1\<rparr> else idx)"

definition put_in_page :: "allocator \<Rightarrow> SpatialIndex \<Rightarrow> nat \<Rightarrow> SpatialObject \<Rightarrow> (SpatialIndexError + nat) \<times> SpatialIndex" where
  "put_in_page al idx2 a obj =
     (case page_add_object al (si_page idx2 a) obj of (err, page) \<Rightarrow>
        if err = PAGE_OK then (Inr a, si_set_page idx2 a page)
        else case disk_manager_alloc_page al (si_disk idx2) (so_centroid obj) of
          (None, dm) \<Rightarrow> (Inl SI_ERR_ALLOC, idx2\<lparr>si_disk := dm\<rparr>)
        | (Some a', dm) \<Rightarrow>
            (case page_add_object al (si_page (idx2\<lparr>si_disk := dm\<rparr>) a') obj of (err', page') \<Rightarrow>
               if err' \<noteq> PAGE_OK then (Inl SI_ERR_FULL, idx2\<lparr>si_disk := dm\<rparr>)
               else (Inr a', si_set_page (idx2\<lparr>si_disk := dm\<rparr>) a' page')))"

definition finish_insert :: "allocator \<Rightarrow> SpatialIndex \<Rightarrow> nat \<Rightarrow> SpatialObject \<Rightarrow> SpatialIndex" where
  "finish_insert al idx3 a obj =
     (let idx4 = si_set_page idx3 a (page_update_derived (si_page idx3 a))
      in idx4\<lparr>si_disk := disk_manager_rebuild_allocation_tree al (si_disk idx4),
           si_bounds := mbr_expand_mbr (si_bounds idx4) (so_mbr obj), si_is_built := False\<rparr>)"

lemma insert_unfold:
  "spatial_index_insert al idx obj =
     (case get_page_for_insert al (with_next_id idx obj) (insert_object idx obj) of
        (None, idx2) \<Rightarrow> (SI_ERR_ALLOC, idx2, insert_object idx obj)
      | (Some a, idx2) \<Rightarrow>
          (case put_in_page al idx2 a (insert_object idx obj) of
             (Inl e, idx3) \<Rightarrow> (e, idx3, insert_object idx obj)
           | (Inr a'', idx3) \<Rightarrow> (SI_OK, finish_insert al idx3 a'' (insert_object idx obj), insert_object idx obj)))"
proof -
  define idx1 where "idx1 = with_next_id idx obj"
  define obj2 where "obj2 = insert_object idx obj"
  obtain r idx2 where r: "get_page_for_insert al idx1 obj2 = (r, idx2)" by (cases "get_page_for_insert al idx1 obj2")
  have first: "(if so_id obj = 0 then (obj\<lparr>so_id := si_next_object_id idx\<rparr>, idx\<lparr>si_next_object_id := si_next_object_id idx + 1\<rparr>) else (obj, idx)) =
      (if so_id obj = 0 then obj\<lparr>so_id := si_next_object_id idx\<rparr> else obj, idx1)"
    by (simp add: idx1_def with_next_id_def)
  have two: "snd (spatial_object_update_derived (if so_id obj = 0 then obj\<lparr>so_id := si_next_object_id idx\<rparr> else obj)) = obj2"
    by (simp add: obj2_def insert_object_def)
  show ?thesis
  proof (cases r)
    case None
    then show ?thesis using r unfolding idx1_def [symmetric] obj2_def [symmetric]
      by (simp only: spatial_index_insert_def first Let_def prod.case two option.case)
  next
    case (Some a)
    show ?thesis
      unfolding spatial_index_insert_def first Let_def prod.case two r Some option.case idx1_def [symmetric] obj2_def [symmetric]
      by (simp add: put_in_page_def finish_insert_def Let_def split: prod.split option.split)
  qed
qed

lemma insert_config: "si_config (fst (snd (spatial_index_insert al idx obj))) = si_config idx"
proof -
  have g: "si_config (snd (get_page_for_insert al i obj')) = si_config i" for i obj'
    by (auto simp: get_page_for_insert_def Let_def split: option.split prod.split)
  have p: "si_config (snd (put_in_page al i a obj')) = si_config i" for i a obj'
    by (auto simp: put_in_page_def si_set_page_def split: option.split prod.split)
  have f: "si_config (finish_insert al i a obj') = si_config i" for i a obj'
    by (simp add: finish_insert_def si_set_page_def Let_def)
  have w: "si_config (with_next_id idx obj) = si_config idx" by (simp add: with_next_id_def)
  obtain r idx2 where r: "get_page_for_insert al (with_next_id idx obj) (insert_object idx obj) = (r, idx2)"
    by (cases "get_page_for_insert al (with_next_id idx obj) (insert_object idx obj)")
  have c2: "si_config idx2 = si_config idx" using g [of "with_next_id idx obj" "insert_object idx obj"] w by (simp add: r)
  show ?thesis
  proof (cases r)
    case (Some a)
    obtain t idx3 where t: "put_in_page al idx2 a (insert_object idx obj) = (t, idx3)" by (cases "put_in_page al idx2 a (insert_object idx obj)")
    then have "si_config idx3 = si_config idx" using p [of idx2 a "insert_object idx obj"] c2 by simp
    then show ?thesis by (cases t) (simp_all add: insert_unfold r Some t f)
  qed (simp add: insert_unfold r c2)
qed

subsection \<open>Copies\<close>

lemma polygon_add_hole_any:
  "polygon_add_hole al d n = (GEOM_OK, d') \<Longrightarrow> exterior d' = exterior d \<and> (\<exists>c. holes d' = holes d @ [\<lparr>r_points = [], r_capacity = c\<rparr>])"
  by (auto simp: polygon_add_hole_def polygon_grow_holes_def Let_def split: if_splits)

lemma polygon_copy_holes_any:
  "polygon_copy_holes al d hs = (GEOM_OK, d') \<Longrightarrow>
    exterior d' = exterior d \<and> map r_points (holes d') = map r_points (holes d) @ map r_points hs"
proof (induction hs arbitrary: d)
  case (Cons h hs)
  obtain err d1 where a: "polygon_add_hole al d (length (r_points h)) = (err, d1)" by (cases "polygon_add_hole al d (length (r_points h))")
  have ok: "err = GEOM_OK" using Cons.prems a by (cases err) simp_all
  obtain c where h: "exterior d1 = exterior d" "holes d1 = holes d @ [\<lparr>r_points = [], r_capacity = c\<rparr>]"
    using polygon_add_hole_any a ok by blast
  have "polygon_copy_holes al (d1\<lparr>holes := (holes d1)[length (holes d) := (holes d1 ! length (holes d))\<lparr>r_points := r_points h\<rparr>]\<rparr>) hs = (GEOM_OK, d')"
    using Cons.prems a ok by (simp add: Let_def)
  from Cons.IH [OF this] h show ?case by simp
qed simp

lemma geom_copy_any: "geom_copy al g = (GEOM_OK, g') \<Longrightarrow> geom_view g' = geom_view g"
proof (cases g)
  case (G_polygon p)
  assume c: "geom_copy al g = (GEOM_OK, g')"
  obtain err d where i: "polygon_init al (length (exterior p)) = (err, d)" by (cases "polygon_init al (length (exterior p))")
  have err: "err = GEOM_OK" "holes d = []" using c i by (auto simp: geom_copy_def G_polygon polygon_copy_def polygon_init_def zero_polygon_def Let_def split: if_splits prod.splits)
  obtain p' where p': "polygon_copy_holes al (d\<lparr>exterior := exterior p\<rparr>) (holes p) = (GEOM_OK, p')" "g' = G_polygon p'"
    using c i err by (auto simp: geom_copy_def G_polygon polygon_copy_def split: prod.splits)
  show ?thesis using polygon_copy_holes_any [OF p'(1)] err by (simp add: G_polygon p'(2))
qed (auto simp: geom_copy_def linestring_copy_def linestring_init_def Let_def split: if_splits prod.splits)

lemma spatial_object_copy_any: "spatial_object_copy al src = (GEOM_OK, d) \<Longrightarrow> object_view d = object_view src"
  using geom_copy_any [of al "so_geom src"]
  by (cases "geom_copy al (so_geom src)")
    (auto simp: spatial_object_copy_def spatial_object_set_properties_def object_view_def zero_object_def Let_def split: if_splits)

lemma page_add_object_any:
  assumes "page_add_object al p obj = (err, p')"
  shows "if err = PAGE_OK then \<exists>copy. pg_objects p' = pg_objects p @ [copy] \<and> object_view copy = object_view obj \<and>
      pg_capacity p' = pg_capacity p \<and> length (pg_objects p) < pg_capacity p \<and>
      page_extent p' = mbr_expand_mbr (page_extent p) (so_mbr obj)
    else p' = p"
  using assms spatial_object_copy_any [of al obj]
  by (auto simp: page_add_object_def Let_def split: if_splits prod.splits)

subsection \<open>The part of the invariant that needs no allocation\<close>

text \<open>
  An insertion into the allocation tree that fails below an existing node counts the entry all the
  same.  So the size is only known to be 0 for the empty tree.
\<close>

definition weak_tree :: "nat KDTree \<Rightarrow> nat set \<Rightarrow> bool" where
  "weak_tree t pages = ((kt_root t = KNull \<longrightarrow> kt_size t = 0) \<and> pd_data ` set (kd_entries (kt_root t)) \<subseteq> pages)"

definition weak_dm :: "DiskManager \<Rightarrow> bool" where
  "weak_dm dm = (pool_inv (dm_heap dm) (dm_pool dm) \<and> weak_tree (dm_tree dm) (set (pp_pages (dm_pool dm))))"

definition dm_views :: "DiskManager \<Rightarrow> view multiset" where
  "dm_views dm = image_mset object_view (mset (concat (map (\<lambda>a. pg_objects (hp_page (dm_heap dm) a)) (pp_pages (dm_pool dm)))))"

lemma si_views_dm: "si_views idx = dm_views (si_disk idx)"
  by (simp add: si_views_def dm_views_def si_objects_def si_page_def)

lemma dm_inv_weak: "dm_inv dm \<Longrightarrow> weak_dm dm"
  by (auto simp: dm_inv_def weak_dm_def weak_tree_def tree_inv_def)

lemma insert_recursive_any:
  "set (kd_entries (insert_recursive al t p oid data depth)) \<subseteq> insert \<lparr>pd_point = p, pd_id = oid, pd_data = data\<rparr> (set (kd_entries t))"
  by (induction t arbitrary: depth) (auto simp: kdnode_create_def)

lemma insert_recursive_null: "insert_recursive al t p oid data depth = KNull \<Longrightarrow> t = KNull"
  by (cases t) (simp_all split: if_splits)

lemma weak_tree_insert:
  assumes "weak_tree t pages" "a \<in> pages"
  shows "weak_tree (snd (kdtree_insert al t p oid a)) pages"
proof -
  define root' where "root' = insert_recursive al (kt_root t) p oid a 0"
  have null: "root' = KNull \<Longrightarrow> kt_root t = KNull" unfolding root'_def by (rule insert_recursive_null)
  have "pd_data e \<in> pages" if "e \<in> set (kd_entries root')" for e
  proof -
    have "e = \<lparr>pd_point = p, pd_id = oid, pd_data = a\<rparr> \<or> e \<in> set (kd_entries (kt_root t))"
      using insert_recursive_any [of al "kt_root t" p oid a 0] that unfolding root'_def by blast
    then show ?thesis using assms by (auto simp: weak_tree_def)
  qed
  then show ?thesis
    using null assms(1) unfolding kdtree_insert_def Let_def root'_def [symmetric]
    by (cases "root' = KNull") (auto simp: weak_tree_def)
qed

lemma update_tree_weak:
  "weak_tree (dm_tree dm) pages \<Longrightarrow> a \<in> pages \<Longrightarrow> weak_tree (dm_tree (update_allocation_tree al dm a)) pages"
  by (simp add: update_allocation_tree_def Let_def weak_tree_insert)

lemma rebuild_weak_fold:
  assumes "set as \<subseteq> pages"
  shows "let dm' = fold (\<lambda>a dm. if length (pg_objects (hp_page (dm_heap dm) a)) > 0 then update_allocation_tree al dm a else dm) as dm in
    dm_heap dm' = dm_heap dm \<and> dm_pool dm' = dm_pool dm \<and> (weak_tree (dm_tree dm) pages \<longrightarrow> weak_tree (dm_tree dm') pages)"
  using assms
proof (induction as arbitrary: dm)
  case (Cons a as)
  then have a: "a \<in> pages" "set as \<subseteq> pages" by simp_all
  show ?case
    using Cons.IH [OF a(2), of dm] Cons.IH [OF a(2), of "update_allocation_tree al dm a"]
      update_tree_weak [OF _ a(1), of dm] by (simp add: Let_def)
qed simp

lemma rebuild_weak:
  "dm_heap (disk_manager_rebuild_allocation_tree al dm) = dm_heap dm"
  "dm_pool (disk_manager_rebuild_allocation_tree al dm) = dm_pool dm"
  "pool_inv (dm_heap dm) (dm_pool dm) \<Longrightarrow> weak_dm (disk_manager_rebuild_allocation_tree al dm)"
  using rebuild_weak_fold [of "pp_pages (dm_pool dm)" "set (pp_pages (dm_pool dm))" al "dm\<lparr>dm_tree := kdtree_init\<rparr>"]
  by (simp_all add: disk_manager_rebuild_allocation_tree_def Let_def weak_dm_def weak_tree_def kdtree_init_def)

text \<open>A call that succeeds does what it does if nothing fails; one that fails keeps the pages.\<close>

lemma page_pool_alloc_any:
  "page_pool_alloc al h pool tid = (Some a, h', pool') \<Longrightarrow> page_pool_alloc malloc_ok h pool tid = (Some a, h', pool')"
  "page_pool_alloc al h pool tid = (None, h', pool') \<Longrightarrow> h' = h \<and> pp_pages pool' = pp_pages pool \<and> pp_tracks pool' = pp_tracks pool"
  by (auto simp: page_pool_alloc_def page_create_def malloc_ok_simp Let_def split: if_splits option.splits prod.splits)

lemma create_track_any:
  assumes "weak_dm dm" "disk_manager_create_track al dm = (r, dm')"
  shows "weak_dm dm' \<and> dm_heap dm' = dm_heap dm \<and> pp_pages (dm_pool dm') = pp_pages (dm_pool dm)"
proof -
  have pool: "pp_pages pool' = pp_pages pool" "\<forall>t \<in> set (pp_tracks pool'). t \<in> set (pp_tracks pool) \<or> dt_pages t = []"
    if "page_pool_create_track al pool = (r, pool')" for pool r pool'
    using that by (auto simp: page_pool_create_track_def track_create_def Let_def split: if_splits option.splits)
  obtain r' pool' where c: "page_pool_create_track al (dm_pool dm) = (r', pool')" by (cases "page_pool_create_track al (dm_pool dm)")
  then have "dm_pool dm' = pool' \<and> dm_heap dm' = dm_heap dm \<and> dm_tree dm' = dm_tree dm"
    using assms(2) by (cases r') (auto simp: disk_manager_create_track_def)
  with pool [OF c] have "pp_pages (dm_pool dm') = pp_pages (dm_pool dm) \<and> dm_heap dm' = dm_heap dm \<and> dm_tree dm' = dm_tree dm \<and>
      (\<forall>t \<in> set (pp_tracks (dm_pool dm')). t \<in> set (pp_tracks (dm_pool dm)) \<or> dt_pages t = [])" by simp
  with assms(1) show ?thesis by (fastforce simp: weak_dm_def pool_inv_def)
qed

lemma dm_views_grown:
  assumes "pp_pages (dm_pool dm') = pp_pages (dm_pool dm) @ [a]" "pg_objects (hp_page (dm_heap dm') a) = []"
    "a \<notin> set (pp_pages (dm_pool dm))" "\<forall>b. b \<noteq> a \<longrightarrow> pg_objects (hp_page (dm_heap dm') b) = pg_objects (hp_page (dm_heap dm) b)"
  shows "dm_views dm' = dm_views dm"
proof -
  have "map (\<lambda>b. pg_objects (hp_page (dm_heap dm') b)) (pp_pages (dm_pool dm)) = map (\<lambda>b. pg_objects (hp_page (dm_heap dm) b)) (pp_pages (dm_pool dm))"
    using assms(3,4) by (intro map_cong refl) metis
  then show ?thesis unfolding dm_views_def assms(1) map_append concat_append by (simp only: assms(2) list.map concat.simps append_Nil2)
qed

lemma alloc_page_any:
  assumes inv: "weak_dm dm" and run: "disk_manager_alloc_page al dm c = (r, dm')"
  shows "weak_dm dm' \<and> dm_views dm' = dm_views dm \<and>
    (\<forall>a. r = Some a \<longrightarrow> a \<in> set (pp_pages (dm_pool dm')) \<and> pg_objects (hp_page (dm_heap dm') a) = [])"
proof -
  define td where "td = (case disk_manager_find_best_track dm c of
        Some t \<Rightarrow> if track_has_space (pp_tracks (dm_pool dm) ! t) then (Some t, dm) else disk_manager_create_track al dm
      | None \<Rightarrow> disk_manager_create_track al dm)"
  obtain track dm1 where td: "td = (track, dm1)" by (cases td)
  have "dm1 = dm \<or> disk_manager_create_track al dm = (track, dm1)"
    using td by (auto simp: td_def split: option.splits if_splits)
  then have d1: "weak_dm dm1" "dm_heap dm1 = dm_heap dm" "pp_pages (dm_pool dm1) = pp_pages (dm_pool dm)"
    using create_track_any [OF inv] inv by auto
  have views1: "dm_views dm1 = dm_views dm" by (simp add: dm_views_def d1)
  show ?thesis
  proof (cases track)
    case None
    then have "r = None" "dm' = dm1" using run td by (simp_all add: disk_manager_alloc_page_def td_def [symmetric])
    then show ?thesis using d1(1) views1 by simp
  next
    case (Some t)
    obtain r1 h pool where al: "page_pool_alloc al (dm_heap dm1) (dm_pool dm1) (dt_track_id (pp_tracks (dm_pool dm1) ! t)) = (r1, h, pool)"
      by (metis prod_cases3)
    show ?thesis
    proof (cases r1)
      case None
      then have "r = None" "dm' = dm1\<lparr>dm_heap := h, dm_pool := pool\<rparr>"
        using run td Some al by (simp_all add: disk_manager_alloc_page_def td_def [symmetric])
      then show ?thesis
        using d1(1) views1 page_pool_alloc_any(2) [OF al [unfolded None]] by (simp add: weak_dm_def pool_inv_def dm_views_def)
    next
      case r1: (Some a)
      have p1: "pool_inv (dm_heap dm1) (dm_pool dm1)" using d1(1) by (simp add: weak_dm_def)
      have a: "pool_inv h pool" "pp_pages pool = pp_pages (dm_pool dm) @ [a]" "a \<notin> set (hp_live (dm_heap dm))"
        "pg_objects (hp_page h a) = []" "\<And>b. b \<noteq> a \<Longrightarrow> pg_objects (hp_page h b) = pg_objects (hp_page (dm_heap dm) b)"
        using page_pool_alloc_ok [OF p1 page_pool_alloc_any(1) [OF al [unfolded r1]]] d1 by auto
      define h1 where "h1 = h\<lparr>hp_page := (hp_page h)(a := set_header (\<lambda>hd. hd\<lparr>ph_centroid := c\<rparr>) (hp_page h a))\<rparr>"
      have "page_inv (hp_page h a)" using a(1,2) by (simp add: pool_inv_def)
      then have inv1: "pool_inv h1 pool" unfolding h1_def by (intro pool_inv_set_page a(1) page_inv_header) simp_all
      obtain e2 h2 pool2 where add: "pool_track_add h1 pool t a = (e2, h2, pool2)" by (metis prod_cases3)
      have ap: "a \<in> set (pp_pages pool)" by (simp add: a(2))
      note p2 = pool_track_add_inv [OF inv1 ap add]
      define dm2 where "dm2 = update_allocation_tree al (dm1\<lparr>dm_heap := h2, dm_pool := pool2\<rparr>) a"
      have "(r, dm') = (Some a, dm2\<lparr>dm_is_dirty := True,
          dm_header := (dm_header dm2)\<lparr>fh_bounds := mbr_expand_point (fh_bounds (dm_header dm2)) c,
            fh_page_count := fh_page_count (dm_header dm2) + 1\<rparr>\<rparr>)"
        using run td Some al r1 add
        by (simp add: disk_manager_alloc_page_def td_def [symmetric] Let_def h1_def [symmetric] dm2_def)
      then have r: "r = Some a" "dm_heap dm' = h2" "dm_pool dm' = pool2" "dm_tree dm' = dm_tree dm2" by (simp_all add: dm2_def)
      have "weak_tree (dm_tree dm1) (set (pp_pages pool2))"
        using d1(1,3) p2 a(2) by (auto simp: weak_dm_def weak_tree_def)
      then have "weak_tree (dm_tree dm') (set (pp_pages pool2))"
        unfolding r dm2_def using p2 ap by (intro update_tree_weak) simp_all
      then have "weak_dm dm'" using r p2 by (simp add: weak_dm_def)
      moreover have "a \<notin> set (pp_pages (dm_pool dm))" using a(3) inv by (auto simp: weak_dm_def pool_inv_def)
      then have "dm_views dm' = dm_views dm" using r p2 a by (intro dm_views_grown) (auto simp: h1_def)
      ultimately show ?thesis using r p2 a by (auto simp: h1_def)
    qed
  qed
qed

subsection \<open>Insertion with any allocator\<close>

definition weak_si :: "SpatialIndex \<Rightarrow> bool" where
  "weak_si idx = weak_dm (si_disk idx)"

lemma si_inv_weak: "si_inv idx \<Longrightarrow> weak_si idx"
  by (simp add: si_inv_def weak_si_def dm_inv_weak)

lemma weak_si_page: "weak_si idx \<Longrightarrow> a \<in> set (pp_pages (si_pool idx)) \<Longrightarrow> page_inv (si_page idx a)"
  by (simp add: weak_si_def weak_dm_def pool_inv_def si_page_def)

lemma weak_si_set_page: "weak_si idx \<Longrightarrow> page_inv p \<Longrightarrow> weak_si (si_set_page idx a p)"
  by (simp add: weak_si_def weak_dm_def si_set_page_def pool_inv_set_page)

lemma weak_views_set_page:
  assumes "weak_si idx" "a \<in> set (pp_pages (si_pool idx))"
  shows "si_views (si_set_page idx a p) + image_mset object_view (mset (pg_objects (si_page idx a))) =
    si_views idx + image_mset object_view (mset (pg_objects p))"
proof -
  have "distinct (pp_pages (si_pool idx))" using assms(1) by (simp add: weak_si_def weak_dm_def pool_inv_def)
  from concat_map_upd_mset [OF this assms(2), of "pg_objects p" "\<lambda>b. pg_objects (si_page idx b)"]
  have "mset (si_objects (si_set_page idx a p)) + mset (pg_objects (si_page idx a)) = mset (si_objects idx) + mset (pg_objects p)"
    by (simp add: si_objects_def if_distrib [of pg_objects])
  from arg_cong [OF this, of "image_mset object_view"] show ?thesis by (simp add: si_views_def)
qed

lemma nearest_weak:
  assumes "weak_tree t pages" "kt_size t > 0"
  shows "\<exists>p oid a. kdtree_nearest t q = Inr (p, oid, a) \<and> a \<in> pages"
proof -
  let ?t = "t\<lparr>kt_size := length (kd_entries (kt_root t))\<rparr>"
  have "tree_inv ?t pages" using assms(1) by (simp add: tree_inv_def weak_tree_def)
  moreover have "kt_size ?t > 0" using assms by (cases "kt_root t") (simp_all add: weak_tree_def)
  ultimately obtain p oid a where "kdtree_nearest ?t q = Inr (p, oid, a)" "a \<in> pages" using kdtree_nearest_data by blast
  moreover have "kdtree_nearest ?t q = kdtree_nearest t q" by (cases "kt_root t") (simp_all add: kdtree_nearest_def)
  ultimately show ?thesis by auto
qed

lemma get_page_any:
  assumes inv: "weak_si idx" and run: "get_page_for_insert al idx obj = (r, idx')"
  shows "weak_si idx' \<and> si_views idx' = si_views idx \<and> (\<forall>a. r = Some a \<longrightarrow> a \<in> set (pp_pages (si_pool idx')))"
proof -
  let ?tree = "dm_tree (si_disk idx)"
  let ?near = "if kt_size ?tree > 0 then (case kdtree_nearest ?tree (so_centroid obj) of
      Inr (p, pid, a) \<Rightarrow> if \<not> page_is_full (si_page idx a) then Some a else None | Inl err \<Rightarrow> None) else None"
  have tree: "weak_tree ?tree (set (pp_pages (si_pool idx)))" using inv by (simp add: weak_si_def weak_dm_def)
  show ?thesis
  proof (cases ?near)
    case (Some a)
    then have "kt_size ?tree > 0" by (auto split: if_splits)
    then have "a \<in> set (pp_pages (si_pool idx))"
      using nearest_weak [OF tree, of "so_centroid obj"] Some by (auto split: if_splits)
    moreover have "r = Some a" "idx' = idx" using run Some by (simp_all add: get_page_for_insert_def)
    ultimately show ?thesis using inv by simp
  next
    case None
    obtain r' dm where al: "disk_manager_alloc_page al (si_disk idx) (so_centroid obj) = (r', dm)"
      by (cases "disk_manager_alloc_page al (si_disk idx) (so_centroid obj)")
    have r: "r = r'" "idx' = idx\<lparr>si_disk := dm\<rparr>" using run None al unfolding get_page_for_insert_def Let_def by simp_all
    from alloc_page_any [OF inv [unfolded weak_si_def] al] show ?thesis by (simp add: r weak_si_def si_views_dm)
  qed
qed

lemma add_to_page:
  assumes inv: "weak_si idx" and a: "a \<in> set (pp_pages (si_pool idx))" and num: "mbr_num (so_mbr obj)"
    and run: "page_add_object al (si_page idx a) obj = (PAGE_OK, p)"
  shows "weak_si (si_set_page idx a p) \<and> si_views (si_set_page idx a p) = add_mset (object_view obj) (si_views idx)"
proof -
  obtain copy where p: "pg_objects p = pg_objects (si_page idx a) @ [copy]" "object_view copy = object_view obj"
    "pg_capacity p = pg_capacity (si_page idx a)" "length (pg_objects (si_page idx a)) < pg_capacity (si_page idx a)"
    "page_extent p = mbr_expand_mbr (page_extent (si_page idx a)) (so_mbr obj)"
    using page_add_object_any [OF run] by auto
  have "page_inv p" by (rule page_inv_add [OF weak_si_page [OF inv a] num p(1,2,3,5,4)])
  moreover have "si_views (si_set_page idx a p) = add_mset (object_view obj) (si_views idx)"
    using weak_views_set_page [OF inv a, of p] page_objects_view [OF p(1)] p(2) by simp
  ultimately show ?thesis using weak_si_set_page [OF inv] by simp
qed

lemma put_in_page_any:
  assumes inv: "weak_si idx" and a: "a \<in> set (pp_pages (si_pool idx))" and num: "mbr_num (so_mbr obj)"
    and run: "put_in_page al idx a obj = (t, idx')"
  shows "weak_si idx' \<and> (case t of
      Inl e \<Rightarrow> (e = SI_ERR_ALLOC \<or> e = SI_ERR_FULL) \<and> si_views idx' = si_views idx
    | Inr a' \<Rightarrow> a' \<in> set (pp_pages (si_pool idx')) \<and> si_views idx' = add_mset (object_view obj) (si_views idx))"
proof -
  obtain err p where p: "page_add_object al (si_page idx a) obj = (err, p)" by (cases "page_add_object al (si_page idx a) obj")
  show ?thesis
  proof (cases "err = PAGE_OK")
    case True
    then have "t = Inr a" "idx' = si_set_page idx a p" using run p by (simp_all add: put_in_page_def)
    then show ?thesis using add_to_page [OF inv a num, of al p] p True a by simp
  next
    case False
    obtain r dm where al: "disk_manager_alloc_page al (si_disk idx) (so_centroid obj) = (r, dm)"
      by (cases "disk_manager_alloc_page al (si_disk idx) (so_centroid obj)")
    let ?idx2 = "idx\<lparr>si_disk := dm\<rparr>"
    have d: "weak_si ?idx2" "si_views ?idx2 = si_views idx" "\<forall>a'. r = Some a' \<longrightarrow> a' \<in> set (pp_pages (si_pool ?idx2))"
      using alloc_page_any [OF inv [unfolded weak_si_def] al] by (simp_all add: weak_si_def si_views_dm)
    show ?thesis
    proof (cases r)
      case None
      then have "t = Inl SI_ERR_ALLOC" "idx' = ?idx2" using run p False al by (simp_all add: put_in_page_def)
      then show ?thesis using d by simp
    next
      case (Some a')
      obtain err' p' where p': "page_add_object al (si_page ?idx2 a') obj = (err', p')" by (cases "page_add_object al (si_page ?idx2 a') obj")
      show ?thesis
      proof (cases "err' = PAGE_OK")
        case True
        then have "t = Inr a'" "idx' = si_set_page ?idx2 a' p'" using run p False al Some p' by (simp_all add: put_in_page_def)
        moreover have "a' \<in> set (pp_pages (si_pool ?idx2))" using d(3) Some by blast
        ultimately show ?thesis using add_to_page [OF d(1) _ num, of a' al p'] p' True d(2) by simp
      next
        case err': False
        then have "t = Inl SI_ERR_FULL" "idx' = ?idx2" using run p False al Some p' by (simp_all add: put_in_page_def)
        then show ?thesis using d by simp
      qed
    qed
  qed
qed

lemma finish_insert_any:
  assumes inv: "weak_si idx" and a: "a \<in> set (pp_pages (si_pool idx))"
  shows "weak_si (finish_insert al idx a obj) \<and> si_views (finish_insert al idx a obj) = si_views idx"
proof -
  let ?idx4 = "si_set_page idx a (page_update_derived (si_page idx a))"
  have w: "weak_si ?idx4" using weak_si_set_page [OF inv page_inv_update [OF weak_si_page [OF inv a]]] .
  have v: "si_views ?idx4 = si_views idx" using weak_views_set_page [OF inv a, of "page_update_derived (si_page idx a)"] by simp
  have "pool_inv (si_heap ?idx4) (si_pool ?idx4)" using w by (simp add: weak_si_def weak_dm_def)
  from rebuild_weak(3) [OF this, of al] have "weak_si (finish_insert al idx a obj)"
    by (simp add: weak_si_def finish_insert_def Let_def)
  moreover have "si_views (finish_insert al idx a obj) = si_views ?idx4"
    by (rule si_same_pages(2)) (simp_all add: finish_insert_def Let_def rebuild_weak)
  ultimately show ?thesis using v by simp
qed

lemma insert_any:
  assumes inv: "weak_si idx" and num: "mbr_num (so_mbr (derived obj))" and run: "spatial_index_insert al idx obj = (err, idx', obj')"
  shows "weak_si idx' \<and> obj' = insert_object idx obj \<and>
    (if err = SI_OK then si_views idx' = add_mset (object_view obj') (si_views idx)
     else (err = SI_ERR_ALLOC \<or> err = SI_ERR_FULL) \<and> si_views idx' = si_views idx)"
proof -
  let ?obj = "insert_object idx obj"
  have num': "mbr_num (so_mbr ?obj)" using num by (simp add: insert_object_mbr)
  have w1: "weak_si (with_next_id idx obj)" "si_views (with_next_id idx obj) = si_views idx"
    using inv by (simp_all add: with_next_id_def weak_si_def si_views_dm)
  obtain r idx2 where r: "get_page_for_insert al (with_next_id idx obj) ?obj = (r, idx2)"
    by (cases "get_page_for_insert al (with_next_id idx obj) ?obj")
  have w2: "weak_si idx2" "si_views idx2 = si_views idx" "\<forall>a. r = Some a \<longrightarrow> a \<in> set (pp_pages (si_pool idx2))"
    using get_page_any [OF w1(1) r] w1(2) by simp_all
  show ?thesis
  proof (cases r)
    case None
    then show ?thesis using run w2 by (auto simp: insert_unfold r)
  next
    case (Some a)
    have a: "a \<in> set (pp_pages (si_pool idx2))" using w2(3) Some by blast
    obtain t idx3 where t: "put_in_page al idx2 a ?obj = (t, idx3)" by (cases "put_in_page al idx2 a ?obj")
    note w3 = put_in_page_any [OF w2(1) a num' t]
    show ?thesis
    proof (cases t)
      case (Inl e)
      then show ?thesis using run w3 w2(2) by (auto simp: insert_unfold r Some t)
    next
      case (Inr a'')
      have a'': "a'' \<in> set (pp_pages (si_pool idx3))" using w3 Inr by simp
      note f = finish_insert_any [OF _ a'', of al ?obj]
      show ?thesis using run w3 w2(2) f by (auto simp: insert_unfold r Some t Inr)
    qed
  qed
qed

text \<open>A bulk insertion stops at the first failure: what it has stored is a prefix of the batch.\<close>

lemma bulk_insert_any:
  "weak_si idx \<Longrightarrow> list_all (\<lambda>obj. mbr_num (so_mbr (derived obj))) objs \<Longrightarrow> spatial_index_bulk_insert al idx objs = (err, idx', objs') \<Longrightarrow>
    weak_si idx' \<and> length objs' = length objs \<and> (\<exists>n. (if err = SI_OK then n = length objs else n < length objs \<and> (err = SI_ERR_ALLOC \<or> err = SI_ERR_FULL)) \<and>
      si_views idx' = si_views idx + mset (map object_view (take n objs')))"
proof (induction objs arbitrary: idx idx' objs')
  case (Cons obj objs)
  obtain err1 idx1 obj' where i: "spatial_index_insert al idx obj = (err1, idx1, obj')" by (cases "spatial_index_insert al idx obj")
  note a = insert_any [OF Cons.prems(1) _ i]
  have num: "mbr_num (so_mbr (derived obj))" "list_all (\<lambda>obj. mbr_num (so_mbr (derived obj))) objs" using Cons.prems(2) by simp_all
  show ?case
  proof (cases "err1 = SI_OK")
    case False
    then have r: "err = err1" "idx' = idx1" "objs' = obj' # objs" using Cons.prems(3) i by simp_all
    show ?thesis using a [OF num(1)] False by (intro conjI exI [of _ 0]) (simp_all add: r)
  next
    case True
    obtain err2 idx2 objs2 where b: "spatial_index_bulk_insert al idx1 objs = (err2, idx2, objs2)" by (cases "spatial_index_bulk_insert al idx1 objs")
    have r: "err = err2" "idx' = idx2" "objs' = obj' # objs2" using Cons.prems(3) i b True by simp_all
    have w: "weak_si idx1" "si_views idx1 = add_mset (object_view obj') (si_views idx)" using a [OF num(1)] True by simp_all
    obtain n where n: "weak_si idx2" "length objs2 = length objs"
      "if err = SI_OK then n = length objs else n < length objs \<and> (err = SI_ERR_ALLOC \<or> err = SI_ERR_FULL)"
      "si_views idx2 = si_views idx1 + mset (map object_view (take n objs2))"
      using Cons.IH [OF w(1) num(2) b [folded r(1)]] by blast
    show ?thesis using n w(2) by (intro conjI exI [of _ "Suc n"]) (simp_all add: r split: if_splits)
  qed
qed simp

subsection \<open>Removal with any allocator\<close>

lemma remove_any:
  assumes inv: "weak_si idx" and run: "spatial_index_remove al idx oid = (err, idx')"
  shows "weak_si idx' \<and> (if err = SI_OK then \<exists>v. fst v = oid \<and> si_views idx = add_mset v (si_views idx')
    else err = SI_ERR_NOT_FOUND \<and> idx' = idx \<and> (\<forall>v \<in># si_views idx. fst v \<noteq> oid))"
proof (cases "spatial_index_get idx oid")
  case None
  then have "find_page_for_object idx oid = None"
    by (auto simp: find_page_for_object_def spatial_index_get_def get_in_pages_None find_None_iff si_page_def
        page_find_object_def find_index_None dest: find_index_Some)
  moreover have "\<forall>v \<in># si_views idx. fst v \<noteq> oid" using None get_None_iff by blast
  ultimately show ?thesis using run inv by (auto simp: spatial_index_remove_def)
next
  case (Some p)
  then obtain a j where p: "p = (a, j)" and g: "get_in_pages (hp_page (si_heap idx)) (pp_pages (si_pool idx)) oid = Some (a, j)"
    by (cases p) (auto simp: spatial_index_get_def)
  have a: "a \<in> set (pp_pages (si_pool idx))" "page_find_object (si_page idx a) oid = Some j" "find_page_for_object idx oid = Some a"
    using get_in_pages_Some [OF g] by (simp_all add: si_page_def find_page_for_object_def)
  note j = page_find_object_Some [OF a(2)]
  obtain e page where r: "page_remove_object (si_page idx a) oid = (e, page)" by (cases "page_remove_object (si_page idx a) oid")
  have ex: "\<exists>obj \<in> set (pg_objects (si_page idx a)). so_id obj = oid" using j nth_mem by blast
  have page: "e = PAGE_OK" "pg_objects page = remove_at j (pg_objects (si_page idx a))"
    using page_remove_object_cases [of "si_page idx a" oid] ex a(2) by (auto simp: r)
  have pinv: "page_inv page" using page_remove_object_inv [OF weak_si_page [OF inv a(1)], of oid] by (simp add: r)
  define idx1 where "idx1 = si_set_page idx a (page_update_derived page)"
  have res: "err = SI_OK" "idx' = idx1\<lparr>si_disk := disk_manager_rebuild_allocation_tree al (si_disk idx1), si_is_built := False\<rparr>"
    using run by (simp_all add: spatial_index_remove_def a(3) r page(1) idx1_def Let_def)
  have w1: "weak_si idx1" unfolding idx1_def by (intro weak_si_set_page inv page_inv_update pinv)
  then have "weak_si idx'" using rebuild_weak(3) [of "si_disk idx1" al]
    by (simp add: weak_si_def weak_dm_def res(2))
  moreover have "si_views idx' = si_views idx1" by (rule si_same_pages(2)) (simp_all add: res(2) rebuild_weak)
  moreover have "si_views idx = add_mset (object_view (si_deref idx p)) (si_views idx1)"
    using weak_views_set_page [OF inv a(1), of "page_update_derived page"] j mset_remove_at_add [of j "pg_objects (si_page idx a)"]
    by (simp add: idx1_def page p si_deref_def)
  moreover have "fst (object_view (si_deref idx p)) = oid" using j by (simp add: p si_deref_def)
  ultimately have "weak_si idx' \<and> fst (object_view (si_deref idx p)) = oid \<and> si_views idx = add_mset (object_view (si_deref idx p)) (si_views idx')"
    by simp
  then have "weak_si idx' \<and> (\<exists>v. fst v = oid \<and> si_views idx = add_mset v (si_views idx'))" by blast
  then show ?thesis unfolding if_P [OF res(1)] .
qed

subsection \<open>Runs in which any allocation may fail\<close>

text \<open>The states that insertions and removals reach, each with an allocator of its own.\<close>

inductive any_reach :: "SpatialIndex \<Rightarrow> bool" where
  start: "spatial_index_init malloc_ok \<lparr>hp_page = pages, hp_live = [], hp_next = n\<rparr> config = (SI_OK, idx) \<Longrightarrow> any_reach idx"
| insert: "any_reach idx \<Longrightarrow> mbr_num (so_mbr (derived obj)) \<Longrightarrow> any_reach (fst (snd (spatial_index_insert al idx obj)))"
| remove: "any_reach idx \<Longrightarrow> any_reach (snd (spatial_index_remove al idx oid))"

lemma any_reach_weak: "any_reach idx \<Longrightarrow> weak_si idx"
proof (induction rule: any_reach.induct)
  case (start pages n config idx)
  then show ?case using spatial_index_init_inv si_inv_weak by blast
next
  case (insert idx obj al)
  then show ?case using insert_any [of idx obj al] by (cases "spatial_index_insert al idx obj") simp
next
  case (remove idx al oid)
  then show ?case using remove_any [of idx al oid] by (cases "spatial_index_remove al idx oid") simp
qed

lemma any_reach_bulk:
  "any_reach idx \<Longrightarrow> list_all (\<lambda>obj. mbr_num (so_mbr (derived obj))) objs \<Longrightarrow> spatial_index_bulk_insert al idx objs = (err, idx', objs') \<Longrightarrow>
    any_reach idx'"
proof (induction objs arbitrary: idx objs')
  case (Cons obj objs)
  obtain err1 idx1 obj' where i: "spatial_index_insert al idx obj = (err1, idx1, obj')" by (cases "spatial_index_insert al idx obj")
  have r: "any_reach idx1" using any_reach.insert [OF Cons.prems(1), of obj al] Cons.prems(2) by (simp add: i)
  show ?case
    using Cons.prems(2,3) Cons.IH [OF r] r by (auto simp: i split: if_splits prod.splits)
qed simp

lemma weak_si_safe:
  assumes "weak_si idx"
  shows "distinct (pp_pages (si_pool idx)) \<and> \<not> dangling (si_heap idx) (pp_pages (si_pool idx)) \<and>
    (\<forall>t \<in> set (pp_tracks (si_pool idx)). \<not> dangling (si_heap idx) (dt_pages t)) \<and>
    \<not> dangling (si_heap idx) (map pd_data (kd_entries (kt_root (dm_tree (si_disk idx)))))"
proof -
  have pool: "pool_inv (si_heap idx) (si_pool idx)" and tree: "weak_tree (dm_tree (si_disk idx)) (set (pp_pages (si_pool idx)))"
    using assms by (simp_all add: weak_si_def weak_dm_def)
  have "\<not> dangling (si_heap idx) (map pd_data (kd_entries (kt_root (dm_tree (si_disk idx)))))"
    using tree pool unfolding weak_tree_def pool_inv_def dangling_def by (auto simp: subset_iff)
  moreover have "distinct (pp_pages (si_pool idx))" using pool by (simp add: pool_inv_def)
  ultimately show ?thesis using pool_inv_not_dangling [OF pool] by blast
qed

end
