(* ===== verification/Adjacency_Props.thy ===== *)
theory Adjacency_Props
  imports SpatialIndex_Pages SpatialIndex_Fail Urbis_Props
begin

text \<open>
  What the interface answers about the pages near a region after a build, with the estimate of the seeks.
\<close>

subsection \<open>Seeks\<close>

text \<open>The reference for the estimate: the places where the track changes and the track before is not 0.\<close>

definition track_changes :: "32 word list \<Rightarrow> nat" where
  "track_changes ts = length (filter (\<lambda>(t, u). t \<noteq> 0 \<and> u \<noteq> t) (zip ts (tl ts)))"

lemma count_seeks_changes: "count_seeks ts = track_changes ts"
proof -
  have "fst (fold (\<lambda>t (seeks, last_track). (if t \<noteq> last_track \<and> last_track \<noteq> 0 then seeks + 1 else seeks, t)) ts (n, p)) =
      n + length (filter (\<lambda>(t, u). t \<noteq> 0 \<and> u \<noteq> t) (zip (p # ts) ts))" for n p
    by (induction ts arbitrary: n p) simp_all
  from this [of 0 0] show ?thesis
    by (cases ts) (simp_all add: count_seeks_def track_changes_def)
qed

definition page_entry :: "SpatialIndex \<Rightarrow> nat \<Rightarrow> 32 word \<times> 32 word" where
  "page_entry idx a = (page_id (si_page idx a), ph_track_id (pg_header (si_page idx a)))"



end
