(* ===== verification/Failure_Props.thy ===== *)
theory Failure_Props
  imports SpatialIndex_Fail Persistence_Props
begin

text \<open>
  What the index promises when allocations fail, with the witnesses.
\<close>


lemma sample_index_any_reach: "any_reach sample_index"
  by (rule any_reach.start [OF sample_index_init])


end
