(* ===== verification/Grid_Props.thy ===== *)
theory Grid_Props
  imports Geometry_Exact SpatialIndex_Props
begin

text \<open>
  What the program computes for coordinates on a grid of moderate size, with the witnesses: areas and the order of
  distances are then those of exact arithmetic.
\<close>

subsection \<open>Areas\<close>

text \<open>
  C5: Areas are exact on a grid.  If the vertices of a polygon and of its holes are multiples of \<open>1 / 2 ^ j\<close>
  of at most \<open>B\<close> units, and the number of vertices times the square of \<open>B\<close> is at most \<open>2 ^ 51\<close>, the
  rounded sums of \<open>polygon_area\<close> are exactly the area of the exterior less those of the holes, by the
  shoelace formula on the integers (which gives twice the area, in square units), and \<open>polygon_is_clockwise\<close> is
  right about the orientation.
\<close>

theorem polygon_area_exact:
  assumes "grid_ring j B (exterior poly) ext" "list_all2 (\<lambda>h zs. grid_ring j B (r_points h) zs) (holes poly) hs"
    "int (length ext + sum_list (map length hs)) * (B * B) \<le> 2 ^ 51" "j \<le> 26"
  shows "exact (2 * j + 1) (polygon_area poly) (if length ext < 3 then 0 else \<bar>shoelace ext\<bar> - (\<Sum>zs \<leftarrow> hs. \<bar>shoelace zs\<bar>)) \<and>
    (polygon_is_clockwise poly \<longleftrightarrow> shoelace ext < 0)"
proof -
  have len: "length (exterior poly) = length ext" using assms(1) by (auto simp: grid_ring_def dest: list_all2_lengthD)
  have all: "(int (length ext) + int (sum_list (map length hs))) * (B * B) \<le> 2 ^ 51" using assms(3) by simp
  have "0 \<le> int (sum_list (map length hs)) * (B * B)" by simp
  then have "int (length ext) * (B * B) \<le> 2 ^ 51" using all unfolding distrib_right by linarith
  then have "int (length ext) * (B * B) \<le> 2 ^ 52" by simp
  note ring = ring_area_exact [OF assms(1) this assms(4)]
  have "exact (2 * j + 1) (fabs (ring_signed_area (exterior poly))) \<bar>shoelace ext\<bar>" by (rule exact_abs [OF ring(1)])
  from holes_exact [OF assms(2) this _ all assms(4)] ring(2) have "length ext \<ge> 3 \<Longrightarrow>
      exact (2 * j + 1) (polygon_area poly) (\<bar>shoelace ext\<bar> - (\<Sum>zs \<leftarrow> hs. \<bar>shoelace zs\<bar>))"
    by (simp add: polygon_area_def len hole_areas_def)
  moreover have "exact (2 * j + 1) (polygon_area poly) 0" if "length ext < 3" using that assms(4) by (simp add: polygon_area_def len)
  moreover have "polygon_is_clockwise poly \<longleftrightarrow> shoelace ext < 0"
    using exact_order(1) [OF ring(1) exact_zero] shoelace_short [of ext] assms(4) by (auto simp: polygon_is_clockwise_def len)
  ultimately show ?thesis by auto
qed

text \<open>The triangle (1,1), (3,1), (2,3) has the area 2 and is not clockwise.\<close>

theorem polygon_area_exact_witness:
  "exact 1 (polygon_area sample_triangle) 4 \<and> \<not> polygon_is_clockwise sample_triangle"
proof -
  have "grid_ring 0 3 (exterior sample_triangle) [(1, 1), (3, 1), (2, 3)]"
    using exact_samples by (simp add: grid_ring_def grid_point_def sample_triangle_def)
  moreover have "shoelace [(1, 1), (3, 1), (2, 3)] = 4"
    by code_simp
  ultimately show ?thesis
    using polygon_area_exact [of 0 3 sample_triangle "[(1, 1), (3, 1), (2, 3)]" "[]"] by (simp add: sample_triangle_def)
qed

subsection \<open>Nearest objects\<close>

text \<open>
  C4: Nearest objects on a grid are the truly nearest ones.  If the centroids of the stored objects and the
  query point are multiples of \<open>1 / 2 ^ j\<close>, at most \<open>2 ^ 25\<close> units from the axes, a build, for every \<open>qsort\<close>, and a query for \<open>k\<close>
  objects return \<open>k\<close> of them (all, if there are fewer) by increasing Euclidean distance, and no object that
  is left out is closer than one that is returned: rounding changes nothing.
\<close>

theorem spatial_index_knn_euclidean:
  assumes "si_reach qs idx" "qsort_contract qs" "si_objects idx \<noteq> []" "0 < k"
    "\<forall>obj \<in> set (si_objects idx). grid_point j (2 ^ 25) (so_centroid obj) (place obj)" "grid_point j (2 ^ 25) q z" "j \<le> 500"
  shows "\<exists>idx' res' rest. spatial_index_build qs malloc_ok idx = (SI_OK, idx') \<and>
    spatial_index_query_knn malloc_ok idx' q k res = (SI_OK, res') \<and>
    mset (sr_objects res' @ rest) = mset (all_ptrs idx) \<and> length (sr_objects res') = min k (length (si_objects idx)) \<and>
    sorted (map (\<lambda>p. dist2 z (place (si_deref idx p))) (sr_objects res')) \<and>
    (\<forall>a \<in> set (sr_objects res'). \<forall>b \<in> set rest. dist2 z (place (si_deref idx a)) \<le> dist2 z (place (si_deref idx b)))"
proof -
  have fin: "\<forall>obj \<in> set (si_objects idx). pt_finite (so_centroid obj)" using assms(5) grid_finite by blast
  obtain idx' res' rest where r: "spatial_index_build qs malloc_ok idx = (SI_OK, idx')"
    "spatial_index_query_knn malloc_ok idx' q k res = (SI_OK, res')"
    "mset (sr_objects res' @ rest) = mset (all_ptrs idx)" "length (sr_objects res') = min k (length (si_objects idx))"
    "sorted (map (\<lambda>p. dist_key q (so_centroid (si_deref idx p))) (sr_objects res'))"
    "\<forall>a \<in> set (sr_objects res'). \<forall>b \<in> set rest.
      dist_key q (so_centroid (si_deref idx a)) \<le> dist_key q (so_centroid (si_deref idx b))"
    using build_knn [OF assms(1-3) fin grid_finite [OF assms(6)] assms(4)] by blast
  have ptrs: "set (sr_objects res') \<union> set rest = set (all_ptrs idx)" using mset_eq_setD [OF r(3)] by simp
  have grid: "grid_point j (2 ^ 25) (so_centroid (si_deref idx p)) (place (si_deref idx p))" if "p \<in> set (sr_objects res') \<union> set rest" for p
  proof -
    have "si_deref idx p \<in> set (map (si_deref idx) (all_ptrs idx))" using that ptrs by simp
    then show ?thesis using assms(5) unfolding deref_ptrs by blast
  qed
  have le: "dist_key q (so_centroid (si_deref idx a)) \<le> dist_key q (so_centroid (si_deref idx b)) \<longleftrightarrow>
      dist2 z (place (si_deref idx a)) \<le> dist2 z (place (si_deref idx b))"
    if "a \<in> set (sr_objects res') \<union> set rest" "b \<in> set (sr_objects res') \<union> set rest" for a b
    by (rule dist_key_grid [OF assms(6) grid [OF that(1)] grid [OF that(2)] assms(7)])
  have "sorted (map (\<lambda>p. dist2 z (place (si_deref idx p))) (sr_objects res'))"
    using r(5) le by (simp add: sorted_iff_nth_mono)
  then show ?thesis using r(1-4,6) le by blast
qed

theorem spatial_index_knn_euclidean_witness:
  "\<exists>idx' res' rest. spatial_index_build isort_by malloc_ok sample_index_point = (SI_OK, idx') \<and>
    spatial_index_query_knn malloc_ok idx' \<lparr>px = d_three, py = d_one\<rparr> 1 \<lparr>sr_objects = [], sr_capacity = 4, sr_pages_accessed = 0\<rparr> =
      (SI_OK, res') \<and> mset (sr_objects res' @ rest) = mset (all_ptrs sample_index_point)"
proof -
  have obj: "\<forall>obj \<in> set (si_objects sample_index_point). grid_point 0 (2 ^ 25) (so_centroid obj) (2, 1)"
    using sample_index_point_facts(4) exact_samples by (simp add: grid_point_def)
  have q: "grid_point 0 (2 ^ 25) \<lparr>px = d_three, py = d_one\<rparr> (3, 1)"
    using exact_samples by (simp add: grid_point_def)
  have "(0::nat) \<le> 500" by simp
  from spatial_index_knn_euclidean [OF sample_index_point_facts(1) isort_by_contract sample_index_point_facts(2) zero_less_one obj q this] show ?thesis by blast
qed

end
