(* ===== verification/Printf.thy ===== *)
theory Printf
  imports CText
begin

text \<open>
  The conversions of \<open>printf\<close> with which src/src/urbis_cli.c and the functions \<open>print_stats\<close> write numbers:
  \<open>%zu\<close>, \<open>%u\<close>, \<open>%lu\<close> and \<open>%llu\<close> are \<open>show_nat\<close>; here are \<open>%.1f\<close> and \<open>%.2f\<close>, and \<open>%.9g\<close>.  As in \<open>CText\<close> the
  exact value of the double is rounded to the digits printed, ties to even.  An output stream is the text
  written to it, and a write does not fail.
\<close>

text \<open>\<open>n / d\<close> rounded to an integer.\<close>

definition round_ratio :: "int \<Rightarrow> int \<Rightarrow> nat" where
  "round_ratio n d =
     (let q = n div d; r = n mod d in nat (if 2 * r < d \<or> (2 * r = d \<and> even q) then q else q + 1))"

definition sign_text :: "double \<Rightarrow> string" where
  "sign_text d = (if dneg d then ''-'' else [])"

definition special_text :: "double \<Rightarrow> string" where
  "special_text d = (if isnan d then ''nan'' else ''inf'')"

text \<open>\<open>%.pf\<close> for \<open>0 < p\<close>\<close>

definition format_f :: "nat \<Rightarrow> double \<Rightarrow> string" where
  "format_f p d =
     sign_text d @
     (if isnan d \<or> isinf d then special_text d
      else let m = round_ratio (mval (dmag d) * 10 ^ p) (2 ^ 1074) in
        show_nat (m div 10 ^ p) @ ''.'' @ show_fixed p (m mod 10 ^ p))"

text \<open>
  \<open>%.9g\<close>.  First the decimal exponent of a magnitude \<open>n / 2 ^ 1074\<close> that is not 0, then its nine digits as
  an integer; nine digits that round up to ten shift the exponent.
\<close>

definition dec_exponent :: "int \<Rightarrow> int" where
  "dec_exponent n = int (length (show_nat (nat (n * 10 ^ 324 div 2 ^ 1074)))) - 325"

definition sci9 :: "int \<Rightarrow> nat \<times> int" where
  "sci9 n =
     (let e = dec_exponent n;
          m = (if e \<le> 8 then round_ratio (n * 10 ^ nat (8 - e)) (2 ^ 1074) else round_ratio n (2 ^ 1074 * 10 ^ nat (e - 8)))
      in if m = 10 ^ 9 then (10 ^ 8, e + 1) else (m, e))"

text \<open>The fraction without trailing zeros, and without the point if there is none left.\<close>

definition strip_zeros :: "string \<Rightarrow> string" where
  "strip_zeros s = rev (dropWhile (\<lambda>c. c = CHR ''0'') (rev s))"

definition fraction :: "string \<Rightarrow> string" where
  "fraction s = (let f = strip_zeros s in if f = [] then [] else ''.'' @ f)"

text \<open>The exponent has a sign and at least two digits.\<close>

definition exponent_text :: "int \<Rightarrow> string" where
  "exponent_text x =
     ''e'' @ (if x < 0 then ''-'' else ''+'') @
     (if \<bar>x\<bar> < 10 then show_fixed 2 (nat \<bar>x\<bar>) else show_nat (nat \<bar>x\<bar>))"

definition format_g9 :: "double \<Rightarrow> string" where
  "format_g9 d =
     sign_text d @
     (if isnan d \<or> isinf d then special_text d
      else if dmag d = 0 then ''0''
      else case sci9 (mval (dmag d)) of (m, x) \<Rightarrow>
        let ds = show_fixed 9 m in
        if x < - 4 \<or> 9 \<le> x then take 1 ds @ fraction (drop 1 ds) @ exponent_text x
        else if 0 \<le> x then take (nat x + 1) ds @ fraction (drop (nat x + 1) ds)
        else ''0'' @ fraction (replicate (nat (- x - 1)) (CHR ''0'') @ ds))"

end
