(* ===== verification/Report.thy ===== *)
theory Report
  imports Urbis Printf
begin

text \<open>
  The reports of statistics: \<open>disk_manager_print_stats\<close>, \<open>spatial_index_print_stats\<close> and
  \<open>urbis_index_print_stats\<close> of src/src.  A function gives the text it adds to its stream.
\<close>

definition nl :: string where
  "nl = [CHR 0x0A]"

text \<open>A line: a label, a text, and the end of the line.\<close>

definition line :: "string \<Rightarrow> string \<Rightarrow> string" where
  "line label content = label @ content @ nl"

definition show_word :: "'a::len word \<Rightarrow> string" where
  "show_word w = show_nat (unat w)"

text \<open>A depth goes through \<open>size_t\<close>.\<close>

definition show_size :: "int \<Rightarrow> string" where
  "show_size n = show_word (word_of_int n :: 64 word)"

definition d_hundred :: double where "d_hundred = Dbl 0x4059000000000000"

definition hit_rate :: "IOStats \<Rightarrow> double" where
  "hit_rate s = fdiv (fmul d_hundred (double_of_nat (unat (io_cache_hits s))))
     (double_of_nat (unat (io_cache_hits s + io_cache_misses s)))"

definition disk_manager_print_stats :: "FileState \<Rightarrow> DiskManager \<Rightarrow> string" where
  "disk_manager_print_stats fs dm =
     (let fh = dm_header dm; s = dm_stats dm in
      line ''=== Disk Manager Statistics ==='' [] @
      line ''File: '' (case fs_file_path fs of Some path \<Rightarrow> path | None \<Rightarrow> ''(none)'') @
      line ''Open: '' (if dm_is_open dm then ''yes'' else ''no'') @
      line ''Dirty: '' (if dm_is_dirty dm then ''yes'' else ''no'') @
      nl @
      line ''Pages: '' (show_word (fh_page_count fh)) @
      line ''Tracks: '' (show_word (fh_track_count fh)) @
      line ''Objects: '' (show_word (fh_object_count fh)) @
      nl @
      line ''I/O Statistics:'' [] @
      line ''  Pages read: '' (show_word (io_pages_read s)) @
      line ''  Pages written: '' (show_word (io_pages_written s)) @
      line ''  Cache hits: '' (show_word (io_cache_hits s)) @
      line ''  Cache misses: '' (show_word (io_cache_misses s)) @
      line ''  Bytes read: '' (show_word (io_bytes_read s)) @
      line ''  Bytes written: '' (show_word (io_bytes_written s)) @
      (if io_cache_hits s + io_cache_misses s > 0 then line ''  Cache hit rate: '' (format_f 1 (hit_rate s) @ ''%'') else []))"

definition spatial_index_print_stats :: "SpatialIndex \<Rightarrow> string" where
  "spatial_index_print_stats idx =
     (let s = spatial_index_stats idx; b = ss_bounds s in
      line ''=== Spatial Index Statistics ==='' [] @
      line ''Objects: '' (show_nat (ss_total_objects s)) @
      line ''Blocks: '' (show_nat (ss_total_blocks s)) @
      line ''Pages: '' (show_nat (ss_total_pages s)) @
      line ''Tracks: '' (show_nat (ss_total_tracks s)) @
      nl @
      line ''KD-tree depth: '' (show_nat (ss_kdtree_depth s)) @
      line ''Quadtree depth: '' (show_size (ss_quadtree_depth s)) @
      nl @
      line ''Avg objects/page: '' (format_f 2 (ss_avg_objects_per_page s)) @
      line ''Page utilization: '' (format_f 1 (fmul (ss_page_utilization s) d_hundred) @ ''%'') @
      nl @
      line ''Bounds: '' (''('' @ format_f 2 (min_x b) @ '', '' @ format_f 2 (min_y b) @ '') - ('' @
        format_f 2 (max_x b) @ '', '' @ format_f 2 (max_y b) @ '')''))"

definition urbis_index_print_stats :: "SpatialIndex \<Rightarrow> string" where
  "urbis_index_print_stats idx =
     line ''=== Urbis Spatial Index ==='' [] @ line ''Version: '' (urbis_version @ nl) @ spatial_index_print_stats idx"

end
