(* ===== verification/Cli.thy ===== *)
theory Cli
  imports Report
begin

text \<open>
  The command line tool, src/src/urbis_cli.c.

  A run of the tool gets the environment of the process (the C library's \<open>qsort\<close>, the allocator, the
  device, the clock, the heap at its start) and a state: the files, and what has been written to the
  standard output and the standard error.  A command gives its exit code and the state after it, or None
  where the loader or the parser gives None (see \<open>Persistence\<close> and \<open>GeoJson\<close>).  The clock is read by the
  calls that write a file, in their order.
\<close>

record CliEnv =
  ce_qsort :: "obj_ptr qsort"
  ce_alloc :: allocator
  ce_device :: Device
  ce_clock :: "nat \<Rightarrow> 64 word"
  ce_heap :: Heap

record CliState =
  cl_files :: FileState
  cl_out :: string
  cl_err :: string

definition URBIS_CLI_OK :: nat where "URBIS_CLI_OK = 0"
definition URBIS_CLI_ERR :: nat where "URBIS_CLI_ERR = 1"

definition put_out :: "string \<Rightarrow> CliState \<Rightarrow> CliState" where
  "put_out s st = st\<lparr>cl_out := cl_out st @ s\<rparr>"

definition put_err :: "string \<Rightarrow> CliState \<Rightarrow> CliState" where
  "put_err s st = st\<lparr>cl_err := cl_err st @ s\<rparr>"

definition usage_text :: string where
  "usage_text =
     line ''Urbis CLI'' [] @
     nl @
     line ''Usage:'' [] @
     line ''  urbis <command> [options]'' [] @
     nl @
     line ''Commands:'' [] @
     line ''  build         Build an index from GeoJSON or WKT'' [] @
     line ''  query-range   Range query against an index'' [] @
     line ''  query-knn     K nearest neighbor query'' [] @
     line ''  pages         Adjacent page lookup'' [] @
     line ''  stats         Print index statistics'' [] @
     line ''  version       Show library version'' [] @
     nl @
     line ''Common options:'' [] @
     line ''  --index <path>        Index file path'' [] @
     line ''  --json                JSON output'' [] @
     nl @
     line ''Build options:'' [] @
     line ''  --input <path>        Input file path'' [] @
     line ''  --format <geojson|wkt>'' [] @
     line ''  --block-size <n>      Objects per block'' [] @
     line ''  --page-capacity <n>   Objects per page'' [] @
     line ''  --cache-size <n>      Page cache size'' [] @
     line ''  --no-quadtree         Disable adjacent-page index'' [] @
     nl @
     line ''Query options:'' [] @
     line ''  --mbr <minx,miny,maxx,maxy>'' [] @
     line ''  --point <x,y>         Query point (for knn)'' [] @
     line ''  --k <n>               Number of neighbors'' []"

text \<open>The printing of the usage, on the stream that \<open>put\<close> writes to.\<close>

definition print_usage :: "(string \<Rightarrow> CliState \<Rightarrow> CliState) \<Rightarrow> CliState \<Rightarrow> CliState" where
  "print_usage put st = put usage_text st"

subsection \<open>Arguments\<close>

text \<open>
  \<open>strtoull (text, &end, 10)\<close>: the value and how many characters it takes, 0 if there is no number.  Too
  large a number gives the largest value, and a minus sign negates modulo \<open>2 ^ 64\<close>.
\<close>

definition strtoull :: "string \<Rightarrow> 64 word \<times> nat" where
  "strtoull s =
     (let w = length (takeWhile isspace s); r = drop w s; n = sign_len r; ds = takeWhile isdigit (drop n r);
          v = digits_value 10 ds
      in if ds = [] then (0, 0)
         else (if v \<ge> 2 ^ 64 then - 1 else if starts_minus r then - word_of_nat v else word_of_nat v, w + n + length ds))"

text \<open>None: \<open>*out\<close> keeps its value.  The end is only compared with the end of the text.\<close>

definition parse_size :: "string \<Rightarrow> nat option" where
  "parse_size s = (case strtoull s of (v, n) \<Rightarrow> if n < length s then None else Some (unat v))"

text \<open>\<open>%lf\<close> and then the character \<open>,\<close>\<close>

definition scan_comma :: "string \<Rightarrow> string option" where
  "scan_comma s = (case s of c # r \<Rightarrow> if c = CHR '','' then Some r else None | [] \<Rightarrow> None)"

definition scan_next_lf :: "string \<Rightarrow> (double \<times> string) option" where
  "scan_next_lf s = (case scan_comma s of None \<Rightarrow> None | Some r \<Rightarrow> scan_lf r)"

definition parse_point :: "string \<Rightarrow> (double \<times> double) option" where
  "parse_point s =
     (case scan_lf s of None \<Rightarrow> None | Some (x, s1) \<Rightarrow>
       (case scan_next_lf s1 of None \<Rightarrow> None | Some (y, s2) \<Rightarrow> Some (x, y)))"

definition parse_mbr :: "string \<Rightarrow> MBR option" where
  "parse_mbr s =
     (case scan_lf s of None \<Rightarrow> None | Some (x0, s1) \<Rightarrow>
       (case scan_next_lf s1 of None \<Rightarrow> None | Some (y0, s2) \<Rightarrow>
         (case scan_next_lf s2 of None \<Rightarrow> None | Some (x1, s3) \<Rightarrow>
           (case scan_next_lf s3 of None \<Rightarrow> None | Some (y1, s4) \<Rightarrow>
             Some \<lparr>min_x = x0, min_y = y0, max_x = x1, max_y = y1\<rparr>))))"

fun geom_type_str :: "GeomType \<Rightarrow> string" where
  "geom_type_str GEOM_POINT = ''point''"
| "geom_type_str GEOM_LINESTRING = ''linestring''"
| "geom_type_str GEOM_POLYGON = ''polygon''"

text \<open>What all commands do with an argument they do not know, and with a status that is not \<open>URBIS_OK\<close>.\<close>

definition fail :: "string \<Rightarrow> CliState \<Rightarrow> nat \<times> CliState" where
  "fail msg st = (URBIS_CLI_ERR, put_err (line msg []) st)"

definition unknown_option :: "string \<Rightarrow> CliState \<Rightarrow> nat \<times> CliState" where
  "unknown_option a st = fail (''Unknown option: '' @ a) st"

definition status_failed :: "string \<Rightarrow> UrbisStatus \<Rightarrow> CliState \<Rightarrow> nat \<times> CliState" where
  "status_failed what status st = fail (what @ '': '' @ urbis_status_str status) st"

subsection \<open>Files\<close>

definition load_index :: "CliEnv \<Rightarrow> string \<Rightarrow> CliState \<Rightarrow> ((nat \<times> CliState) + SpatialIndex \<times> CliState) option" where
  "load_index env path st =
     (case urbis_index_load (ce_qsort env) (ce_alloc env) (ce_device env) (ce_clock env 0) (cl_files st) (ce_heap env) path of
        None \<Rightarrow> None
      | Some (Inl status, fs) \<Rightarrow> Some (Inl (status_failed ''Failed to load index'' status (st\<lparr>cl_files := fs\<rparr>)))
      | Some (Inr idx, fs) \<Rightarrow> Some (Inr (idx, st\<lparr>cl_files := fs\<rparr>)))"

text \<open>\<open>urbis_index_destroy\<close> at the end of a command\<close>

definition destroy_index :: "CliEnv \<Rightarrow> SpatialIndex \<Rightarrow> CliState \<Rightarrow> CliState" where
  "destroy_index env idx st = st\<lparr>cl_files := fst (urbis_index_destroy (ce_device env) (ce_clock env 1) (cl_files st) idx)\<rparr>"

definition read_text_file :: "allocator \<Rightarrow> Device \<Rightarrow> FileState \<Rightarrow> string \<Rightarrow> string option" where
  "read_text_file al dv fs path =
     (case (if dv_open dv path then fs_files fs path else None) of
        None \<Rightarrow> None
      | Some bytes \<Rightarrow>
          (if length bytes = 0 then None
           else if \<not> al (length bytes + 1) then None
           else Some (if dv_read dv 0 then text_of_bytes bytes else [])))"

subsection \<open>The command build\<close>

record BuildOptions =
  bo_input :: "string option"
  bo_format :: string
  bo_index :: "string option"
  bo_quadtree :: bool
  bo_config :: UrbisConfig

definition default_build :: BuildOptions where
  "default_build = \<lparr>bo_input = None, bo_format = ''geojson'', bo_index = None, bo_quadtree = True, bo_config = urbis_config_default\<rparr>"

definition size_or :: "string \<Rightarrow> nat \<Rightarrow> nat" where
  "size_or s old = (case parse_size s of None \<Rightarrow> old | Some n \<Rightarrow> n)"

text \<open>The loop over the arguments: on the left the argument it does not know.\<close>

fun build_options :: "string list \<Rightarrow> BuildOptions \<Rightarrow> string + BuildOptions" where
  "build_options [] opts = Inr opts"
| "build_options (a # args) opts =
     (if a = ''--input'' \<and> args \<noteq> [] then build_options (tl args) (opts\<lparr>bo_input := Some (hd args)\<rparr>)
      else if a = ''--format'' \<and> args \<noteq> [] then build_options (tl args) (opts\<lparr>bo_format := hd args\<rparr>)
      else if a = ''--index'' \<and> args \<noteq> [] then build_options (tl args) (opts\<lparr>bo_index := Some (hd args)\<rparr>)
      else if a = ''--block-size'' \<and> args \<noteq> [] then
        build_options (tl args) (opts\<lparr>bo_config := (bo_config opts)\<lparr>uc_block_size := size_or (hd args) (uc_block_size (bo_config opts))\<rparr>\<rparr>)
      else if a = ''--page-capacity'' \<and> args \<noteq> [] then
        build_options (tl args) (opts\<lparr>bo_config := (bo_config opts)\<lparr>uc_page_capacity := size_or (hd args) (uc_page_capacity (bo_config opts))\<rparr>\<rparr>)
      else if a = ''--cache-size'' \<and> args \<noteq> [] then
        build_options (tl args) (opts\<lparr>bo_config := (bo_config opts)\<lparr>uc_cache_size := size_or (hd args) (uc_cache_size (bo_config opts))\<rparr>\<rparr>)
      else if a = ''--no-quadtree'' then build_options args (opts\<lparr>bo_quadtree := False\<rparr>)
      else Inl a)"

text \<open>The input is loaded: on the left the command has ended, on the right the status.\<close>

definition build_load :: "CliEnv \<Rightarrow> SpatialIndex \<Rightarrow> string \<Rightarrow> string \<Rightarrow> CliState \<Rightarrow>
    ((nat \<times> CliState) + UrbisStatus \<times> SpatialIndex) option" where
  "build_load env idx format input st =
     (if format = ''geojson'' then
        (case urbis_index_load_geojson (ce_alloc env) (ce_device env) (cl_files st) idx input of
           None \<Rightarrow> None | Some (status, idx1, n) \<Rightarrow> Some (Inr (status, idx1)))
      else if format = ''wkt'' then
        (case read_text_file (ce_alloc env) (ce_device env) (cl_files st) input of
           None \<Rightarrow> Some (Inl (fail ''Failed to read WKT file'' (destroy_index env idx st)))
         | Some wkt \<Rightarrow> (case urbis_index_load_wkt (ce_alloc env) idx wkt of (status, idx1, oid) \<Rightarrow> Some (Inr (status, idx1))))
      else Some (Inl (fail (''Unsupported format: '' @ format) (destroy_index env idx st))))"

definition build_save :: "CliEnv \<Rightarrow> SpatialIndex \<Rightarrow> string \<Rightarrow> CliState \<Rightarrow> nat \<times> CliState" where
  "build_save env idx path st =
     (case urbis_index_build (ce_qsort env) (ce_alloc env) idx of (status, idx1) \<Rightarrow>
        if status \<noteq> URBIS_OK then status_failed ''Build failed'' status (destroy_index env idx1 st)
        else case urbis_index_save (ce_alloc env) (ce_device env) (ce_clock env 0) (cl_files st) idx1 path of (status2, fs, idx2) \<Rightarrow>
          let st2 = st\<lparr>cl_files := fs\<rparr> in
          if status2 \<noteq> URBIS_OK then status_failed ''Save failed'' status2 (destroy_index env idx2 st2)
          else (URBIS_CLI_OK, put_out (line ''Index saved to '' path) (destroy_index env idx2 st2)))"

definition cmd_build :: "CliEnv \<Rightarrow> string list \<Rightarrow> CliState \<Rightarrow> (nat \<times> CliState) option" where
  "cmd_build env args st =
     (case build_options args default_build of
        Inl a \<Rightarrow> Some (unknown_option a st)
      | Inr opts \<Rightarrow>
          (case (bo_input opts, bo_index opts) of
             (Some input, Some path) \<Rightarrow>
               (case urbis_index_create (ce_alloc env) (ce_heap env) (Some ((bo_config opts)\<lparr>uc_enable_quadtree := bo_quadtree opts\<rparr>)) of
                  Inl status \<Rightarrow> Some (status_failed ''Failed to create index'' status st)
                | Inr idx \<Rightarrow>
                    (case build_load env idx (bo_format opts) input st of
                       None \<Rightarrow> None
                     | Some (Inl ended) \<Rightarrow> Some ended
                     | Some (Inr (status, idx1)) \<Rightarrow>
                         if status \<noteq> URBIS_OK then Some (status_failed ''Load failed'' status (destroy_index env idx1 st))
                         else Some (build_save env idx1 path st)))
           | _ \<Rightarrow> Some (fail ''build requires --input and --index'' st)))"

subsection \<open>The query commands\<close>

record QueryOptions =
  qo_index :: "string option"
  qo_mbr :: "string option"
  qo_point :: "string option"
  qo_k :: nat
  qo_json :: bool

definition default_query :: QueryOptions where
  "default_query = \<lparr>qo_index = None, qo_mbr = None, qo_point = None, qo_k = 0, qo_json = False\<rparr>"

text \<open>The loops of \<open>query-range\<close> and \<open>pages\<close>, of \<open>query-knn\<close>, and of \<open>stats\<close>.\<close>

fun region_options :: "string list \<Rightarrow> QueryOptions \<Rightarrow> string + QueryOptions" where
  "region_options [] opts = Inr opts"
| "region_options (a # args) opts =
     (if a = ''--index'' \<and> args \<noteq> [] then region_options (tl args) (opts\<lparr>qo_index := Some (hd args)\<rparr>)
      else if a = ''--mbr'' \<and> args \<noteq> [] then region_options (tl args) (opts\<lparr>qo_mbr := Some (hd args)\<rparr>)
      else if a = ''--json'' then region_options args (opts\<lparr>qo_json := True\<rparr>)
      else Inl a)"

fun knn_options :: "string list \<Rightarrow> QueryOptions \<Rightarrow> string + QueryOptions" where
  "knn_options [] opts = Inr opts"
| "knn_options (a # args) opts =
     (if a = ''--index'' \<and> args \<noteq> [] then knn_options (tl args) (opts\<lparr>qo_index := Some (hd args)\<rparr>)
      else if a = ''--point'' \<and> args \<noteq> [] then knn_options (tl args) (opts\<lparr>qo_point := Some (hd args)\<rparr>)
      else if a = ''--k'' \<and> args \<noteq> [] then knn_options (tl args) (opts\<lparr>qo_k := size_or (hd args) (qo_k opts)\<rparr>)
      else if a = ''--json'' then knn_options args (opts\<lparr>qo_json := True\<rparr>)
      else Inl a)"

fun stats_options :: "string list \<Rightarrow> QueryOptions \<Rightarrow> string + QueryOptions" where
  "stats_options [] opts = Inr opts"
| "stats_options (a # args) opts =
     (if a = ''--index'' \<and> args \<noteq> [] then stats_options (tl args) (opts\<lparr>qo_index := Some (hd args)\<rparr>)
      else if a = ''--json'' then stats_options args (opts\<lparr>qo_json := True\<rparr>)
      else Inl a)"

text \<open>The elements of an array with commas between them.\<close>

fun with_commas :: "string list \<Rightarrow> string" where
  "with_commas [] = []"
| "with_commas (x # xs) = x @ (if xs = [] then [] else '','') @ with_commas xs"

definition object_json :: "SpatialObject \<Rightarrow> string" where
  "object_json obj =
     ''{\"id\":'' @ show_word (so_id obj) @ '',\"type\":\"'' @ geom_type_str (so_type obj) @
     ''\",\"centroid\":['' @ format_g9 (px (so_centroid obj)) @ '','' @ format_g9 (py (so_centroid obj)) @
     ''],\"mbr\":['' @ format_g9 (min_x (so_mbr obj)) @ '','' @ format_g9 (min_y (so_mbr obj)) @ '','' @
     format_g9 (max_x (so_mbr obj)) @ '','' @ format_g9 (max_y (so_mbr obj)) @ '']}''"

definition print_objects_json :: "UrbisObjectList \<Rightarrow> CliState \<Rightarrow> CliState" where
  "print_objects_json list st =
     put_out (''{\"count\":'' @ show_nat (length (ol_objects list)) @ '',\"objects\":['' @
       with_commas (map object_json (ol_objects list)) @ '']}'' @ nl) st"

text \<open>The end of \<open>query-range\<close> and \<open>query-knn\<close>, with what the query has returned.\<close>

definition finish_query :: "CliEnv \<Rightarrow> bool \<Rightarrow> SpatialIndex \<Rightarrow> UrbisStatus + UrbisObjectList \<Rightarrow> CliState \<Rightarrow> nat \<times> CliState" where
  "finish_query env json idx result st =
     (case result of
        Inl status \<Rightarrow> status_failed ''Query failed'' status (destroy_index env idx st)
      | Inr list \<Rightarrow> (URBIS_CLI_OK, destroy_index env idx
          (if json then print_objects_json list st
           else put_out (''Found '' @ show_nat (length (ol_objects list)) @ '' objects'' @ nl) st)))"

text \<open>What follows the loading of an index, if it succeeds.\<close>

definition with_index ::
  "CliEnv \<Rightarrow> string \<Rightarrow> CliState \<Rightarrow> (SpatialIndex \<Rightarrow> CliState \<Rightarrow> nat \<times> CliState) \<Rightarrow> (nat \<times> CliState) option" where
  "with_index env path st cont =
     (case load_index env path st of
        None \<Rightarrow> None | Some (Inl ended) \<Rightarrow> Some ended | Some (Inr (idx, st1)) \<Rightarrow> Some (cont idx st1))"

definition cmd_query_range :: "CliEnv \<Rightarrow> string list \<Rightarrow> CliState \<Rightarrow> (nat \<times> CliState) option" where
  "cmd_query_range env args st =
     (case region_options args default_query of
        Inl a \<Rightarrow> Some (unknown_option a st)
      | Inr opts \<Rightarrow>
          (case (qo_index opts, qo_mbr opts) of
             (Some path, Some mbr_text) \<Rightarrow>
               (case parse_mbr mbr_text of
                  None \<Rightarrow> Some (fail ''Invalid mbr format'' st)
                | Some region \<Rightarrow> with_index env path st (\<lambda>idx st1.
                    finish_query env (qo_json opts) idx (urbis_index_query_range (ce_alloc env) idx region) st1))
           | _ \<Rightarrow> Some (fail ''query-range requires --index and --mbr'' st)))"

definition cmd_query_knn :: "CliEnv \<Rightarrow> string list \<Rightarrow> CliState \<Rightarrow> (nat \<times> CliState) option" where
  "cmd_query_knn env args st =
     (case knn_options args default_query of
        Inl a \<Rightarrow> Some (unknown_option a st)
      | Inr opts \<Rightarrow>
          (case (qo_index opts, qo_point opts, qo_k opts = 0) of
             (Some path, Some point_text, False) \<Rightarrow>
               (case parse_point point_text of
                  None \<Rightarrow> Some (fail ''Invalid point format'' st)
                | Some (x, y) \<Rightarrow> with_index env path st (\<lambda>idx st1.
                    finish_query env (qo_json opts) idx (urbis_index_query_knn (ce_alloc env) idx x y (qo_k opts)) st1))
           | _ \<Rightarrow> Some (fail ''query-knn requires --index, --point, and --k'' st)))"

definition page_json :: "32 word \<times> 32 word \<Rightarrow> string" where
  "page_json = (\<lambda>(pid, tid). ''{\"page_id\":'' @ show_word pid @ '',\"track_id\":'' @ show_word tid @ ''}'')"

definition pages_text :: "bool \<Rightarrow> UrbisPageList \<Rightarrow> string" where
  "pages_text json pages =
     (if json then
        ''{\"count\":'' @ show_nat (length (pl_page_ids pages)) @ '',\"estimated_seeks\":'' @ show_nat (pl_estimated_seeks pages) @
        '',\"pages\":['' @ with_commas (map page_json (zip (pl_page_ids pages) (pl_track_ids pages))) @ '']}'' @ nl
      else ''Pages: '' @ show_nat (length (pl_page_ids pages)) @ '', Estimated seeks: '' @ show_nat (pl_estimated_seeks pages) @ nl)"

definition cmd_pages :: "CliEnv \<Rightarrow> string list \<Rightarrow> CliState \<Rightarrow> (nat \<times> CliState) option" where
  "cmd_pages env args st =
     (case region_options args default_query of
        Inl a \<Rightarrow> Some (unknown_option a st)
      | Inr opts \<Rightarrow>
          (case (qo_index opts, qo_mbr opts) of
             (Some path, Some mbr_text) \<Rightarrow>
               (case parse_mbr mbr_text of
                  None \<Rightarrow> Some (fail ''Invalid mbr format'' st)
                | Some region \<Rightarrow> with_index env path st (\<lambda>idx st1.
                    case urbis_index_find_adjacent_pages (ce_alloc env) idx region of
                      (Inl status, idx1) \<Rightarrow> status_failed ''Adjacent page lookup failed'' status (destroy_index env idx1 st1)
                    | (Inr pages, idx1) \<Rightarrow> (URBIS_CLI_OK, destroy_index env idx1 (put_out (pages_text (qo_json opts) pages) st1))))
           | _ \<Rightarrow> Some (fail ''pages requires --index and --mbr'' st)))"

subsection \<open>The commands stats and version\<close>

definition stats_json :: "UrbisStats \<Rightarrow> string" where
  "stats_json s =
     ''{\"objects\":'' @ show_nat (us_total_objects s) @ '',\"blocks\":'' @ show_nat (us_total_blocks s) @
     '',\"pages\":'' @ show_nat (us_total_pages s) @ '',\"tracks\":'' @ show_nat (us_total_tracks s) @ '','' @
     ''\"avg_objects_per_page\":'' @ format_g9 (us_avg_objects_per_page s) @
     '',\"page_utilization\":'' @ format_g9 (us_page_utilization s) @ '','' @
     ''\"kdtree_depth\":'' @ show_nat (us_kdtree_depth s) @ '',\"quadtree_depth\":'' @ show_size (us_quadtree_depth s) @ '','' @
     ''\"bounds\":['' @ format_g9 (min_x (us_bounds s)) @ '','' @ format_g9 (min_y (us_bounds s)) @ '','' @
     format_g9 (max_x (us_bounds s)) @ '','' @ format_g9 (max_y (us_bounds s)) @ '']}'' @ nl"

definition stats_text :: "UrbisStats \<Rightarrow> string" where
  "stats_text s =
     line ''Objects: '' (show_nat (us_total_objects s)) @
     line ''Blocks: '' (show_nat (us_total_blocks s)) @
     line ''Pages: '' (show_nat (us_total_pages s)) @
     line ''Tracks: '' (show_nat (us_total_tracks s)) @
     line ''KD-tree depth: '' (show_nat (us_kdtree_depth s)) @
     line ''Quadtree depth: '' (show_size (us_quadtree_depth s)) @
     line ''Avg objects/page: '' (format_f 2 (us_avg_objects_per_page s)) @
     line ''Page utilization: '' (format_f 1 (fmul (us_page_utilization s) d_hundred) @ ''%'') @
     line ''Bounds: '' (''['' @ format_f6 (min_x (us_bounds s)) @ '', '' @ format_f6 (min_y (us_bounds s)) @ '', '' @
       format_f6 (max_x (us_bounds s)) @ '', '' @ format_f6 (max_y (us_bounds s)) @ '']'')"

text \<open>\<open>urbis_index_get_stats\<close> cannot fail.\<close>

definition cmd_stats :: "CliEnv \<Rightarrow> string list \<Rightarrow> CliState \<Rightarrow> (nat \<times> CliState) option" where
  "cmd_stats env args st =
     (case stats_options args default_query of
        Inl a \<Rightarrow> Some (unknown_option a st)
      | Inr opts \<Rightarrow>
          (case qo_index opts of
             None \<Rightarrow> Some (fail ''stats requires --index'' st)
           | Some path \<Rightarrow> with_index env path st (\<lambda>idx st1.
               let s = urbis_index_get_stats idx in
               (URBIS_CLI_OK, destroy_index env idx (put_out (if qo_json opts then stats_json s else stats_text s) st1)))))"

text \<open>\<open>main\<close>, on the arguments after the name of the program.\<close>

definition cli_main :: "CliEnv \<Rightarrow> string list \<Rightarrow> CliState \<Rightarrow> (nat \<times> CliState) option" where
  "cli_main env argv st =
     (case argv of
        [] \<Rightarrow> Some (URBIS_CLI_ERR, print_usage put_err st)
      | command # args \<Rightarrow>
          if command = ''-h'' \<or> command = ''--help'' then Some (URBIS_CLI_OK, print_usage put_out st)
          else if command = ''version'' then Some (URBIS_CLI_OK, put_out (urbis_version @ nl) st)
          else if command = ''build'' then cmd_build env args st
          else if command = ''query-range'' then cmd_query_range env args st
          else if command = ''query-knn'' then cmd_query_knn env args st
          else if command = ''pages'' then cmd_pages env args st
          else if command = ''stats'' then cmd_stats env args st
          else Some (URBIS_CLI_ERR, print_usage put_err (put_err (line ''Unknown command: '' command) st)))"

end
