(* ===== verification/Printf_Inv.thy ===== *)
theory Printf_Inv
  imports Json_Print Printf
begin

text \<open>
  What \<open>strtod\<close> reads from the numbers \<open>Printf\<close> prints: an integer as itself, and a number printed with
  \<open>%.9g\<close> as the double nearest to its nine digits, which miss the number by at most half a unit of the last.
\<close>

subsection \<open>Rounding to digits\<close>

lemma round_ratio_near:
  assumes "0 \<le> n" "0 < d"
  shows "\<bar>real (round_ratio n d) - real_of_int n / real_of_int d\<bar> \<le> 1 / 2"
proof -
  define q where "q = n div d"
  define r where "r = n mod d"
  have n: "n = q * d + r" unfolding q_def r_def by (rule div_mult_mod_eq [symmetric])
  have r: "0 \<le> r" "r < d" using assms(2) by (simp_all add: r_def)
  have q: "0 \<le> q" using assms by (simp add: q_def pos_imp_zdiv_nonneg_iff)
  define m where "m = (if 2 * r < d \<or> (2 * r = d \<and> even q) then q else q + 1)"
  have m: "real (round_ratio n d) = real_of_int m"
    using q by (simp add: round_ratio_def Let_def m_def q_def r_def)
  have "2 * \<bar>m * d - n\<bar> \<le> d"
    unfolding m_def using n r by (auto simp: algebra_simps abs_le_iff)
  then have "2 * \<bar>real_of_int m * real_of_int d - real_of_int n\<bar> \<le> real_of_int d"
    by (metis (mono_tags, lifting) of_int_abs of_int_diff of_int_le_iff of_int_mult of_int_numeral)
  moreover have "real_of_int m - real_of_int n / real_of_int d = (real_of_int m * real_of_int d - real_of_int n) / real_of_int d"
    using assms(2) by (simp add: field_simps)
  ultimately show ?thesis
    using assms(2) unfolding m by (simp add: abs_divide pos_divide_le_eq)
qed

lemma show_nat_length: "0 < n \<Longrightarrow> 10 ^ (length (show_nat n) - 1) \<le> n \<and> n < 10 ^ length (show_nat n)"
proof (induction n rule: show_nat.induct)
  case (1 n)
  show ?case
  proof (cases "n < 10")
    case True
    then show ?thesis using 1 by (subst (1 2) show_nat.simps) simp
  next
    case False
    define k where "k = length (show_nat (n div 10))"
    have k: "length (show_nat n) = Suc k" using False by (subst show_nat.simps) (simp add: k_def)
    have "0 < k" using show_nat_digits [of "n div 10"] by (simp add: k_def)
    then obtain j where j: "k = Suc j" by (cases k) auto
    have "10 ^ j \<le> n div 10" "n div 10 < 10 ^ k" using 1 False by (simp_all add: k_def [symmetric] j)
    then show ?thesis unfolding k using j by simp linarith
  qed
qed

text \<open>The decimal exponent; \<open>A\<close> and \<open>B\<close> stand for the large powers.\<close>

lemma quotient_bounds:
  fixes n A B :: int
  assumes "0 < n" "0 < B" "B \<le> A"
  defines "k \<equiv> length (show_nat (nat (n * A div B)))"
  shows "10 ^ (k - 1) \<le> real_of_int n * real_of_int A / real_of_int B" "real_of_int n * real_of_int A / real_of_int B < 10 ^ k" "0 < k"
proof -
  define N where "N = n * A div B"
  have "B \<le> n * A" using assms(1,3) mult_mono [of 1 n B A] assms(2) by simp
  then have N: "0 < N" unfolding N_def using assms(2) by (simp add: pos_imp_zdiv_pos_iff)
  have l: "10 ^ (k - 1) \<le> nat N" "nat N < 10 ^ k" using show_nat_length [of "nat N"] N by (simp_all add: k_def N_def)
  have "real_of_int N \<le> real_of_int (n * A) / real_of_int B" "real_of_int (n * A) / real_of_int B < real_of_int N + 1"
    unfolding N_def floor_divide_of_int_eq [where ?'a = real, symmetric] by linarith+
  moreover have "10 ^ (k - 1) \<le> real_of_int N"
    using l(1) N by (metis of_nat_le_iff of_nat_nat of_nat_numeral of_nat_power less_imp_le of_int_of_nat_eq)
  moreover have "nat N + 1 \<le> 10 ^ k" using l(2) by (simp only: Suc_eq_plus1 [symmetric] Suc_le_eq)
  then have "real (nat N + 1) \<le> 10 ^ k" by (metis of_nat_le_iff of_nat_numeral of_nat_power)
  then have "real_of_int N + 1 \<le> 10 ^ k" using N by simp
  moreover have "real_of_int (n * A) = real_of_int n * real_of_int A" by simp
  ultimately show "10 ^ (k - 1) \<le> real_of_int n * real_of_int A / real_of_int B" "real_of_int n * real_of_int A / real_of_int B < 10 ^ k"
    by (metis order_trans, metis order_less_le_trans)
  show "0 < k" using show_nat_digits by (simp add: k_def)
qed

lemma dec_exponent_bounds:
  assumes "0 < n"
  shows "10 powi dec_exponent n \<le> real_of_int n / 2 ^ 1074" "real_of_int n / 2 ^ 1074 < (10::real) powi (dec_exponent n + 1)"
proof -
  define A where "A = (10::int) ^ 324"
  define B where "B = (2::int) ^ 1074"
  have AB: "0 < B" "B \<le> A" by (simp_all add: A_def B_def)
  define k where "k = length (show_nat (nat (n * A div B)))"
  note q = quotient_bounds [OF assms AB, folded k_def]
  have e: "dec_exponent n = int k - 1 - 324"
    unfolding dec_exponent_def A_def [symmetric] B_def [symmetric] k_def [symmetric] by simp
  have A: "real_of_int A = 10 powi 324" and B: "real_of_int B = 2 ^ 1074" by (simp_all add: A_def B_def power_int_def)
  define V where "V = real_of_int n / 2 ^ 1074"
  have VA: "real_of_int n * real_of_int A / real_of_int B = V * 10 powi 324" unfolding A B V_def by (simp only: times_divide_eq_left)
  have k1: "(10::real) ^ (k - 1) = 10 powi (int k - 1)" using q(3) by (simp add: power_int_def nat_diff_distrib)
  have k2: "(10::real) ^ k = 10 powi (int k)" by simp
  have v: "10 powi (int k - 1) \<le> V * 10 powi 324" "V * 10 powi 324 < 10 powi (int k)"
    using q(1,2) unfolding VA k1 k2 by simp_all
  have p: "(0::real) < 10 powi 324" by simp
  have split: "(10::real) powi (i - 324) = 10 powi i / 10 powi 324" for i :: int by (rule power_int_diff) simp
  show "10 powi dec_exponent n \<le> real_of_int n / 2 ^ 1074"
    unfolding V_def [symmetric] e split using v(1) p by (simp only: pos_divide_le_eq)
  have "dec_exponent n + 1 = int k - 324" unfolding e by simp
  then show "real_of_int n / 2 ^ 1074 < 10 powi (dec_exponent n + 1)"
    unfolding V_def [symmetric] using v(2) p by (simp only: split pos_less_divide_eq)
qed

text \<open>Nine digits and the exponent of the first: at most half a unit of the last digit away.\<close>

lemma sci9_near:
  assumes "0 < n" "sci9 n = (m, x)"
  shows "10 ^ 8 \<le> m" "m < 10 ^ 9" "\<bar>real m * 10 powi (x - 8) - real_of_int n / 2 ^ 1074\<bar> \<le> 10 powi (x - 8) / 2"
proof -
  define B where "B = (2::int) ^ 1074"
  have B: "0 < B" "real_of_int B = 2 ^ 1074" by (simp_all add: B_def)
  define V where "V = real_of_int n / 2 ^ 1074"
  define e where "e = dec_exponent n"
  define r where "r = (if e \<le> 8 then round_ratio (n * 10 ^ nat (8 - e)) B else round_ratio n (B * 10 ^ nat (e - 8)))"
  have p: "(0::real) < 10 powi i" for i :: int by simp
  have add: "(10::real) powi (i + j) = 10 powi i * 10 powi j" for i j :: int by (rule power_int_add) simp
  have half: "\<bar>real r - V * 10 powi (8 - e)\<bar> \<le> 1 / 2"
  proof (cases "e \<le> 8")
    case True
    then have "(10::real) powi (8 - e) = 10 ^ nat (8 - e)" by (simp add: power_int_def)
    then have "V * 10 powi (8 - e) = real_of_int (n * 10 ^ nat (8 - e)) / real_of_int B"
      unfolding V_def B(2) by simp
    then show ?thesis using True round_ratio_near [of "n * 10 ^ nat (8 - e)" B] assms(1) B(1) by (simp add: r_def)
  next
    case False
    then have ex: "8 - e = - int (nat (e - 8))" by simp
    have "(10::real) powi (8 - e) = 1 / 10 ^ nat (e - 8)"
      by (subst ex) (simp only: power_int_minus power_int_of_nat divide_inverse mult_1)
    then have "V * 10 powi (8 - e) = real_of_int n / real_of_int (B * 10 ^ nat (e - 8))"
      unfolding V_def B(2) [symmetric] by simp
    then show ?thesis using False round_ratio_near [of n "B * 10 ^ nat (e - 8)"] assms(1) B(1) by (simp add: r_def)
  qed
  then have near: "real r - 1 / 2 \<le> V * 10 powi (8 - e)" "V * 10 powi (8 - e) \<le> real r + 1 / 2" by linarith+
  have "10 powi e * 10 powi (8 - e) \<le> V * 10 powi (8 - e)" "V * 10 powi (8 - e) < 10 powi (e + 1) * 10 powi (8 - e)"
    using dec_exponent_bounds [OF assms(1)] p [of "8 - e"] unfolding V_def [symmetric] e_def [symmetric] by simp_all
  moreover have "(10::real) powi e * 10 powi (8 - e) = 10 ^ 8" "(10::real) powi (e + 1) * 10 powi (8 - e) = 10 ^ 9"
    unfolding add [symmetric] by (simp_all add: power_int_def)
  ultimately have big: "10 ^ 8 \<le> V * 10 powi (8 - e)" "V * 10 powi (8 - e) < 10 ^ 9" by simp_all
  have r: "10 ^ 8 \<le> r" "r \<le> 10 ^ 9"
  proof -
    have "(10 ^ 8 :: real) - 1 / 2 \<le> real r" "real r < 10 ^ 9 + 1 / 2" using near big by linarith+
    then show "10 ^ 8 \<le> r" "r \<le> 10 ^ 9" by simp_all
  qed
  have scale: "\<bar>real r * 10 powi (e - 8) - V\<bar> \<le> 10 powi (e - 8) / 2"
  proof -
    have one: "(10::real) powi (8 - e) * 10 powi (e - 8) = 1" unfolding add [symmetric] by simp
    have "real r * 10 powi (e - 8) - V = (real r - V * 10 powi (8 - e)) * 10 powi (e - 8)"
      using one by (simp add: algebra_simps)
    then have "\<bar>real r * 10 powi (e - 8) - V\<bar> = \<bar>real r - V * 10 powi (8 - e)\<bar> * 10 powi (e - 8)"
      using p [of "e - 8"] by (simp add: abs_mult)
    also have "\<dots> \<le> 1 / 2 * 10 powi (e - 8)"
      using half p [of "e - 8"] by (intro mult_right_mono [OF half] less_imp_le)
    finally show ?thesis by simp
  qed
  have mx: "(m, x) = (if r = 10 ^ 9 then (10 ^ 8, e + 1) else (r, e))"
    using assms(2) unfolding sci9_def Let_def e_def [symmetric] B_def [symmetric] r_def [symmetric] by simp
  show "10 ^ 8 \<le> m" "m < 10 ^ 9" using mx r by (auto split: if_splits)
  show "\<bar>real m * 10 powi (x - 8) - real_of_int n / 2 ^ 1074\<bar> \<le> 10 powi (x - 8) / 2"
  proof (cases "r = 10 ^ 9")
    case False
    then show ?thesis using mx scale unfolding V_def by simp
  next
    case True
    have ten: "(10::real) powi (e + 1 - 8) = 10 * 10 powi (e - 8)" using add [of 1 "e - 8"] by (simp add: algebra_simps)
    have "real m * 10 powi (x - 8) = real r * 10 powi (e - 8)" using ten mx True by simp
    moreover have "10 powi (e - 8) / 2 \<le> (10::real) powi (x - 8) / 2"
      using ten mx True p [of "e - 8"] by simp
    ultimately show ?thesis using scale unfolding V_def [symmetric] by linarith
  qed
qed

subsection \<open>Reading a decimal number\<close>

lemma fraction_facts:
  assumes "list_all isdigit s"
  obtains z where "s = strip_zeros s @ replicate z (CHR ''0'')" "list_all isdigit (strip_zeros s)"
    "digits_value 10 (u @ s) = digits_value 10 (u @ strip_zeros s) * 10 ^ z"
proof -
  define z where "z = length (takeWhile (\<lambda>c. c = CHR ''0'') (rev s))"
  have "takeWhile (\<lambda>c. c = CHR ''0'') (rev s) = replicate z (CHR ''0'')"
    unfolding z_def by (intro replicate_eqI) (auto dest: set_takeWhileD)
  then have "rev s = replicate z (CHR ''0'') @ dropWhile (\<lambda>c. c = CHR ''0'') (rev s)"
    by (metis takeWhile_dropWhile_id)
  then have s: "s = strip_zeros s @ replicate z (CHR ''0'')"
    unfolding strip_zeros_def by (metis rev_append rev_rev_ident rev_replicate)
  have "digit_value (CHR ''0'') = 0" by (simp add: digit_value_def isdigit_def code_def)
  then have "digits_value 10 (replicate z (CHR ''0'')) = 0"
    by (induction z) (simp_all add: digits_value_def)
  then have v: "digits_value 10 (w @ replicate z (CHR ''0'')) = digits_value 10 w * 10 ^ z" for w
    by (simp add: digits_value_append)
  show ?thesis
  proof (rule that [OF s])
    show "list_all isdigit (strip_zeros s)" using assms by (subst (asm) s) simp
    show "digits_value 10 (u @ s) = digits_value 10 (u @ strip_zeros s) * 10 ^ z"
      by (subst s) (simp only: append_assoc [symmetric] v)
  qed
qed

lemma scan_exponent_text:
  assumes "t = [] \<or> \<not> isdigit (t ! 0)"
  shows "scan_exponent (CHR ''e'') (exponent_text x @ t) = (length (exponent_text x), length (exponent_text x), x)"
proof -
  define ds where "ds = (if \<bar>x\<bar> < 10 then show_fixed 2 (nat \<bar>x\<bar>) else show_nat (nat \<bar>x\<bar>))"
  have ds: "list_all isdigit ds" "digits_value 10 ds = nat \<bar>x\<bar>" "ds \<noteq> []"
    using show_fixed_facts(1) [of 2 "nat \<bar>x\<bar>"] by (auto simp: ds_def simp del: show_fixed_facts(1) show_fixed.simps)
  have tk: "takeWhile isdigit (ds @ t) = ds" by (rule takeWhile_digits [OF ds(1) assms])
  have "starts_nocase ''e'' (''e'' @ u)" for u by (simp add: starts_nocase_def tolower_def code_def)
  then show ?thesis
    using ds tk by (simp add: exponent_text_def ds_def [symmetric] scan_exponent_def sign_len_def starts_minus_def Let_def)
qed

text \<open>Digits, a fraction and an exponent that may be left out.\<close>

definition decimal_text :: "string \<Rightarrow> string \<Rightarrow> int option \<Rightarrow> string" where
  "decimal_text ip fp ex =
     ip @ (if fp = [] then [] else ''.'' @ fp) @ (case ex of None \<Rightarrow> [] | Some x \<Rightarrow> exponent_text x)"

definition decimal_double :: "bool \<Rightarrow> string \<Rightarrow> string \<Rightarrow> int option \<Rightarrow> double" where
  "decimal_double neg ip fp ex =
     scaled_double neg (digits_value 10 (ip @ fp)) 10 ((case ex of None \<Rightarrow> 0 | Some x \<Rightarrow> x) - int (length fp))"

lemma ends_value_char:
  assumes "ends_value t" "t \<noteq> []"
  shows "\<not> isdigit (t ! 0)" "t ! 0 \<noteq> CHR ''.''" "tolower (t ! 0) \<noteq> CHR ''e''" "tolower (t ! 0) \<noteq> CHR ''x''"
  using assms by (auto simp: ends_value_def isdigit_def tolower_def code_def)

lemma tail_char:
  assumes "ends_value t"
  shows "(case ex of None \<Rightarrow> [] | Some x \<Rightarrow> exponent_text x) @ t = [] \<or>
    \<not> isdigit (((case ex of None \<Rightarrow> [] | Some x \<Rightarrow> exponent_text x) @ t) ! 0) \<and>
    ((case ex of None \<Rightarrow> [] | Some x \<Rightarrow> exponent_text x) @ t) ! 0 \<noteq> CHR ''.''"
proof (cases ex)
  case None
  then show ?thesis using ends_value_char [OF assms] by (cases "t = []") simp_all
next
  case (Some x)
  then show ?thesis by (simp add: exponent_text_def isdigit_def code_def)
qed

lemma scan_decimal_text:
  assumes "list_all isdigit ip" "list_all isdigit fp" "ip \<noteq> []" "ends_value t"
  shows "scan_decimal neg (decimal_text ip fp ex @ t) =
    (length (decimal_text ip fp ex), length (decimal_text ip fp ex), decimal_double neg ip fp ex)"
proof -
  define u where "u = (case ex of None \<Rightarrow> [] | Some x \<Rightarrow> exponent_text x)"
  have u: "u @ t = [] \<or> \<not> isdigit ((u @ t) ! 0) \<and> (u @ t) ! 0 \<noteq> CHR ''.''"
    unfolding u_def by (rule tail_char [OF assms(4)])
  have txt_eq: "decimal_text ip fp ex @ t = ip @ (if fp = [] then [] else ''.'' @ fp) @ u @ t" by (simp add: decimal_text_def u_def)
  have dot: "\<not> isdigit (CHR ''.'')" by (simp add: isdigit_def code_def)
  have ip: "takeWhile isdigit (ip @ (if fp = [] then [] else ''.'' @ fp) @ u @ t) = ip"
    by (rule takeWhile_digits [OF assms(1)]) (use u dot in auto)
  have fp: "takeWhile isdigit (fp @ u @ t) = fp" by (rule takeWhile_digits [OF assms(2)]) (use u in auto)
  have first: "take 1 (u @ t) \<noteq> ''.''" using u by (cases "u @ t") auto
  have mant: "scan_mantissa isdigit (decimal_text ip fp ex @ t) =
      (length ip + (if fp = [] then 0 else 1 + length fp), ip, fp)"
    unfolding scan_mantissa_def txt_eq ip Let_def using first fp by auto
  have rest: "drop (length ip + (if fp = [] then 0 else 1 + length fp)) (decimal_text ip fp ex @ t) = u @ t"
    unfolding txt_eq by simp
  have te: "t = [] \<or> \<not> isdigit (t ! 0)" using ends_value_char [OF assms(4)] by blast
  have ex: "scan_exponent (CHR ''e'') (u @ t) = (length u, length u, (case ex of None \<Rightarrow> 0 | Some x \<Rightarrow> x))"
  proof (cases ex)
    case None
    then show ?thesis
      using ends_value_char(3) [OF assms(4)] by (cases t) (auto simp: u_def scan_exponent_def starts_nocase_def)
  next
    case (Some x)
    then show ?thesis using scan_exponent_text [OF te, of x] by (simp add: u_def)
  qed
  have len: "length (decimal_text ip fp ex) = length ip + (if fp = [] then 0 else 1 + length fp) + length u"
    by (simp add: decimal_text_def u_def)
  have zero: "u = [] \<Longrightarrow> (case ex of None \<Rightarrow> 0 | Some x \<Rightarrow> x) = (0 :: int)"
    by (cases ex) (simp_all add: u_def exponent_text_def)
  show ?thesis
    unfolding scan_decimal_def mant prod.case rest ex len using assms(3) zero by (auto simp: decimal_double_def)
qed

lemma number_text_decimal:
  assumes "list_all isdigit ip" "list_all isdigit fp" "ip \<noteq> []"
  shows "number_text ((if neg then ''-'' else []) @ decimal_text ip fp ex) (decimal_double neg ip fp ex)"
proof -
  obtain c s where ip: "ip = c # s" using assms(3) by (cases ip) auto
  have c: "isdigit c" using assms(1) by (simp add: ip)
  have x: "tolower (CHR ''.'') \<noteq> CHR ''x''" "tolower (CHR ''e'') \<noteq> CHR ''x''" by (simp_all add: tolower_def code_def)
  have second: "length (decimal_text ip fp ex @ t) = 1 \<or> tolower ((decimal_text ip fp ex @ t) ! 1) \<noteq> CHR ''x''"
    if "ends_value t" for t
  proof (cases s)
    case Nil
    then show ?thesis
      using ends_value_char(4) [OF that] x by (cases t; cases ex) (auto simp: decimal_text_def ip exponent_text_def)
  next
    case (Cons d u)
    then have "isdigit d" using assms(1) by (simp add: ip)
    then have "d \<noteq> CHR ''x''" "tolower d = d" using isdigit_plain by blast+
    then show ?thesis by (simp add: decimal_text_def ip Cons)
  qed
  have "strtod ((if neg then ''-'' else []) @ decimal_text ip fp ex @ t) =
      (decimal_double neg ip fp ex, length ((if neg then ''-'' else []) @ decimal_text ip fp ex))" if t: "ends_value t" for t
  proof -
    have "isdigit ((decimal_text ip fp ex @ t) ! 0)" "decimal_text ip fp ex @ t \<noteq> []" using c by (simp_all add: decimal_text_def ip)
    from scan_number_digits [OF this second [OF t], of neg] scan_decimal_text [OF assms t, of neg ex]
    show ?thesis by (auto simp: strtod_def Let_def decimal_text_def ip)
  qed
  then show ?thesis
    unfolding number_text_def using c by (cases neg) (auto simp: decimal_text_def ip)
qed

subsection \<open>The numbers that are printed\<close>

lemma scaled_double_rounds:
  "rounds_to ((if neg then - 1 else 1) * (real n * 10 powi e * 2 powi 1074)) (dkey (scaled_double neg n 10 e))"
  "\<not> isnan (scaled_double neg n 10 e)" "dneg (scaled_double neg n 10 e) = neg"
proof -
  have "(10::real) powi e = 1 / 10 ^ nat (- e)" if "e < 0"
  proof -
    have "e = - int (nat (- e))" using that by simp
    then show ?thesis by (metis power_int_minus power_int_of_nat divide_inverse mult_1)
  qed
  then show "rounds_to ((if neg then - 1 else 1) * (real n * 10 powi e * 2 powi 1074)) (dkey (scaled_double neg n 10 e))"
    using ratio_double_rounds(1) [of "int (n * 10 ^ nat e)" 1 neg] ratio_double_rounds(1) [of "int n" "int (10 ^ nat (- e))" neg]
    by (cases "0 \<le> e") (simp_all add: scaled_double_def power_int_def)
  show "\<not> isnan (scaled_double neg n 10 e)" "dneg (scaled_double neg n 10 e) = neg"
    using ratio_double_rounds(2,3) [of "int (n * 10 ^ nat e)" 1 neg] ratio_double_rounds(2,3) [of "int n" "int (10 ^ nat (- e))" neg]
    by (simp_all add: scaled_double_def)
qed

lemma double_eqI: "dkey a = dkey b \<Longrightarrow> dneg a = dneg b \<Longrightarrow> a = b"
proof -
  assume "dkey a = dkey b" "dneg a = dneg b"
  then have "dmag a = dmag b" by (simp add: dkey_def split: if_splits)
  moreover have "uint (dbits d) = (if dneg d then 2 ^ 63 else 0) + dmag d" for d
    using uint_bounded [of "dbits d"] minus_mod_self2 [of "uint (dbits d)" "2 ^ 63"]
      mod_pos_pos_trivial [of "uint (dbits d) - 2 ^ 63" "2 ^ 63"] by (simp add: dneg_def dmag_def)
  ultimately show ?thesis using \<open>dneg a = dneg b\<close> by (metis double.expand word_uint_eq_iff)
qed

text \<open>\<open>%zu\<close> is read as the double the number is cast to.\<close>

lemma double_of_nat_scaled: "scaled_double False n 10 0 = double_of_nat n"
proof (rule double_eqI)
  have "rounds_to (real n * 2 powi 1074) (dkey (double_of_nat n))"
    using rnd_exact_rounds_to [of "int n" False 1074] by (simp add: double_of_nat_def)
  moreover have "rounds_to (real n * 2 powi 1074) (dkey (scaled_double False n 10 0))"
    using scaled_double_rounds(1) [of False n 0] by simp
  ultimately show "dkey (scaled_double False n 10 0) = dkey (double_of_nat n)" by (rule rounds_to_unique [rotated])
  show "dneg (scaled_double False n 10 0) = dneg (double_of_nat n)"
    by (simp add: scaled_double_rounds(3) double_of_nat_def)
qed

lemma number_text_nat: "number_text (show_nat n) (double_of_nat n)"
  using number_text_decimal [of "show_nat n" "[]" False None] double_of_nat_scaled [of n]
  by (simp add: decimal_text_def decimal_double_def)

text \<open>\<open>%.9g\<close>\<close>

lemma decimal_text_fraction:
  "decimal_text ip (strip_zeros s) ex = ip @ fraction s @ (case ex of None \<Rightarrow> [] | Some x \<Rightarrow> exponent_text x)"
  by (simp add: decimal_text_def fraction_def Let_def)

text \<open>The integer digits, the fraction as it is before its zeros are taken off, and the exponent.\<close>

definition g9_parts :: "nat \<Rightarrow> int \<Rightarrow> string \<times> string \<times> int option" where
  "g9_parts m x =
     (let ds = show_fixed 9 m in
      if x < - 4 \<or> 9 \<le> x then (take 1 ds, drop 1 ds, Some x)
      else if 0 \<le> x then (take (nat x + 1) ds, drop (nat x + 1) ds, None)
      else (''0'', replicate (nat (- x - 1)) (CHR ''0'') @ ds, None))"

lemma g9_parts_facts:
  assumes "g9_parts m x = (ip, s, ex)" "m < 10 ^ 9"
  shows "list_all isdigit ip" "list_all isdigit s" "ip \<noteq> []" "digits_value 10 (ip @ s) = m"
    "(case ex of None \<Rightarrow> 0 | Some x \<Rightarrow> x) - int (length s) = x - 8"
proof -
  let ?ds = "show_fixed 9 m"
  have ds: "length ?ds = 9" "list_all isdigit ?ds" "digits_value 10 ?ds = m" using assms(2) by simp_all
  have ne: "?ds \<noteq> []" using ds(1) by (metis list.size(3) zero_neq_numeral)
  have td: "list_all isdigit (take k ?ds)" "list_all isdigit (drop k ?ds)" for k
    using ds(2) by (auto simp: list_all_iff dest: in_set_takeD in_set_dropD)
  have zero: "isdigit (CHR ''0'')" "digit_value (CHR ''0'') = 0" by (simp_all add: isdigit_def digit_value_def code_def)
  then have rep: "list_all isdigit (replicate k (CHR ''0''))" for k by (simp add: list_all_iff)
  have lead: "digits_value 10 (replicate k (CHR ''0'') @ w) = digits_value 10 w" for k w
    using zero(2) by (induction k) (simp_all add: digits_value_def)
  have lead0: "digits_value 10 (CHR ''0'' # replicate k (CHR ''0'') @ w) = digits_value 10 w" for k w
    using lead [of "Suc k" w] by simp
  consider "x < - 4 \<or> 9 \<le> x" "ip = take 1 ?ds" "s = drop 1 ?ds" "ex = Some x"
    | "0 \<le> x" "x < 9" "ip = take (nat x + 1) ?ds" "s = drop (nat x + 1) ?ds" "ex = None"
    | "x < 0" "ip = ''0''" "s = replicate (nat (- x - 1)) (CHR ''0'') @ ?ds" "ex = None"
    using assms(1) by (auto simp: g9_parts_def Let_def split: if_splits)
  then show "list_all isdigit ip" "list_all isdigit s" "ip \<noteq> []" "digits_value 10 (ip @ s) = m"
    "(case ex of None \<Rightarrow> 0 | Some x \<Rightarrow> x) - int (length s) = x - 8"
    using ds td ne rep zero lead0 by (cases; simp del: show_fixed.simps show_fixed_facts(1))+
qed

lemma format_g9_parts:
  assumes "finite_d d" "dmag d \<noteq> 0" "sci9 (mval (dmag d)) = (m, x)" "g9_parts m x = (ip, s, ex)"
  shows "format_g9 d = (if dneg d then ''-'' else []) @ decimal_text ip (strip_zeros s) ex"
proof -
  have nf: "\<not> isnan d" "\<not> isinf d" using finite_not_inf [OF assms(1)] by simp_all
  show ?thesis
    using assms(2-4) nf unfolding decimal_text_fraction
    by (auto simp: format_g9_def sign_text_def g9_parts_def Let_def split: if_splits)
qed

lemma number_text_g9:
  assumes "finite_d d"
  shows "\<exists>e. number_text (format_g9 d) e \<and> \<not> isnan e \<and> dneg e = dneg d \<and>
    (if dmag d = 0 then dkey e = 0
     else \<exists>m x. sci9 (mval (dmag d)) = (m, x) \<and>
       rounds_to ((if dneg d then - 1 else 1) * (real m * 10 powi (x - 8) * 2 powi 1074)) (dkey e))"
proof (cases "dmag d = 0")
  case True
  have nf: "\<not> isnan d" "\<not> isinf d" using finite_not_inf [OF assms] by simp_all
  have txt_eq: "format_g9 d = (if dneg d then ''-'' else []) @ decimal_text ''0'' [] None"
    using True nf by (simp add: format_g9_def sign_text_def decimal_text_def)
  have zero: "digit_value (CHR ''0'') = 0" "rounds_to 0 k \<longleftrightarrow> k = 0" for k
    by (auto simp: digit_value_def isdigit_def code_def rounds_to_def is_rne_0 inf_mag_def)
  have "list_all isdigit ''0''" by (simp add: isdigit_def code_def)
  from number_text_decimal [OF this, of "[]" "dneg d" None] show ?thesis
    using True scaled_double_rounds [of "dneg d" 0 0] zero unfolding txt_eq
    by (intro exI [of _ "scaled_double (dneg d) 0 10 0"]) (simp add: decimal_double_def)
next
  case False
  then have mag: "0 < mval (dmag d)" using mval_pos_iff [of "dmag d"] dmag_bounds [of d] by simp
  obtain m x where sci: "sci9 (mval (dmag d)) = (m, x)" by (cases "sci9 (mval (dmag d))")
  obtain ip s ex where parts: "g9_parts m x = (ip, s, ex)" by (cases "g9_parts m x")
  note p = g9_parts_facts [OF parts sci9_near(2) [OF mag sci]]
  from fraction_facts [OF p(2), of ip] obtain z where z: "s = strip_zeros s @ replicate z (CHR ''0'')"
    "list_all isdigit (strip_zeros s)" "m = digits_value 10 (ip @ strip_zeros s) * 10 ^ z" unfolding p(4) by blast
  let ?V = "digits_value 10 (ip @ strip_zeros s)" and ?e = "x - 8 + int z"
  have "length s = length (strip_zeros s) + z" by (subst z(1)) simp
  then have "(case ex of None \<Rightarrow> 0 | Some x \<Rightarrow> x) - int (length (strip_zeros s)) = ?e" using p(5) by linarith
  then have dec: "decimal_double (dneg d) ip (strip_zeros s) ex = scaled_double (dneg d) ?V 10 ?e"
    by (simp add: decimal_double_def)
  have "(10::real) powi ?e = 10 powi (x - 8) * 10 ^ z" by (subst power_int_add) simp_all
  then have "real ?V * 10 powi ?e = real m * 10 powi (x - 8)" by (subst z(3)) simp
  then show ?thesis
    using number_text_decimal [OF p(1) z(2) p(3), of "dneg d" ex] scaled_double_rounds [of "dneg d" ?V ?e] False sci
    unfolding format_g9_parts [OF assms False sci parts] dec by auto
qed

end
