(* ===== verification/Cli_Inv.thy ===== *)
theory Cli_Inv
  imports SpatialIndex_Pages Cli Printf_Inv Urbis_Props Persistence_Props
begin

text \<open>
  Lemmas on the command line tool: the JSON it prints is a text that the parser of the library reads,
  and what a build leaves in the file a query finds there.
\<close>

subsection \<open>The JSON of a query\<close>

definition g9_double :: "double \<Rightarrow> double" where
  "g9_double d = fst (strtod (format_g9 d))"

lemma number_text_g9_double:
  assumes "finite_d d"
  shows "number_text (format_g9 d) (g9_double d)"
proof -
  obtain e where e: "number_text (format_g9 d) e" using number_text_g9 [OF assms] by blast
  then have "strtod (format_g9 d @ []) = (e, length (format_g9 d))" unfolding number_text_def by (metis ends_valueI(1))
  then show ?thesis using e by (simp add: g9_double_def)
qed

lemma with_commas_join: "with_commas xs = join '','' xs"
proof (induction xs)
  case (Cons x xs)
  then show ?case by (cases xs) simp_all
qed simp

text \<open>What the reader of the output is told about an object and about a result.\<close>

definition numbers :: "double list \<Rightarrow> JsonValue" where
  "numbers ds = JSON_ARRAY (map (\<lambda>d. JSON_NUMBER (g9_double d)) ds)"

definition object_value :: "SpatialObject \<Rightarrow> JsonValue" where
  "object_value obj = JSON_OBJECT
     [(''id'', JSON_NUMBER (double_of_nat (unat (so_id obj)))), (''type'', JSON_STRING (geom_type_str (so_type obj))),
      (''centroid'', numbers [px (so_centroid obj), py (so_centroid obj)]),
      (''mbr'', numbers [min_x (so_mbr obj), min_y (so_mbr obj), max_x (so_mbr obj), max_y (so_mbr obj)])]"

definition result_value :: "SpatialObject list \<Rightarrow> JsonValue" where
  "result_value objs = JSON_OBJECT
     [(''count'', JSON_NUMBER (double_of_nat (length objs))), (''objects'', JSON_ARRAY (map object_value objs))]"

definition result_json :: "SpatialObject list \<Rightarrow> string" where
  "result_json objs = ''{\"count\":'' @ show_nat (length objs) @ '',\"objects\":['' @ with_commas (map object_json objs) @ '']}''"

definition mbr_finite :: "MBR \<Rightarrow> bool" where
  "mbr_finite m = (finite_d (min_x m) \<and> finite_d (min_y m) \<and> finite_d (max_x m) \<and> finite_d (max_y m))"

definition object_finite :: "SpatialObject \<Rightarrow> bool" where
  "object_finite obj = (pt_finite (so_centroid obj) \<and> mbr_finite (so_mbr obj))"

lemma plain_words [simp]: "plain ''id''" "plain ''type''" "plain ''centroid''" "plain ''mbr''" "plain ''count''" "plain ''objects''"
  "plain (geom_type_str t)"
  by (simp_all add: plain_def) (cases t; simp)

lemma reads_numbers:
  assumes "list_all finite_d ds"
  shows "reads_text (''['' @ join '','' (map format_g9 ds) @ '']'') (numbers ds)"
proof -
  have "reads_items (map (\<lambda>d. (format_g9 d, JSON_NUMBER (g9_double d))) ds)"
    using assms by (auto simp: reads_items_def list_all_iff intro: reads_text_number number_text_g9_double)
  from reads_text_array [OF this] show ?thesis by (simp add: numbers_def o_def)
qed

lemma reads_object:
  assumes "object_finite obj"
  shows "reads_text (object_json obj) (object_value obj)"
proof -
  let ?c = "[px (so_centroid obj), py (so_centroid obj)]"
  let ?b = "[min_x (so_mbr obj), min_y (so_mbr obj), max_x (so_mbr obj), max_y (so_mbr obj)]"
  let ?arr = "\<lambda>ds. ''['' @ join '','' (map format_g9 ds) @ '']''"
  let ?ms = "[(''id'', show_word (so_id obj), JSON_NUMBER (double_of_nat (unat (so_id obj)))),
    (''type'', quoted (geom_type_str (so_type obj)), JSON_STRING (geom_type_str (so_type obj))),
    (''centroid'', ?arr ?c, numbers ?c), (''mbr'', ?arr ?b, numbers ?b)]"
  have fin: "list_all finite_d ?c" "list_all finite_d ?b"
    using assms by (simp_all add: object_finite_def pt_finite_def mbr_finite_def)
  have "reads_members ?ms"
    using reads_numbers [OF fin(1)] reads_numbers [OF fin(2)] reads_text_string [of "geom_type_str (so_type obj)"]
      reads_text_number [OF number_text_nat]
    by (simp add: reads_members_def show_word_def)
  moreover have "object_json obj = ''{'' @ join '','' (map member_text ?ms) @ ''}''"
    by (simp add: object_json_def member_text_def quoted_def)
  moreover have "object_value obj = JSON_OBJECT (map member_value ?ms)" by (simp add: object_value_def member_value_def)
  ultimately show ?thesis using reads_text_object by presburger
qed

lemma reads_result:
  assumes "list_all object_finite objs"
  shows "reads_text (result_json objs) (result_value objs)"
proof -
  have "reads_items (map (\<lambda>obj. (object_json obj, object_value obj)) objs)"
    using assms reads_object by (auto simp: reads_items_def list_all_iff)
  from reads_text_array [OF this] have arr: "reads_text (''['' @ with_commas (map object_json objs) @ '']'') (JSON_ARRAY (map object_value objs))"
    by (simp add: with_commas_join o_def)
  let ?ms = "[(''count'', show_nat (length objs), JSON_NUMBER (double_of_nat (length objs))),
    (''objects'', ''['' @ with_commas (map object_json objs) @ '']'', JSON_ARRAY (map object_value objs))]"
  have "reads_members ?ms"
    using arr reads_text_number [OF number_text_nat] by (simp add: reads_members_def)
  moreover have "result_json objs = ''{'' @ join '','' (map member_text ?ms) @ ''}''"
    by (simp add: result_json_def member_text_def quoted_def)
  moreover have "result_value objs = JSON_OBJECT (map member_value ?ms)" by (simp add: result_value_def member_value_def)
  ultimately show ?thesis using reads_text_object by presburger
qed

text \<open>The printed text has no zero character, so it is a C string.\<close>

lemma no_zero_show_nat [simp]: "no_zero (show_nat n)"
  by (rule no_zero_digits) simp

lemma no_zero_exponent: "no_zero (exponent_text x)"
  by (auto simp: exponent_text_def no_zero_digits)

lemma no_zero_g9:
  assumes "finite_d d"
  shows "no_zero (format_g9 d)"
proof (cases "dmag d = 0")
  case True
  then show ?thesis using finite_not_inf [OF assms] by (simp add: format_g9_def sign_text_def)
next
  case False
  obtain m x where sci: "sci9 (mval (dmag d)) = (m, x)" by (cases "sci9 (mval (dmag d))")
  obtain ip s ex where parts: "g9_parts m x = (ip, s, ex)" by (cases "g9_parts m x")
  have "0 < mval (dmag d)" using False mval_pos_iff [of "dmag d"] by (simp add: less_le)
  note p = g9_parts_facts [OF parts sci9_near(2) [OF this sci]]
  obtain z where "list_all isdigit (strip_zeros s)" using fraction_facts [OF p(2), of "[]"] by blast
  then have "no_zero ip" "no_zero (strip_zeros s)" using p(1) by (simp_all add: no_zero_digits)
  then show ?thesis
    unfolding format_g9_parts [OF assms False sci parts] by (simp add: decimal_text_def no_zero_exponent split: option.split)
qed

lemma no_zero_object: "object_finite obj \<Longrightarrow> no_zero (object_json obj)"
  by (cases "so_type obj") (simp_all add: object_json_def show_word_def no_zero_g9 object_finite_def pt_finite_def mbr_finite_def)

lemma no_zero_result: "list_all object_finite objs \<Longrightarrow> no_zero (result_json objs @ nl)"
  by (auto simp: result_json_def with_commas_join nl_def list_all_iff no_zero_object intro!: no_zero_join)

lemma parse_result:
  assumes "list_all object_finite objs"
  shows "\<exists>st. parse_root malloc_ok (result_json objs @ nl) = Some (Inr (result_value objs), st)"
  by (rule parse_root_reads [OF reads_result [OF assms] no_zero_result [OF assms]]) (simp add: nl_def)

subsection \<open>From build to query\<close>

text \<open>An environment in which nothing fails, and a process without an open stream.\<close>

definition sound_env :: "CliEnv \<Rightarrow> bool" where
  "sound_env env = (ce_alloc env = malloc_ok \<and> ce_device env = working_device \<and> qsort_contract (ce_qsort env) \<and>
     hp_live (ce_heap env) = [])"

definition no_stream :: "FileState \<Rightarrow> bool" where
  "no_stream fs = (fs_data_file fs = None \<and> fs_file_path fs = None)"

lemma spatial_index_init_ok: "\<exists>idx. spatial_index_init malloc_ok h config = (SI_OK, idx)"
  by (simp add: spatial_index_init_def disk_manager_init_def page_pool_init_def page_cache_init_def zero_pool_def Let_def malloc_ok_simp
      split: option.split)

lemma urbis_index_create_ok:
  "\<exists>cfg idx. urbis_index_create malloc_ok h config = Inr idx \<and> spatial_index_init malloc_ok h cfg = (SI_OK, idx)"
proof -
  have mk: "\<exists>idx. spatial_index_create malloc_ok h (Some c) = Some idx \<and> spatial_index_init malloc_ok h (Some c) = (SI_OK, idx)" for c
    using spatial_index_init_ok [of h "Some c"] by (auto simp: spatial_index_create_def malloc_ok_simp)
  have "\<exists>c. urbis_index_create malloc_ok h config =
      (case spatial_index_create malloc_ok h (Some c) of None \<Rightarrow> Inl URBIS_ERR_ALLOC | Some idx \<Rightarrow> Inr idx)"
    unfolding urbis_index_create_def Let_def strdup_def
    by (cases config; cases "uc_data_path (the config)") (auto simp: malloc_ok_simp)
  then obtain c where c: "urbis_index_create malloc_ok h config =
      (case spatial_index_create malloc_ok h (Some c) of None \<Rightarrow> Inl URBIS_ERR_ALLOC | Some idx \<Rightarrow> Inr idx)" ..
  obtain idx where "spatial_index_create malloc_ok h (Some c) = Some idx" "spatial_index_init malloc_ok h (Some c) = (SI_OK, idx)"
    using mk by blast
  then show ?thesis using c by auto
qed

lemma created_reach:
  assumes "spatial_index_init malloc_ok h config = (SI_OK, idx)" "hp_live h = []"
  shows "si_reach qs idx" "si_objects idx = []" "unsaved (si_disk idx)" "length (pp_pages (si_pool idx)) = 0"
proof -
  obtain pages n where h: "h = \<lparr>hp_page = pages, hp_live = [], hp_next = n\<rparr>" using assms(2) by (cases h) auto
  note init = assms(1) [unfolded h]
  show "si_reach qs idx" by (rule si_reach.start [OF init])
  show "si_objects idx = []" using spatial_index_init_inv [OF init] by (simp add: si_views_def)
  show "unsaved (si_disk idx)" by (rule unsaved_init [OF assms(1)])
  show "length (pp_pages (si_pool idx)) = 0"
    using assms(1) by (auto simp: spatial_index_init_def disk_manager_init_def page_pool_init_def page_cache_init_def zero_pool_def
        Let_def malloc_ok_simp split: if_splits)
qed

text \<open>Every feature becomes a stored object, and each needs at most one new page.\<close>

definition feature_num :: "ParsedFeature \<Rightarrow> bool" where
  "feature_num f = (mbr_num (so_mbr (derived (pf_object f))) \<and> pt_num (so_centroid (derived (pf_object f))))"

definition feature_views :: "64 word list \<Rightarrow> ParsedFeature list \<Rightarrow> view list" where
  "feature_views oids fs = map2 (\<lambda>oid f. with_id oid (object_view (derived (pf_object f)))) oids fs"

lemma insert_features_reach:
  assumes "si_reach qs idx" "list_all feature_num fs"
  shows "\<exists>idx' oids. insert_features malloc_ok idx fs = (SI_OK, idx') \<and> si_reach qs idx' \<and> length oids = length fs \<and>
    si_views idx' = si_views idx + mset (feature_views oids fs) \<and>
    length (pp_pages (si_pool idx')) \<le> length (pp_pages (si_pool idx)) + length fs"
  using assms
proof (induction fs arbitrary: idx)
  case (Cons f fs)
  have num: "mbr_num (so_mbr (derived (pf_object f)))" using Cons.prems(2) by (simp add: feature_num_def)
  obtain idx1 oid where i: "spatial_index_insert malloc_ok idx (pf_object f) = (SI_OK, idx1, insert_object idx (pf_object f))"
    "si_views idx1 = add_mset (with_id oid (object_view (derived (pf_object f)))) (si_views idx)"
    using insert_sim [OF si_reach_inv [OF Cons.prems(1)] num] by blast
  have "si_apply qs (Op_insert (pf_object f)) idx = idx1" by (simp add: si_apply_def i(1))
  then have r: "si_reach qs idx1" using si_reach.step [OF Cons.prems(1), of "Op_insert (pf_object f)"] num by simp
  have pages: "length (pp_pages (si_pool idx1)) \<le> length (pp_pages (si_pool idx)) + 1"
    using insert_page_count [OF si_reach_inv [OF Cons.prems(1)], of "pf_object f"] by (simp add: i(1))
  obtain idx2 oids where "insert_features malloc_ok idx1 fs = (SI_OK, idx2)" "si_reach qs idx2" "length oids = length fs"
    "si_views idx2 = si_views idx1 + mset (feature_views oids fs)"
    "length (pp_pages (si_pool idx2)) \<le> length (pp_pages (si_pool idx1)) + length fs"
    using Cons.IH [OF r] Cons.prems(2) by auto
  then show ?case
    using i pages by (intro exI [of _ idx2] exI [of _ "oid # oids"]) (simp add: feature_views_def)
qed (simp add: feature_views_def)

lemma reached_build:
  assumes "si_reach qs idx" "qsort_contract qs" "\<forall>obj \<in> set (si_objects idx). pt_num (so_centroid obj)"
  shows "\<exists>idx'. urbis_index_build qs malloc_ok idx = (URBIS_OK, idx') \<and> si_reach qs idx' \<and> si_objects idx' = si_objects idx \<and>
    pp_pages (si_pool idx') = pp_pages (si_pool idx)"
proof -
  obtain idx' where b: "spatial_index_build qs malloc_ok idx = (SI_OK, idx')" "si_heap idx' = si_heap idx"
    "pp_pages (si_pool idx') = pp_pages (si_pool idx)"
    using build_returns [OF si_reach_inv [OF assms(1)] assms(2,3)] by blast
  have "si_reach qs idx'" using si_reach.step [OF assms(1), of Op_build] by (simp add: si_apply_def b(1))
  then show ?thesis using b si_same_pages(1) [OF b(2,3)] by (simp add: urbis_index_build_def)
qed

text \<open>A file on which a save has ended holds objects.\<close>

definition holds_objects :: "FileState \<Rightarrow> string \<Rightarrow> SpatialObject list \<Rightarrow> bool" where
  "holds_objects fs path objs = (no_stream fs \<and> (\<exists>bytes n P. fs_files fs path = Some bytes \<and> saved_file bytes n P \<and> n < 2 ^ 32 \<and>
     (\<forall>k < n. empty_if_clean (P k)) \<and> concat (map (\<lambda>k. pg_objects (P k)) [0..<n]) = objs))"

lemma save_and_destroy:
  assumes reach: "si_reach qs idx" and n: "length (pp_pages (si_pool idx)) < 2 ^ 32"
  shows "\<exists>fs1 idx1. urbis_index_save malloc_ok working_device now fs idx path = (URBIS_OK, fs1, idx1) \<and>
    holds_objects (fst (urbis_index_destroy working_device now' fs1 idx1)) path (si_objects idx)"
proof -
  let ?n = "length (pp_pages (si_pool idx))" and ?P = "\<lambda>k. si_page idx (pp_pages (si_pool idx) ! k)"
  obtain fs1 dm1 bytes where s: "spatial_index_save malloc_ok working_device now fs idx path = (SI_OK, fs1, idx\<lparr>si_disk := dm1\<rparr>)"
    "fs_data_file fs1 = Some path" "fs_files fs1 path = Some bytes" "saved_file bytes ?n ?P"
    "dm_pool dm1 = si_pool idx" "dm_config dm1 = dm_config (si_disk idx)" "dm_is_open dm1"
    "\<forall>a \<in> set (pp_pages (si_pool idx)). dm_page dm1 a = clean (si_page idx a)"
    "length (fh_reserved (dm_header dm1)) = 64" "get_file_header bytes = dm_header dm1"
    using saved_index [OF reach n] by blast
  have P: "\<forall>k < ?n. empty_if_clean (?P k)"
  proof -
    have "dm_inv (si_disk idx)" using si_reach_inv [OF reach] by (simp add: si_inv_def)
    then show ?thesis using unsaved_empty_if_clean [OF si_reach_unsaved [OF reach]] by (simp add: si_page_dm)
  qed
  have fold1: "fold (sync_page working_device) (pp_pages (si_pool idx)) (fs1, dm1) = (fs1, dm1)" using s(8) by (intro sync_clean) simp
  define fh where "fh = (dm_header dm1)\<lparr>fh_page_count := word_of_nat ?n, fh_track_count := word_of_nat (length (pp_tracks (si_pool idx))),
    fh_object_count := word_of_nat (pool_object_count (dm_heap dm1) (si_pool idx)), fh_modified_time := now'\<rparr>"
  define img where "img = put_file bytes 0 (file_header_bytes fh)"
  have res: "length (fh_reserved fh) = 64" by (simp add: fh_def s(9))
  have long: "sizeof_DiskFileHeader \<le> length bytes" using s(4) by (simp add: saved_file_def)
  have content: "file_of fs1 path = bytes" by (simp add: file_of_def s(3))
  have destroy: "fst (urbis_index_destroy working_device now' fs1 (idx\<lparr>si_disk := dm1\<rparr>)) = closed_stream (set_file path img fs1)"
    using s(2,5,7) fold1 content
    by (simp add: urbis_index_destroy_def spatial_index_free_def disk_manager_free_def disk_manager_close_def disk_manager_sync_def
        write_header_def Let_def closed_stream_def fh_def img_def set_file_def)
  have "length img = length bytes" using long by (simp add: img_def put_file_front length_file_header_bytes res)
  moreover have "get_file_header img = fh" unfolding img_def by (rule file_header_front [OF res long])
  moreover have "slot img k = slot bytes k" for k unfolding img_def by (rule slot_front [OF length_file_header_bytes [OF res] long])
  ultimately have "saved_file img ?n ?P"
    using s(4,10) by (simp add: saved_file_def slot_holds_def fh_def Let_def)
  then have "holds_objects (closed_stream (set_file path img fs1)) path (si_objects idx)"
    using n P concat_pages [of idx] unfolding holds_objects_def
    by (auto simp: no_stream_def closed_stream_def set_file_def intro!: exI [of _ img] exI [of _ ?n] exI [of _ ?P])
  then show ?thesis using s(1) destroy by (simp add: urbis_index_save_def)
qed

text \<open>What \<open>urbis_index_load\<close> leaves: the index that a build has made of the loaded pages, under empty bounds.\<close>

lemma load_built:
  assumes "sound_env env" "holds_objects (cl_files st) path objs" "\<forall>obj \<in> set objs. pt_num (so_centroid obj)"
  shows "\<exists>idx1 idx fs. load_index env path st = Some (Inr (idx, st\<lparr>cl_files := fs\<rparr>)) \<and>
    spatial_index_build (ce_qsort env) malloc_ok idx1 = (SI_OK, idx) \<and> si_inv idx1 \<and> si_bounds idx1 = mbr_empty \<and>
    sc_build_quadtree (si_config idx1) \<and> si_objects idx1 = map stored_object objs \<and> si_inv idx \<and> si_is_built idx \<and>
    si_objects idx = map stored_object objs"
proof -
  obtain bytes n P where f: "fs_files (cl_files st) path = Some bytes" "saved_file bytes n P" "n < 2 ^ 32" "\<forall>k < n. empty_if_clean (P k)"
    "concat (map (\<lambda>k. pg_objects (P k)) [0..<n]) = objs"
    using assms(2) unfolding holds_objects_def by blast
  obtain idx0 where c: "urbis_index_create malloc_ok (ce_heap env) None = Inr idx0"
    "spatial_index_init malloc_ok (ce_heap env) (Some spatial_index_default_config) = (SI_OK, idx0)"
    using spatial_index_init_ok [of "ce_heap env" "Some spatial_index_default_config"]
    by (auto simp: urbis_index_create_def spatial_index_create_def malloc_ok_simp)
  have cfg: "sc_build_quadtree (si_config idx0)"
    using c(2) by (auto simp: spatial_index_init_def spatial_index_default_config_def malloc_ok_simp Let_def split: prod.splits if_splits)
  have live: "hp_live (ce_heap env) = []" and qs: "qsort_contract (ce_qsort env)" using assms(1) by (simp_all add: sound_env_def)
  note i = created_reach(1) [OF c(2) live, of isort_by] created_reach(2,3) [OF c(2) live]
  have num: "\<forall>k < n. \<forall>obj \<in> set (pg_objects (P k)). pt_num (so_centroid obj)"
    using assms(3) unfolding f(5) [symmetric] by auto
  obtain fs' idx1 idx where l: "spatial_index_load (ce_qsort env) malloc_ok working_device (ce_clock env 0) (cl_files st) idx0 path = Some (SI_OK, fs', idx)"
    "spatial_index_build (ce_qsort env) malloc_ok idx1 = (SI_OK, idx)" "si_inv idx1" "si_bounds idx1 = mbr_empty"
    "si_config idx1 = si_config idx0" "si_objects idx1 = si_objects idx" "si_inv idx" "si_is_built idx" "si_objects idx = map stored_object objs"
    using load_ok [OF f(1-4) si_reach_inv [OF i(1)] i(3,2) qs num] unfolding f(5) by blast
  moreover have "load_index env path st = Some (Inr (idx, st\<lparr>cl_files := fs'\<rparr>))"
    using c(1) assms(1) l(1) by (auto simp: load_index_def urbis_index_load_def sound_env_def)
  ultimately show ?thesis using cfg by (intro exI [of _ idx1] exI [of _ idx] exI [of _ fs']) simp
qed

lemma load_held:
  assumes "sound_env env" "holds_objects (cl_files st) path objs" "\<forall>obj \<in> set objs. pt_num (so_centroid obj)"
  shows "\<exists>idx fs. load_index env path st = Some (Inr (idx, st\<lparr>cl_files := fs\<rparr>)) \<and> si_inv idx \<and> si_is_built idx \<and>
    si_objects idx = map stored_object objs"
  using load_built [OF assms] by blast

text \<open>On a loaded index with objects the tree of the pages has empty bounds: no search visits it.\<close>

lemma loaded_pages_blind:
  assumes run: "spatial_index_build qs malloc_ok idx1 = (SI_OK, idx)" and inv: "si_inv idx1" and ne: "si_objects idx1 \<noteq> []"
    and cfg: "sc_build_quadtree (si_config idx1)" and b: "si_bounds idx1 = mbr_empty"
  shows "urbis_index_find_adjacent_pages malloc_ok idx region = (Inr \<lparr>pl_page_ids = [], pl_track_ids = [], pl_estimated_seeks = 0\<rparr>, idx)"
proof -
  obtain qt where qt: "si_page_tree idx = Some qt" "qn_bounds (qt_root qt) = mbr_empty"
    using build_leaves_tree [OF run inv ne cfg] by (auto simp: page_tree_def b)
  have out: "\<not> mbr_intersects (qn_bounds (qt_root qt)) m" for m
    using mbr_intersects_nonempty [of mbr_empty m] by (auto simp: qt(2))
  obtain r0 :: "nat QTQueryResult" where z: "qtresult_init malloc_ok 64 = (QT_OK, r0)" "qr_items r0 = []" using qtresult_init_ok by blast
  then have "quadtree_find_adjacent_to_region malloc_ok qt region r0 = (QT_OK, qtresult_clear r0)"
    by (simp add: quadtree_find_adjacent_to_region_def query_range_outside [OF out])
  then show ?thesis
    using z(1) qt(1) by (simp add: urbis_index_find_adjacent_pages_def spatial_index_find_adjacent_pages_def malloc_ok_simp count_seeks_def Let_def)
qed

text \<open>What the tool prints of an object.\<close>

type_synonym row = "64 word \<times> GeomType \<times> Point \<times> MBR"

definition view_row :: "view \<Rightarrow> row" where
  "view_row v = (fst v, fst (fst (snd v)), fst (snd (snd v)), fst (snd (snd (snd v))))"

definition object_row :: "SpatialObject \<Rightarrow> row" where
  "object_row obj = (so_id obj, so_type obj, so_centroid obj, so_mbr obj)"

lemma object_row_view: "object_row obj = view_row (object_view obj)"
  by (cases "so_geom obj") (simp_all add: object_row_def view_row_def object_view_def so_type_def)

lemma object_row_stored [simp]: "object_row (stored_object obj) = object_row obj"
  by (cases "so_geom obj") (simp_all add: object_row_def stored_object_def so_type_def)

lemma loaded_knn:
  assumes run: "spatial_index_build qs malloc_ok idx1 = (SI_OK, idx)" and inv: "si_inv idx1" and ne: "si_objects idx1 \<noteq> []"
    and qs: "qsort_contract qs" and fin: "\<forall>obj \<in> set (si_objects idx1). pt_finite (so_centroid obj)"
    and q: "finite_d x" "finite_d y" and k: "0 < k"
  shows "\<exists>list far. urbis_index_query_knn malloc_ok idx x y k = Inr list \<and>
    mset (map object_row (ol_objects list @ far)) = mset (map object_row (si_objects idx1)) \<and>
    length (ol_objects list) = min k (length (si_objects idx1)) \<and>
    sorted (map (\<lambda>obj. dist_key (point_create x y) (so_centroid obj)) (ol_objects list)) \<and>
    (\<forall>a \<in> set (ol_objects list). \<forall>b \<in> set far. dist_key (point_create x y) (so_centroid a) \<le> dist_key (point_create x y) (so_centroid b))"
proof -
  let ?q = "point_create x y"
  have num: "\<forall>obj \<in> set (si_objects idx1). pt_num (so_centroid obj)" using fin pt_finite_num by blast
  have b: "si_heap idx = si_heap idx1" "pp_pages (si_pool idx) = pp_pages (si_pool idx1)" "kdtree_inv (si_block_tree idx)"
    "mset (kd_entries (kt_root (si_block_tree idx))) = mset (map (object_point idx1) (all_ptrs idx1))"
    using spatial_index_build_ok [OF inv qs ne num] run by auto
  have deref: "si_deref idx p = si_deref idx1 p" for p by (rule si_same_pages(5)) (simp_all add: b)
  have point: "object_point idx = object_point idx1" by (rule ext) (simp add: object_point_def deref)
  have objs: "map (si_deref idx1) (all_ptrs idx1) = si_objects idx1" by (rule deref_ptrs)
  have len: "length (all_ptrs idx1) = length (si_objects idx1)" using arg_cong [OF objs, of length] by simp
  have fin': "\<forall>p \<in> set (all_ptrs idx1). pt_finite (so_centroid (si_deref idx p))"
    using fin unfolding objs [symmetric] by (simp add: deref)
  have qf: "pt_finite ?q" using q by (simp add: pt_finite_def point_create_def)
  have ne': "all_ptrs idx1 \<noteq> []" using ne objs by auto
  obtain r where r: "spatial_result_init malloc_ok k = (SI_OK, r)" using spatial_result_init_ok by blast
  have ents: "mset (kd_entries (kt_root (si_block_tree idx))) = mset (map (object_point idx) (all_ptrs idx1))" unfolding point by (rule b(4))
  obtain res rest where res: "spatial_index_query_knn malloc_ok idx ?q k r = (SI_OK, res)" "mset (sr_objects res @ rest) = mset (all_ptrs idx1)"
    "length (sr_objects res) = min k (length (all_ptrs idx1))"
    "sorted (map (\<lambda>p. dist_key ?q (so_centroid (si_deref idx p))) (sr_objects res))"
    "\<forall>a \<in> set (sr_objects res). \<forall>b \<in> set rest. dist_key ?q (so_centroid (si_deref idx a)) \<le> dist_key ?q (so_centroid (si_deref idx b))"
    using query_knn_on_tree [OF b(3) ents fin' qf k ne', of r] by blast
  obtain list where l: "urbis_copy_query_result malloc_ok (result_objects idx res) = Inr list"
    "map object_view (ol_objects list) = map object_view (result_objects idx res)"
    using copy_query_result_ok by blast
  have rows: "map object_row (ol_objects list) = map object_row (map (si_deref idx) (sr_objects res))"
    using arg_cong [OF l(2), of "map view_row"] by (simp add: object_row_view [abs_def] result_objects_def o_def)
  have cent: "map so_centroid (ol_objects list) = map so_centroid (map (si_deref idx) (sr_objects res))"
    using arg_cong [OF rows, of "map (\<lambda>r. fst (snd (snd r)))"] by (simp add: object_row_def o_def)
  let ?far = "map (si_deref idx) rest"
  have "mset (map object_row (ol_objects list @ ?far)) = image_mset (\<lambda>p. object_row (si_deref idx p)) (mset (sr_objects res @ rest))"
    unfolding map_append mset_append rows by (simp add: multiset.map_comp o_def)
  also have "\<dots> = mset (map object_row (si_objects idx1))"
    unfolding res(2) objs [symmetric] by (simp add: deref multiset.map_comp o_def)
  finally have ms: "mset (map object_row (ol_objects list @ ?far)) = mset (map object_row (si_objects idx1))" .
  have length: "length (ol_objects list) = min k (length (si_objects idx1))"
    using arg_cong [OF rows, of length] res(3) len by simp
  have dist: "map (\<lambda>obj. dist_key ?q (so_centroid obj)) (ol_objects list) = map (\<lambda>p. dist_key ?q (so_centroid (si_deref idx p))) (sr_objects res)"
    using arg_cong [OF cent, of "map (dist_key ?q)"] by (simp add: o_def)
  have "\<forall>d \<in> set (map (\<lambda>obj. dist_key ?q (so_centroid obj)) (ol_objects list)). \<forall>b \<in> set rest. d \<le> dist_key ?q (so_centroid (si_deref idx b))"
    unfolding dist using res(5) by simp
  then have far: "\<forall>a \<in> set (ol_objects list). \<forall>b \<in> set ?far. dist_key ?q (so_centroid a) \<le> dist_key ?q (so_centroid b)" by simp
  have "urbis_index_query_knn malloc_ok idx x y k = Inr list"
    using r res(1) l(1) k by (simp add: urbis_index_query_knn_def)
  with ms length res(4) far show ?thesis unfolding dist [symmetric] by blast
qed

end
