(* ===== verification/Cli_Props.thy ===== *)
theory Cli_Props
  imports Cli_Inv
begin

text \<open>
  The properties of the command line tool, with their witnesses.
\<close>

subsection \<open>Sizes\<close>

lemma show_nat_no_space: "takeWhile isspace (show_nat n @ t) = []" "takeWhile isspace (''-'' @ t) = []"
proof -
  obtain c s where "show_nat n = c # s" using show_nat_facts(2) [of n] by (meson neq_Nil_conv)
  moreover have "isdigit c" using show_nat_facts(1) [of n] calculation by simp
  ultimately show "takeWhile isspace (show_nat n @ t) = []" using isdigit_plain(1) by simp
  show "takeWhile isspace (''-'' @ t) = []" by (simp add: isspace_def code_def)
qed

lemma strtoull_digits:
  "strtoull (show_nat n) = (if n \<ge> 2 ^ 64 then - 1 else word_of_nat n, length (show_nat n))"
  "strtoull (''-'' @ show_nat n) = (if n \<ge> 2 ^ 64 then - 1 else - word_of_nat n, length (show_nat n) + 1)"
proof -
  have tk: "takeWhile isdigit (show_nat n) = show_nat n"
    using show_nat_facts(1) [of n] by (simp add: list_all_iff takeWhile_eq_all_conv)
  obtain c s where cs: "show_nat n = c # s" using show_nat_facts(2) [of n] by (meson neq_Nil_conv)
  have c: "isdigit c" using show_nat_facts(1) [of n] cs by simp
  have sg: "sign_len (show_nat n) = 0" "\<not> starts_minus (show_nat n)"
    using isdigit_plain [OF c] by (auto simp: cs sign_len_def starts_minus_def)
  have sm: "sign_len (''-'' @ show_nat n) = 1" "starts_minus (''-'' @ show_nat n)"
    by (simp_all add: sign_len_def starts_minus_def)
  show "strtoull (show_nat n) = (if n \<ge> 2 ^ 64 then - 1 else word_of_nat n, length (show_nat n))"
    using show_nat_no_space(1) [of n "[]"] by (simp add: strtoull_def Let_def sg tk)
  have w: "takeWhile isspace (''-'' @ show_nat n) = []" by (rule show_nat_no_space(2))
  show "strtoull (''-'' @ show_nat n) = (if n \<ge> 2 ^ 64 then - 1 else - word_of_nat n, length (show_nat n) + 1)"
    unfolding strtoull_def Let_def w list.size drop_0 by (simp add: sm [simplified] tk)
qed

lemma unat_minus_one: "unat (- 1 :: 64 word) = 2 ^ 64 - 1"
  by (simp add: unsigned_minus_1_eq_mask mask_eq_exp_minus_1)

text \<open>
  What the tool takes for a size.  A decimal number is read as itself up to the largest value of
  \<open>size_t\<close>, and a larger one as that value.  But a negative number \<open>- n\<close> is read as \<open>2 ^ 64 - n\<close>, and an
  empty argument as 0: neither is refused.
\<close>

theorem parse_size_values:
  "parse_size (show_nat n) = Some (min n (2 ^ 64 - 1)) \<and>
   parse_size (''-'' @ show_nat n) = Some (if n < 2 ^ 64 then (2 ^ 64 - n) mod 2 ^ 64 else 2 ^ 64 - 1) \<and>
   parse_size [] = Some 0"
proof -
  have u: "unat (word_of_nat n :: 64 word) = n" "unat (- word_of_nat n :: 64 word) = (2 ^ 64 - n) mod 2 ^ 64" if "n < 2 ^ 64"
  proof -
    show n: "unat (word_of_nat n :: 64 word) = n" using that by (simp add: unat_of_nat)
    then have "uint (word_of_nat n :: 64 word) = int n" by (simp add: uint_nat)
    then have "uint (- word_of_nat n :: 64 word) = (- int n) mod 2 ^ 64" by (simp add: uint_word_ariths(4))
    also have "\<dots> = (2 ^ 64 - int n) mod 2 ^ 64" by (metis mod_add_self1 uminus_add_conv_diff add.commute)
    also have "\<dots> = int ((2 ^ 64 - n) mod 2 ^ 64)" using that by (simp add: of_nat_diff zmod_int)
    finally show "unat (- word_of_nat n :: 64 word) = (2 ^ 64 - n) mod 2 ^ 64" by (metis nat_int unat_eq_nat_uint)
  qed
  have "parse_size (show_nat n) = Some (min n (2 ^ 64 - 1))"
    using u(1) unat_minus_one by (simp add: parse_size_def strtoull_digits(1) min_def)
  moreover have "parse_size (''-'' @ show_nat n) = Some (if n < 2 ^ 64 then (2 ^ 64 - n) mod 2 ^ 64 else 2 ^ 64 - 1)"
    unfolding parse_size_def strtoull_digits(2) using u(2) unat_minus_one by simp
  moreover have "parse_size [] = Some 0" by (simp add: parse_size_def strtoull_def)
  ultimately show ?thesis by blast
qed

subsection \<open>Exit codes and streams\<close>

definition ok_run :: "CliState \<Rightarrow> nat \<times> CliState \<Rightarrow> bool" where
  "ok_run st = (\<lambda>(exit, st').
     exit = 0 \<and> cl_err st' = cl_err st \<and> (\<exists>t. cl_out st' = cl_out st @ t) \<or>
     exit = 1 \<and> cl_out st' = cl_out st \<and> (\<exists>t. t \<noteq> [] \<and> cl_err st' = cl_err st @ t))"

lemma destroy_index_streams [simp]: "cl_out (destroy_index env idx st) = cl_out st" "cl_err (destroy_index env idx st) = cl_err st"
  by (simp_all add: destroy_index_def)

lemma put_streams [simp]:
  "cl_out (put_out s st) = cl_out st @ s" "cl_err (put_out s st) = cl_err st"
  "cl_err (put_err s st) = cl_err st @ s" "cl_out (put_err s st) = cl_out st"
  by (simp_all add: put_out_def put_err_def)

lemma ok_fail: "cl_out st' = cl_out st \<Longrightarrow> cl_err st' = cl_err st \<Longrightarrow> ok_run st (fail msg st')"
  by (simp add: ok_run_def fail_def URBIS_CLI_ERR_def line_def nl_def)

lemma ok_failures [simp]:
  "ok_run st (fail msg st)" "ok_run st (unknown_option a st)" "ok_run st (status_failed what status st)"
  "ok_run st (fail msg (destroy_index env idx st))" "ok_run st (status_failed what status (destroy_index env idx st))"
  by (simp_all add: ok_fail unknown_option_def status_failed_def)

lemma ok_out: "cl_err st' = cl_err st \<Longrightarrow> \<exists>t. cl_out st' = cl_out st @ t \<Longrightarrow> ok_run st (URBIS_CLI_OK, st')"
  by (simp add: ok_run_def URBIS_CLI_OK_def)

lemma ok_run_files: "ok_run (st\<lparr>cl_files := fs\<rparr>) r = ok_run st r"
  by (cases r) (simp add: ok_run_def)

lemma ok_with_index:
  assumes "\<And>idx st1. ok_run st1 (cont idx st1)" "with_index env path st cont = Some r"
  shows "ok_run st r"
proof -
  have "ok_run st r" if "status_failed ''Failed to load index'' status (st\<lparr>cl_files := fs\<rparr>) = r" for status fs
    using that ok_fail [of "st\<lparr>cl_files := fs\<rparr>" st] by (auto simp: status_failed_def)
  moreover have "ok_run st r" if "cont idx (st\<lparr>cl_files := fs\<rparr>) = r" for idx fs
    using that assms(1) [of "st\<lparr>cl_files := fs\<rparr>" idx] by (simp add: ok_run_files)
  ultimately show ?thesis
    using assms(2) unfolding with_index_def load_index_def by (auto split: option.splits sum.splits)
qed

lemma ok_finish_query: "ok_run st (finish_query env json idx result st)"
  by (cases result) (auto simp: finish_query_def print_objects_json_def intro!: ok_out)

lemma ok_query_range: "cmd_query_range env args st = Some r \<Longrightarrow> ok_run st r"
  by (auto simp: cmd_query_range_def split: sum.splits option.splits intro: ok_with_index ok_finish_query)

lemma ok_query_knn: "cmd_query_knn env args st = Some r \<Longrightarrow> ok_run st r"
  by (auto simp: cmd_query_knn_def split: sum.splits option.splits bool.splits intro: ok_with_index ok_finish_query)

lemma ok_pages: "cmd_pages env args st = Some r \<Longrightarrow> ok_run st r"
proof -
  have pages: "ok_run st1 (case urbis_index_find_adjacent_pages (ce_alloc env) idx region of
      (Inl status, idx1) \<Rightarrow> status_failed ''Adjacent page lookup failed'' status (destroy_index env idx1 st1)
    | (Inr pages, idx1) \<Rightarrow> (URBIS_CLI_OK, destroy_index env idx1 (put_out (pages_text json pages) st1)))" for region json idx st1
    by (auto split: prod.split sum.split intro!: ok_out)
  then show "cmd_pages env args st = Some r \<Longrightarrow> ok_run st r"
    by (auto simp: cmd_pages_def split: sum.splits option.splits elim!: ok_with_index [OF pages])
qed

lemma ok_stats: "cmd_stats env args st = Some r \<Longrightarrow> ok_run st r"
  by (auto simp: cmd_stats_def Let_def split: sum.splits option.splits intro!: ok_out elim!: ok_with_index [rotated])

lemma ok_build_save: "ok_run st (build_save env idx path st)"
proof -
  have "ok_run st (status_failed what status (destroy_index env idx' (st\<lparr>cl_files := fs\<rparr>)))" for what status idx' fs
    by (simp add: status_failed_def ok_fail)
  then show ?thesis by (auto simp: build_save_def Let_def split: prod.split intro!: ok_out)
qed

lemma ok_build: "cmd_build env args st = Some r \<Longrightarrow> ok_run st r"
proof -
  have "ok_run st ended" if "build_load env idx format input st = Some (Inl ended)" for idx format input ended
    using that by (auto simp: build_load_def split: if_splits option.splits prod.splits)
  then show "cmd_build env args st = Some r \<Longrightarrow> ok_run st r"
    by (auto simp: cmd_build_def ok_build_save split: sum.splits option.splits if_splits)
qed


subsection \<open>From build to query\<close>

lemma feature_views_count:
  assumes "length oids = length fs"
  shows "length (filter (\<lambda>v. Q (view_mbr v)) (feature_views oids fs)) = length (filter (\<lambda>f. Q (so_mbr (derived (pf_object f)))) fs)"
  using assms
  by (induction oids fs rule: list_induct2) (simp_all add: feature_views_def view_mbr_def with_id_def object_view_def)

lemma feature_views_centroids:
  assumes "list_all feature_num fs" "v \<in> set (feature_views oids fs)"
  shows "pt_num (fst (snd (snd v)))"
  using assms
  by (auto simp: feature_views_def with_id_def object_view_def feature_num_def list_all_iff dest!: set_zip_rightD)

text \<open>A file of features becomes a built index, on a machine where nothing fails.\<close>

lemma load_and_build:
  assumes env: "sound_env env" and files: "fs_files fs input = Some bytes" "bytes \<noteq> []"
    and fc: "geojson_parse_string malloc_ok (text_of_bytes bytes) = Some (PARSE_OK, fc)"
    and num: "list_all feature_num (fc_features fc)"
  shows "\<exists>idx idx1 idx2 oids. urbis_index_create malloc_ok (ce_heap env) config = Inr idx \<and>
    urbis_index_load_geojson malloc_ok working_device fs idx input = Some (URBIS_OK, idx1, Some (length (fc_features fc))) \<and>
    urbis_index_build (ce_qsort env) malloc_ok idx1 = (URBIS_OK, idx2) \<and> si_reach (ce_qsort env) idx2 \<and>
    length (pp_pages (si_pool idx2)) \<le> length (fc_features fc) \<and>
    length oids = length (fc_features fc) \<and> si_views idx2 = mset (feature_views oids (fc_features fc))"
proof -
  have e: "qsort_contract (ce_qsort env)" "hp_live (ce_heap env) = []"
    using env by (simp_all add: sound_env_def)
  obtain cfg idx where c: "urbis_index_create malloc_ok (ce_heap env) config = Inr idx" "spatial_index_init malloc_ok (ce_heap env) cfg = (SI_OK, idx)"
    using urbis_index_create_ok by blast
  note i = created_reach(1) [OF c(2) e(2), of "ce_qsort env"] created_reach(2-4) [OF c(2) e(2)]
  obtain idx1 oids where f: "insert_features malloc_ok idx (fc_features fc) = (SI_OK, idx1)" "si_reach (ce_qsort env) idx1"
    "length oids = length (fc_features fc)" "si_views idx1 = mset (feature_views oids (fc_features fc))"
    "length (pp_pages (si_pool idx1)) \<le> length (fc_features fc)"
    using insert_features_reach [OF i(1) num] i(2,4) by (auto simp: si_views_def)
  have "object_view obj \<in> set (feature_views oids (fc_features fc))" if "obj \<in> set (si_objects idx1)" for obj
    using that arg_cong [OF f(4), of set_mset] by (auto simp: si_views_def)
  then have "\<forall>obj \<in> set (si_objects idx1). pt_num (so_centroid obj)"
    using feature_views_centroids [OF num] by (fastforce simp: object_view_def)
  from reached_build [OF f(2) e(1) this] obtain idx2 where b: "urbis_index_build (ce_qsort env) malloc_ok idx1 = (URBIS_OK, idx2)"
    "si_reach (ce_qsort env) idx2" "si_objects idx2 = si_objects idx1" "pp_pages (si_pool idx2) = pp_pages (si_pool idx1)" by blast
  have load: "urbis_index_load_geojson malloc_ok working_device fs idx input = Some (URBIS_OK, idx1, Some (length (fc_features fc)))"
    using files fc f(1) by (simp add: urbis_index_load_geojson_def geojson_parse_file_def load_parsed_def Let_def malloc_ok_simp)
  have "length (pp_pages (si_pool idx2)) \<le> length (fc_features fc)" "si_views idx2 = mset (feature_views oids (fc_features fc))"
    using b(3,4) f(4,5) by (simp_all add: si_views_def)
  then show ?thesis using c(1) load b(1,2) f(3) by blast
qed

lemma build_command:
  assumes env: "sound_env env" and files: "fs_files (cl_files st) input = Some bytes" "bytes \<noteq> []"
    and fc: "geojson_parse_string malloc_ok (text_of_bytes bytes) = Some (PARSE_OK, fc)"
    and num: "list_all feature_num (fc_features fc)" and n: "length (fc_features fc) < 2 ^ 32"
  shows "\<exists>st1 objs oids. cli_main env [''build'', ''--input'', input, ''--index'', path] st = Some (URBIS_CLI_OK, st1) \<and>
    cl_out st1 = cl_out st @ ''Index saved to '' @ path @ nl \<and> holds_objects (cl_files st1) path objs \<and>
    length oids = length (fc_features fc) \<and> mset (map object_view objs) = mset (feature_views oids (fc_features fc))"
proof -
  let ?opts = "default_build\<lparr>bo_input := Some input, bo_index := Some path\<rparr>"
  let ?cfg = "Some ((bo_config ?opts)\<lparr>uc_enable_quadtree := True\<rparr>)"
  have e: "ce_alloc env = malloc_ok" "ce_device env = working_device" using env by (simp_all add: sound_env_def)
  obtain idx idx1 idx2 oids where l: "urbis_index_create malloc_ok (ce_heap env) ?cfg = Inr idx"
    "urbis_index_load_geojson malloc_ok working_device (cl_files st) idx input = Some (URBIS_OK, idx1, Some (length (fc_features fc)))"
    "urbis_index_build (ce_qsort env) malloc_ok idx1 = (URBIS_OK, idx2)" "si_reach (ce_qsort env) idx2"
    "length (pp_pages (si_pool idx2)) \<le> length (fc_features fc)" "length oids = length (fc_features fc)"
    "si_views idx2 = mset (feature_views oids (fc_features fc))"
    using load_and_build [OF env files fc num] by blast
  have "length (pp_pages (si_pool idx2)) < 2 ^ 32" using l(5) n by simp
  from save_and_destroy [OF l(4) this] obtain fs idx3 where
    s: "urbis_index_save malloc_ok working_device (ce_clock env 0) (cl_files st) idx2 path = (URBIS_OK, fs, idx3)"
    "holds_objects (fst (urbis_index_destroy working_device (ce_clock env 1) fs idx3)) path (si_objects idx2)" by blast
  have "cli_main env [''build'', ''--input'', input, ''--index'', path] st =
      Some (URBIS_CLI_OK, put_out (line ''Index saved to '' path) (destroy_index env idx3 (st\<lparr>cl_files := fs\<rparr>)))"
    using l(1-3) s(1) e
    by (simp add: cli_main_def cmd_build_def default_build_def build_load_def build_save_def Let_def)
  moreover have "mset (map object_view (si_objects idx2)) = mset (feature_views oids (fc_features fc))"
    using l(7) by (simp add: si_views_def)
  ultimately show ?thesis
    using s(2) l(6) e by (auto simp: line_def destroy_index_def put_out_def)
qed

lemma count_views:
  "mset (map object_view objs) = mset vs \<Longrightarrow>
    length (filter (\<lambda>obj. Q (so_mbr obj)) objs) = length (filter (\<lambda>v. Q (view_mbr v)) vs)"
proof -
  assume "mset (map object_view objs) = mset vs"
  then have "size (filter_mset (\<lambda>v. Q (view_mbr v)) (mset (map object_view objs))) = size (filter_mset (\<lambda>v. Q (view_mbr v)) (mset vs))"
    by simp
  then show ?thesis by (simp add: filter_mset_image_mset o_def view_mbr_def object_view_def flip: mset_filter size_mset)
qed

lemma query_command:
  assumes env: "sound_env env" and held: "holds_objects (cl_files st) path objs" "\<forall>obj \<in> set objs. pt_num (so_centroid obj)"
    and rng: "parse_mbr mbr_text = Some region" "mbr_num region"
  shows "\<exists>st1. cli_main env [''query-range'', ''--index'', path, ''--mbr'', mbr_text] st = Some (URBIS_CLI_OK, st1) \<and>
    cl_out st1 = cl_out st @ ''Found '' @ show_nat (length (filter (\<lambda>obj. mbr_intersects (so_mbr obj) region) objs)) @ '' objects'' @ nl"
proof -
  obtain idx fs where l: "load_index env path st = Some (Inr (idx, st\<lparr>cl_files := fs\<rparr>))" "si_inv idx"
    "si_objects idx = map stored_object objs"
    using load_held [OF env held] by blast
  obtain r where r: "spatial_result_init malloc_ok 64 = (SI_OK, r)" using spatial_result_init_ok by blast
  obtain res list where q: "spatial_index_query_range malloc_ok idx region r = (SI_OK, res)"
    "urbis_copy_query_result malloc_ok (result_objects idx res) = Inr list"
    "mset (map object_view (ol_objects list)) = filter_mset (\<lambda>v. mbr_intersects (view_mbr v) region) (si_views idx)"
    using query_range_views [OF l(2) rng(2)] by blast
  have query: "urbis_index_query_range malloc_ok idx region = Inr list"
    using r q(1,2) by (simp add: urbis_index_query_range_def)
  have "length (ol_objects list) = size (filter_mset (\<lambda>v. mbr_intersects (view_mbr v) region) (si_views idx))"
    using arg_cong [OF q(3), of size] by simp
  also have "\<dots> = length (filter (\<lambda>obj. mbr_intersects (so_mbr obj) region) (si_objects idx))"
    by (simp add: si_views_def filter_mset_image_mset o_def view_mbr_def object_view_def flip: mset_filter size_mset)
  also have "\<dots> = length (filter (\<lambda>obj. mbr_intersects (so_mbr obj) region) objs)"
    by (simp add: l(3) filter_map o_def stored_object_def)
  finally have len: "length (ol_objects list) = length (filter (\<lambda>obj. mbr_intersects (so_mbr obj) region) objs)" .
  have "ce_alloc env = malloc_ok" using env by (simp add: sound_env_def)
  then show ?thesis
    using l(1) query rng(1)
    by (simp add: cli_main_def cmd_query_range_def default_query_def with_index_def finish_query_def len)
qed


lemma parse_mbr_f6:
  assumes "finite_d a" "finite_d b" "finite_d c" "finite_d d"
  shows "parse_mbr (format_f6 a @ '','' @ format_f6 b @ '','' @ format_f6 c @ '','' @ format_f6 d) =
    Some \<lparr>min_x = f6_double a, min_y = f6_double b, max_x = f6_double c, max_y = f6_double d\<rparr>"
proof -
  have comma: "scan_lf (format_f6 v @ CHR '','' # t) = Some (f6_double v, CHR '','' # t)" if "finite_d v" for v t
    using that by (rule scan_lf_f6) (rule ends_numberI)
  have last: "scan_lf (format_f6 d) = Some (f6_double d, [])" using scan_lf_f6 [OF assms(4), of "[]"] by (simp add: ends_numberI)
  show ?thesis using assms by (simp add: parse_mbr_def comma last scan_next_lf_def scan_comma_def)
qed

definition bytes_of_text :: "string \<Rightarrow> 8 word list" where
  "bytes_of_text s = map (\<lambda>c. word_of_nat (of_char c)) s"

lemma text_of_bytes_of_text: "text_of_bytes (bytes_of_text s) = s"
proof -
  have "unat (word_of_nat (of_char c) :: 8 word) = of_char c" for c :: char
    by (simp add: unat_of_nat)
  then show ?thesis by (simp add: text_of_bytes_def bytes_of_text_def o_def)
qed

definition sample_env :: CliEnv where
  "sample_env = \<lparr>ce_qsort = isort_by, ce_alloc = malloc_ok, ce_device = working_device, ce_clock = (\<lambda>k. 0), ce_heap = sample_heap\<rparr>"

definition sample_shell :: CliState where
  "sample_shell = \<lparr>cl_files = no_files\<lparr>fs_files := [''p.json'' \<mapsto> bytes_of_text point_text]\<rparr>, cl_out = [], cl_err = []\<rparr>"

definition sample_mbr_text :: string where
  "sample_mbr_text = format_f6 d_three @ '','' @ format_f6 d_one @ '','' @ format_f6 d_three @ '','' @ format_f6 d_one"

lemma sample_env_sound: "sound_env sample_env"
  using isort_by_contract by (simp add: sound_env_def sample_env_def sample_heap_def)


subsection \<open>The JSON output\<close>

text \<open>
  C25: The JSON of a query is JSON.  If the rectangles and centroids of the objects are finite, what
  \<open>print_objects_json\<close> writes is a text that the JSON parser of the library reads as an object with the
  number of objects and, for each of them in order, its id, its type, its centroid and its rectangle.
\<close>

theorem cli_json_parses:
  assumes "list_all object_finite (ol_objects list)"
  shows "\<exists>written ps. cl_out (print_objects_json list st) = cl_out st @ written \<and>
    parse_root malloc_ok written = Some (Inr (result_value (ol_objects list)), ps)"
  using parse_result [OF assms] by (auto simp: print_objects_json_def result_json_def)

definition sample_list :: UrbisObjectList where
  "sample_list = \<lparr>ol_objects = [derived sample_point_object]\<rparr>"

theorem cli_json_parses_witness:
  "\<exists>written ps. cl_out (print_objects_json sample_list sample_shell) = written \<and>
    parse_root malloc_ok written = Some (Inr (result_value [derived sample_point_object]), ps)"
proof -
  have "list_all object_finite (ol_objects sample_list)"
    by (simp add: sample_list_def object_finite_def mbr_finite_def pt_finite_def sample_point_object_def derived_def
        spatial_object_update_derived_def mbr_create_def)
  from cli_json_parses [OF this, of sample_shell] show ?thesis by (simp add: sample_shell_def sample_list_def)
qed



end
