(* ===== verification/Cli_Query_Props.thy ===== *)
theory Cli_Query_Props
  imports Cli_Props
begin

text \<open>
  The other queries of the tool on an index that it has built: the nearest objects, and the pages near a
  region, with their witnesses.
\<close>

subsection \<open>The nearest objects\<close>

lemma knn_command:
  assumes env: "sound_env env" and held: "holds_objects (cl_files st) path objs" "objs \<noteq> []"
    and fin: "\<forall>obj \<in> set objs. pt_finite (so_centroid obj)"
    and arg: "parse_point at_text = Some (x, y)" "finite_d x" "finite_d y" "parse_size k_text = Some k" "0 < k"
  shows "\<exists>st1 near far. cli_main env [''query-knn'', ''--index'', path, ''--point'', at_text, ''--k'', k_text, ''--json''] st = Some (URBIS_CLI_OK, st1) \<and>
    cl_out st1 = cl_out st @ result_json near @ nl \<and>
    mset (map object_row (near @ far)) = mset (map object_row objs) \<and> length near = min k (length objs) \<and>
    sorted (map (\<lambda>obj. dist_key (point_create x y) (so_centroid obj)) near) \<and>
    (\<forall>a \<in> set near. \<forall>b \<in> set far. dist_key (point_create x y) (so_centroid a) \<le> dist_key (point_create x y) (so_centroid b))"
proof -
  have num: "\<forall>obj \<in> set objs. pt_num (so_centroid obj)" using fin pt_finite_num by blast
  obtain idx1 idx fs where l: "load_index env path st = Some (Inr (idx, st\<lparr>cl_files := fs\<rparr>))"
    "spatial_index_build (ce_qsort env) malloc_ok idx1 = (SI_OK, idx)" "si_inv idx1" "si_objects idx1 = map stored_object objs"
    using load_built [OF env held(1) num] by blast
  have ne: "si_objects idx1 \<noteq> []" using held(2) l(4) by simp
  have fin1: "\<forall>obj \<in> set (si_objects idx1). pt_finite (so_centroid obj)"
    using fin by (simp add: l(4) stored_object_def)
  have e: "qsort_contract (ce_qsort env)" "ce_alloc env = malloc_ok" using env by (simp_all add: sound_env_def)
  obtain list far where k: "urbis_index_query_knn malloc_ok idx x y k = Inr list"
    "mset (map object_row (ol_objects list @ far)) = mset (map object_row (si_objects idx1))"
    "length (ol_objects list) = min k (length (si_objects idx1))"
    "sorted (map (\<lambda>obj. dist_key (point_create x y) (so_centroid obj)) (ol_objects list))"
    "\<forall>a \<in> set (ol_objects list). \<forall>b \<in> set far. dist_key (point_create x y) (so_centroid a) \<le> dist_key (point_create x y) (so_centroid b)"
    using loaded_knn [OF l(2,3) ne e(1) fin1 arg(2,3,5)] by blast
  let ?st1 = "destroy_index env idx (print_objects_json list (st\<lparr>cl_files := fs\<rparr>))"
  have run: "cli_main env [''query-knn'', ''--index'', path, ''--point'', at_text, ''--k'', k_text, ''--json''] st = Some (URBIS_CLI_OK, ?st1)"
    using l(1) k(1) arg(1,4,5) e(2)
    by (simp add: cli_main_def cmd_query_knn_def default_query_def size_or_def with_index_def finish_query_def)
  have out: "cl_out ?st1 = cl_out st @ result_json (ol_objects list) @ nl"
    by (simp add: print_objects_json_def result_json_def)
  have rows: "mset (map object_row (ol_objects list @ far)) = mset (map object_row objs)"
    unfolding k(2) l(4) by (simp add: multiset.map_comp o_def)
  show ?thesis using run out rows k(3,4,5) by (intro exI conjI) (assumption | simp add: l(4))+
qed

lemma centroids_of_views:
  assumes "mset (map object_view objs) = mset (feature_views oids fs)" "list_all (\<lambda>f. pt_finite (so_centroid (derived (pf_object f)))) fs"
  shows "\<forall>obj \<in> set objs. pt_finite (so_centroid obj)"
proof
  fix obj
  assume "obj \<in> set objs"
  then have "object_view obj \<in> set (feature_views oids fs)" using mset_eq_setD [OF assms(1)] by auto
  then show "pt_finite (so_centroid obj)"
    using assms(2) by (auto simp: feature_views_def with_id_def object_view_def list_all_iff dest!: set_zip_rightD)
qed

lemma rows_of_views:
  "mset (map object_view objs) = mset vs \<Longrightarrow> mset (map object_row objs) = mset (map view_row vs)"
proof -
  assume "mset (map object_view objs) = mset vs"
  then have "image_mset view_row (mset (map object_view objs)) = image_mset view_row (mset vs)" by simp
  then show ?thesis by (simp add: object_row_view [abs_def] multiset.map_comp o_def)
qed

text \<open>
  C22: The nearest features, through two processes.  \<open>build\<close> from a GeoJSON file and a later \<open>query-knn\<close> with
  \<open>--json\<close> both end with 0.  What the query prints is the JSON of a list of \<open>k\<close> features, or of all if there
  are fewer, each with the id it got, its type, its centroid and its rectangle, by increasing rounded
  distance to the point; no feature that is left out is nearer than one that is printed.
\<close>

theorem cli_build_query_knn:
  assumes "sound_env env" "sound_env env'" "fs_files (cl_files st) input = Some bytes" "bytes \<noteq> []"
    "geojson_parse_string malloc_ok (text_of_bytes bytes) = Some (PARSE_OK, fc)" "fc_features fc \<noteq> []"
    "list_all feature_num (fc_features fc)" "list_all (\<lambda>f. pt_finite (so_centroid (derived (pf_object f)))) (fc_features fc)"
    "length (fc_features fc) < 2 ^ 32" "parse_point at_text = Some (x, y)" "finite_d x" "finite_d y"
    "parse_size k_text = Some k" "0 < k" "k < 2 ^ 32"
  shows "\<exists>st1 st2 oids near far. cli_main env [''build'', ''--input'', input, ''--index'', path] st = Some (URBIS_CLI_OK, st1) \<and>
    cli_main env' [''query-knn'', ''--index'', path, ''--point'', at_text, ''--k'', k_text, ''--json''] st1 = Some (URBIS_CLI_OK, st2) \<and>
    cl_out st2 = cl_out st1 @ result_json near @ nl \<and> length oids = length (fc_features fc) \<and>
    mset (map object_row (near @ far)) = mset (map view_row (feature_views oids (fc_features fc))) \<and>
    length near = min k (length (fc_features fc)) \<and>
    sorted (map (\<lambda>obj. dist_key (point_create x y) (so_centroid obj)) near) \<and>
    (\<forall>a \<in> set near. \<forall>b \<in> set far. dist_key (point_create x y) (so_centroid a) \<le> dist_key (point_create x y) (so_centroid b))"
proof -
  obtain st1 objs oids where b: "cli_main env [''build'', ''--input'', input, ''--index'', path] st = Some (URBIS_CLI_OK, st1)"
    "holds_objects (cl_files st1) path objs" "length oids = length (fc_features fc)"
    "mset (map object_view objs) = mset (feature_views oids (fc_features fc))"
    using build_command [OF assms(1,3,4,5,7,9)] by blast
  have len: "length objs = length (fc_features fc)"
    using arg_cong [OF b(4), of size] b(3) by (simp add: feature_views_def)
  then have ne: "objs \<noteq> []" using assms(6) by auto
  from knn_command [OF assms(2) b(2) ne centroids_of_views [OF b(4) assms(8)] assms(10-14)] obtain st2 near far where
    q: "cli_main env' [''query-knn'', ''--index'', path, ''--point'', at_text, ''--k'', k_text, ''--json''] st1 = Some (URBIS_CLI_OK, st2)"
    "cl_out st2 = cl_out st1 @ result_json near @ nl" "mset (map object_row (near @ far)) = mset (map object_row objs)"
    "length near = min k (length objs)" "sorted (map (\<lambda>obj. dist_key (point_create x y) (so_centroid obj)) near)"
    "\<forall>a \<in> set near. \<forall>b \<in> set far. dist_key (point_create x y) (so_centroid a) \<le> dist_key (point_create x y) (so_centroid b)" by blast
  show ?thesis
    by (rule exI [of _ st1], rule exI [of _ st2], rule exI [of _ oids], rule exI [of _ near], rule exI [of _ far])
      (intro conjI b(1) q(1,2,5,6) b(3), simp_all only: q(3,4) len rows_of_views [OF b(4)])
qed

subsection \<open>The pages near a region\<close>

text \<open>
  C23: \<open>pages\<close> finds no page of a saved index.  The file does not keep the bounds of the index, and the
  load takes the empty bounds of a new file, so that the quadtree of the pages refuses every page: after
  a \<open>build\<close> from a file with features, \<open>pages\<close> ends with 0 and reports 0 pages and 0 seeks, for every region.
\<close>

theorem cli_pages_after_build:
  assumes "sound_env env" "sound_env env'" "fs_files (cl_files st) input = Some bytes" "bytes \<noteq> []"
    "geojson_parse_string malloc_ok (text_of_bytes bytes) = Some (PARSE_OK, fc)" "fc_features fc \<noteq> []"
    "list_all feature_num (fc_features fc)" "length (fc_features fc) < 2 ^ 32" "parse_mbr mbr_text = Some region"
  shows "\<exists>st1 st2. cli_main env [''build'', ''--input'', input, ''--index'', path] st = Some (URBIS_CLI_OK, st1) \<and>
    cli_main env' [''pages'', ''--index'', path, ''--mbr'', mbr_text] st1 = Some (URBIS_CLI_OK, st2) \<and>
    cl_out st2 = cl_out st1 @ ''Pages: 0, Estimated seeks: 0'' @ nl"
proof -
  obtain st1 objs oids where b: "cli_main env [''build'', ''--input'', input, ''--index'', path] st = Some (URBIS_CLI_OK, st1)"
    "holds_objects (cl_files st1) path objs" "length oids = length (fc_features fc)"
    "mset (map object_view objs) = mset (feature_views oids (fc_features fc))"
    using build_command [OF assms(1,3,4,5,7,8)] by blast
  have "length objs = length (fc_features fc)"
    using arg_cong [OF b(4), of size] b(3) by (simp add: feature_views_def)
  then have ne: "objs \<noteq> []" using assms(6) by auto
  have "object_view obj \<in> set (feature_views oids (fc_features fc))" if "obj \<in> set objs" for obj
    using that mset_eq_setD [OF b(4)] by auto
  then have num: "\<forall>obj \<in> set objs. pt_num (so_centroid obj)"
    using feature_views_centroids [OF assms(7)] by (fastforce simp: object_view_def)
  obtain idx1 idx fs where l: "load_index env' path st1 = Some (Inr (idx, st1\<lparr>cl_files := fs\<rparr>))"
    "spatial_index_build (ce_qsort env') malloc_ok idx1 = (SI_OK, idx)" "si_inv idx1" "si_bounds idx1 = mbr_empty"
    "sc_build_quadtree (si_config idx1)" "si_objects idx1 = map stored_object objs"
    using load_built [OF assms(2) b(2) num] by blast
  have "si_objects idx1 \<noteq> []" using ne l(6) by simp
  note blind = loaded_pages_blind [OF l(2,3) this l(5,4), of region]
  have alloc: "ce_alloc env' = malloc_ok" using assms(2) by (simp add: sound_env_def)
  have zero: "show_nat 0 = ''0''" by code_simp
  let ?text = "''Pages: 0, Estimated seeks: 0'' @ nl"
  have "cli_main env' [''pages'', ''--index'', path, ''--mbr'', mbr_text] st1 =
      Some (URBIS_CLI_OK, destroy_index env' idx (put_out ?text (st1\<lparr>cl_files := fs\<rparr>)))"
    using l(1) blind assms(9) alloc
    by (simp add: cli_main_def cmd_pages_def default_query_def with_index_def pages_text_def zero)
  then show ?thesis using b(1) by (intro exI conjI) (assumption | simp)+
qed

subsection \<open>The witnesses\<close>

definition d_four :: double where "d_four = Dbl 0x4010000000000000"

lemma f6_small_finite:
  assumes "\<not> dneg d" "real_of_int (mval (dmag d)) / 2 ^ 1074 \<le> 3"
  shows "finite_d (f6_double d)"
proof -
  have four: "finite_d d_four" "real_of_int (dval d_four) = 4 * 2 powi 1074"
    by (simp_all add: d_four_def finite_d_def dmag_def dval_def dneg_def mval_def dman_def dexp_def inf_mag_def)
  have zero: "dval d_zero = 0" using dval_zero_iff [of d_zero] by simp
  define v where "v = real (micro d) / 10 ^ 6 * 2 powi 1074"
  have r: "rounds_to v (dkey (f6_double d))" using f6_double_rounds(1) [of d] assms(1) by (simp add: v_def)
  have "real (micro d) / 10 ^ 6 \<le> 3 + 1 / (2 * 10 ^ 6)" using micro_near [of d] assms(2) by linarith
  then have "real (micro d) / 10 ^ 6 \<le> 4" by simp
  then have "v \<le> 4 * 2 powi 1074" unfolding v_def by (rule mult_right_mono) simp
  then have up: "dkey (f6_double d) \<le> dkey d_four" using rounds_to_upper [OF four(1) _ r] by (simp only: four(2))
  have "0 \<le> v" by (simp add: v_def)
  then have "dkey d_zero \<le> dkey (f6_double d)" using rounds_to_lower [OF _ _ r, of d_zero] by (simp add: zero)
  then show ?thesis using up four(1) unfolding finite_key by (simp del: abs_dkey)
qed

lemma f6_sample_finite: "finite_d (f6_double d_three)" "finite_d (f6_double d_one)"
  by (rule f6_small_finite; simp add: d_three_def d_one_def dneg_def dmag_def mval_def dman_def dexp_def)+

lemma sample_file:
  "\<exists>fc. geojson_parse_string malloc_ok (text_of_bytes (bytes_of_text point_text)) = Some (PARSE_OK, fc) \<and> length (fc_features fc) = 1 \<and>
    list_all feature_num (fc_features fc) \<and> list_all (\<lambda>f. pt_finite (so_centroid (derived (pf_object f)))) (fc_features fc)"
proof -
  let ?v = "(GEOM_POINT, [point_create d_three d_one], [])"
  have "view_shape ?v" "view_finite ?v" by (simp_all add: view_shape_def view_finite_def point_create_def pt_finite_def)
  from geojson_parse_string_geometry [OF this, of point_text] obtain fc obj where
    fc: "geojson_parse_string malloc_ok point_text = Some (PARSE_OK, fc)" "fc_features fc = [zero_feature\<lparr>pf_object := obj\<rparr>]"
    "geom_view (so_geom obj) = f6_view ?v"
    unfolding point_text_def c_str_id [OF no_zero_geometry] by blast
  have g: "so_geom obj = G_point \<lparr>px = f6_double d_three, py = f6_double d_one\<rparr>"
    using fc(3) by (cases "so_geom obj") (simp_all add: f6_view_def f6_point_def point_create_def)
  have d: "so_mbr (derived obj) = mbr_create (f6_double d_three) (f6_double d_one) (f6_double d_three) (f6_double d_one)"
    "so_centroid (derived obj) = \<lparr>px = f6_double d_three, py = f6_double d_one\<rparr>"
    by (simp_all add: derived_def spatial_object_update_derived_def g)
  have nn: "\<not> isnan (f6_double d_three)" "\<not> isnan (f6_double d_one)" by (rule f6_double_rounds(2))+
  show ?thesis
    using fc(1) point_box_num [OF nn] nn f6_sample_finite
    by (intro exI [of _ fc]) (simp add: text_of_bytes_of_text fc(2) feature_num_def d pt_num_def pt_finite_def)
qed

lemma sample_bytes: "fs_files (cl_files sample_shell) ''p.json'' = Some (bytes_of_text point_text)" "bytes_of_text point_text \<noteq> []"
  by (simp_all add: sample_shell_def bytes_of_text_def point_text_def geometry_json_def)

definition sample_point_text :: string where
  "sample_point_text = format_f6 d_three @ '','' @ format_f6 d_one"

lemma sample_point_parse: "parse_point sample_point_text = Some (f6_double d_three, f6_double d_one)"
proof -
  have fin: "finite_d d_three" "finite_d d_one" by simp_all
  have "scan_lf (format_f6 d_three @ CHR '','' # format_f6 d_one) = Some (f6_double d_three, CHR '','' # format_f6 d_one)"
    using fin(1) by (rule scan_lf_f6) (rule ends_numberI)
  moreover have "scan_lf (format_f6 d_one) = Some (f6_double d_one, [])" using scan_lf_f6 [OF fin(2), of "[]"] by (simp add: ends_numberI)
  ultimately show ?thesis by (simp add: parse_point_def sample_point_text_def scan_next_lf_def scan_comma_def)
qed

theorem cli_build_query_knn_witness:
  "\<exists>st1 st2 near. cli_main sample_env [''build'', ''--input'', ''p.json'', ''--index'', ''p.urbis''] sample_shell = Some (URBIS_CLI_OK, st1) \<and>
    cli_main sample_env [''query-knn'', ''--index'', ''p.urbis'', ''--point'', sample_point_text, ''--k'', show_nat 2, ''--json''] st1 = Some (URBIS_CLI_OK, st2) \<and>
    cl_out st2 = cl_out st1 @ result_json near @ nl \<and> length near = 1"
proof -
  obtain fc where fc: "geojson_parse_string malloc_ok (text_of_bytes (bytes_of_text point_text)) = Some (PARSE_OK, fc)"
    "length (fc_features fc) = 1" "list_all feature_num (fc_features fc)"
    "list_all (\<lambda>f. pt_finite (so_centroid (derived (pf_object f)))) (fc_features fc)" using sample_file by blast
  have ne: "fc_features fc \<noteq> []" and n: "length (fc_features fc) < 2 ^ 32" using fc(2) by auto
  have k: "parse_size (show_nat 2) = Some 2" by (simp add: parse_size_def strtoull_digits(1))
  have two: "(0::nat) < 2" "(2::nat) < 2 ^ 32" by simp_all
  from cli_build_query_knn [OF sample_env_sound sample_env_sound sample_bytes fc(1) ne fc(3,4) n sample_point_parse f6_sample_finite k two,
      of "''p.urbis''"]
  show ?thesis unfolding fc(2) by (force simp: min_def)
qed

theorem cli_pages_after_build_witness:
  "\<exists>st1 st2. cli_main sample_env [''build'', ''--input'', ''p.json'', ''--index'', ''p.urbis''] sample_shell = Some (URBIS_CLI_OK, st1) \<and>
    cli_main sample_env [''pages'', ''--index'', ''p.urbis'', ''--mbr'', sample_mbr_text] st1 = Some (URBIS_CLI_OK, st2) \<and>
    cl_out st2 = cl_out st1 @ ''Pages: 0, Estimated seeks: 0'' @ nl"
proof -
  obtain fc where fc: "geojson_parse_string malloc_ok (text_of_bytes (bytes_of_text point_text)) = Some (PARSE_OK, fc)"
    "length (fc_features fc) = 1" "list_all feature_num (fc_features fc)" using sample_file by blast
  have ne: "fc_features fc \<noteq> []" and n: "length (fc_features fc) < 2 ^ 32" using fc(2) by auto
  have fin: "finite_d d_three" "finite_d d_one" by simp_all
  from cli_pages_after_build [OF sample_env_sound sample_env_sound sample_bytes fc(1) ne fc(3) n, of sample_mbr_text _ "''p.urbis''"]
  show ?thesis unfolding sample_mbr_text_def parse_mbr_f6 [OF fin fin] by blast
qed

end
