(* ===== verification/CityDemo.thy ===== *)
theory CityDemo
  imports Cli
begin

text \<open>
  The demonstration program src/examples/city_demo.c.

  It fills an index with a random city, builds it and queries it.  The random numbers are an argument, the
  sequence that \<open>rand\<close> gives for a seed; so are the readings of \<open>clock\<close>.  A conversion of a double to
  \<open>int\<close> outside its range, a remainder by 0 and an overflow of \<open>int\<close> are undefined: the result None.
\<close>

record DemoEnv =
  de_cli :: CliEnv
  de_rand :: "32 word \<Rightarrow> nat \<Rightarrow> nat"
  de_ticks :: "nat \<Rightarrow> int"

subsection \<open>Numbers\<close>

definition double_of_int :: "int \<Rightarrow> double" where
  "double_of_int n = (if n < 0 then fneg (double_of_nat (nat (- n))) else double_of_nat (nat n))"

definition in_int :: "int \<Rightarrow> bool" where
  "in_int n = (- (2 ^ 31) \<le> n \<and> n < 2 ^ 31)"

text \<open>\<open>(int)d\<close> drops the fraction.\<close>

definition int_cast :: "double \<Rightarrow> int option" where
  "int_cast d =
     (if isnan d \<or> isinf d then None
      else let m = mval (dmag d) div 2 ^ 1074; n = (if dneg d then - m else m) in
        if in_int n then Some n else None)"

text \<open>\<open>rand () % n\<close>: the remainder has the sign of the dividend, which is not negative.\<close>

definition rand_rem :: "nat \<Rightarrow> int option \<Rightarrow> nat option" where
  "rand_rem r n = (case n of None \<Rightarrow> None | Some m \<Rightarrow> if m = 0 then None else Some (r mod nat \<bar>m\<bar>))"

definition d_0_8 :: double where "d_0_8 = double_of_ratio 8 10"
definition d_0_45 :: double where "d_0_45 = double_of_ratio 45 100"
definition d_0_55 :: double where "d_0_55 = double_of_ratio 55 100"
definition d_0_5 :: double where "d_0_5 = double_of_ratio 1 2"

text \<open>\<open>%.0f\<close> and \<open>%d\<close>\<close>

definition format_f0 :: "double \<Rightarrow> string" where
  "format_f0 d = sign_text d @ (if isnan d \<or> isinf d then special_text d else show_nat (round_ratio (mval (dmag d)) (2 ^ 1074)))"

definition show_int :: "int \<Rightarrow> string" where
  "show_int n = (if n < 0 then ''-'' @ show_nat (nat (- n)) else show_nat (nat n))"

text \<open>\<open>atoi\<close>: a number outside the range of \<open>int\<close> is undefined.  \<open>atof\<close> is \<open>strtod\<close>.\<close>

definition atoi :: "string \<Rightarrow> int option" where
  "atoi s =
     (let r = dropWhile isspace s; v = int (digits_value 10 (takeWhile isdigit (drop (sign_len r) r)));
          n = (if starts_minus r then - v else v)
      in if in_int n then Some n else None)"

definition atof :: "string \<Rightarrow> double" where
  "atof s = fst (strtod s)"

subsection \<open>The city\<close>

text \<open>
  The generators take the random numbers \<open>r\<close>, the index and the number of calls of \<open>rand\<close> so far.  The results
  of the insertions are not looked at.
\<close>

fun road_points :: "(nat \<Rightarrow> nat) \<Rightarrow> nat \<Rightarrow> nat \<Rightarrow> double \<Rightarrow> double \<Rightarrow> Point list \<times> nat" where
  "road_points r k 0 x y = ([], k)"
| "road_points r k (Suc n) x y =
     (case road_points r (k + 2) n (fadd x (double_of_int (int (r k mod 200) - 50)))
          (fadd y (double_of_int (int (r (k + 1) mod 200) - 50))) of
        (points, k') \<Rightarrow> (urbis_point x y # points, k'))"

definition generate_road :: "allocator \<Rightarrow> (nat \<Rightarrow> nat) \<Rightarrow> double \<Rightarrow> double \<Rightarrow> SpatialIndex \<times> nat \<Rightarrow> SpatialIndex \<times> nat" where
  "generate_road al r base_x base_y = (\<lambda>(idx, k).
     case road_points r (k + 1) (5 + r k mod 6) base_x base_y of (points, k') \<Rightarrow>
       (fst (snd (urbis_index_insert_linestring al idx points)), k'))"

definition generate_building :: "allocator \<Rightarrow> (nat \<Rightarrow> nat) \<Rightarrow> double \<Rightarrow> double \<Rightarrow> SpatialIndex \<times> nat \<Rightarrow> SpatialIndex \<times> nat" where
  "generate_building al r x y = (\<lambda>(idx, k).
     let w = double_of_nat (20 + r k mod 50); h = double_of_nat (20 + r (k + 1) mod 50);
         points = [urbis_point x y, urbis_point (fadd x w) y, urbis_point (fadd x w) (fadd y h), urbis_point x (fadd y h), urbis_point x y]
     in (fst (snd (urbis_index_insert_polygon al idx points)), k + 2))"

definition random_place :: "(nat \<Rightarrow> nat) \<Rightarrow> double \<Rightarrow> nat \<Rightarrow> (double \<times> double) option" where
  "random_place r city_size k =
     (case (rand_rem (r k) (int_cast city_size), rand_rem (r (k + 1)) (int_cast city_size)) of
        (Some x, Some y) \<Rightarrow> Some (double_of_nat x, double_of_nat y)
      | _ \<Rightarrow> None)"

fun generate_roads :: "allocator \<Rightarrow> (nat \<Rightarrow> nat) \<Rightarrow> double \<Rightarrow> nat \<Rightarrow> SpatialIndex \<times> nat \<Rightarrow> (SpatialIndex \<times> nat) option" where
  "generate_roads al r city_size 0 (idx, k) = Some (idx, k)"
| "generate_roads al r city_size (Suc n) (idx, k) =
     (case random_place r city_size k of
        None \<Rightarrow> None
      | Some (x, y) \<Rightarrow> generate_roads al r city_size n (generate_road al r x y (idx, k + 2)))"

fun generate_landmarks :: "allocator \<Rightarrow> (nat \<Rightarrow> nat) \<Rightarrow> double \<Rightarrow> nat \<Rightarrow> SpatialIndex \<times> nat \<Rightarrow> (SpatialIndex \<times> nat) option" where
  "generate_landmarks al r city_size 0 (idx, k) = Some (idx, k)"
| "generate_landmarks al r city_size (Suc n) (idx, k) =
     (case random_place r city_size k of
        None \<Rightarrow> None
      | Some (x, y) \<Rightarrow> generate_landmarks al r city_size n (fst (snd (urbis_index_insert_point al idx x y)), k + 2))"

text \<open>The loops over the blocks of the grid; the last number is \<open>buildings_generated\<close>.\<close>

function building_row :: "allocator \<Rightarrow> (nat \<Rightarrow> nat) \<Rightarrow> double \<Rightarrow> int \<Rightarrow> double \<Rightarrow> double \<Rightarrow> double \<Rightarrow>
    SpatialIndex \<times> nat \<Rightarrow> int \<Rightarrow> ((SpatialIndex \<times> nat) \<times> int) option" where
  "building_row al r city_size num_buildings block_size x y (idx, k) generated =
     (if flt y city_size \<and> generated < num_buildings then
        (case (rand_rem (r k) (int_cast (fmul block_size d_0_8)), rand_rem (r (k + 1)) (int_cast (fmul block_size d_0_8))) of
           (Some dx, Some dy) \<Rightarrow>
             building_row al r city_size num_buildings block_size x (fadd y block_size)
               (generate_building al r (fadd x (double_of_nat dx)) (fadd y (double_of_nat dy)) (idx, k + 2)) (generated + 1)
         | _ \<Rightarrow> None)
      else Some ((idx, k), generated))"
  by pat_completeness auto
termination
  by (relation "measure (\<lambda>(al, r, city_size, num_buildings, block_size, x, y, s, generated). nat (num_buildings - generated))") auto

declare building_row.simps [simp del]

text \<open>The outer loop ends if it ends: x may stop growing.\<close>

partial_function (option) building_grid :: "allocator \<Rightarrow> (nat \<Rightarrow> nat) \<Rightarrow> double \<Rightarrow> int \<Rightarrow> double \<Rightarrow> double \<Rightarrow>
    SpatialIndex \<times> nat \<Rightarrow> int \<Rightarrow> ((SpatialIndex \<times> nat) \<times> int) option" where
  "building_grid al r city_size num_buildings block_size x s generated =
     (if flt x city_size \<and> generated < num_buildings then
        (case building_row al r city_size num_buildings block_size x d_zero s generated of
           None \<Rightarrow> None
         | Some (s', generated') \<Rightarrow> building_grid al r city_size num_buildings block_size (fadd x block_size) s' generated')
      else Some (s, generated))"

text \<open>The text it prints, the index and the number of calls of \<open>rand\<close>.\<close>

definition generate_city :: "allocator \<Rightarrow> (nat \<Rightarrow> nat) \<Rightarrow> SpatialIndex \<Rightarrow> int \<Rightarrow> int \<Rightarrow> int \<Rightarrow> double \<Rightarrow>
    (string \<times> SpatialIndex \<times> nat) option" where
  "generate_city al r idx num_roads num_buildings num_landmarks city_size =
     (case generate_roads al r city_size (nat num_roads) (idx, 0) of
        None \<Rightarrow> None
      | Some s1 \<Rightarrow>
          (case building_grid al r city_size num_buildings (fdiv city_size (fsqrt (double_of_int num_buildings))) d_zero s1 0 of
             None \<Rightarrow> None
           | Some (s2, generated) \<Rightarrow>
               (case generate_landmarks al r city_size (nat num_landmarks) s2 of
                  None \<Rightarrow> None
                | Some (idx3, k3) \<Rightarrow> Some (
                    line ''Generating city data...'' [] @
                    line ''  City size: '' (format_f0 city_size @ '' x '' @ format_f0 city_size) @
                    line ''  Roads: '' (show_int num_roads) @
                    line ''  Buildings: '' (show_int num_buildings) @
                    line ''  Landmarks: '' (show_int num_landmarks) @
                    line ''Total objects generated: '' (show_nat (urbis_index_count idx3)) @ nl, idx3, k3))))"

subsection \<open>The demonstrations\<close>

text \<open>
  Each gives the text it prints.  The number \<open>t\<close> counts the readings of \<open>clock\<close>; \<open>CLOCKS_PER_SEC\<close> is a
  million.  A query that fails leaves its result NULL, and nothing is printed of it.
\<close>

definition elapsed_ms :: "(nat \<Rightarrow> int) \<Rightarrow> nat \<Rightarrow> string" where
  "elapsed_ms ticks t =
     format_f 3 (fmul (fdiv (double_of_int (ticks (t + 1) - ticks t)) (double_of_nat 1000000)) (double_of_nat 1000))"

definition count_type :: "GeomType \<Rightarrow> SpatialObject list \<Rightarrow> nat" where
  "count_type t objs = length (filter (\<lambda>obj. so_type obj = t) objs)"

definition demo_range_query :: "CliEnv \<Rightarrow> (nat \<Rightarrow> int) \<Rightarrow> nat \<Rightarrow> SpatialIndex \<Rightarrow> double \<Rightarrow> string" where
  "demo_range_query env ticks t idx city_size =
     (let center = fdiv city_size d_two; radius = fdiv city_size (double_of_nat 10);
          region = urbis_mbr (fsub center radius) (fsub center radius) (fadd center radius) (fadd center radius)
      in line ''=== Range Query Demo ==='' [] @
         line ''Querying region: ('' (format_f0 (min_x region) @ '', '' @ format_f0 (min_y region) @ '') to ('' @
           format_f0 (max_x region) @ '', '' @ format_f0 (max_y region) @ '')'') @
         (case urbis_index_query_range (ce_alloc env) idx region of
            Inl status \<Rightarrow> []
          | Inr list \<Rightarrow>
              line ''Found '' (show_nat (length (ol_objects list)) @ '' objects in '' @ elapsed_ms ticks t @ '' ms'') @
              line ''  Points (landmarks): '' (show_nat (count_type GEOM_POINT (ol_objects list))) @
              line ''  LineStrings (roads): '' (show_nat (count_type GEOM_LINESTRING (ol_objects list))) @
              line ''  Polygons (buildings): '' (show_nat (count_type GEOM_POLYGON (ol_objects list)))) @ nl)"

definition demo_regions :: "double \<Rightarrow> (string \<times> MBR) list" where
  "demo_regions city_size =
     [(''Small region (city center)'', urbis_mbr (fmul city_size d_0_45) (fmul city_size d_0_45) (fmul city_size d_0_55) (fmul city_size d_0_55)),
      (''Medium region (quarter city)'', urbis_mbr d_zero d_zero (fmul city_size d_0_5) (fmul city_size d_0_5)),
      (''Large region (half city)'', urbis_mbr d_zero d_zero city_size (fmul city_size d_0_5))]"

definition demo_pages_text :: "UrbisPageList \<Rightarrow> string" where
  "demo_pages_text pages =
     (let n = length (pl_page_ids pages) in
      line ''  Pages accessed: '' (show_nat n) @
      line ''  Estimated disk seeks: '' (show_nat (pl_estimated_seeks pages)) @
      (if n > 0 then line ''  Seek ratio: '' (format_f 2 (fdiv (double_of_nat (pl_estimated_seeks pages)) (double_of_nat n)) @
         '' (lower is better)'') else []))"

definition demo_region :: "CliEnv \<Rightarrow> string \<times> MBR \<Rightarrow> string \<times> SpatialIndex \<Rightarrow> string \<times> SpatialIndex" where
  "demo_region env = (\<lambda>(name, region) (text1, idx).
     case urbis_index_find_adjacent_pages (ce_alloc env) idx region of (res, idx1) \<Rightarrow>
       (text1 @ nl @ line name '':'' @
        line ''  Region: ('' (format_f0 (min_x region) @ '','' @ format_f0 (min_y region) @ '') to ('' @
          format_f0 (max_x region) @ '','' @ format_f0 (max_y region) @ '')'') @
        (case res of Inl status \<Rightarrow> [] | Inr pages \<Rightarrow> demo_pages_text pages), idx1))"

definition demo_adjacent_pages :: "CliEnv \<Rightarrow> SpatialIndex \<Rightarrow> double \<Rightarrow> string \<times> SpatialIndex" where
  "demo_adjacent_pages env idx city_size =
     (case fold (demo_region env) (demo_regions city_size) (line ''=== Adjacent Pages Demo (Disk-Aware) ==='' [], idx) of
        (text1, idx1) \<Rightarrow> (text1 @ nl, idx1))"

definition demo_neighbor :: "double \<Rightarrow> double \<Rightarrow> nat \<Rightarrow> SpatialObject \<Rightarrow> string" where
  "demo_neighbor qx qy i obj =
     line ''  '' (show_nat (i + 1) @ ''. '' @
       (case so_type obj of GEOM_POINT \<Rightarrow> ''Point'' | GEOM_LINESTRING \<Rightarrow> ''Line'' | GEOM_POLYGON \<Rightarrow> ''Polygon'') @
       '' at ('' @ format_f 1 (px (so_centroid obj)) @ '', '' @ format_f 1 (py (so_centroid obj)) @ ''), distance: '' @
       format_f 2 (point_distance (urbis_point qx qy) (so_centroid obj)))"

definition demo_knn_query :: "CliEnv \<Rightarrow> (nat \<Rightarrow> int) \<Rightarrow> nat \<Rightarrow> SpatialIndex \<Rightarrow> double \<Rightarrow> string" where
  "demo_knn_query env ticks t idx city_size =
     (let qx = fdiv city_size d_two; qy = fdiv city_size d_two in
      line ''=== K-Nearest Neighbor Query Demo ==='' [] @
      line ''Finding 5 nearest objects to ('' (format_f0 qx @ '', '' @ format_f0 qy @ '')...'') @
      (case urbis_index_query_knn (ce_alloc env) idx qx qy 5 of
         Inl status \<Rightarrow> []
       | Inr list \<Rightarrow>
           line ''Found '' (show_nat (length (ol_objects list)) @ '' nearest neighbors in '' @ elapsed_ms ticks t @ '' ms:'') @
           concat (map (\<lambda>(i, obj). demo_neighbor qx qy i obj) (zip [0..<5] (ol_objects list)))) @ nl)"

definition demo_statistics :: "SpatialIndex \<Rightarrow> string" where
  "demo_statistics idx =
     (let s = urbis_index_get_stats idx; b = us_bounds s in
      line ''=== Index Statistics ==='' [] @
      line ''Objects: '' (show_nat (us_total_objects s)) @
      line ''Blocks (KD-tree partitions): '' (show_nat (us_total_blocks s)) @
      line ''Pages: '' (show_nat (us_total_pages s)) @
      line ''Tracks: '' (show_nat (us_total_tracks s)) @
      nl @
      line ''KD-tree depth: '' (show_nat (us_kdtree_depth s)) @
      line ''Quadtree depth: '' (show_size (us_quadtree_depth s)) @
      line ''Avg objects/page: '' (format_f 2 (us_avg_objects_per_page s)) @
      line ''Page utilization: '' (format_f 1 (fmul (us_page_utilization s) d_hundred) @ ''%'') @
      nl @
      line ''Spatial bounds:'' [] @
      line ''  Min: ('' (format_f 2 (min_x b) @ '', '' @ format_f 2 (min_y b) @ '')'') @
      line ''  Max: ('' (format_f 2 (max_x b) @ '', '' @ format_f 2 (max_y b) @ '')'') @
      nl)"

subsection \<open>The program\<close>

text \<open>The size of the city and the numbers of roads, buildings and landmarks; \<open>args\<close> is \<open>argv\<close> without the name.\<close>

definition demo_arguments :: "string list \<Rightarrow> (double \<times> int \<times> int \<times> int) option" where
  "demo_arguments args =
     (let city_size = (if length args > 0 then atof (args ! 0) else double_of_nat 10000) in
      if length args > 1 then
        (case atoi (args ! 1) of
           None \<Rightarrow> None
         | Some num_roads \<Rightarrow>
             if \<not> in_int (num_roads * 3) then None
             else Some (city_size, num_roads, num_roads * 3, (if num_roads < 0 then - ((- num_roads) div 2) else num_roads div 2)))
      else Some (city_size, 200, 500, 100))"

definition demo_config :: UrbisConfig where
  "demo_config = urbis_config_default\<lparr>uc_block_size := 256, uc_page_capacity := 32, uc_enable_quadtree := True\<rparr>"

definition demo_queries :: "DemoEnv \<Rightarrow> SpatialIndex \<Rightarrow> double \<Rightarrow> CliState \<Rightarrow> nat \<times> CliState" where
  "demo_queries env idx city_size st =
     (let cli = de_cli env; st1 = put_out (demo_statistics idx @ demo_range_query cli (de_ticks env) 2 idx city_size) st in
      case demo_adjacent_pages cli idx city_size of (text1, idx1) \<Rightarrow>
        (let st2 = put_out (text1 @ demo_knn_query cli (de_ticks env) 4 idx1 city_size) st1 in
         (0, put_out (line ''Demo complete!'' []) (destroy_index cli idx1 st2))))"

definition demo_main :: "DemoEnv \<Rightarrow> string list \<Rightarrow> CliState \<Rightarrow> (nat \<times> CliState) option" where
  "demo_main env args st =
     (let cli = de_cli env;
          rule = line ''========================================'' [];
          st1 = put_out (rule @ line ''Urbis City Map Spatial Index Demo'' [] @ line ''Version: '' urbis_version @ rule @ nl) st
      in case demo_arguments args of
           None \<Rightarrow> None
         | Some (city_size, num_roads, num_buildings, num_landmarks) \<Rightarrow>
             (case urbis_index_create (ce_alloc cli) (ce_heap cli) (Some demo_config) of
                Inl status \<Rightarrow> Some (1, put_err (line ''Failed to create index'' []) st1)
              | Inr idx \<Rightarrow>
                  (case generate_city (ce_alloc cli) (de_rand env (ucast (ce_clock cli 0))) idx num_roads num_buildings num_landmarks city_size of
                     None \<Rightarrow> None
                   | Some (text1, idx1, k) \<Rightarrow>
                       (let st2 = put_out (text1 @ line ''Building spatial index...'' []) st1 in
                        case urbis_index_build (ce_qsort cli) (ce_alloc cli) idx1 of (err, idx2) \<Rightarrow>
                          if err \<noteq> URBIS_OK then
                            Some (1, destroy_index cli idx2 (put_err (line ''Failed to build index'' []) st2))
                          else Some (demo_queries env idx2 city_size
                            (put_out (line ''Index built in '' (elapsed_ms (de_ticks env) 0 @ '' ms'') @ nl) st2))))))"

end
