(* ===== verification/CityDemo_Props.thy ===== *)
theory CityDemo_Props
  imports CityDemo Cli_Inv SpatialIndex_Props
begin

text \<open>
  What the demonstration program generates, and that it returns.
\<close>

definition castable :: "double \<Rightarrow> bool" where
  "castable d = (\<exists>m. int_cast d = Some m \<and> m \<noteq> 0)"

subsection \<open>The loops return\<close>

lemma random_place_some:
  "castable city_size \<Longrightarrow> \<exists>x y. random_place r city_size k = Some (double_of_nat x, double_of_nat y)"
  by (auto simp: castable_def random_place_def rand_rem_def)

lemma generate_roads_some: "castable city_size \<Longrightarrow> \<exists>s. generate_roads al r city_size n (idx, k) = Some s"
proof (induction n arbitrary: idx k)
  case (Suc n)
  obtain x y where p: "random_place r city_size k = Some (double_of_nat x, double_of_nat y)"
    using random_place_some [OF Suc.prems] by blast
  obtain idx1 k1 where "generate_road al r (double_of_nat x) (double_of_nat y) (idx, k + 2) = (idx1, k1)"
    by (cases "generate_road al r (double_of_nat x) (double_of_nat y) (idx, k + 2)")
  then show ?case using p Suc.IH [OF Suc.prems, of idx1 k1] by simp
qed simp

lemma generate_landmarks_some: "castable city_size \<Longrightarrow> \<exists>s. generate_landmarks al r city_size n (idx, k) = Some s"
proof (induction n arbitrary: idx k)
  case (Suc n)
  obtain x y where p: "random_place r city_size k = Some (double_of_nat x, double_of_nat y)"
    using random_place_some [OF Suc.prems] by blast
  then show ?case using Suc.IH [OF Suc.prems] by simp
qed simp

text \<open>A row of the grid ends, and if it starts it makes a building.\<close>

lemma building_row_some:
  assumes "castable (fmul block_size d_0_8)"
  shows "\<exists>s' g'. building_row al r city_size nb block_size x y (idx, k) g = Some (s', g') \<and> g \<le> g' \<and> (g \<le> nb \<longrightarrow> g' \<le> nb) \<and>
    (flt y city_size \<and> g < nb \<longrightarrow> g < g')"
proof (induction "nat (nb - g)" arbitrary: y idx k g rule: less_induct)
  case less
  obtain dx dy where d: "rand_rem (r k) (int_cast (fmul block_size d_0_8)) = Some dx" "rand_rem (r (k + 1)) (int_cast (fmul block_size d_0_8)) = Some dy"
    using assms by (auto simp: castable_def rand_rem_def)
  show ?case
  proof (cases "flt y city_size \<and> g < nb")
    case True
    obtain idx1 k1 where b: "generate_building al r (fadd x (double_of_nat dx)) (fadd y (double_of_nat dy)) (idx, k + 2) = (idx1, k1)"
      by (cases "generate_building al r (fadd x (double_of_nat dx)) (fadd y (double_of_nat dy)) (idx, k + 2)")
    obtain s' g' where "building_row al r city_size nb block_size x (fadd y block_size) (idx1, k1) (g + 1) = Some (s', g')"
      "g + 1 \<le> g'" "g + 1 \<le> nb \<longrightarrow> g' \<le> nb"
      using less [of "g + 1" "fadd y block_size" idx1 k1] True by auto
    then show ?thesis using True d b by (simp add: building_row.simps [of al r city_size nb block_size x y])
  next
    case False
    have "building_row al r city_size nb block_size x y (idx, k) g = Some ((idx, k), g)"
      unfolding building_row.simps [of al r city_size nb block_size x y] if_not_P [OF False] ..
    then show ?thesis using False by auto
  qed
qed

text \<open>Every row of the grid that is entered makes a building, so the outer loop ends too.\<close>

lemma building_grid_some:
  assumes "castable (fmul block_size d_0_8)" "flt d_zero city_size"
  shows "\<exists>s' g'. building_grid al r city_size nb block_size x s g = Some (s', g') \<and> g \<le> g' \<and> (g \<le> nb \<longrightarrow> g' \<le> nb) \<and>
    (flt x city_size \<and> g < nb \<longrightarrow> g < g')"
proof (induction "nat (nb - g)" arbitrary: x s g rule: less_induct)
  case less
  show ?case
  proof (cases "flt x city_size \<and> g < nb")
    case True
    obtain s1 g1 where r: "building_row al r city_size nb block_size x d_zero s g = Some (s1, g1)" "g < g1" "g1 \<le> nb"
      using building_row_some [OF assms(1), of al r city_size nb x d_zero "fst s" "snd s" g] assms(2) True by auto
    obtain s' g' where "building_grid al r city_size nb block_size (fadd x block_size) s1 g1 = Some (s', g')" "g1 \<le> g'" "g' \<le> nb"
      using less [of g1 "fadd x block_size" s1] r(2,3) True by auto
    then show ?thesis using True r by (simp add: building_grid.simps [of al r city_size nb block_size x])
  next
    case False
    have "building_grid al r city_size nb block_size x s g = Some (s, g)"
      unfolding building_grid.simps [of al r city_size nb block_size x] if_not_P [OF False] ..
    then show ?thesis using False by auto
  qed
qed

text \<open>The size of a block of the city.\<close>

definition block_of :: "double \<Rightarrow> int \<Rightarrow> double" where
  "block_of city_size nb = fdiv city_size (fsqrt (double_of_int nb))"

lemma grid_returns:
  assumes "0 < nb \<and> flt d_zero city_size \<longrightarrow> castable (fmul (block_of city_size nb) d_0_8)"
  shows "\<exists>s' g. building_grid al r city_size nb (block_of city_size nb) d_zero s 0 = Some (s', g) \<and> 0 \<le> g \<and> g \<le> max 0 nb \<and>
    (0 < nb \<and> flt d_zero city_size \<longrightarrow> 0 < g)"
proof (cases "0 < nb \<and> flt d_zero city_size")
  case True
  then show ?thesis
    using building_grid_some [OF _ conjunct2 [OF True], of "block_of city_size nb" al r nb d_zero s 0] assms by auto
next
  case False
  then show ?thesis by (auto simp: building_grid.simps)
qed

lemma generate_city_some:
  assumes "castable city_size" "0 < nb \<and> flt d_zero city_size \<longrightarrow> castable (fmul (block_of city_size nb) d_0_8)"
  shows "\<exists>res. generate_city al r idx nr nb nm city_size = Some res"
proof -
  obtain s1 where 1: "generate_roads al r city_size (nat nr) (idx, 0) = Some s1" using generate_roads_some [OF assms(1)] by blast
  obtain s2 g where 2: "building_grid al r city_size nb (block_of city_size nb) d_zero s1 0 = Some (s2, g)" using grid_returns [OF assms(2)] by blast
  obtain idx3 k3 where 3: "generate_landmarks al r city_size (nat nm) s2 = Some (idx3, k3)"
    using generate_landmarks_some [OF assms(1), of al r "nat nm" "fst s2" "snd s2"] by auto
  show ?thesis using 1 2 3 by (simp add: generate_city_def block_of_def)
qed

subsection \<open>The objects it inserts\<close>

lemma fold_expand_any: "mbr_num m \<Longrightarrow> mbr_num (fold (\<lambda>p m. mbr_expand_point m p) ps m)"
  by (induction ps arbitrary: m) (simp_all add: mbr_num_def mbr_expand_point_def flt_def fgt_def)

lemma derived_num:
  assumes "fst (spatial_object_update_derived obj) = GEOM_OK" "so_type obj \<noteq> GEOM_POINT"
  shows "mbr_num (so_mbr (derived obj))"
proof -
  obtain obj' where u: "spatial_object_update_derived obj = (GEOM_OK, obj')"
    using assms(1) by (cases "spatial_object_update_derived obj") simp
  show ?thesis
    using update_derived_mbr [OF u] assms(2) by (cases "so_geom obj") (simp_all add: derived_def u so_type_def fold_expand_any)
qed

lemma derived_geom [simp]: "so_geom (derived obj) = so_geom obj"
  by (auto simp: derived_def spatial_object_update_derived_def split: Geom.splits sum.splits)

lemma derived_type [simp]: "so_type (derived obj) = so_type obj"
  by (simp add: so_type_def)

definition stored :: "GeomType \<Rightarrow> SpatialIndex \<Rightarrow> nat" where
  "stored t idx = count_type t (si_objects idx)"

lemma view_type: "fst (fst (snd (object_view obj))) = so_type obj"
  by (cases "so_geom obj") (simp_all add: object_view_def so_type_def)

lemma stored_views: "stored t idx = size (filter_mset (\<lambda>v. fst (fst (snd v)) = t) (si_views idx))"
proof -
  have "size (filter_mset (\<lambda>v. fst (fst (snd v)) = t) (image_mset object_view (mset xs))) = count_type t xs" for xs
    by (induction xs) (simp_all add: view_type count_type_def)
  then show ?thesis by (simp add: stored_def si_views_def)
qed

lemma count_stored: "urbis_index_count idx = stored GEOM_POINT idx + stored GEOM_LINESTRING idx + stored GEOM_POLYGON idx"
proof -
  have "length xs = count_type GEOM_POINT xs + count_type GEOM_LINESTRING xs + count_type GEOM_POLYGON xs" for xs
  proof (induction xs)
    case (Cons x xs)
    then show ?case by (cases "so_type x") (simp_all add: count_type_def)
  qed (simp add: count_type_def)
  then show ?thesis by (simp add: urbis_count si_views_def stored_def)
qed

text \<open>The index has grown by \<open>n\<close> objects of the type \<open>t\<close>.\<close>

definition grown :: "obj_ptr qsort \<Rightarrow> GeomType \<Rightarrow> nat \<Rightarrow> SpatialIndex \<Rightarrow> SpatialIndex \<Rightarrow> bool" where
  "grown qs t n idx idx' = (si_reach qs idx' \<and> (\<forall>t'. stored t' idx' = stored t' idx + (if t' = t then n else 0)))"

lemma grown_reach: "grown qs t n idx idx' \<Longrightarrow> si_reach qs idx'"
  by (simp add: grown_def)

lemma grown_none: "si_reach qs idx \<Longrightarrow> grown qs t 0 idx idx"
  by (simp add: grown_def)

lemma grown_more: "grown qs t n idx idx1 \<Longrightarrow> grown qs t m idx1 idx' \<Longrightarrow> grown qs t (n + m) idx idx'"
  by (auto simp: grown_def)

lemma insert_made_grown:
  assumes "si_reach qs idx" "mbr_num (so_mbr (derived obj))"
  shows "\<exists>idx' oid. insert_made malloc_ok idx obj = (URBIS_OK, idx', Some oid) \<and> grown qs (so_type obj) 1 idx idx'"
proof -
  obtain idx' oid where i: "spatial_index_insert malloc_ok idx obj = (SI_OK, idx', insert_object idx obj)"
    "si_views idx' = add_mset (with_id oid (object_view (derived obj))) (si_views idx)"
    using insert_sim [OF si_reach_inv [OF assms(1)] assms(2)] by blast
  have "si_apply qs (Op_insert obj) idx = idx'" by (simp add: si_apply_def i(1))
  then have "si_reach qs idx'" using si_reach.step [OF assms(1), of "Op_insert obj"] assms(2) by simp
  moreover have "fst (fst (snd (with_id oid (object_view (derived obj))))) = so_type obj"
    using view_type [of "derived obj"] by (simp add: with_id_def)
  ultimately have "grown qs (so_type obj) 1 idx idx'" by (auto simp: grown_def stored_views i(2))
  then show ?thesis by (simp add: insert_made_def i(1))
qed

lemma insert_derived_grown:
  assumes "si_reach qs idx" "fst (spatial_object_update_derived obj) = GEOM_OK" "so_type obj \<noteq> GEOM_POINT"
  shows "\<exists>idx' oid. insert_made malloc_ok idx (snd (spatial_object_update_derived obj)) = (URBIS_OK, idx', Some oid) \<and>
    grown qs (so_type obj) 1 idx idx'"
proof -
  have "fst (spatial_object_update_derived (derived obj)) = GEOM_OK"
    using assms(2) by (simp add: update_derived_ok_iff)
  then have "mbr_num (so_mbr (derived (derived obj)))" using assms(3) by (intro derived_num) simp_all
  then show ?thesis using insert_made_grown [OF assms(1), of "derived obj"] by (simp add: derived_def [symmetric])
qed

lemma insert_linestring_grown:
  assumes "si_reach qs idx" "points \<noteq> []"
  shows "\<exists>idx' oid. urbis_index_insert_linestring malloc_ok idx points = (URBIS_OK, idx', Some oid) \<and> grown qs GEOM_LINESTRING 1 idx idx'"
proof -
  obtain l0 where l0: "linestring_init malloc_ok (length points) = (GEOM_OK, l0)" "ls_points l0 = []"
    by (simp add: linestring_init_def Let_def malloc_ok_simp)
  let ?l = "fold (\<lambda>p l. snd (linestring_add_point malloc_ok l p)) points l0"
  have "ls_points ?l = ls_points l0 @ points" using linestring_init_wf [OF l0(1)] line_array.fold_add by blast
  then have "ls_points ?l \<noteq> []" using assms(2) by simp
  then have "\<exists>idx' oid. insert_made malloc_ok idx (snd (spatial_object_update_derived (obj\<lparr>so_geom := G_line ?l\<rparr>))) = (URBIS_OK, idx', Some oid) \<and>
      grown qs GEOM_LINESTRING 1 idx idx'" for obj
    using insert_derived_grown [OF assms(1), of "obj\<lparr>so_geom := G_line ?l\<rparr>"] by (simp add: update_derived_ok_iff so_type_def)
  then show ?thesis
    using assms(2) by (simp add: urbis_index_insert_linestring_def spatial_object_init_linestring_def l0(1) Let_def)
qed

lemma insert_polygon_grown:
  assumes "si_reach qs idx" "3 \<le> length points"
  shows "\<exists>idx' oid. urbis_index_insert_polygon malloc_ok idx points = (URBIS_OK, idx', Some oid) \<and> grown qs GEOM_POLYGON 1 idx idx'"
proof -
  obtain q0 where q0: "polygon_init malloc_ok (length points) = (GEOM_OK, q0)" "exterior q0 = []"
    by (simp add: polygon_init_def zero_polygon_def Let_def malloc_ok_simp)
  let ?q = "fold (\<lambda>p q. snd (polygon_add_exterior_point malloc_ok q p)) points q0"
  have "exterior ?q = exterior q0 @ points" using polygon_init_wf [OF q0(1)] ring_array.fold_add by blast
  then have "3 \<le> length (exterior ?q)" using assms(2) q0(2) by simp
  then have "\<exists>idx' oid. insert_made malloc_ok idx (snd (spatial_object_update_derived (obj\<lparr>so_geom := G_polygon ?q\<rparr>))) = (URBIS_OK, idx', Some oid) \<and>
      grown qs GEOM_POLYGON 1 idx idx'" for obj
    using insert_derived_grown [OF assms(1), of "obj\<lparr>so_geom := G_polygon ?q\<rparr>"] by (simp add: update_derived_ok_iff so_type_def)
  then show ?thesis
    using assms(2) by (simp add: urbis_index_insert_polygon_def spatial_object_init_polygon_def q0(1) Let_def)
qed

lemma insert_point_grown:
  assumes "si_reach qs idx" "\<not> isnan x" "\<not> isnan y"
  shows "\<exists>idx' oid. urbis_index_insert_point malloc_ok idx x y = (URBIS_OK, idx', Some oid) \<and> grown qs GEOM_POINT 1 idx idx'"
proof -
  let ?o = "snd (spatial_object_init_point 0 (point_create x y))"
  have "so_mbr (derived ?o) = mbr_create x y x y" "so_type ?o = GEOM_POINT"
    by (simp_all add: spatial_object_init_point_def derived_def spatial_object_update_derived_def point_create_def so_type_def)
  then show ?thesis
    using insert_made_grown [OF assms(1), of ?o] point_box_num [OF assms(2,3)]
    by (simp add: urbis_index_insert_point_def spatial_object_init_point_def)
qed

subsection \<open>The city\<close>

lemma road_points_length: "length (fst (road_points r k n x y)) = n"
  by (induction r k n x y rule: road_points.induct) (auto split: prod.splits)

lemma generate_road_grown:
  assumes "si_reach qs idx"
  shows "\<exists>idx' k'. generate_road malloc_ok r x y (idx, k) = (idx', k') \<and> grown qs GEOM_LINESTRING 1 idx idx'"
proof -
  obtain points k' where p: "road_points r (k + 1) (5 + r k mod 6) x y = (points, k')" by fastforce
  have "points \<noteq> []" using road_points_length [of r "k + 1" "5 + r k mod 6" x y] p by auto
  then show ?thesis using insert_linestring_grown [OF assms, of points] p by (auto simp: generate_road_def)
qed

lemma generate_building_grown:
  assumes "si_reach qs idx"
  shows "\<exists>idx' k'. generate_building malloc_ok r x y (idx, k) = (idx', k') \<and> grown qs GEOM_POLYGON 1 idx idx'"
proof -
  define points where "points = (let w = double_of_nat (20 + r k mod 50); h = double_of_nat (20 + r (k + 1) mod 50) in
    [urbis_point x y, urbis_point (fadd x w) y, urbis_point (fadd x w) (fadd y h), urbis_point x (fadd y h), urbis_point x y])"
  have "length points = 5" by (simp add: points_def Let_def)
  then have "\<exists>idx' oid. urbis_index_insert_polygon malloc_ok idx points = (URBIS_OK, idx', Some oid) \<and> grown qs GEOM_POLYGON 1 idx idx'"
    using insert_polygon_grown [OF assms, of points] by simp
  then show ?thesis unfolding points_def by (auto simp: generate_building_def Let_def)
qed

lemma double_of_nat_num [simp]: "\<not> isnan (double_of_nat n)"
  by (simp add: double_of_nat_def)

lemma generate_roads_grown:
  assumes "castable city_size" "si_reach qs idx"
  shows "\<exists>idx' k'. generate_roads malloc_ok r city_size n (idx, k) = Some (idx', k') \<and> grown qs GEOM_LINESTRING n idx idx'"
  using assms(2)
proof (induction n arbitrary: idx k)
  case (Suc n)
  obtain x y where p: "random_place r city_size k = Some (double_of_nat x, double_of_nat y)"
    using random_place_some [OF assms(1)] by blast
  obtain idx1 k1 where road: "generate_road malloc_ok r (double_of_nat x) (double_of_nat y) (idx, k + 2) = (idx1, k1)"
    "grown qs GEOM_LINESTRING 1 idx idx1"
    using generate_road_grown [OF Suc.prems] by blast
  obtain idx' k' where "generate_roads malloc_ok r city_size n (idx1, k1) = Some (idx', k')" "grown qs GEOM_LINESTRING n idx1 idx'"
    using Suc.IH [OF grown_reach [OF road(2)]] by blast
  then show ?case using p road grown_more [OF road(2)] by fastforce
qed (simp add: grown_none)

lemma generate_landmarks_grown:
  assumes "castable city_size" "si_reach qs idx"
  shows "\<exists>idx' k'. generate_landmarks malloc_ok r city_size n (idx, k) = Some (idx', k') \<and> grown qs GEOM_POINT n idx idx'"
  using assms(2)
proof (induction n arbitrary: idx k)
  case (Suc n)
  obtain x y where p: "random_place r city_size k = Some (double_of_nat x, double_of_nat y)"
    using random_place_some [OF assms(1)] by blast
  obtain idx1 oid where i: "urbis_index_insert_point malloc_ok idx (double_of_nat x) (double_of_nat y) = (URBIS_OK, idx1, Some oid)"
    "grown qs GEOM_POINT 1 idx idx1"
    using insert_point_grown [OF Suc.prems double_of_nat_num double_of_nat_num] by blast
  obtain idx' k' where "generate_landmarks malloc_ok r city_size n (idx1, k + 2) = Some (idx', k')" "grown qs GEOM_POINT n idx1 idx'"
    using Suc.IH [OF grown_reach [OF i(2)]] by blast
  then show ?case using p i grown_more [OF i(2)] by fastforce
qed (simp add: grown_none)

lemma building_row_grown:
  assumes "si_reach qs idx" "building_row malloc_ok r city_size nb block_size x y (idx, k) g = Some ((idx', k'), g')"
  shows "g \<le> g' \<and> grown qs GEOM_POLYGON (nat (g' - g)) idx idx' \<and> (flt y city_size \<and> g < nb \<longrightarrow> g < g')"
  using assms
proof (induction "nat (nb - g)" arbitrary: y idx k g rule: less_induct)
  case less
  show ?case
  proof (cases "flt y city_size \<and> g < nb")
    case True
    from less.prems(2) True obtain dx dy where
      rest: "building_row malloc_ok r city_size nb block_size x (fadd y block_size)
        (generate_building malloc_ok r (fadd x (double_of_nat dx)) (fadd y (double_of_nat dy)) (idx, k + 2)) (g + 1) = Some ((idx', k'), g')"
      by (subst (asm) building_row.simps) (auto split: option.splits)
    obtain idx1 k1 where b: "generate_building malloc_ok r (fadd x (double_of_nat dx)) (fadd y (double_of_nat dy)) (idx, k + 2) = (idx1, k1)"
      "grown qs GEOM_POLYGON 1 idx idx1"
      using generate_building_grown [OF less.prems(1)] by blast
    have "g + 1 \<le> g' \<and> grown qs GEOM_POLYGON (nat (g' - (g + 1))) idx1 idx'"
      using less.hyps [OF _ grown_reach [OF b(2)] rest [unfolded b(1)]] True by simp
    moreover have "nat (g' - g) = 1 + nat (g' - (g + 1))" if "g + 1 \<le> g'" using that by simp
    ultimately show ?thesis using grown_more [OF b(2)] by simp
  next
    case False
    have "building_row malloc_ok r city_size nb block_size x y (idx, k) g = Some ((idx, k), g)"
      unfolding building_row.simps [of malloc_ok r city_size nb block_size x y] if_not_P [OF False] ..
    then show ?thesis using less.prems False by (auto simp: grown_none)
  qed
qed

lemma building_grid_grown:
  assumes "flt d_zero city_size" "building_grid malloc_ok r city_size nb block_size x s g = Some (s', g')" "si_reach qs (fst s)"
  shows "g \<le> g' \<and> grown qs GEOM_POLYGON (nat (g' - g)) (fst s) (fst s')"
  using assms(2,3)
proof (induction "nat (nb - g)" arbitrary: x s g rule: less_induct)
  case less
  show ?case
  proof (cases "flt x city_size \<and> g < nb")
    case True
    from less.prems(1) True obtain s1 g1 where
      row: "building_row malloc_ok r city_size nb block_size x d_zero s g = Some (s1, g1)" and
      rest: "building_grid malloc_ok r city_size nb block_size (fadd x block_size) s1 g1 = Some (s', g')"
      by (subst (asm) building_grid.simps) (auto split: option.splits)
    have r: "g < g1" "grown qs GEOM_POLYGON (nat (g1 - g)) (fst s) (fst s1)"
      using building_row_grown [of qs "fst s" r city_size nb block_size x d_zero "snd s" g "fst s1" "snd s1" g1] less.prems(2) row assms(1) True
      by auto
    have "g1 \<le> g' \<and> grown qs GEOM_POLYGON (nat (g' - g1)) (fst s1) (fst s')"
      by (rule less.hyps [OF _ rest grown_reach [OF r(2)]]) (use r(1) True in simp)
    moreover have "nat (g' - g) = nat (g1 - g) + nat (g' - g1)" if "g1 \<le> g'" using that r(1) by simp
    ultimately show ?thesis using grown_more [OF r(2)] r(1) by auto
  next
    case False
    have "building_grid malloc_ok r city_size nb block_size x s g = Some (s, g)"
      unfolding building_grid.simps [of malloc_ok r city_size nb block_size x] if_not_P [OF False] ..
    then show ?thesis using less.prems by (simp add: grown_none)
  qed
qed

lemma grid_grown:
  assumes "0 < nb \<and> flt d_zero city_size \<longrightarrow> castable (fmul (block_of city_size nb) d_0_8)" "si_reach qs idx"
  shows "\<exists>idx' k' g. building_grid malloc_ok r city_size nb (block_of city_size nb) d_zero (idx, k) 0 = Some ((idx', k'), g) \<and>
    nat g \<le> nat nb \<and> (0 < nb \<and> flt d_zero city_size \<longrightarrow> 0 < nat g) \<and> grown qs GEOM_POLYGON (nat g) idx idx'"
proof -
  obtain idx' k' g where g: "building_grid malloc_ok r city_size nb (block_of city_size nb) d_zero (idx, k) 0 = Some ((idx', k'), g)"
    "0 \<le> g" "g \<le> max 0 nb" "0 < nb \<and> flt d_zero city_size \<longrightarrow> 0 < g"
    using grid_returns [OF assms(1), of malloc_ok r "(idx, k)"] by auto
  have "grown qs GEOM_POLYGON (nat g) idx idx'"
  proof (cases "flt d_zero city_size")
    case True
    then show ?thesis using building_grid_grown [OF True g(1)] assms(2) by simp
  next
    case False
    then have "building_grid malloc_ok r city_size nb (block_of city_size nb) d_zero (idx, k) 0 = Some ((idx, k), 0)"
      by (simp add: building_grid.simps)
    then show ?thesis using g(1) assms(2) by (simp add: grown_none)
  qed
  then show ?thesis using g by (intro exI [of _ idx'] exI [of _ k'] exI [of _ g]) auto
qed

lemma cast_positive: "int_cast d = Some c \<Longrightarrow> 0 < c \<Longrightarrow> flt d_zero d"
proof -
  assume c: "int_cast d = Some c" "0 < c"
  define one where "one = (2::int) ^ 1074"
  have n: "\<not> isnan d" "c = (if dneg d then - (mval (dmag d) div one) else mval (dmag d) div one)"
    using c(1) by (auto simp: int_cast_def Let_def one_def split: if_splits)
  have "0 \<le> mval (dmag d) div one" by (simp add: one_def pos_imp_zdiv_nonneg_iff)
  then have "\<not> dneg d" "mval (dmag d) \<noteq> 0" using n(2) c(2) by (auto split: if_splits)
  moreover have "0 \<le> mval (dmag d)" by (rule mval_nonneg) simp
  ultimately have "0 < mval (dmag d)" by (simp only: less_le) simp
  then have "0 < dmag d" using mval_pos_iff [of "dmag d"] by simp
  then show ?thesis using n(1) \<open>\<not> dneg d\<close> by (simp add: flt_def dkey_def [of d])
qed

lemma cast_nonneg: "int_cast d = Some c \<Longrightarrow> flt d_zero d \<Longrightarrow> 0 \<le> c"
proof -
  assume c: "int_cast d = Some c" "flt d_zero d"
  define one where "one = (2::int) ^ 1074"
  have n: "c = (if dneg d then - (mval (dmag d) div one) else mval (dmag d) div one)"
    using c(1) by (auto simp: int_cast_def Let_def one_def split: if_splits)
  have "0 < dkey d" using c(2) by (simp add: flt_def)
  then have "\<not> dneg d" using dmag_bounds(1) [of d] by (simp add: dkey_def split: if_splits del: dmag_bounds)
  moreover have "0 \<le> mval (dmag d) div one" by (simp add: one_def pos_imp_zdiv_nonneg_iff)
  ultimately show "0 \<le> c" using n by simp
qed

text \<open>
  The generator of the demonstration returns, though its outer loop counts with a double that may
  stop growing, and it stores what it announces: as many line strings as roads and as many points as
  landmarks were asked for, and at most as many polygons as buildings were asked for, at least one if
  the city has an extent.  The conversions to \<open>int\<close> have to be defined and not 0.
\<close>

theorem generate_city_stores:
  assumes "si_reach qs idx" "int_cast city_size = Some c" "c \<noteq> 0"
    "0 < nb \<and> 0 < c \<longrightarrow> castable (fmul (fdiv city_size (fsqrt (double_of_int nb))) d_0_8)"
  shows "\<exists>text1 idx' k g. generate_city malloc_ok r idx nr nb nm city_size = Some (text1, idx', k) \<and> si_reach qs idx' \<and>
    count_type GEOM_LINESTRING (si_objects idx') = count_type GEOM_LINESTRING (si_objects idx) + nat nr \<and>
    count_type GEOM_POLYGON (si_objects idx') = count_type GEOM_POLYGON (si_objects idx) + g \<and>
    count_type GEOM_POINT (si_objects idx') = count_type GEOM_POINT (si_objects idx) + nat nm \<and>
    urbis_index_count idx' = urbis_index_count idx + nat nr + g + nat nm \<and>
    g \<le> nat nb \<and> (0 < nb \<and> 0 < c \<longrightarrow> 0 < g)"
proof -
  have city: "castable city_size" using assms(2,3) by (auto simp: castable_def)
  have pos: "0 < c" if "flt d_zero city_size" using cast_nonneg [OF assms(2) that] assms(3) by simp
  have block: "0 < nb \<and> flt d_zero city_size \<longrightarrow> castable (fmul (block_of city_size nb) d_0_8)"
    using assms(4) pos by (simp add: block_of_def)
  obtain idx1 k1 where 1: "generate_roads malloc_ok r city_size (nat nr) (idx, 0) = Some (idx1, k1)" "grown qs GEOM_LINESTRING (nat nr) idx idx1"
    using generate_roads_grown [OF city assms(1)] by blast
  obtain idx2 k2 g where 2: "building_grid malloc_ok r city_size nb (block_of city_size nb) d_zero (idx1, k1) 0 = Some ((idx2, k2), g)"
    "nat g \<le> nat nb" "0 < nb \<and> flt d_zero city_size \<longrightarrow> 0 < nat g" "grown qs GEOM_POLYGON (nat g) idx1 idx2"
    using grid_grown [OF block grown_reach [OF 1(2)]] by blast
  obtain idx3 k3 where 3: "generate_landmarks malloc_ok r city_size (nat nm) (idx2, k2) = Some (idx3, k3)" "grown qs GEOM_POINT (nat nm) idx2 idx3"
    using generate_landmarks_grown [OF city grown_reach [OF 2(4)]] by blast
  have run: "\<exists>text1. generate_city malloc_ok r idx nr nb nm city_size = Some (text1, idx3, k3)"
    using 1(1) 2(1) 3(1) by (simp add: generate_city_def block_of_def)
  have types: "stored GEOM_LINESTRING idx3 = stored GEOM_LINESTRING idx + nat nr" "stored GEOM_POLYGON idx3 = stored GEOM_POLYGON idx + nat g"
    "stored GEOM_POINT idx3 = stored GEOM_POINT idx + nat nm"
    using 1(2) 2(4) 3(2) by (simp_all add: grown_def)
  have "0 < nb \<and> 0 < c \<longrightarrow> 0 < nat g" using 2(3) cast_positive [OF assms(2)] by blast
  moreover have "urbis_index_count idx3 = urbis_index_count idx + nat nr + nat g + nat nm"
    unfolding count_stored types by simp
  ultimately show ?thesis
    using run types 2(2) grown_reach [OF 3(2)] unfolding stored_def by blast
qed

text \<open>The example of the default arguments: a city of 10000 with 500 buildings.\<close>

lemma default_city:
  "int_cast (double_of_nat 10000) = Some 10000"
  "int_cast (fmul (fdiv (double_of_nat 10000) (fsqrt (double_of_int 500))) d_0_8) = Some 357"
  by code_simp+

theorem generate_city_stores_witness:
  "\<exists>text1 idx' k g. generate_city malloc_ok (\<lambda>n. n) sample_index 200 500 100 (double_of_nat 10000) = Some (text1, idx', k) \<and>
    urbis_index_count idx' = urbis_index_count sample_index + 300 + g \<and> 0 < g \<and> g \<le> 500"
proof -
  have "castable (fmul (fdiv (double_of_nat 10000) (fsqrt (double_of_int 500))) d_0_8)"
    using default_city(2) by (auto simp: castable_def)
  then obtain text1 idx' k g where
    "generate_city malloc_ok (\<lambda>n. n) sample_index 200 500 100 (double_of_nat 10000) = Some (text1, idx', k)"
    "urbis_index_count idx' = urbis_index_count sample_index + nat 200 + g + nat 100" "g \<le> nat 500" "0 < g"
    using generate_city_stores [OF sample_index_reach default_city(1), of 500 "\<lambda>n. n" 200 100] by auto
  then show ?thesis by (intro exI [of _ text1] exI [of _ idx'] exI [of _ k] exI [of _ g]) simp
qed

subsection \<open>The program\<close>

lemma demo_queries_ends:
  "\<exists>st'. demo_queries env idx city_size st = (0, st') \<and> cl_err st' = cl_err st \<and> (\<exists>s. cl_out st' = s @ line ''Demo complete!'' [])"
  by (auto simp: demo_queries_def Let_def put_out_def destroy_index_def split: prod.splits)

lemma error_streams [simp]: "cl_err (put_out s st) = cl_err st" "cl_err (put_err s st) = cl_err st @ s" "cl_err (destroy_index env idx st) = cl_err st"
  by (simp_all add: put_out_def put_err_def destroy_index_def)



end
