(* ===== verification/MapDemo.thy ===== *)
theory MapDemo
  imports CityDemo
begin

text \<open>
  The demonstration program src/examples/real_map_demo.c.

  It loads a GeoJSON file into an index, builds it and queries it.  The readings of \<open>clock\<close> are the
  argument \<open>ticks\<close>; a load that takes no time makes the rate infinite, or not a number.  The result None is
  that of the parser.
\<close>

subsection \<open>Times and numbers\<close>

definition get_time_ms :: "(nat \<Rightarrow> int) \<Rightarrow> nat \<Rightarrow> double" where
  "get_time_ms ticks t = fmul (fdiv (double_of_int (ticks t)) (double_of_nat 1000000)) (double_of_nat 1000)"

definition format_number :: "nat \<Rightarrow> string" where
  "format_number n =
     (if n < 1000 then show_nat n
      else if n < 1000000 then format_f 1 (fdiv (double_of_nat n) (double_of_nat 1000)) @ ''k''
      else format_f 1 (fdiv (double_of_nat n) (double_of_nat 1000000)) @ ''M'')"

definition d_0_25 :: double where "d_0_25 = double_of_ratio 1 4"
definition d_0_75 :: double where "d_0_75 = double_of_ratio 3 4"
definition d_0_4 :: double where "d_0_4 = double_of_ratio 4 10"
definition d_0_6 :: double where "d_0_6 = double_of_ratio 6 10"

subsection \<open>The demonstrations\<close>

text \<open>The part of the bounds between two fractions of its width and height, and its line.\<close>

definition inner_region :: "MBR \<Rightarrow> double \<Rightarrow> double \<Rightarrow> MBR" where
  "inner_region b low high =
     (let width = fsub (max_x b) (min_x b); height = fsub (max_y b) (min_y b) in
      urbis_mbr (fadd (min_x b) (fmul width low)) (fadd (min_y b) (fmul height low))
        (fadd (min_x b) (fmul width high)) (fadd (min_y b) (fmul height high)))"

definition region_text :: "MBR \<Rightarrow> string" where
  "region_text region =
     line ''Region: ('' (format_f 4 (min_x region) @ '', '' @ format_f 4 (min_y region) @ '') to ('' @
       format_f 4 (max_x region) @ '', '' @ format_f 4 (max_y region) @ '')'')"

definition map_statistics :: "UrbisStats \<Rightarrow> string" where
  "map_statistics s =
     line ''=== Index Statistics ==='' [] @
     line ''Objects: '' (show_nat (us_total_objects s)) @
     line ''Blocks: '' (show_nat (us_total_blocks s)) @
     line ''Pages: '' (show_nat (us_total_pages s)) @
     line ''Tracks: '' (show_nat (us_total_tracks s)) @ nl"

definition map_range_query :: "CliEnv \<Rightarrow> (nat \<Rightarrow> int) \<Rightarrow> nat \<Rightarrow> SpatialIndex \<Rightarrow> MBR \<Rightarrow> string" where
  "map_range_query env ticks t idx b =
     (if mbr_is_empty b then []
      else let region = inner_region b d_0_25 d_0_75 in
        line ''=== Range Query Demo ==='' [] @ region_text region @
        (case urbis_index_query_range (ce_alloc env) idx region of
           Inl status \<Rightarrow> []
         | Inr list \<Rightarrow>
             line ''Found '' (show_nat (length (ol_objects list)) @ '' objects in '' @
               format_f 2 (fsub (get_time_ms ticks (t + 1)) (get_time_ms ticks t)) @ '' ms'') @ nl))"

definition map_adjacent_pages :: "CliEnv \<Rightarrow> SpatialIndex \<Rightarrow> MBR \<Rightarrow> string \<times> SpatialIndex" where
  "map_adjacent_pages env idx b =
     (if mbr_is_empty b then ([], idx)
      else let region = inner_region b d_0_4 d_0_6 in
        case urbis_index_find_adjacent_pages (ce_alloc env) idx region of (res, idx1) \<Rightarrow>
          (line ''=== Adjacent Pages Demo ==='' [] @ region_text region @
           (case res of
              Inl status \<Rightarrow> []
            | Inr pages \<Rightarrow>
                line ''Pages accessed: '' (show_nat (length (pl_page_ids pages))) @
                line ''Estimated seeks: '' (show_nat (pl_estimated_seeks pages)) @ nl), idx1))"

definition map_neighbor :: "double \<Rightarrow> double \<Rightarrow> nat \<Rightarrow> SpatialObject \<Rightarrow> string" where
  "map_neighbor center_lon center_lat i obj =
     line ''  '' (show_nat (i + 1) @ ''. '' @
       (case so_type obj of GEOM_POINT \<Rightarrow> ''Point'' | GEOM_LINESTRING \<Rightarrow> ''Line'' | GEOM_POLYGON \<Rightarrow> ''Polygon'') @
       '' at ('' @ format_f 4 (px (so_centroid obj)) @ '', '' @ format_f 4 (py (so_centroid obj)) @ ''), distance: '' @
       format_f 4 (point_distance (urbis_point center_lon center_lat) (so_centroid obj)))"

definition map_knn_query :: "CliEnv \<Rightarrow> SpatialIndex \<Rightarrow> MBR \<Rightarrow> string" where
  "map_knn_query env idx b =
     (if mbr_is_empty b then []
      else let center_lon = fdiv (fadd (min_x b) (max_x b)) d_two; center_lat = fdiv (fadd (min_y b) (max_y b)) d_two in
        line ''=== KNN Query Demo ==='' [] @
        line ''Center point: ('' (format_f 4 center_lon @ '', '' @ format_f 4 center_lat @ '')'') @
        (case urbis_index_query_knn (ce_alloc env) idx center_lon center_lat 10 of
           Inl status \<Rightarrow> []
         | Inr list \<Rightarrow>
             line ''Found '' (show_nat (length (ol_objects list)) @ '' nearest objects'') @
             concat (map (\<lambda>(i, obj). map_neighbor center_lon center_lat i obj) (zip [0..<5] (ol_objects list))) @ nl))"

subsection \<open>The program\<close>

definition map_config :: UrbisConfig where
  "map_config = urbis_config_default\<lparr>uc_block_size := 1024, uc_page_capacity := 64, uc_enable_quadtree := True\<rparr>"

definition map_path :: "string list \<Rightarrow> string" where
  "map_path args = (if length args > 0 then args ! 0 else ''examples/data/city.geojson'')"

definition map_loaded :: "(nat \<Rightarrow> int) \<Rightarrow> SpatialIndex \<Rightarrow> string" where
  "map_loaded ticks idx =
     (let load_time = fsub (get_time_ms ticks 1) (get_time_ms ticks 0); n = urbis_index_count idx in
      line ''Loaded '' (format_number n @ '' features in '' @ format_f 2 load_time @ '' ms'') @
      line ''Load rate: '' (format_f0 (fdiv (double_of_nat n) (fdiv load_time (double_of_nat 1000))) @ '' features/sec'') @ nl)"

text \<open>The queries use the bounds from before the search for pages.\<close>

definition map_queries :: "DemoEnv \<Rightarrow> SpatialIndex \<Rightarrow> CliState \<Rightarrow> nat \<times> CliState" where
  "map_queries env idx st =
     (let cli = de_cli env; s = urbis_index_get_stats idx; b = us_bounds s;
          st1 = put_out (map_statistics s @ map_range_query cli (de_ticks env) 4 idx b) st in
      case map_adjacent_pages cli idx b of (text1, idx1) \<Rightarrow>
        (0, destroy_index cli idx1 (put_out (text1 @ map_knn_query cli idx1 b) st1)))"

definition map_main :: "DemoEnv \<Rightarrow> string list \<Rightarrow> CliState \<Rightarrow> (nat \<times> CliState) option" where
  "map_main env args st =
     (let cli = de_cli env; ticks = de_ticks env; geojson_path = map_path args;
          rule = line ''========================================'' [];
          st1 = put_out (rule @ line ''Urbis Real Map Demo'' [] @ line ''Version: '' urbis_version @ rule @ nl @
            line ''Loading GeoJSON: '' geojson_path @ nl) st
      in case urbis_index_create (ce_alloc cli) (ce_heap cli) (Some map_config) of
           Inl status \<Rightarrow> Some (1, put_err (line ''Failed to create index'' []) st1)
         | Inr idx \<Rightarrow>
             (case urbis_index_load_geojson (ce_alloc cli) (ce_device cli) (cl_files st1) idx geojson_path of
                None \<Rightarrow> None
              | Some (err, idx1, loaded) \<Rightarrow>
                  if err \<noteq> URBIS_OK then
                    Some (1, destroy_index cli idx1 (put_err (line ''Failed to load GeoJSON: '' geojson_path) st1))
                  else
                    (let st2 = put_out (map_loaded ticks idx1 @ line ''Building spatial index...'' []) st1 in
                     case urbis_index_build (ce_qsort cli) (ce_alloc cli) idx1 of (err2, idx2) \<Rightarrow>
                       if err2 \<noteq> URBIS_OK then
                         Some (1, destroy_index cli idx2 (put_err (line ''Failed to build index'' []) st2))
                       else Some (map_queries env idx2
                         (put_out (line ''Index built in '' (format_f 2 (fsub (get_time_ms ticks 3) (get_time_ms ticks 2)) @ '' ms'') @ nl)
                           st2)))))"

end
