(* ===== verification/MapDemo_Props.thy ===== *)
theory MapDemo_Props
  imports MapDemo Cli_Query_Props
begin

text \<open>
  What the second demonstration program reports of a file.
\<close>

lemma found_in_region:
  assumes "si_reach qs idx" "mbr_num region" "length oids = length fs" "si_views idx = mset (feature_views oids fs)"
  shows "\<exists>list. urbis_index_query_range malloc_ok idx region = Inr list \<and>
    length (ol_objects list) = length (filter (\<lambda>f. mbr_intersects (so_mbr (derived (pf_object f))) region) fs)"
proof -
  obtain r where r: "spatial_result_init malloc_ok 64 = (SI_OK, r)" using spatial_result_init_ok by blast
  obtain res list where q: "spatial_index_query_range malloc_ok idx region r = (SI_OK, res)"
    "urbis_copy_query_result malloc_ok (result_objects idx res) = Inr list"
    "mset (map object_view (ol_objects list)) = filter_mset (\<lambda>v. mbr_intersects (view_mbr v) region) (si_views idx)"
    using query_range_views [OF si_reach_inv [OF assms(1)] assms(2)] by blast
  have "length (ol_objects list) = size (filter_mset (\<lambda>v. mbr_intersects (view_mbr v) region) (si_views idx))"
    using arg_cong [OF q(3), of size] by simp
  also have "\<dots> = length (filter (\<lambda>v. mbr_intersects (view_mbr v) region) (feature_views oids fs))"
    unfolding assms(4) by (simp flip: mset_filter)
  also have "\<dots> = length (filter (\<lambda>f. mbr_intersects (so_mbr (derived (pf_object f))) region) fs)"
    by (rule feature_views_count [OF assms(3), of "\<lambda>m. mbr_intersects m region"])
  finally show ?thesis using r q(1,2) by (simp add: urbis_index_query_range_def)
qed

lemma stats_bounds: "us_bounds (urbis_index_get_stats idx) = urbis_index_bounds idx"
  by (simp add: urbis_index_bounds_def urbis_index_get_stats_def spatial_index_stats_def Let_def split: prod.split)

lemma map_queries_out:
  "\<exists>st' v. map_queries env idx st = (0, st') \<and> cl_err st' = cl_err st \<and>
    cl_out st' = cl_out st @ map_statistics (urbis_index_get_stats idx) @
      map_range_query (de_cli env) (de_ticks env) 4 idx (urbis_index_bounds idx) @ v"
proof -
  obtain text1 idx1 where "map_adjacent_pages (de_cli env) idx (urbis_index_bounds idx) = (text1, idx1)" by fastforce
  then show ?thesis
    by (intro exI [of _ "snd (map_queries env idx st)"] exI [of _ "text1 @ map_knn_query (de_cli env) idx1 (urbis_index_bounds idx)"])
      (simp add: map_queries_def Let_def stats_bounds put_out_def destroy_index_def)
qed

text \<open>
  The report of the map demonstration.  Let a file parse to features whose rectangles and centroids
  are no NaNs.  On a machine where nothing fails the program ends with 0 and an empty standard error; it
  prints the statistics of an index with as many objects as the file has features, and the report of a
  range query of the inner half of the bounds of that index, which finds exactly the features whose
  rectangle meets it.
\<close>

theorem map_main_reports:
  assumes "sound_env (de_cli env)" "fs_files (cl_files st) (map_path args) = Some bytes" "bytes \<noteq> []"
    "geojson_parse_string malloc_ok (text_of_bytes bytes) = Some (PARSE_OK, fc)" "list_all feature_num (fc_features fc)"
  shows "\<exists>st' idx u v. map_main env args st = Some (0, st') \<and> cl_err st' = cl_err st \<and>
    cl_out st' = u @ map_statistics (urbis_index_get_stats idx) @
      map_range_query (de_cli env) (de_ticks env) 4 idx (urbis_index_bounds idx) @ v \<and>
    us_total_objects (urbis_index_get_stats idx) = length (fc_features fc) \<and>
    (let region = inner_region (urbis_index_bounds idx) d_0_25 d_0_75 in mbr_num region \<longrightarrow>
      (\<exists>list. urbis_index_query_range malloc_ok idx region = Inr list \<and>
        length (ol_objects list) = length (filter (\<lambda>f. mbr_intersects (so_mbr (derived (pf_object f))) region) (fc_features fc))))"
proof -
  let ?cli = "de_cli env"
  have e: "ce_alloc ?cli = malloc_ok" "ce_device ?cli = working_device" using assms(1) by (simp_all add: sound_env_def)
  obtain idx idx1 idx2 oids where l: "urbis_index_create malloc_ok (ce_heap ?cli) (Some map_config) = Inr idx"
    "urbis_index_load_geojson malloc_ok working_device (cl_files st) idx (map_path args) = Some (URBIS_OK, idx1, Some (length (fc_features fc)))"
    "urbis_index_build (ce_qsort ?cli) malloc_ok idx1 = (URBIS_OK, idx2)" "si_reach (ce_qsort ?cli) idx2"
    "length oids = length (fc_features fc)" "si_views idx2 = mset (feature_views oids (fc_features fc))"
    using load_and_build [OF assms] by blast
  have "\<exists>st1. map_main env args st = Some (map_queries env idx2 st1) \<and> cl_err st1 = cl_err st"
    unfolding map_main_def Let_def e by (simp add: l(1-3) put_out_def) (rule exI, rule conjI [OF refl], simp)
  then obtain st1 where run: "map_main env args st = Some (map_queries env idx2 st1)" "cl_err st1 = cl_err st" by blast
  obtain st' v where q: "map_queries env idx2 st1 = (0, st')" "cl_err st' = cl_err st1"
    "cl_out st' = cl_out st1 @ map_statistics (urbis_index_get_stats idx2) @
      map_range_query (de_cli env) (de_ticks env) 4 idx2 (urbis_index_bounds idx2) @ v"
    using map_queries_out by blast
  have "us_total_objects (urbis_index_get_stats idx2) = length (fc_features fc)"
    using urbis_count [of idx2] l(5) by (simp add: urbis_index_count_def l(6) feature_views_def)
  then show ?thesis
    using run q found_in_region [OF l(4) _ l(5,6)] unfolding Let_def
    by (intro exI [of _ st'] exI [of _ idx2] exI [of _ "cl_out st1"] exI [of _ v]) simp
qed

text \<open>The sample machine, with a clock that stands still.\<close>

definition sample_demo_env :: DemoEnv where
  "sample_demo_env = \<lparr>de_cli = sample_env, de_rand = (\<lambda>seed n. n), de_ticks = (\<lambda>t. 0)\<rparr>"

theorem map_main_reports_witness:
  "\<exists>st' idx u v. map_main sample_demo_env [''p.json''] sample_shell = Some (0, st') \<and> cl_err st' = [] \<and>
    cl_out st' = u @ map_statistics (urbis_index_get_stats idx) @ v \<and> us_total_objects (urbis_index_get_stats idx) = 1"
proof -
  obtain fc where fc: "geojson_parse_string malloc_ok (text_of_bytes (bytes_of_text point_text)) = Some (PARSE_OK, fc)"
    "length (fc_features fc) = 1" "list_all feature_num (fc_features fc)" using sample_file by blast
  have env: "sound_env (de_cli sample_demo_env)" using sample_env_sound by (simp add: sample_demo_env_def)
  have path: "fs_files (cl_files sample_shell) (map_path [''p.json'']) = Some (bytes_of_text point_text)"
    using sample_bytes(1) by (simp add: map_path_def)
  have "cl_err sample_shell = []" by (simp add: sample_shell_def)
  with map_main_reports [OF env path sample_bytes(2) fc(1,3)] fc(2) show ?thesis by auto
qed

end
