(* ===== verification/Float64_Eval.thy ===== *)
theory Float64_Eval
  imports Geometry_Exact CityDemo
begin

text \<open>
  Evaluation of the arithmetic by rewriting: \<open>dy k\<close> is the double \<open>k / 16\<close>, and as long as the results are of
  that form and small, the operations on such doubles are operations on the integers \<open>k\<close>.
\<close>

named_theorems dyadic "arithmetic on small multiples of 1/16"

definition dy :: "int \<Rightarrow> double" where
  "dy k = fdiv (double_of_int k) (double_of_int 16)"

definition fits :: "int \<Rightarrow> bool" where
  "fits n = (\<bar>n\<bar> \<le> 2 ^ 52)"

lemma fits_small: "fits n \<Longrightarrow> small n"
  by (simp add: fits_def small_def)

subsection \<open>Signs\<close>

lemma dneg_fmul:
  assumes "finite_d a" "finite_d b"
  shows "dneg (fmul a b) \<longleftrightarrow> dneg a \<noteq> dneg b"
  using assms [THEN finite_not_inf] mag_split(2) [OF dmag_bounds(1)] by (simp add: fmul_def)

lemma dneg_fdiv:
  assumes "finite_d a" "finite_d b" "dval b \<noteq> 0"
  shows "dneg (fdiv a b) \<longleftrightarrow> dneg a \<noteq> dneg b"
proof -
  have "dmag b \<noteq> 0" using assms(3) unfolding dval_zero_iff by (simp add: dkey_def split: if_splits)
  moreover have "0 \<le> dman (dmag a) * 2 ^ 108 div dman (dmag b)"
    using mag_split(2) [OF dmag_bounds(1)] by (simp add: div_int_pos_iff)
  ultimately show ?thesis
    using assms(1,2) [THEN finite_not_inf] by (simp add: fdiv_def Let_def)
qed

lemma dneg_zero_sum:
  assumes "finite_d a" "finite_d b" "dval a + dval b = 0"
  shows "dneg (fadd a b) \<longleftrightarrow> dneg a \<and> dneg b"
proof -
  define ea where "ea = dexp (dmag a)"
  define eb where "eb = dexp (dmag b)"
  define e where "e = min ea eb"
  define sa where "sa = (if dneg a then - dman (dmag a) else dman (dmag a))"
  define sb where "sb = (if dneg b then - dman (dmag b) else dman (dmag b))"
  define t where "t = sa * 2 ^ (ea - e) + sb * 2 ^ (eb - e)"
  have f: "fadd a b = (if t = 0 then mk_double (dneg a \<and> dneg b) 0 else mk_double (t < 0) (rnd_mag \<bar>t\<bar> (int e) False))"
    unfolding t_def sa_def sb_def e_def ea_def eb_def fadd_def
    using assms(1,2) [THEN finite_not_inf] by (simp add: Let_def)
  have "sa * 2 ^ (ea - e) * 2 ^ e = dval a"
    unfolding mult.assoc power_add [symmetric] by (simp add: e_def sa_def ea_def dval_def mval_def)
  moreover have "sb * 2 ^ (eb - e) * 2 ^ e = dval b"
    unfolding mult.assoc power_add [symmetric] by (simp add: e_def sb_def eb_def dval_def mval_def)
  ultimately have "t * 2 ^ e = 0" using assms(3) unfolding t_def by (simp add: distrib_right)
  then show ?thesis by (simp add: f mk_double_mag)
qed

lemma dneg_exact: "exact j a k \<Longrightarrow> k \<noteq> 0 \<Longrightarrow> dneg a \<longleftrightarrow> k < 0"
proof -
  assume a: "exact j a k" "k \<noteq> 0"
  have j: "j \<le> 1000" using a(1) by (simp add: exact_def)
  have z: "dkey d_zero = 0" "\<not> isnan d_zero" by simp_all
  have "flt a d_zero \<longleftrightarrow> k < 0" by (rule exact_order(1) [OF a(1) exact_zero [OF j]])
  moreover have "dkey a \<noteq> 0"
    using exact_key_le [OF a(1) exact_zero [OF j]] exact_key_le [OF exact_zero [OF j] a(1)] a(2) z by auto
  moreover have "0 \<le> dmag a" by simp
  ultimately have "dmag a > 0" "flt a d_zero \<longleftrightarrow> k < 0" by (auto simp: dkey_def simp del: dmag_bounds split: if_splits)
  then show ?thesis using exact_num [OF a(1)] z by (auto simp: flt_def dkey_def split: if_splits)
qed

subsection \<open>Integers and multiples of 1/16\<close>

lemma double_of_int_exact: "small n \<Longrightarrow> exact 0 (double_of_int n) n"
  using exact_nat [of "nat n"] exact_neg [OF exact_nat [of "nat (- n)"]]
  by (auto simp: double_of_int_def small_def)

lemma double_of_int_sign: "dneg (double_of_int n) \<longleftrightarrow> n < 0"
  by (simp add: double_of_int_def double_of_nat_def)

lemma dy_exact: "fits k \<Longrightarrow> exact 4 (dy k) k"
  unfolding dy_def
  by (rule exact_div [OF double_of_int_exact double_of_int_exact]) (simp_all add: fits_def small_def)

lemma dy_sign: "fits k \<Longrightarrow> dneg (dy k) \<longleftrightarrow> k < 0"
proof -
  assume k: "fits k"
  have "exact 0 (double_of_int k) k" "exact 0 (double_of_int 16) 16"
    using k by (auto intro: double_of_int_exact simp: fits_def small_def)
  then show ?thesis unfolding dy_def using dneg_fdiv [of "double_of_int k" "double_of_int 16"]
    by (auto simp: exact_def double_of_int_sign)
qed

lemma same_dy:
  assumes "exact 4 a n" "fits n" "n = 0 \<Longrightarrow> \<not> dneg a"
  shows "a = dy n"
proof (rule exact_same [OF assms(1) dy_exact [OF assms(2)]])
  show "dneg a \<longleftrightarrow> dneg (dy n)"
    using assms(3) dneg_exact [OF assms(1)] dy_sign [OF assms(2)] by (cases "n = 0") simp_all
qed

lemma int_dy [dyadic]: "fits (16 * n) \<Longrightarrow> double_of_int n = dy (16 * n)"
proof (rule same_dy)
  assume n: "fits (16 * n)"
  then have "exact 0 (double_of_int n) n" by (intro double_of_int_exact) (simp add: fits_def small_def)
  from exact_refine [OF this, of 4] show "exact 4 (double_of_int n) (16 * n)" by (simp add: mult.commute)
qed (simp_all add: double_of_int_sign)

lemma nat_dy [dyadic]: "double_of_nat n = double_of_int (int n)"
  by (simp add: double_of_int_def)

lemma zero_dy [dyadic]: "d_zero = dy 0"
proof (rule same_dy)
  show "\<not> dneg d_zero" by code_simp
qed (simp_all add: fits_def)

lemma two_dy [dyadic]: "d_two = dy 32"
  using exact_two [of 4] by (intro same_dy) (simp_all add: fits_def)

lemma order_dy [dyadic]:
  assumes "fits m" "fits n"
  shows "flt (dy m) (dy n) \<longleftrightarrow> m < n" "fle (dy m) (dy n) \<longleftrightarrow> m \<le> n" "fgt (dy m) (dy n) \<longleftrightarrow> n < m" "fge (dy m) (dy n) \<longleftrightarrow> n \<le> m"
  by (simp_all only: exact_order [OF dy_exact [OF assms(1)] dy_exact [OF assms(2)]])

lemma add_dy [dyadic]:
  assumes "fits m" "fits n" "fits (m + n)"
  shows "fadd (dy m) (dy n) = dy (m + n)"
proof (rule same_dy [OF _ assms(3)])
  note e = dy_exact [OF assms(1)] dy_exact [OF assms(2)]
  show "exact 4 (fadd (dy m) (dy n)) (m + n)" by (rule exact_add [OF e fits_small [OF assms(3)]])
  show "\<not> dneg (fadd (dy m) (dy n))" if "m + n = 0"
  proof -
    have n: "n = - m" using that by simp
    have "dval (dy m) + dval (dy n) = 0" using e by (simp add: exact_def n)
    then show ?thesis
      using dneg_zero_sum [OF exact_finite [OF e(1)] exact_finite [OF e(2)]] dy_sign [OF assms(1)] dy_sign [OF assms(2)] by (simp add: n)
  qed
qed

lemma sub_dy [dyadic]:
  assumes "fits m" "fits n" "fits (m - n)"
  shows "fsub (dy m) (dy n) = dy (m - n)"
proof (rule same_dy [OF _ assms(3)])
  note e = dy_exact [OF assms(1)] dy_exact [OF assms(2)]
  show "exact 4 (fsub (dy m) (dy n)) (m - n)" by (rule exact_sub [OF e fits_small [OF assms(3)]])
  show "\<not> dneg (fsub (dy m) (dy n))" if "m - n = 0"
  proof -
    have n: "n = m" using that by simp
    have "dval (dy m) + dval (fneg (dy n)) = 0" by (simp add: n)
    then show ?thesis unfolding fsub_def
      using dneg_zero_sum [OF exact_finite [OF e(1)] exact_finite [OF exact_neg [OF e(2)]]] dy_sign [OF assms(1)] by (simp add: n)
  qed
qed

lemma mul_dy [dyadic]:
  assumes "fits m" "fits n" "m * n mod 16 = 0" "fits (m * n)" "(m < 0) \<noteq> (n < 0) \<longleftrightarrow> m * n < 0"
  shows "fmul (dy m) (dy n) = dy (m * n div 16)"
proof -
  note e = dy_exact [OF assms(1)] dy_exact [OF assms(2)]
  obtain q where q: "m * n = 16 * q" using assms(3) by (auto elim: dvdE simp: mod_0_imp_dvd)
  have f: "fits q" using assms(4) by (simp add: fits_def q)
  have "exact 8 (fmul (dy m) (dy n)) (m * n)" using exact_mul [OF e fits_small [OF assms(4)]] by simp
  moreover have "exact 8 (dy q) (m * n)" using exact_refine [OF dy_exact [OF f], of 4] by (simp add: q mult.commute)
  moreover have "dneg (fmul (dy m) (dy n)) \<longleftrightarrow> dneg (dy q)"
    using dneg_fmul [OF exact_finite [OF e(1)] exact_finite [OF e(2)]] dy_sign [OF assms(1)] dy_sign [OF assms(2)] dy_sign [OF f]
      assms(5) q by auto
  ultimately show ?thesis using exact_same q by fastforce
qed

lemma div_dy [dyadic]:
  assumes "fits m" "fits n" "n \<noteq> 0" "16 * m mod n = 0" "fits (16 * m div n)" "(m < 0) \<noteq> (n < 0) \<longleftrightarrow> 16 * m div n < 0"
  shows "fdiv (dy m) (dy n) = dy (16 * m div n)"
proof (rule exact_same [OF exact_div [OF dy_exact [OF assms(1)] dy_exact [OF assms(2)] assms(3)] dy_exact [OF assms(5)]])
  show "2 ^ 4 * m = 16 * m div n * n" using assms(4) by (simp add: mod_0_imp_dvd)
  note e = dy_exact [OF assms(1)] dy_exact [OF assms(2)]
  have "dval (dy n) \<noteq> 0" using e(2) assms(3) by (simp add: exact_def)
  from dneg_fdiv [OF exact_finite [OF e(1)] exact_finite [OF e(2)] this]
  show "dneg (fdiv (dy m) (dy n)) = dneg (dy (16 * m div n))"
    using dy_sign [OF assms(1)] dy_sign [OF assms(2)] dy_sign [OF assms(5)] assms(6) by simp
qed (simp_all add: fits_small [OF assms(5)])

lemma abs_dy [dyadic]: "fits n \<Longrightarrow> fabs (dy n) = dy \<bar>n\<bar>"
  by (rule same_dy) (use exact_abs [OF dy_exact, of n] in \<open>simp_all add: fits_def fabs_def mk_double_mag [OF dmag_bounds]\<close>)

subsection \<open>Other doubles of the code\<close>

definition large :: double where "large = Dbl 0x4310000000000000"

lemma large_exact: "exact 4 large (2 ^ 54)"
proof -
  have d: "finite_d large" "dval large = 2 ^ 52 * 2 ^ 1072"
    by (simp_all add: large_def finite_d_def inf_mag_def dval_def dneg_def dmag_def mval_def dman_def dexp_def)
  have "(2::int) ^ 52 * 2 ^ 1072 = 2 ^ 54 * 2 ^ (1074 - 4)" unfolding power_add [symmetric] by (rule arg_cong [where f = "(^) 2"]) simp
  then show ?thesis using d(1) unfolding exact_def d(2) unit_of_def by simp
qed

lemma max_order [dyadic]: "fgt DBL_MAX NEG_DBL_MAX"
  by code_simp

lemma large_max: "flt large DBL_MAX" "flt NEG_DBL_MAX (fneg large)"
  by code_simp+

lemma max_dy [dyadic]:
  assumes "fits n"
  shows "flt (dy n) DBL_MAX" "flt (dy n) NEG_DBL_MAX = False" "fgt (dy n) DBL_MAX = False" "fgt (dy n) NEG_DBL_MAX"
proof -
  have f: "- (2 ^ 54) \<le> n" "n \<le> 2 ^ 54" using assms by (auto simp: fits_def)
  then have "fle (dy n) large" "fle (fneg large) (dy n)"
    using exact_order(2) [OF dy_exact [OF assms] large_exact] exact_order(2) [OF exact_neg [OF large_exact] dy_exact [OF assms]]
    by linarith+
  with large_max show "flt (dy n) DBL_MAX" "flt (dy n) NEG_DBL_MAX = False" "fgt (dy n) DBL_MAX = False"
    "fgt (dy n) NEG_DBL_MAX"
    by (auto simp: flt_def fle_def fgt_def)
qed

lemma epsilon_dy:
  assumes "fits n" "flt e (double_of_int 1)" "flt (double_of_int 0) e"
  shows "16 \<le> n \<Longrightarrow> flt (dy n) e = False" "n \<le> 0 \<Longrightarrow> flt (dy n) e"
proof -
  have f: "fits 0" "fits 16" by (simp_all add: fits_def)
  have e: "flt e (dy 16)" "flt (dy 0) e" using assms(2,3) by (simp_all add: int_dy fits_def)
  show "flt (dy n) e = False" if "16 \<le> n"
    using that e order_dy(2) [OF f(2) assms(1)] by (auto simp: flt_def fle_def)
  show "flt (dy n) e" if "n \<le> 0"
    using that e order_dy(2) [OF assms(1) f(1)] by (auto simp: flt_def fle_def)
qed

lemma epsilons: "flt d_1e_6 (double_of_int 1)" "flt (double_of_int 0) d_1e_6" "flt d_1e_10 (double_of_int 1)" "flt (double_of_int 0) d_1e_10"
  by code_simp+

lemmas tiny_dy [dyadic] = epsilon_dy [OF _ epsilons(1,2)] epsilon_dy [OF _ epsilons(3,4)]

end
