(* ===== verification/TestSuite.thy ===== *)
theory TestSuite
  imports CityDemo KDTree_Inv
begin

text \<open>
  Unit tests of the repository (test_geometry.c, test_kdtree.c and test_quadtree.c in src/tests), on the model.

  A test is a truth value: that all assertions of the C function of this name hold.  The allocator of the tests
  never fails and \<open>qsort\<close> is an insertion sort.  \<open>TestSuite_Props\<close> shows that the tests pass.
\<close>

text \<open>The macro \<open>ASSERT_NEAR\<close>, and points and rectangles of integers.\<close>

definition near :: "double \<Rightarrow> double \<Rightarrow> bool" where
  "near a b = flt (fabs (fsub a b)) d_1e_6"

definition pt :: "int \<Rightarrow> int \<Rightarrow> Point" where
  "pt x y = point_create (double_of_int x) (double_of_int y)"

definition half :: "int \<Rightarrow> double" where
  "half n = fdiv (double_of_int n) d_two"

definition box :: "int \<Rightarrow> int \<Rightarrow> int \<Rightarrow> int \<Rightarrow> MBR" where
  "box a b c d = mbr_create (double_of_int a) (double_of_int b) (double_of_int c) (double_of_int d)"

definition is_box :: "MBR \<Rightarrow> int \<Rightarrow> int \<Rightarrow> int \<Rightarrow> int \<Rightarrow> bool" where
  "is_box m a b c d = (near (min_x m) (double_of_int a) \<and> near (min_y m) (double_of_int b) \<and>
     near (max_x m) (double_of_int c) \<and> near (max_y m) (double_of_int d))"

definition is_at :: "Point \<Rightarrow> int \<Rightarrow> int \<Rightarrow> bool" where
  "is_at p x y = (near (px p) (double_of_int x) \<and> near (py p) (double_of_int y))"

subsection \<open>test_geometry.c\<close>

definition test_point_create :: bool where
  "test_point_create =
     (let x = double_of_ratio 105 10; y = double_of_ratio 203 10; p = point_create x y in near (px p) x \<and> near (py p) y)"

definition test_point_distance :: bool where
  "test_point_distance = near (point_distance (pt 0 0) (pt 3 4)) (double_of_int 5)"

definition test_point_distance_sq :: bool where
  "test_point_distance_sq = near (point_distance_sq (pt 0 0) (pt 3 4)) (double_of_int 25)"

definition test_point_equals :: bool where
  "test_point_equals =
     (let e = double_of_ratio 1 (10 ^ 12); a = pt 10 20;
          b = point_create (fadd (double_of_int 10) e) (fsub (double_of_int 20) e);
          c = point_create (double_of_ratio 101 10) (double_of_int 20)
      in point_equals a b d_1e_6 \<and> \<not> point_equals a c d_1e_6)"

definition line_of :: "Point list \<Rightarrow> LineString" where
  "line_of ps = fold (\<lambda>p l. snd (linestring_add_point malloc_ok l p)) ps (snd (linestring_init malloc_ok 4))"

definition test_linestring_init :: bool where
  "test_linestring_init =
     (case linestring_init malloc_ok 16 of (err, ls) \<Rightarrow> err = GEOM_OK \<and> ls_capacity ls \<ge> 16 \<and> length (ls_points ls) = 0)"

definition test_linestring_add_point :: bool where
  "test_linestring_add_point =
     (let ps = ls_points (line_of [pt 0 0, pt 1 1, pt 2 0]) in
      length ps = 3 \<and> near (px (ps ! 0)) (double_of_int 0) \<and> near (px (ps ! 1)) (double_of_int 1) \<and> near (px (ps ! 2)) (double_of_int 2))"

definition test_linestring_centroid :: bool where
  "test_linestring_centroid =
     (case linestring_centroid (line_of [pt 0 0, pt 10 0]) of Inl err \<Rightarrow> False | Inr c \<Rightarrow> is_at c 5 0)"

definition test_linestring_mbr :: bool where
  "test_linestring_mbr =
     (case linestring_mbr (line_of [pt (- 5) 10, pt 15 (- 3), pt 8 20]) of Inl err \<Rightarrow> False | Inr m \<Rightarrow> is_box m (- 5) (- 3) 15 20)"

definition test_linestring_length :: bool where
  "test_linestring_length = near (linestring_length (line_of [pt 0 0, pt 3 4, pt 6 0])) (double_of_int 10)"

definition ring_of :: "nat \<Rightarrow> Point list \<Rightarrow> Polygon" where
  "ring_of n ps = fold (\<lambda>p q. snd (polygon_add_exterior_point malloc_ok q p)) ps (snd (polygon_init malloc_ok n))"

definition square :: "Point list" where
  "square = [pt 0 0, pt 10 0, pt 10 10, pt 0 10, pt 0 0]"

definition test_polygon_init :: bool where
  "test_polygon_init = (case polygon_init malloc_ok 16 of (err, q) \<Rightarrow> err = GEOM_OK \<and> ext_capacity q \<ge> 16)"

definition test_polygon_add_exterior :: bool where
  "test_polygon_add_exterior = (length (exterior (ring_of 4 square)) = 5)"

definition test_polygon_centroid :: bool where
  "test_polygon_centroid = (case polygon_centroid (ring_of 5 square) of Inl err \<Rightarrow> False | Inr c \<Rightarrow> is_at c 5 5)"

definition test_polygon_area :: bool where
  "test_polygon_area = near (polygon_area (ring_of 5 square)) (double_of_int 100)"

definition test_polygon_add_hole :: bool where
  "test_polygon_add_hole =
     (case polygon_add_hole malloc_ok (ring_of 5 square) 5 of (err, q) \<Rightarrow>
        let q' = fold (\<lambda>p q. snd (polygon_add_hole_point malloc_ok q 0 p)) [pt 2 2, pt 8 2, pt 8 8, pt 2 8, pt 2 2] q in
        err = GEOM_OK \<and> length (holes q') = 1 \<and> length (r_points (holes q' ! 0)) = 5 \<and> near (polygon_area q') (double_of_int 64))"

definition test_mbr_create :: bool where
  "test_mbr_create = is_box (box 0 0 10 10) 0 0 10 10"

definition test_mbr_empty :: bool where
  "test_mbr_empty = mbr_is_empty mbr_empty"

definition test_mbr_expand_point :: bool where
  "test_mbr_expand_point = is_box (mbr_expand_point (mbr_expand_point mbr_empty (pt 5 5)) (pt (- 3) 10)) (- 3) 5 5 10"

definition test_mbr_intersects :: bool where
  "test_mbr_intersects = (mbr_intersects (box 0 0 10 10) (box 5 5 15 15) \<and> \<not> mbr_intersects (box 0 0 10 10) (box 20 20 30 30))"

definition test_mbr_contains_point :: bool where
  "test_mbr_contains_point = (mbr_contains_point (box 0 0 10 10) (pt 5 5) \<and> \<not> mbr_contains_point (box 0 0 10 10) (pt 15 5))"

definition test_mbr_centroid :: bool where
  "test_mbr_centroid = is_at (mbr_centroid (box 0 0 10 20)) 5 10"

definition test_mbr_area :: bool where
  "test_mbr_area = near (mbr_area (box 0 0 10 20)) (double_of_int 200)"

definition test_spatial_object_point :: bool where
  "test_spatial_object_point =
     (case spatial_object_init_point 42 (pt 5 10) of (err, obj) \<Rightarrow>
        err = GEOM_OK \<and> so_id obj = 42 \<and> so_type obj = GEOM_POINT \<and> is_at (so_centroid obj) 5 10)"

definition test_spatial_object_linestring :: bool where
  "test_spatial_object_linestring =
     (case spatial_object_init_linestring malloc_ok 100 4 of (err, obj) \<Rightarrow>
        err = GEOM_OK \<and>
        (case so_geom obj of
           G_line l \<Rightarrow>
             (case spatial_object_update_derived (obj\<lparr>so_geom :=
                  G_line (fold (\<lambda>p l. snd (linestring_add_point malloc_ok l p)) [pt 0 0, pt 10 10] l)\<rparr>) of
                (err2, obj2) \<Rightarrow> err2 = GEOM_OK \<and> is_at (so_centroid obj2) 5 5)
         | _ \<Rightarrow> False))"

definition test_spatial_object_copy :: bool where
  "test_spatial_object_copy =
     (case spatial_object_copy malloc_ok (snd (spatial_object_init_point 99 (pt 7 8))) of (err, dest) \<Rightarrow>
        err = GEOM_OK \<and> so_id dest = 99 \<and> is_at (so_centroid dest) 7 8)"

subsection \<open>test_kdtree.c\<close>

definition kd_of :: "(Point \<times> 64 word) list \<Rightarrow> unit KDTree" where
  "kd_of xs = fold (\<lambda>(p, i) t. snd (kdtree_insert malloc_ok t p i ())) xs kdtree_init"

definition five :: "(Point \<times> 64 word) list" where
  "five = [(pt 5 5, 1), (pt 2 3, 2), (pt 8 7, 3), (pt 1 1, 4), (pt 9 9, 5)]"

definition test_kdtree_init :: bool where
  "test_kdtree_init = (kt_root (kdtree_init :: unit KDTree) = KNull \<and> kt_size (kdtree_init :: unit KDTree) = 0)"

definition test_kdtree_insert :: bool where
  "test_kdtree_insert =
     (case kdtree_insert malloc_ok kdtree_init (pt 5 5) 1 () of (err1, t1) \<Rightarrow>
      case kdtree_insert malloc_ok t1 (pt 2 3) 2 () of (err2, t2) \<Rightarrow>
      case kdtree_insert malloc_ok t2 (pt 8 7) 3 () of (err3, t3) \<Rightarrow>
        err1 = KD_OK \<and> kt_size t1 = 1 \<and> err2 = KD_OK \<and> kt_size t2 = 2 \<and> err3 = KD_OK \<and> kt_size t3 = 3)"

definition test_kdtree_bulk_load :: bool where
  "test_kdtree_bulk_load =
     (case kdtree_bulk_load isort_by malloc_ok kdtree_init
        (map (\<lambda>(p, i). \<lparr>pd_point = p, pd_id = i, pd_data = ()\<rparr>) (five @ [(pt 4 6, 6), (pt 7 2, 7)])) of
        (err, t) \<Rightarrow> err = KD_OK \<and> kt_size t = 7 \<and> kdtree_is_balanced t)"

definition test_kdtree_nearest :: bool where
  "test_kdtree_nearest =
     (case kdtree_nearest (kd_of five) (point_create (half 5) (half 7)) of
        Inl err \<Rightarrow> False | Inr (p, i, d) \<Rightarrow> i = 2 \<and> is_at p 2 3)"

definition test_kdtree_range_query :: bool where
  "test_kdtree_range_query =
     (case kdtree_range_query malloc_ok (kd_of five) (box 0 0 6 6) (snd (kdresult_init malloc_ok 16)) of
        (err, res) \<Rightarrow> err = KD_OK \<and> length (kr_entries res) = 3)"

definition test_kdtree_radius_query :: bool where
  "test_kdtree_radius_query =
     (case kdtree_radius_query malloc_ok (kd_of [(pt 0 0, 1), (pt 1 0, 2), (pt 0 1, 3), (pt 10 10, 4)]) (pt 0 0) (half 3)
        (snd (kdresult_init malloc_ok 16)) of
        (err, res) \<Rightarrow> err = KD_OK \<and> length (kr_entries res) = 3)"

definition test_kdtree_k_nearest :: bool where
  "test_kdtree_k_nearest =
     (case kdtree_k_nearest malloc_ok (kd_of [(pt 0 0, 1), (pt 1 1, 2), (pt 2 2, 3), (pt 10 10, 4), (pt 20 20, 5)])
        (point_create (half 1) (half 1)) 2 (snd (kdresult_init malloc_ok 16)) of
        (err, res) \<Rightarrow> err = KD_OK \<and> length (kr_entries res) = 2)"

definition test_kdtree_depth :: bool where
  "test_kdtree_depth =
     (kdtree_depth (kd_of []) = 0 \<and> kdtree_depth (kd_of (take 1 five)) = 1 \<and> kdtree_depth (kd_of (take 3 five)) \<ge> 2)"

definition test_kdresult_operations :: bool where
  "test_kdresult_operations =
     (case kdresult_init malloc_ok 4 of (err, r0) \<Rightarrow>
        let r2 = snd (kdresult_add malloc_ok (snd (kdresult_add malloc_ok r0 (pt 1 1) 1 ())) (pt 2 2) 2 ());
            r3 = kdresult_clear r2
        in err = KD_OK \<and> length (kr_entries r2) = 2 \<and> length (kr_entries r3) = 0 \<and> kr_capacity r3 \<ge> 4)"

subsection \<open>test_quadtree.c\<close>

definition qt_of :: "nat \<Rightarrow> (64 word \<times> MBR) list \<Rightarrow> unit QuadTree" where
  "qt_of cap items = fold (\<lambda>(i, m) q. snd (quadtree_insert malloc_ok q i m ())) items (the (quadtree_create malloc_ok (box 0 0 100 100) cap 10))"

definition qt_result :: "unit QTQueryResult" where
  "qt_result = snd (qtresult_init malloc_ok 16)"

definition test_quadtree_create :: bool where
  "test_quadtree_create =
     (case quadtree_create malloc_ok (box 0 0 100 100) 4 10 of
        None \<Rightarrow> False | Some q \<Rightarrow> qt_total_items (q :: unit QuadTree) = 0 \<and> qt_root q \<noteq> QTNull)"

definition test_quadtree_insert :: bool where
  "test_quadtree_insert =
     (case quadtree_insert malloc_ok (qt_of 4 []) 1 (box 10 10 20 20) () of (err1, q1) \<Rightarrow>
      case quadtree_insert malloc_ok q1 2 (box 50 50 60 60) () of (err2, q2) \<Rightarrow>
        err1 = QT_OK \<and> qt_total_items q1 = 1 \<and> err2 = QT_OK \<and> qt_total_items q2 = 2)"

definition test_quadtree_query_range :: bool where
  "test_quadtree_query_range =
     (let q = qt_of 4 [(1, box 10 10 20 20), (2, box 60 10 70 20), (3, box 10 60 20 70), (4, box 60 60 70 70)] in
      case quadtree_query_range malloc_ok q (box 0 0 50 50) qt_result of (err1, r1) \<Rightarrow>
      case quadtree_query_range malloc_ok q (box 0 50 100 100) (qtresult_clear r1) of (err2, r2) \<Rightarrow>
        err1 = QT_OK \<and> length (qr_items r1) = 1 \<and> err2 = QT_OK \<and> length (qr_items r2) = 2)"

definition test_quadtree_query_point :: bool where
  "test_quadtree_query_point =
     (let q = qt_of 4 [(1, box 10 10 30 30), (2, box 20 20 40 40), (3, box 60 60 80 80)] in
      case quadtree_query_point malloc_ok q (pt 25 25) qt_result of (err1, r1) \<Rightarrow>
      case quadtree_query_point malloc_ok q (pt 70 70) (qtresult_clear r1) of (err2, r2) \<Rightarrow>
        err1 = QT_OK \<and> length (qr_items r1) = 2 \<and> err2 = QT_OK \<and> length (qr_items r2) = 1)"

definition test_quadtree_remove :: bool where
  "test_quadtree_remove =
     (let q = qt_of 4 [(1, box 10 10 20 20), (2, box 50 50 60 60)] in
      case quadtree_remove q 1 of (err1, q1) \<Rightarrow>
        qt_total_items q = 2 \<and> err1 = QT_OK \<and> qt_total_items q1 = 1 \<and> fst (quadtree_remove q1 99) = QT_ERR_NOT_FOUND)"

definition test_quadtree_get :: bool where
  "test_quadtree_get =
     (case quadtree_insert malloc_ok (the (quadtree_create malloc_ok (box 0 0 100 100) 4 10)) 42 (box 10 10 20 20) (0xDEADBEEF :: nat) of
        (err, q) \<Rightarrow>
          (case quadtree_get q 42 of Inl err \<Rightarrow> False | Inr item \<Rightarrow> qi_id item = 42 \<and> qi_data item = 0xDEADBEEF) \<and>
          (case quadtree_get q 99 of Inl err \<Rightarrow> err = QT_ERR_NOT_FOUND | Inr item \<Rightarrow> False))"

definition test_quadtree_clear :: bool where
  "test_quadtree_clear =
     (let q = qt_of 4 [(1, box 10 10 20 20), (2, box 50 50 60 60)] in
      qt_total_items q = 2 \<and> qt_total_items (quadtree_clear malloc_ok q) = 0)"

definition test_qtresult_operations :: bool where
  "test_qtresult_operations =
     (case qtresult_init malloc_ok 4 of (err, r0) \<Rightarrow>
        let item = (\<lambda>i m. \<lparr>qi_id = i, qi_bounds = m, qi_centroid = pt 0 0, qi_data = ()\<rparr>);
            r2 = snd (qtresult_add malloc_ok (snd (qtresult_add malloc_ok r0 (item 1 (box 0 0 10 10)))) (item 2 (box 20 20 30 30)))
        in err = QT_OK \<and> length (qr_items r2) = 2 \<and> length (qr_items (qtresult_clear r2)) = 0)"

end
