(* ===== verification/TestSuite_Props.thy ===== *)
theory TestSuite_Props
  imports Float64_Eval TestSuite KDTree_Props
begin

text \<open>
  The unit tests pass: each is evaluated by the simplifier, with the code equations of the component and the
  arithmetic of \<open>Float64_Eval\<close>.
\<close>

subsection \<open>Numbers\<close>

lemma near_dy [dyadic]: "fits m \<Longrightarrow> near (dy m) (dy m)"
  by (simp add: near_def dyadic fits_def)

lemma root_25: "fsqrt (double_of_int 25) = double_of_int 5"
  by code_simp

lemma root_100: "fsqrt (double_of_int 100) = double_of_int 10"
  by code_simp

lemma roots [dyadic]: "fsqrt (dy 400) = dy 80" "fsqrt (dy 1600) = dy 160"
  using root_25 root_100 by (simp_all add: int_dy fits_def)

lemma six_dy [dyadic]: "d_six = dy 96"
proof -
  have "d_six = double_of_int 6" by code_simp
  then show ?thesis by (simp add: int_dy fits_def)
qed

text \<open>The length of the diagonal, the only irrational number of the tests.\<close>

definition diagonal :: double where
  "diagonal = Dbl 0x402C48C6001F0AC0"

lemma root_200 [dyadic]: "fsqrt (dy 3200) = diagonal"
proof -
  have "fsqrt (double_of_int 200) = diagonal" by code_simp
  then show ?thesis by (simp add: int_dy fits_def)
qed

lemma diagonal_sum [dyadic]: "fadd (dy 0) diagonal = diagonal"
proof -
  have "fadd d_zero diagonal = diagonal" by code_simp
  then show ?thesis by (simp add: zero_dy)
qed

lemma diagonal_long [dyadic]: "flt diagonal d_1e_10 = False"
  by code_simp

definition five_diagonals :: double where
  "five_diagonals = Dbl 0x4051AD7BC01366B8"

lemma diagonal_product [dyadic]: "fmul (dy 80) diagonal = five_diagonals" "fadd (dy 0) five_diagonals = five_diagonals"
  "fdiv five_diagonals diagonal = dy 80"
proof -
  have "fmul (double_of_int 5) diagonal = five_diagonals" by code_simp
  then show "fmul (dy 80) diagonal = five_diagonals" by (simp add: int_dy fits_def)
  have "fadd d_zero five_diagonals = five_diagonals" by code_simp
  then show "fadd (dy 0) five_diagonals = five_diagonals" by (simp add: zero_dy)
  have "fdiv five_diagonals diagonal = double_of_int 5" by code_simp
  then show "fdiv five_diagonals diagonal = dy 80" by (simp add: int_dy fits_def)
qed

subsection \<open>test_geometry.c\<close>

lemmas geometry_code =
  so_type_def sizeof_Point_def sizeof_ptr_def point_create_def point_distance_sq_def point_distance_def
  point_equals_def mbr_create_def mbr_empty_def mbr_is_empty_def mbr_expand_point_def mbr_expand_mbr_def
  mbr_intersects_def mbr_contains_point_def mbr_contains_mbr_def mbr_centroid_def mbr_area_def mbr_intersection_def
  mbr_union_def linestring_init_def linestring_free_def linestring_add_point_def linestring_segment_def
  linestring_centroid_def linestring_mbr_def linestring_length_def linestring_copy_def zero_polygon_def
  polygon_init_def polygon_free_def polygon_add_exterior_point_def polygon_grow_holes_def polygon_add_hole_def
  polygon_add_hole_point_def ring_signed_area_def ring_centroid_def polygon_centroid_def polygon_mbr_def
  polygon_area_def polygon_is_clockwise_def polygon_copy_def zero_point_def zero_mbr_def zero_linestring_def
  zero_object_def spatial_object_init_point_def spatial_object_init_linestring_def spatial_object_init_polygon_def
  spatial_object_free_def spatial_object_update_derived_def spatial_object_set_properties_def geom_copy_def
  spatial_object_copy_def geom_type.simps polygon_copy_holes.simps

lemmas test_simps =
  is_box_def is_at_def pt_def box_def half_def line_of_def ring_of_def square_def malloc_ok_simp Let_def upt_rec
  GROWTH_FACTOR_def remove_at_def find_index.simps

lemma test_point_create: test_point_create
  by code_simp

lemma test_point_distance: test_point_distance
  by (simp add: test_point_distance_def test_simps geometry_code dyadic fits_def)

lemma test_point_distance_sq: test_point_distance_sq
  by (simp add: test_point_distance_sq_def test_simps geometry_code dyadic fits_def)

lemma test_point_equals: test_point_equals
  by code_simp

lemma test_linestring_init: test_linestring_init
  by (simp add: test_linestring_init_def test_simps geometry_code dyadic fits_def)

lemma test_linestring_add_point: test_linestring_add_point
  by (simp add: test_linestring_add_point_def test_simps geometry_code dyadic fits_def)

lemma test_linestring_centroid: test_linestring_centroid
  by (simp add: test_linestring_centroid_def test_simps geometry_code dyadic fits_def)

lemma test_linestring_mbr: test_linestring_mbr
  by (simp add: test_linestring_mbr_def test_simps geometry_code dyadic fits_def)

lemma test_linestring_length: test_linestring_length
  by (simp add: test_linestring_length_def test_simps geometry_code dyadic fits_def)

lemma test_polygon_init: test_polygon_init
  by (simp add: test_polygon_init_def test_simps geometry_code dyadic fits_def)

lemma test_polygon_add_exterior: test_polygon_add_exterior
  by (simp add: test_polygon_add_exterior_def test_simps geometry_code dyadic fits_def)

lemma test_polygon_centroid: test_polygon_centroid
  by (simp add: test_polygon_centroid_def test_simps geometry_code dyadic fits_def)

lemma test_polygon_area: test_polygon_area
  by (simp add: test_polygon_area_def test_simps geometry_code dyadic fits_def)

lemma test_polygon_add_hole: test_polygon_add_hole
  by (simp add: test_polygon_add_hole_def test_simps geometry_code dyadic fits_def)

lemma test_mbr_create: test_mbr_create
  by (simp add: test_mbr_create_def test_simps geometry_code dyadic fits_def)

lemma test_mbr_empty: test_mbr_empty
  by (simp add: test_mbr_empty_def test_simps geometry_code dyadic fits_def)

lemma test_mbr_expand_point: test_mbr_expand_point
  by (simp add: test_mbr_expand_point_def test_simps geometry_code dyadic fits_def)

lemma test_mbr_intersects: test_mbr_intersects
  by (simp add: test_mbr_intersects_def test_simps geometry_code dyadic fits_def)

lemma test_mbr_contains_point: test_mbr_contains_point
  by (simp add: test_mbr_contains_point_def test_simps geometry_code dyadic fits_def)

lemma test_mbr_centroid: test_mbr_centroid
  by (simp add: test_mbr_centroid_def test_simps geometry_code dyadic fits_def)

lemma test_mbr_area: test_mbr_area
  by (simp add: test_mbr_area_def test_simps geometry_code dyadic fits_def)

lemma test_spatial_object_point: test_spatial_object_point
  by (simp add: test_spatial_object_point_def test_simps geometry_code dyadic fits_def)

lemma test_spatial_object_linestring: test_spatial_object_linestring
  by (simp add: test_spatial_object_linestring_def test_simps geometry_code dyadic fits_def)

lemma test_spatial_object_copy: test_spatial_object_copy
  by (simp add: test_spatial_object_copy_def test_simps geometry_code dyadic fits_def)

subsection \<open>test_kdtree.c\<close>

lemmas kdtree_code =
  sizeof_KDNode_def sizeof_KDPointData_def sizeof_MBR_def sizeof_u64_def sizeof_DistEntry_def compare_by_x_def
  compare_by_y_def kdresult_init_def kdresult_free_def kdresult_clear_def kdresult_add_def kdnode_create_def
  kdnode_update_bounds_def kd_coord_def kdtree_init_def kdtree_free_def kdtree_insert_def kdtree_bulk_load_def
  kdtree_nearest_def kdtree_range_query_def min_dist_index_def select_step_def kdtree_k_nearest_def
  kdtree_radius_query_def kdtree_find_leaf_def kdtree_partition_def kdtree_depth_def ceil_log2_def
  kdtree_is_balanced_def build_tree_recursive.simps insert_recursive.simps nearest_recursive.simps
  range_query_recursive.simps find_leaf_loop.simps collect_leaf_bounds.simps depth_recursive.simps

lemma test_kdtree_init: test_kdtree_init
  by (simp add: test_kdtree_init_def kd_of_def five_def kdtree_code test_simps geometry_code dyadic fits_def)

lemma test_kdtree_insert: test_kdtree_insert
  by (simp add: test_kdtree_insert_def kd_of_def five_def kdtree_code test_simps geometry_code dyadic fits_def)

text \<open>The bulk load is not evaluated: its result is what \<open>bulk_load_balanced\<close> says.\<close>

lemma test_kdtree_bulk_load: test_kdtree_bulk_load
proof -
  define points :: "unit KDPointData list" where
    "points = map (\<lambda>(p, i). \<lparr>pd_point = p, pd_id = i, pd_data = ()\<rparr>) (five @ [(pt 4 6, 6), (pt 7 2, 7)])"
  have len: "length points = 7" by (simp add: points_def five_def)
  have "\<not> isnan (double_of_int n)" if "small n" for n using exact_num [OF double_of_int_exact [OF that]] .
  then have "\<forall>e \<in> set points. pt_num (pd_point e)"
    by (auto simp: points_def five_def pt_def point_create_def pt_num_def small_def)
  moreover have "points \<noteq> []" using len by auto
  ultimately have b: "fst (kdtree_bulk_load isort_by malloc_ok kdtree_init points) = KD_OK"
    "kdtree_inv (snd (kdtree_bulk_load isort_by malloc_ok kdtree_init points))"
    "mset (kd_entries (kt_root (snd (kdtree_bulk_load isort_by malloc_ok kdtree_init points)))) = mset points"
    "kdtree_is_balanced (snd (kdtree_bulk_load isort_by malloc_ok kdtree_init points))"
    using bulk_load_balanced [where points = points and t = kdtree_init, OF isort_by_contract] by blast+
  have "kt_size (snd (kdtree_bulk_load isort_by malloc_ok kdtree_init points)) = 7"
    using b(2) mset_eq_length [OF b(3)] len by (simp add: kdtree_inv_def)
  then show ?thesis using b(1,4) unfolding test_kdtree_bulk_load_def points_def [symmetric] by (auto split: prod.split)
qed

lemma test_kdtree_nearest: test_kdtree_nearest
  by (simp add: test_kdtree_nearest_def kd_of_def five_def kdtree_code test_simps geometry_code dyadic fits_def)

lemma test_kdtree_range_query: test_kdtree_range_query
  by (simp add: test_kdtree_range_query_def kd_of_def five_def kdtree_code test_simps geometry_code dyadic fits_def)

lemma test_kdtree_radius_query: test_kdtree_radius_query
  by (simp add: test_kdtree_radius_query_def kd_of_def five_def kdtree_code test_simps geometry_code dyadic fits_def)

lemma test_kdtree_k_nearest: test_kdtree_k_nearest
  by (simp add: test_kdtree_k_nearest_def kd_of_def five_def kdtree_code test_simps geometry_code dyadic fits_def)

lemma test_kdtree_depth: test_kdtree_depth
  by (simp add: test_kdtree_depth_def kd_of_def five_def kdtree_code test_simps geometry_code dyadic fits_def)

lemma test_kdresult_operations: test_kdresult_operations
  by (simp add: test_kdresult_operations_def kd_of_def five_def kdtree_code test_simps geometry_code dyadic fits_def)

subsection \<open>test_quadtree.c\<close>

lemmas quadtree_code =
  QT_DEFAULT_CAPACITY_def QT_MAX_DEPTH_def sizeof_QTNode_def sizeof_QTItem_def sizeof_QuadTree_def
  qtresult_init_def qtresult_free_def qtresult_clear_def qtresult_add_def qtnode_create_def qt_mid_x_def
  qt_mid_y_def qtnode_get_quadrant_def qtnode_quadrant_bounds_def put_if_def with_items_def qtnode_split_def
  qtnode_append_def or_else_def quadtree_init_def quadtree_create_def quadtree_free_def
  quadtree_insert_with_centroid_def quadtree_insert_def quadtree_remove_def quadtree_query_range_def
  quadtree_query_point_def mbr_adjacent_or_intersects_def expand_region_def quadtree_find_adjacent_to_region_def
  quadtree_find_adjacent_def quadtree_query_radius_def quadtree_get_def quadtree_update_def quadtree_get_all_def
  quadtree_stats_def quadtree_clear_def quadrant_rect.simps redistribute.simps qt_height.simps qtnode_insert.simps
  add_items.simps qtnode_query_range.simps qtnode_query_point.simps qtnode_find.simps qtnode_remove.simps
  qtnode_collect_all.simps qtnode_count.simps

lemma test_quadtree_create: test_quadtree_create
  by (simp add: test_quadtree_create_def qt_of_def qt_result_def quadtree_code test_simps geometry_code dyadic fits_def)

lemma test_quadtree_insert: test_quadtree_insert
  by (simp add: test_quadtree_insert_def qt_of_def qt_result_def quadtree_code test_simps geometry_code dyadic fits_def)

lemma test_quadtree_query_range: test_quadtree_query_range
  by (simp add: test_quadtree_query_range_def qt_of_def qt_result_def quadtree_code test_simps geometry_code dyadic fits_def)

lemma test_quadtree_query_point: test_quadtree_query_point
  by (simp add: test_quadtree_query_point_def qt_of_def qt_result_def quadtree_code test_simps geometry_code dyadic fits_def)

lemma test_quadtree_remove: test_quadtree_remove
  by (simp add: test_quadtree_remove_def qt_of_def qt_result_def quadtree_code test_simps geometry_code dyadic fits_def)

lemma test_quadtree_get: test_quadtree_get
  by (simp add: test_quadtree_get_def qt_of_def qt_result_def quadtree_code test_simps geometry_code dyadic fits_def)

lemma test_quadtree_clear: test_quadtree_clear
  by (simp add: test_quadtree_clear_def qt_of_def qt_result_def quadtree_code test_simps geometry_code dyadic fits_def)

lemma test_qtresult_operations: test_qtresult_operations
  by (simp add: test_qtresult_operations_def qt_of_def qt_result_def quadtree_code test_simps geometry_code dyadic fits_def)

end
